(* ===== verification/Prelude.thy ===== *)
theory Prelude
  imports Main "HOL-Library.Word"
begin

text \<open>
  Shared vocabulary of the development.

  \<^item> The fixed-width types of the Go sources: \<open>u8\<close>, \<open>u32\<close> and \<open>u64\<close> are machine
    words, \<open>h256\<close> is a \<open>common.Hash\<close> / \<open>[32]byte\<close> and \<open>address\<close> a
    \<open>common.Address\<close> / \<open>[20]byte\<close>, both read as one big-endian word.
  \<^item> \<open>error\<close>, the error values the services return: the sentinels of
    \<^verbatim>\<open>utils/gerror/error.go\<close>, the failures a SQL statement can have, a Go run-time panic, a call that
    does not return, and \<open>ErrMsg\<close> for an error built on the spot with \<^verbatim>\<open>fmt.Errorf\<close> (its fixed text).
    A call that returns \<^verbatim>\<open>(x, err)\<close> has the result type \<^typ>\<open>'e + 'a\<close>.
  \<^item> \<open>be_bytes\<close>, the big-endian byte string of a word, and its decoding.
  \<^item> Generic lemmas on bits, halves of indices, lists with an explicit out-of-range
    panic, and the relational-query helpers the storage model is written with.
\<close>

unbundle bit_operations_syntax

section \<open>Types\<close>

type_synonym u8 = "8 word"
type_synonym u32 = "32 word"
type_synonym u64 = "64 word"
type_synonym h256 = "256 word"
type_synonym address = "160 word"
type_synonym bytes = "8 word list"

text \<open>The Keccak-256 function is third-party code: every definition that hashes takes it
  as an argument.\<close>

type_synonym keccak = "8 word list \<Rightarrow> 256 word"

datatype error =
    ErrStorageNotFound
  | ErrNoRows
  | ErrStorageNotRegister
  | ErrNilDBTransaction
  | ErrNetworkNotRegister
  | ErrDepositNotSynced
  | ErrL1GERNotFound
  | ErrIO
  | ErrTxClosed
  | ErrTxAborted
  | ErrForeignKey
  | ErrUnique
  | ErrNoReturn
  | GoPanic
  | ErrMsg string

type_synonym 'a result = "error + 'a"

named_theorems word_nat "reading word operations as natural numbers"

section \<open>Lists with Go's bounds checks\<close>

text \<open>\<open>xs[i]\<close>: an index out of range is a run-time panic.\<close>

definition idx :: "'a list \<Rightarrow> nat \<Rightarrow> 'a result" where
  "idx xs i = (if i < length xs then Inr (xs ! i) else Inl GoPanic)"

definition upd :: "'a list \<Rightarrow> nat \<Rightarrow> 'a \<Rightarrow> ('a list) result" where
  "upd xs i v = (if i < length xs then Inr (xs[i := v]) else Inl GoPanic)"

fun is_ok :: "'a result \<Rightarrow> bool" where
  "is_ok (Inr _) = True"
| "is_ok (Inl _) = False"

section \<open>Bytes\<close>

text \<open>The \<open>n\<close> low bytes of a word, most significant first
  (\<^verbatim>\<open>binary.BigEndian.PutUint32\<close>, \<^verbatim>\<open>Hash.Bytes\<close>, \<^verbatim>\<open>Address.Bytes\<close>).\<close>

fun be_bytes :: "nat \<Rightarrow> 'a::len word \<Rightarrow> bytes" where
  "be_bytes 0 w = []"
| "be_bytes (Suc n) w = be_bytes n (drop_bit 8 w) @ [ucast w]"

definition be_value :: "bytes \<Rightarrow> nat" where
  "be_value bs = foldl (\<lambda>a b. a * 256 + unat b) 0 bs"

lemma length_be_bytes [simp]: "length (be_bytes n w) = n"
  by (induction n arbitrary: w) auto

lemma be_value_Nil [simp]: "be_value [] = 0"
  by (simp add: be_value_def)

lemma be_value_snoc [simp]: "be_value (bs @ [b]) = be_value bs * 256 + unat b"
  by (simp add: be_value_def)

lemma be_value_bound: "be_value bs < 256 ^ length bs"
proof (induction bs rule: rev_induct)
  case (snoc b bs)
  have "unat b < 256" using unsigned_less [of b] by simp
  with snoc show ?case by simp
qed simp

lemma be_value_be_bytes:
  fixes w :: "'a::len word"
  shows "be_value (be_bytes n w) = unat w mod 256 ^ n"
proof (induction n arbitrary: w)
  case (Suc n)
  have u: "unat (ucast w :: u8) = unat w mod 256"
    by (simp add: unsigned_ucast_eq take_bit_eq_mod)
  have d: "unat (drop_bit 8 w) = unat w div 256"
    unfolding unat_drop_bit_eq by (simp add: drop_bit_eq_div)
  show ?case
    by (simp add: Suc u d mod_mult2_eq mult.commute)
qed simp

lemma be_bytes_inj:
  fixes v w :: "'a::len word"
  assumes "be_bytes n v = be_bytes n w" and "LENGTH('a) \<le> 8 * n"
  shows "v = w"
proof -
  have "(2::nat) ^ LENGTH('a) \<le> 2 ^ (8 * n)" using assms(2) by (rule power_increasing) simp
  hence le: "(2::nat) ^ LENGTH('a) \<le> 256 ^ n" by (simp add: power_mult)
  have lt: "unat x < 256 ^ n" for x :: "'a word"
    using unsigned_less [of x] le by (metis less_le_trans)
  have "be_value (be_bytes n v) = be_value (be_bytes n w)" using assms(1) by simp
  hence "unat v = unat w" by (simp add: be_value_be_bytes lt)
  thus ?thesis by (simp only: word_unat_eq_iff)
qed

section \<open>Bits and halves\<close>

text \<open>Go's \<^verbatim>\<open>x&(1<<h) > 0\<close>: the shifted one is an untyped constant of the type of \<open>x\<close>,
  so a shift by the width or more gives 0.\<close>

definition bit_at :: "'a::len word \<Rightarrow> nat \<Rightarrow> bool" where
  "bit_at x h = (x AND push_bit h 1 > 0)"

lemma bit_at_iff: "bit_at x h = bit x h"
proof -
  have "(x AND push_bit h 1) = 0 \<longleftrightarrow> \<not> bit x h"
    by (auto simp: bit_and_iff bit_exp_iff dest: bit_imp_le_length intro!: bit_word_eqI)
       (metis bit_and_iff bit_exp_iff bit_0_eq bot_apply bit_imp_possible_bit bot_bool_def)
  thus ?thesis unfolding bit_at_def word_gt_0 by auto
qed

lemma bit_unat: "bit x h = odd (unat (x::'a::len word) div 2 ^ h)"
proof -
  have "bit (unat x) h = bit x h"
    using bit_imp_le_length [of x h] by (auto simp: bit_unsigned_iff)
  thus ?thesis by (simp add: bit_iff_odd)
qed

lemma bit_at_unat [word_nat]: "bit_at x h = odd (unat (x::'a::len word) div 2 ^ h)"
  by (simp add: bit_at_iff bit_unat)

lemma unat_less: "unat (x::'a::len word) < 2 ^ LENGTH('a)"
  by (rule unsigned_less)

lemma div_Suc_pow: "(n::nat) div 2 ^ Suc h = n div 2 ^ h div 2"
  by (metis div_mult2_eq mult.commute power_Suc)

lemma odd_half: "odd (n::nat) \<Longrightarrow> 2 * (n div 2) + 1 = n"
  by simp

lemma even_half: "even (n::nat) \<Longrightarrow> 2 * (n div 2) = n"
  by simp

end
