(* ===== verification/Ether_Types.thy ===== *)
theory Ether_Types
  imports Prelude
begin

text \<open>
  The data types of \<^verbatim>\<open>etherman/types.go\<close>, one record per struct with the fields in the
  order of the source and a short prefix per struct.  \<^verbatim>\<open>*big.Int\<close> values are integers; the
  field \<^verbatim>\<open>Claim.GlobalIndex\<close>, which holds the decimal rendering of such a value and is only ever
  compared, is the integer itself, and \<open>None\<close> for the empty string of the old claim events.
\<close>

record GlobalExitRoot =
  ger_BlockID :: u64
  ger_BlockNumber :: u64
  ger_ExitRoots :: "h256 list"
  ger_GlobalExitRoot :: h256
  ger_NetworkID :: u32
  ger_ID :: u64

record Deposit =
  dep_Id :: u64
  dep_LeafType :: u8
  dep_OriginalNetwork :: u32
  dep_OriginalAddress :: address
  dep_Amount :: int
  dep_DestinationNetwork :: u32
  dep_DestinationAddress :: address
  dep_DepositCount :: u32
  dep_BlockID :: u64
  dep_BlockNumber :: u64
  dep_NetworkID :: u32
  dep_TxHash :: h256
  dep_Metadata :: bytes
  dep_ReadyForClaim :: bool

record Claim =
  clm_MainnetFlag :: bool
  clm_RollupIndex :: u32
  clm_Index :: u32
  clm_OriginalNetwork :: u32
  clm_OriginalAddress :: address
  clm_Amount :: int
  clm_DestinationAddress :: address
  clm_BlockID :: u64
  clm_BlockNumber :: u64
  clm_NetworkID :: u32
  clm_TxHash :: h256
  clm_GlobalIndex :: "int option"

record TokenMetadata =
  tm_Name :: string
  tm_Symbol :: string
  tm_Decimals :: u8

record TokenWrapped =
  tok_TokenMetadata :: TokenMetadata
  tok_OriginalNetwork :: u32
  tok_OriginalTokenAddress :: address
  tok_WrappedTokenAddress :: address
  tok_BlockID :: u64
  tok_BlockNumber :: u64
  tok_NetworkID :: u32

record VerifiedBatch =
  vb_BlockNumber :: u64
  vb_BatchNumber :: u64
  vb_RollupID :: u32
  vb_LocalExitRoot :: h256
  vb_TxHash :: h256
  vb_StateRoot :: h256
  vb_Aggregator :: address

record RollupExitLeaf =
  rel_ID :: u64
  rel_BlockID :: u64
  rel_Leaf :: h256
  rel_RollupId :: u32
  rel_Root :: h256

record SyncStatus =
  sst_NetworkID :: u32
  sst_Percentage :: u32
  sst_RemainingBlocks :: u64
  sst_Synced :: bool

record UnsetClaim =
  uc_BlockID :: u64
  uc_MainnetFlag :: bool
  uc_RollupIndex :: u32
  uc_Index :: u32
  uc_GlobalIndex :: int

record SetClaim =
  sc_BlockID :: u64
  sc_MainnetFlag :: bool
  sc_RollupIndex :: u32
  sc_Index :: u32
  sc_GlobalIndex :: int
  sc_TxHash :: h256

record BackwardLET =
  bl_BlockID :: u64
  bl_PreviousDepositCount :: u32
  bl_PreviousRoot :: h256
  bl_NewDepositCount :: u32
  bl_NewRoot :: h256

record LeafData =
  ld_LeafType :: u8
  ld_OriginNetwork :: u32
  ld_OriginAddress :: address
  ld_DestinationNetwork :: u32
  ld_DestinationAddress :: address
  ld_Amount :: int
  ld_Metadata :: bytes

record ForwardLET =
  fl_BlockID :: u64
  fl_PreviousDepositCount :: u32
  fl_PreviousRoot :: h256
  fl_NewDepositCount :: u32
  fl_NewRoot :: h256
  fl_NewRawLeaves :: bytes
  fl_NewLeaves :: "LeafData list"
  fl_TxHash :: h256

record Block =
  blk_ID :: u64
  blk_BlockNumber :: u64
  blk_BlockHash :: h256
  blk_NetworkID :: u32
  blk_GlobalExitRoots :: "GlobalExitRoot list"
  blk_RemoveL2GER :: "GlobalExitRoot list"
  blk_Deposits :: "Deposit list"
  blk_Claims :: "Claim list"
  blk_Tokens :: "TokenWrapped list"
  blk_VerifiedBatches :: "VerifiedBatch list"
  blk_UnsetClaims :: "UnsetClaim list"
  blk_SetClaims :: "SetClaim list"
  blk_BackwardLETs :: "BackwardLET list"
  blk_ForwardLETs :: "ForwardLET list"

end
