(* ===== verification/Hashing.thy ===== *)
theory Hashing
  imports Ether_Types
begin

text \<open>
  \<^verbatim>\<open>bridgectrl/hash.go\<close>: the hash of a Merkle node, the precomputed hashes of empty subtrees
  and the leaf of a deposit.  The Keccak function is the parameter \<open>K\<close> of every definition.
  The lemmas describe the table of empty-subtree hashes and show that the byte string hashed for
  a deposit determines every hashed field.
\<close>

section \<open>Definitions\<close>

definition Hash :: "keccak \<Rightarrow> h256 list \<Rightarrow> h256" where
  "Hash K data = K (concat (map (be_bytes 32) data))"

definition HashZero :: h256 where
  "HashZero = 0"

fun generateZeroHashes :: "keccak \<Rightarrow> nat \<Rightarrow> h256 list" where
  "generateZeroHashes K 0 = [HashZero]"
| "generateZeroHashes K (Suc i) =
     (let zs = generateZeroHashes K i in zs @ [Hash K [zs ! i, zs ! i]])"

text \<open>The package variable \<^verbatim>\<open>zeroHashes\<close>, set by \<^verbatim>\<open>init()\<close>.\<close>

definition zeroHashes :: "keccak \<Rightarrow> h256 list" where
  "zeroHashes K = generateZeroHashes K 64"

text \<open>\<^verbatim>\<open>x.FillBytes(buf)\<close> with a 32-byte buffer: the absolute value, big-endian; a value that
  does not fit is a panic.\<close>

definition FillBytes32 :: "int \<Rightarrow> bytes result" where
  "FillBytes32 x =
     (if \<bar>x\<bar> < 2 ^ 256 then Inr (be_bytes 32 (of_int \<bar>x\<bar> :: h256)) else Inl GoPanic)"

text \<open>The bytes that are hashed for a deposit, and the leaf.\<close>

definition deposit_preimage :: "keccak \<Rightarrow> Deposit \<Rightarrow> bytes result" where
  "deposit_preimage K d =
     (case FillBytes32 (dep_Amount d) of
        Inl e \<Rightarrow> Inl e
      | Inr amount \<Rightarrow>
          Inr ([dep_LeafType d] @ be_bytes 4 (dep_OriginalNetwork d) @
               be_bytes 20 (dep_OriginalAddress d) @ be_bytes 4 (dep_DestinationNetwork d) @
               be_bytes 20 (dep_DestinationAddress d) @ amount @
               be_bytes 32 (K (dep_Metadata d))))"

definition HashDeposit :: "keccak \<Rightarrow> Deposit \<Rightarrow> h256 result" where
  "HashDeposit K d =
     (case deposit_preimage K d of Inl e \<Rightarrow> Inl e | Inr bs \<Rightarrow> Inr (K bs))"

section \<open>Hashes of empty subtrees\<close>

text \<open>The reference: the hash of an empty subtree of a given height.\<close>

fun zero_hash :: "keccak \<Rightarrow> nat \<Rightarrow> h256" where
  "zero_hash K 0 = HashZero"
| "zero_hash K (Suc h) = Hash K [zero_hash K h, zero_hash K h]"

lemma length_generateZeroHashes [simp]: "length (generateZeroHashes K n) = Suc n"
  by (induction n) (auto simp: Let_def)

lemma nth_generateZeroHashes: "h \<le> n \<Longrightarrow> generateZeroHashes K n ! h = zero_hash K h"
  by (induction n arbitrary: h) (auto simp: Let_def nth_append le_Suc_eq)

lemma length_zeroHashes [simp]: "length (zeroHashes K) = 65"
  by (simp add: zeroHashes_def)

lemma idx_zeroHashes: "idx (zeroHashes K) h = (if h \<le> 64 then Inr (zero_hash K h) else Inl GoPanic)"
  by (simp add: idx_def zeroHashes_def nth_generateZeroHashes)

lemma zero_hash_in_zeroHashes: "h \<le> 64 \<Longrightarrow> zero_hash K h \<in> set (zeroHashes K)"
  by (metis le_imp_less_Suc length_generateZeroHashes nth_generateZeroHashes nth_mem zeroHashes_def)

section \<open>Collisions\<close>

text \<open>Two different inputs of one hash: what a forged proof or a forged deposit yields.\<close>

definition collision :: "keccak \<Rightarrow> bytes \<Rightarrow> bytes \<Rightarrow> bool" where
  "collision K x y \<longleftrightarrow> x \<noteq> y \<and> K x = K y"

lemma node_bytes_inj:
  "concat (map (be_bytes 32) [a, b]) = concat (map (be_bytes 32) [c, d :: h256]) \<longleftrightarrow> a = c \<and> b = d"
  by (auto dest: be_bytes_inj)

lemma Hash_pair_eq:
  assumes "Hash K [a, b] = Hash K [c, d]"
  shows "(a = c \<and> b = d) \<or> collision K (be_bytes 32 a @ be_bytes 32 b) (be_bytes 32 c @ be_bytes 32 d)"
  using assms node_bytes_inj [of a b c d] by (auto simp: Hash_def collision_def)

section \<open>The leaf of a deposit\<close>

text \<open>The fields of a deposit that its leaf commits to.\<close>

definition leaf_fields :: "Deposit \<Rightarrow> u8 \<times> u32 \<times> address \<times> u32 \<times> address \<times> int \<times> bytes" where
  "leaf_fields d = (dep_LeafType d, dep_OriginalNetwork d, dep_OriginalAddress d,
     dep_DestinationNetwork d, dep_DestinationAddress d, \<bar>dep_Amount d\<bar>, dep_Metadata d)"

lemma FillBytes32_inj:
  assumes "FillBytes32 x = Inr bs" and "FillBytes32 y = Inr bs"
  shows "\<bar>x\<bar> = \<bar>y\<bar>"
proof -
  from assms have le: "\<bar>x\<bar> < 2 ^ 256" "\<bar>y\<bar> < 2 ^ 256"
    and eq: "be_bytes 32 (of_int \<bar>x\<bar> :: h256) = be_bytes 32 (of_int \<bar>y\<bar> :: h256)"
    by (auto simp: FillBytes32_def split: if_splits)
  from eq have "(of_int \<bar>x\<bar> :: h256) = of_int \<bar>y\<bar>" by (rule be_bytes_inj) simp
  hence "uint (of_int \<bar>x\<bar> :: h256) = uint (of_int \<bar>y\<bar> :: h256)" by simp
  with le show ?thesis by (simp add: word_of_int_inverse uint_word_of_int)
qed

lemma length_FillBytes32: "FillBytes32 x = Inr bs \<Longrightarrow> length bs = 32"
  by (auto simp: FillBytes32_def split: if_splits)

lemma deposit_preimage_inj:
  assumes "deposit_preimage K c = Inr bs" and "deposit_preimage K d = Inr bs"
  shows "leaf_fields c = leaf_fields d \<or> collision K (dep_Metadata c) (dep_Metadata d)"
proof -
  from assms obtain x y where x: "FillBytes32 (dep_Amount c) = Inr x"
    and y: "FillBytes32 (dep_Amount d) = Inr y"
    by (auto simp: deposit_preimage_def split: sum.splits)
  note len = length_FillBytes32 [OF x] length_FillBytes32 [OF y]
  from assms have "deposit_preimage K c = deposit_preimage K d" by simp
  with x y len have
    "dep_LeafType c = dep_LeafType d"
    "be_bytes 4 (dep_OriginalNetwork c) = be_bytes 4 (dep_OriginalNetwork d)"
    "be_bytes 20 (dep_OriginalAddress c) = be_bytes 20 (dep_OriginalAddress d)"
    "be_bytes 4 (dep_DestinationNetwork c) = be_bytes 4 (dep_DestinationNetwork d)"
    "be_bytes 20 (dep_DestinationAddress c) = be_bytes 20 (dep_DestinationAddress d)"
    "x = y" "be_bytes 32 (K (dep_Metadata c)) = be_bytes 32 (K (dep_Metadata d))"
    by (simp_all add: deposit_preimage_def)
  moreover have "\<bar>dep_Amount c\<bar> = \<bar>dep_Amount d\<bar>"
    using FillBytes32_inj x y \<open>x = y\<close> by blast
  ultimately show ?thesis
    by (auto simp: leaf_fields_def collision_def dest!: be_bytes_inj)
qed

text \<open>Two deposits with one leaf agree on every field the leaf commits to, or they show a collision:
  of their metadata or of the byte strings hashed for them.\<close>

lemma HashDeposit_eq:
  assumes "HashDeposit K c = Inr h" and "HashDeposit K d = Inr h"
  shows "leaf_fields c = leaf_fields d \<or> collision K (dep_Metadata c) (dep_Metadata d) \<or>
    (\<exists>x y. deposit_preimage K c = Inr x \<and> deposit_preimage K d = Inr y \<and> collision K x y)"
proof -
  from assms obtain b b' where b: "deposit_preimage K c = Inr b" "deposit_preimage K d = Inr b'"
    and "K b = K b'"
    by (auto simp: HashDeposit_def split: sum.splits)
  show ?thesis
  proof (cases "b = b'")
    case True
    thus ?thesis using b deposit_preimage_inj by blast
  next
    case False
    with b \<open>K b = K b'\<close> show ?thesis by (auto simp: collision_def)
  qed
qed

section \<open>Properties\<close>

text \<open>C9. A leaf hash binds the deposit: two deposits with the same leaf hash agree on the leaf type, the
  networks, the addresses, the amount and the metadata, or one of two named pairs of byte strings (their
  metadata, their encoded leaves) is a collision of the hash function.\<close>

theorem HashDeposit_binding:
  assumes "HashDeposit K c = Inr h" and "HashDeposit K d = Inr h"
  shows "leaf_fields c = leaf_fields d \<or> collision K (dep_Metadata c) (dep_Metadata d) \<or>
    (\<exists>x y. deposit_preimage K c = Inr x \<and> deposit_preimage K d = Inr y \<and> collision K x y)"
  using assms by (rule HashDeposit_eq)

definition sample_deposit :: Deposit where
  "sample_deposit = \<lparr>dep_Id = 1, dep_LeafType = 0, dep_OriginalNetwork = 0, dep_OriginalAddress = 5, dep_Amount = 10,
     dep_DestinationNetwork = 1, dep_DestinationAddress = 6, dep_DepositCount = 0, dep_BlockID = 1, dep_BlockNumber = 2,
     dep_NetworkID = 0, dep_TxHash = 0, dep_Metadata = [], dep_ReadyForClaim = False\<rparr>"

theorem HashDeposit_binding_witness:
  "HashDeposit (\<lambda>_. 9) sample_deposit = Inr 9 \<and> HashDeposit (\<lambda>_. 9) (sample_deposit\<lparr>dep_Id := 2\<rparr>) = Inr 9 \<and>
   (leaf_fields sample_deposit = leaf_fields (sample_deposit\<lparr>dep_Id := 2\<rparr>) \<or>
    collision (\<lambda>_. 9) (dep_Metadata sample_deposit) (dep_Metadata (sample_deposit\<lparr>dep_Id := 2\<rparr>)) \<or>
    (\<exists>x y. deposit_preimage (\<lambda>_. 9) sample_deposit = Inr x \<and>
       deposit_preimage (\<lambda>_. 9) (sample_deposit\<lparr>dep_Id := 2\<rparr>) = Inr y \<and> collision (\<lambda>_. 9) x y))"
proof -
  have a: "HashDeposit (\<lambda>_. 9) sample_deposit = Inr 9"
    by (simp add: HashDeposit_def deposit_preimage_def FillBytes32_def sample_deposit_def)
  have b: "HashDeposit (\<lambda>_. 9) (sample_deposit\<lparr>dep_Id := 2\<rparr>) = Inr 9"
    by (simp add: HashDeposit_def deposit_preimage_def FillBytes32_def sample_deposit_def)
  show ?thesis using a b HashDeposit_binding [OF a b] by blast
qed

text \<open>The table of zero hashes has 65 entries, entry \<open>h\<close> is the root of the tree of height \<open>h\<close> with
  empty leaves, and reading past the last entry is a run-time panic.\<close>

theorem zeroHashes_spec:
  "length (zeroHashes K) = 65 \<and> idx (zeroHashes K) 0 = Inr HashZero \<and>
   (\<forall>h. idx (zeroHashes K) h = (if h \<le> 64 then Inr (zero_hash K h) else Inl GoPanic))"
  by (simp add: idx_zeroHashes)

end
