(* ===== verification/Merkle_Spec.thy ===== *)
theory Merkle_Spec
  imports Hashing
begin

text \<open>
  The reference for the exit trees: \<open>node K ls h q\<close> is the hash at height \<open>h\<close> and position \<open>q\<close> of
  the complete binary tree over the leaves \<open>ls\<close>, padded with \<open>HashZero\<close>, and \<open>tree_root\<close> the hash at
  the top.  \<open>sib_ok\<close> says which subtrees an incremental tree has to remember, \<open>tree_ok\<close> what a store
  holds after every leaf of a list was added to it.  The lemmas are about this tree alone: a node
  depends only on the leaves below it, empty subtrees have the precomputed hashes, what one more
  leaf changes, and that the path of every leaf below every earlier root is stored.
\<close>

text \<open>The row of an inner node: its hash and those of its children.\<close>

type_synonym node_row = "h256 \<times> h256 \<times> h256"

section \<open>The reference tree\<close>

definition leaf_at :: "h256 list \<Rightarrow> nat \<Rightarrow> h256" where
  "leaf_at ls i = (if i < length ls then ls ! i else HashZero)"

fun node :: "keccak \<Rightarrow> h256 list \<Rightarrow> nat \<Rightarrow> nat \<Rightarrow> h256" where
  "node K ls 0 q = leaf_at ls q"
| "node K ls (Suc h) q = Hash K [node K ls h (2 * q), node K ls h (2 * q + 1)]"

definition tree_root :: "keccak \<Rightarrow> nat \<Rightarrow> h256 list \<Rightarrow> h256" where
  "tree_root K H ls = node K ls H 0"

lemma node_cong:
  assumes "\<And>i. q * 2 ^ h \<le> i \<Longrightarrow> i < Suc q * 2 ^ h \<Longrightarrow> leaf_at ls i = leaf_at ls' i"
  shows "node K ls h q = node K ls' h q"
  using assms
proof (induction h arbitrary: q)
  case (Suc h)
  have "node K ls h (2 * q) = node K ls' h (2 * q)"
    by (rule Suc.IH, rule Suc.prems) (auto simp: algebra_simps)
  moreover have "node K ls h (2 * q + 1) = node K ls' h (2 * q + 1)"
    by (rule Suc.IH, rule Suc.prems) (auto simp: algebra_simps)
  ultimately show ?case by simp
qed simp

lemma node_empty: "length ls \<le> q * 2 ^ h \<Longrightarrow> node K ls h q = zero_hash K h"
proof (induction h arbitrary: q)
  case (Suc h)
  have "length ls \<le> 2 * q * 2 ^ h" "length ls \<le> (2 * q + 1) * 2 ^ h"
    using Suc.prems by (auto simp: algebra_simps)
  thus ?case using Suc.IH by simp
qed (simp add: leaf_at_def)

lemma tree_root_Nil: "tree_root K H [] = zero_hash K H"
  by (simp add: tree_root_def node_empty)

text \<open>A node depends only on the leaves below it.\<close>

lemma node_take:
  assumes "n \<le> length ls" and "min (length ls) (Suc q * 2 ^ h) \<le> n"
  shows "node K (take n ls) h q = node K ls h q"
  by (rule node_cong) (use assms in \<open>auto simp: leaf_at_def\<close>)

lemma node_append:
  assumes "Suc q * 2 ^ h \<le> length ls"
  shows "node K (ls @ ls') h q = node K ls h q"
  by (rule node_cong) (use assms in \<open>auto simp: leaf_at_def nth_append\<close>)

text \<open>The row of the inner node above position \<open>i div 2 ^ h\<close>.\<close>

definition row_at :: "keccak \<Rightarrow> h256 list \<Rightarrow> nat \<Rightarrow> nat \<Rightarrow> node_row" where
  "row_at K ls h q = (node K ls (Suc h) q, node K ls h (2 * q), node K ls h (2 * q + 1))"

text \<open>The rows on the path from leaf \<open>i\<close> to the root.\<close>

definition path_rows :: "keccak \<Rightarrow> nat \<Rightarrow> h256 list \<Rightarrow> nat \<Rightarrow> node_row list" where
  "path_rows K H ls i = map (\<lambda>h. row_at K ls h (i div 2 ^ Suc h)) [0..<H]"

text \<open>The sibling path of leaf \<open>i\<close>, from the leaf up.\<close>

definition sibling_at :: "keccak \<Rightarrow> h256 list \<Rightarrow> nat \<Rightarrow> nat \<Rightarrow> h256" where
  "sibling_at K ls i h =
     (let q = i div 2 ^ h in node K ls h (if odd q then q - 1 else q + 1))"

definition sibling_path :: "keccak \<Rightarrow> nat \<Rightarrow> h256 list \<Rightarrow> nat \<Rightarrow> h256 list" where
  "sibling_path K H ls i = map (sibling_at K ls i) [0..<H]"

lemma length_sibling_path [simp]: "length (sibling_path K H ls i) = H"
  by (simp add: sibling_path_def)

lemma nth_sibling_path [simp]: "h < H \<Longrightarrow> sibling_path K H ls i ! h = sibling_at K ls i h"
  by (simp add: sibling_path_def)

text \<open>One step up the path.\<close>

lemma node_step_odd:
  assumes "odd (i div 2 ^ h)"
  shows "node K ls (Suc h) (i div 2 ^ Suc h) =
           Hash K [node K ls h (2 * (i div 2 ^ Suc h)), node K ls h (i div 2 ^ h)]"
    and "2 * (i div 2 ^ Suc h) = i div 2 ^ h - 1"
    and "sibling_at K ls i h = node K ls h (2 * (i div 2 ^ Suc h))"
proof -
  from assms have q: "i div 2 ^ h = Suc (2 * (i div 2 ^ Suc h))"
    by (simp add: div_Suc_pow del: power_Suc)
  show "2 * (i div 2 ^ Suc h) = i div 2 ^ h - 1" unfolding q by simp
  show "node K ls (Suc h) (i div 2 ^ Suc h) =
           Hash K [node K ls h (2 * (i div 2 ^ Suc h)), node K ls h (i div 2 ^ h)]"
    by (simp only: q node.simps) simp
  show "sibling_at K ls i h = node K ls h (2 * (i div 2 ^ Suc h))"
    by (simp only: sibling_at_def q) simp
qed

lemma node_step_even:
  assumes "even (i div 2 ^ h)"
  shows "node K ls (Suc h) (i div 2 ^ Suc h) =
           Hash K [node K ls h (i div 2 ^ h), node K ls h (2 * (i div 2 ^ Suc h) + 1)]"
    and "2 * (i div 2 ^ Suc h) = i div 2 ^ h"
    and "sibling_at K ls i h = node K ls h (2 * (i div 2 ^ Suc h) + 1)"
proof -
  from assms have q: "i div 2 ^ h = 2 * (i div 2 ^ Suc h)"
    by (simp add: div_Suc_pow del: power_Suc)
  show "2 * (i div 2 ^ Suc h) = i div 2 ^ h" by (simp only: q)
  show "node K ls (Suc h) (i div 2 ^ Suc h) =
           Hash K [node K ls h (i div 2 ^ h), node K ls h (2 * (i div 2 ^ Suc h) + 1)]"
    by (simp only: q node.simps)
  show "sibling_at K ls i h = node K ls h (2 * (i div 2 ^ Suc h) + 1)"
    by (simp only: sibling_at_def q) simp
qed

section \<open>Carry propagation\<close>

definition low_ones :: "nat \<Rightarrow> nat \<Rightarrow> bool" where
  "low_ones n k \<longleftrightarrow> (\<forall>j<k. odd (n div 2 ^ j))"

lemma low_ones_0 [simp]: "low_ones n 0"
  by (simp add: low_ones_def)

lemma low_ones_Suc: "low_ones n (Suc k) \<longleftrightarrow> low_ones n k \<and> odd (n div 2 ^ k)"
  by (auto simp: low_ones_def less_Suc_eq)

lemma Suc_div_pow: "Suc n div 2 ^ k = n div 2 ^ k + of_bool (low_ones n k)"
proof (induction k)
  case (Suc k)
  show ?case
  proof (cases "low_ones n k")
    case True
    thus ?thesis using Suc
      by (cases "odd (n div 2 ^ k)") (auto simp: div_Suc_pow low_ones_Suc simp del: power_Suc)
  next
    case False
    thus ?thesis using Suc by (simp add: div_Suc_pow low_ones_Suc del: power_Suc)
  qed
qed simp

lemma pred_div_pow:
  assumes "odd ((m::nat) div 2 ^ k)"
  shows "(m - 1) div 2 ^ Suc k = m div 2 ^ Suc k"
proof (cases m)
  case (Suc n)
  have "\<not> low_ones n (Suc k)" using assms by (auto simp: Suc Suc_div_pow low_ones_Suc)
  thus ?thesis unfolding Suc Suc_div_pow by simp
qed (use assms in simp)

section \<open>The siblings of the next leaf\<close>

text \<open>The siblings kept in memory for \<open>n\<close> leaves: at every set bit of \<open>n\<close>, the complete subtree to
  the left of the next leaf.\<close>

definition sib_ok :: "keccak \<Rightarrow> nat \<Rightarrow> h256 list \<Rightarrow> h256 list \<Rightarrow> bool" where
  "sib_ok K H ls sibs \<longleftrightarrow> length sibs = H \<and>
     (\<forall>h<H. odd (length ls div 2 ^ h) \<longrightarrow>
        sibs ! h = node K ls h (2 * (length ls div 2 ^ Suc h)))"

lemma left_complete:
  assumes "odd (n div 2 ^ h)"
  shows "Suc (2 * (n div 2 ^ Suc h)) * 2 ^ h \<le> n"
proof -
  have "Suc (2 * (n div 2 ^ Suc h)) = n div 2 ^ h" using node_step_odd(2) [OF assms] assms
    by (metis Suc_pred' odd_pos)
  thus ?thesis by (metis div_times_less_eq_dividend)
qed

lemma sib_ok_append:
  assumes "sib_ok K H ls sibs" and "h < H" and "odd (length ls div 2 ^ h)"
  shows "sibs ! h = node K (ls @ ls') h (2 * (length ls div 2 ^ Suc h))"
  using assms left_complete [OF assms(3)] by (simp add: sib_ok_def node_append)

lemma right_empty:
  assumes "even (length ls div 2 ^ h)"
  shows "node K (ls @ [leaf]) h (2 * (length ls div 2 ^ Suc h) + 1) = zero_hash K h"
proof (rule node_empty)
  have "length ls < (length ls div 2 ^ h + 1) * 2 ^ h"
    by (metis Suc_eq_plus1 dividend_less_div_times mult.commute mult_Suc_right add.commute zero_less_numeral zero_less_power)
  thus "length (ls @ [leaf]) \<le> (2 * (length ls div 2 ^ Suc h) + 1) * 2 ^ h"
    using node_step_even(2) [OF assms] by simp
qed

text \<open>The siblings after the loop has run from level \<open>h\<close>: at the lowest zero bit of the index the
  subtree that the new leaf has completed, elsewhere what they were.\<close>

definition new_sibs :: "keccak \<Rightarrow> h256 list \<Rightarrow> nat \<Rightarrow> nat \<Rightarrow> h256 list \<Rightarrow> h256 list" where
  "new_sibs K ls n h sibs =
     map (\<lambda>k. if h \<le> k \<and> low_ones n k \<and> even (n div 2 ^ k)
              then node K ls k (n div 2 ^ k) else sibs ! k) [0..<length sibs]"

lemma length_new_sibs [simp]: "length (new_sibs K ls n h sibs) = length sibs"
  by (simp add: new_sibs_def)

lemma new_sibs_odd: "odd (n div 2 ^ h) \<Longrightarrow> new_sibs K ls n (Suc h) sibs = new_sibs K ls n h sibs"
  by (auto simp: new_sibs_def Suc_le_eq le_less)

lemma new_sibs_even:
  assumes "even (n div 2 ^ h)" and "h < length sibs"
  shows "new_sibs K ls n (Suc h)
           (if low_ones n h then sibs[h := node K ls h (n div 2 ^ h)] else sibs) =
         new_sibs K ls n h sibs"
  using assms by (auto simp: new_sibs_def Suc_le_eq le_less nth_list_update)

lemma new_sibs_end: "new_sibs K ls n (length sibs) sibs = sibs"
  by (auto simp: new_sibs_def intro!: nth_equalityI)

lemma row_at_odd:
  "odd (n div 2 ^ h) \<Longrightarrow> row_at K ls h (n div 2 ^ Suc h) =
     (node K ls (Suc h) (n div 2 ^ Suc h), node K ls h (2 * (n div 2 ^ Suc h)),
      node K ls h (n div 2 ^ h))"
  using node_step_odd(2) [of n h] odd_pos [of "n div 2 ^ h"] by (simp add: row_at_def del: power_Suc node.simps)

lemma row_at_even:
  "even (n div 2 ^ h) \<Longrightarrow> row_at K ls h (n div 2 ^ Suc h) =
     (node K ls (Suc h) (n div 2 ^ Suc h), node K ls h (n div 2 ^ h),
      node K ls h (2 * (n div 2 ^ Suc h) + 1))"
  using node_step_even(2) [of n h] by (simp add: row_at_def del: power_Suc node.simps)

lemma new_sibs_ok:
  assumes "sib_ok K H ls sibs"
  shows "sib_ok K H (ls @ [leaf]) (new_sibs K (ls @ [leaf]) (length ls) 0 sibs)"
proof -
  have H: "length sibs = H" using assms by (simp add: sib_ok_def)
  have "new_sibs K (ls @ [leaf]) (length ls) 0 sibs ! h =
        node K (ls @ [leaf]) h (2 * (Suc (length ls) div 2 ^ Suc h))"
    if "h < H" and "odd (Suc (length ls) div 2 ^ h)" for h
    using that H sib_ok_append [OF assms, of h "[leaf]"] node_step_even(2) [of "length ls" h]
    by (auto simp: new_sibs_def Suc_div_pow low_ones_Suc simp del: power_Suc split: if_splits)
  thus ?thesis by (simp add: sib_ok_def H del: power_Suc)
qed

section \<open>What the store holds\<close>

text \<open>After every leaf \<open>i\<close> the rows of its path and the root at that time are stored.\<close>

definition tree_ok :: "keccak \<Rightarrow> nat \<Rightarrow> u32 \<Rightarrow> h256 list \<Rightarrow> node_row set \<Rightarrow> (u32 \<times> u32 \<times> h256) set \<Rightarrow> bool" where
  "tree_ok K H net ls N R \<longleftrightarrow>
     (\<forall>i<length ls. set (path_rows K H (take (Suc i) ls) i) \<subseteq> N \<and>
        (net, of_nat i, tree_root K H (take (Suc i) ls)) \<in> R)"

text \<open>No two stored nodes with the same hash.\<close>

definition no_clash :: "node_row set \<Rightarrow> bool" where
  "no_clash N \<longleftrightarrow> (\<forall>x\<in>N. \<forall>y\<in>N. fst x = fst y \<longrightarrow> x = y)"

definition one_root :: "u32 \<Rightarrow> (u32 \<times> u32 \<times> h256) set \<Rightarrow> bool" where
  "one_root net R \<longleftrightarrow> (\<forall>c r r'. (net, c, r) \<in> R \<longrightarrow> (net, c, r') \<in> R \<longrightarrow> r = r')"

lemma no_clashD: "no_clash N \<Longrightarrow> (k, l, r) \<in> N \<Longrightarrow> (k, l', r') \<in> N \<Longrightarrow> l = l' \<and> r = r'"
  by (fastforce simp: no_clash_def)

lemma tree_ok_mono: "tree_ok K H net ls N R \<Longrightarrow> N \<subseteq> N' \<Longrightarrow> R \<subseteq> R' \<Longrightarrow> tree_ok K H net ls N' R'"
  by (auto simp: tree_ok_def)

lemma tree_ok_Nil [simp]: "tree_ok K H net [] N R"
  by (simp add: tree_ok_def)

lemma tree_ok_take: "tree_ok K H net ls N R \<Longrightarrow> tree_ok K H net (take m ls) N R"
  by (auto simp: tree_ok_def min_def)

lemma tree_ok_snoc:
  assumes "tree_ok K H net ls N R" and "set (path_rows K H (ls @ [leaf]) (length ls)) \<subseteq> N"
    and "(net, of_nat (length ls), tree_root K H (ls @ [leaf])) \<in> R"
  shows "tree_ok K H net (ls @ [leaf]) N R"
  using assms by (auto simp: tree_ok_def less_Suc_eq)

lemma row_at_take:
  assumes "n \<le> length ls" and "min (length ls) (Suc q * 2 ^ Suc h) \<le> n"
  shows "row_at K (take n ls) h q = row_at K ls h q"
proof -
  have "Suc (2 * q) * 2 ^ h \<le> Suc q * 2 ^ Suc h" "Suc (2 * q + 1) * 2 ^ h \<le> Suc q * 2 ^ Suc h"
    by (auto simp: algebra_simps)
  thus ?thesis using assms by (simp add: row_at_def node_take del: node.simps power_Suc)
qed

text \<open>The path of any leaf below any earlier root is stored too.\<close>

lemma path_rows_stored:
  assumes ok: "tree_ok K H net ls N R" and m: "m \<le> length ls" and j: "j < m" and h: "h < H"
  shows "row_at K (take m ls) h (j div 2 ^ Suc h) \<in> N"
proof -
  let ?P = "2 ^ Suc h :: nat" and ?q = "j div 2 ^ Suc h"
  define e where "e = min m (Suc ?q * ?P) - 1"
  have bounds: "?q * ?P \<le> j" "j < Suc ?q * ?P"
    using dividend_less_div_times [of ?P j] by (auto simp del: power_Suc)
  have e: "e < m" "?q * ?P \<le> e" "e < Suc ?q * ?P" "min m (Suc ?q * ?P) \<le> Suc e"
    using bounds j unfolding e_def by linarith+
  have q: "e div ?P = ?q" using e(2,3) by (simp add: div_nat_eqI mult.commute del: power_Suc)
  have "take (Suc e) (take m ls) = take (Suc e) ls" using e(1) by (simp add: min_def)
  moreover have "row_at K (take (Suc e) (take m ls)) h ?q = row_at K (take m ls) h ?q"
    by (rule row_at_take) (use e m in auto)
  ultimately have eq: "row_at K (take m ls) h ?q = row_at K (take (Suc e) ls) h ?q" by simp
  have "row_at K (take (Suc e) ls) h ?q \<in> set (path_rows K H (take (Suc e) ls) e)"
    using h by (auto simp: path_rows_def q [symmetric] simp del: power_Suc)
  moreover have "set (path_rows K H (take (Suc e) ls) e) \<subseteq> N"
    using ok e(1) m by (simp add: tree_ok_def)
  ultimately show ?thesis unfolding eq by blast
qed

end
