(* ===== verification/Merkle_Tree.thy ===== *)
theory Merkle_Tree
  imports Merkle_Spec
begin

text \<open>
  \<^verbatim>\<open>bridgectrl/merkletree.go\<close>, the append-only exit tree of one network.

  \<^item> \<open>merkleTreeStore\<close> is the Go interface of the same name: a record of the store's methods.
    A method takes the transaction handle (\<open>NoTx\<close> for nil) and the state of the store and
    returns its result with the new state.
  \<^item> \<open>MerkleTree\<close> is the struct; methods that change it return it updated.
  \<^item> The locale \<open>merkle_store\<close> is the contract the tree relies on; the tree's lemmas are proved in
    it for every store that keeps the contract: adding a leaf stores the root of the longer list and
    keeps the siblings right, and rebuilding the siblings from the store gives the same tree.
\<close>

section \<open>The store interface\<close>

text \<open>The handle \<^verbatim>\<open>dbTx interface{}\<close>: nil, or the open transaction.\<close>

datatype dbTx = NoTx | Tx

text \<open>A row of the reverse hash table: key, the two children, and the deposit that wrote it.\<close>

type_synonym rht_row = "h256 \<times> (h256 \<times> h256) \<times> u64"

text \<open>A row of the rollup exit table: leaf, rollup identifier, root, block.\<close>

type_synonym rollup_row = "h256 \<times> u32 \<times> h256 \<times> u64"

record 'st merkleTreeStore =
  ms_Get :: "h256 \<Rightarrow> dbTx \<Rightarrow> 'st \<Rightarrow> (h256 \<times> h256) result \<times> 'st"
  ms_BulkSet :: "rht_row list \<Rightarrow> dbTx \<Rightarrow> 'st \<Rightarrow> unit result \<times> 'st"
  ms_GetRoot :: "u32 \<Rightarrow> u32 \<Rightarrow> dbTx \<Rightarrow> 'st \<Rightarrow> h256 result \<times> 'st"
  ms_SetRoot :: "h256 \<Rightarrow> u64 \<Rightarrow> u32 \<Rightarrow> dbTx \<Rightarrow> 'st \<Rightarrow> unit result \<times> 'st"
  ms_GetLastDepositCount :: "u32 \<Rightarrow> dbTx \<Rightarrow> 'st \<Rightarrow> u32 result \<times> 'st"
  ms_AddRollupExitLeaves :: "rollup_row list \<Rightarrow> dbTx \<Rightarrow> 'st \<Rightarrow> unit result \<times> 'st"
  ms_GetRollupExitLeavesByRoot :: "h256 \<Rightarrow> dbTx \<Rightarrow> 'st \<Rightarrow> (RollupExitLeaf list) result \<times> 'st"
  ms_GetLatestRollupExitLeaves :: "dbTx \<Rightarrow> 'st \<Rightarrow> (RollupExitLeaf list) result \<times> 'st"
  ms_IsRollupExitRoot :: "h256 \<Rightarrow> dbTx \<Rightarrow> 'st \<Rightarrow> bool result \<times> 'st"

section \<open>The exit tree\<close>

record MerkleTree =
  mt_networkID :: u32
  mt_height :: u8
  mt_count :: u32
  mt_siblings :: "h256 list"

text \<open>\<^verbatim>\<open>for h := int(mt.height - 1); h >= 0; h--\<close>: the subtraction is on \<^verbatim>\<open>uint8\<close>.\<close>

definition levels_down :: "u8 \<Rightarrow> nat list" where
  "levels_down height = rev [0..<Suc (unat (height - 1))]"

text \<open>\<^verbatim>\<open>for h := uint8(0); h < mt.height; h++\<close>\<close>

definition levels_up :: "u8 \<Rightarrow> nat list" where
  "levels_up height = [0..<unat height]"

fun zero_siblings :: "keccak \<Rightarrow> nat list \<Rightarrow> h256 list \<Rightarrow> (h256 list) result" where
  "zero_siblings K [] siblings = Inr siblings"
| "zero_siblings K (h # hs) siblings =
     (case idx (zeroHashes K) h of
        Inl e \<Rightarrow> Inl e
      | Inr left \<Rightarrow> zero_siblings K hs (siblings @ [left]))"

definition getRoot :: "'st merkleTreeStore \<Rightarrow> keccak \<Rightarrow> MerkleTree \<Rightarrow> dbTx \<Rightarrow> 'st \<Rightarrow> h256 result \<times> 'st" where
  "getRoot S K mt tx st =
     (if mt_count mt = 0 then (idx (zeroHashes K) (unat (mt_height mt)), st)
      else ms_GetRoot S (mt_count mt - 1) (mt_networkID mt) tx st)"

text \<open>The descent from the root along the bits of the last index, keeping every left child.\<close>

fun left_walk :: "'st merkleTreeStore \<Rightarrow> dbTx \<Rightarrow> u32 \<Rightarrow> nat list \<Rightarrow> h256 \<Rightarrow> h256 list \<Rightarrow> 'st
    \<Rightarrow> (h256 list) result \<times> 'st" where
  "left_walk S tx index [] cur siblings st = (Inr siblings, st)"
| "left_walk S tx index (h # hs) cur siblings st =
     (case ms_Get S cur tx st of
        (Inl e, st') \<Rightarrow> (Inl (ErrMsg ''height, cur, error''), st')
      | (Inr (l, r), st') \<Rightarrow>
          left_walk S tx index hs (if bit_at index h then r else l) (siblings @ [l]) st')"

definition initSiblings :: "'st merkleTreeStore \<Rightarrow> keccak \<Rightarrow> MerkleTree \<Rightarrow> dbTx \<Rightarrow> 'st
    \<Rightarrow> (h256 list) result \<times> 'st" where
  "initSiblings S K mt tx st =
     (if mt_count mt = 0 then (zero_siblings K (levels_up (mt_height mt)) [], st)
      else case getRoot S K mt tx st of
             (Inl e, st') \<Rightarrow> (Inl e, st')
           | (Inr root, st') \<Rightarrow>
               (case left_walk S tx (mt_count mt - 1) (levels_down (mt_height mt)) root [] st' of
                  (Inl e, st'') \<Rightarrow> (Inl e, st'')
                | (Inr siblings, st'') \<Rightarrow> (Inr (rev siblings), st'')))"

text \<open>The assignment \<^verbatim>\<open>mt.siblings, err = mt.initSiblings(ctx, dbTx)\<close>: on an error the siblings
  become nil.\<close>

definition setSiblings :: "'st merkleTreeStore \<Rightarrow> keccak \<Rightarrow> MerkleTree \<Rightarrow> dbTx \<Rightarrow> 'st
    \<Rightarrow> unit result \<times> MerkleTree \<times> 'st" where
  "setSiblings S K mt tx st =
     (case initSiblings S K mt tx st of
        (Inl e, st') \<Rightarrow> (Inl e, mt\<lparr>mt_siblings := []\<rparr>, st')
      | (Inr siblings, st') \<Rightarrow> (Inr (), mt\<lparr>mt_siblings := siblings\<rparr>, st'))"

text \<open>The number of leaves according to the store: one more than the last deposit count, 0 when
  there is none.\<close>

definition stored_count :: "'st merkleTreeStore \<Rightarrow> u32 \<Rightarrow> 'st \<Rightarrow> u32 result \<times> 'st" where
  "stored_count S networkID st =
     (case ms_GetLastDepositCount S networkID NoTx st of
        (Inl e, st') \<Rightarrow> (if e \<noteq> ErrStorageNotFound then Inl e else Inr 0, st')
      | (Inr depositCnt, st') \<Rightarrow> (Inr (depositCnt + 1), st'))"

definition NewMerkleTree :: "'st merkleTreeStore \<Rightarrow> keccak \<Rightarrow> u8 \<Rightarrow> u32 \<Rightarrow> 'st
    \<Rightarrow> MerkleTree result \<times> 'st" where
  "NewMerkleTree S K height networkID st =
     (case stored_count S networkID st of
        (Inl e, st') \<Rightarrow> (Inl e, st')
      | (Inr depositCnt, st') \<Rightarrow>
          (case setSiblings S K \<lparr>mt_networkID = networkID, mt_height = height,
                                 mt_count = depositCnt, mt_siblings = []\<rparr> NoTx st' of
             (Inl e, mt, st'') \<Rightarrow> (Inl e, st'')
           | (Inr u, mt, st'') \<Rightarrow> (Inr mt, st'')))"

text \<open>The loop of \<^verbatim>\<open>addLeaf\<close>: the running hash, the flag \<^verbatim>\<open>isFilledSubTree\<close>, the siblings and the
  rows to store.\<close>

fun addLeaf_loop :: "keccak \<Rightarrow> u32 \<Rightarrow> nat list \<Rightarrow> h256 \<Rightarrow> bool \<Rightarrow> h256 list \<Rightarrow> node_row list
    \<Rightarrow> (h256 \<times> h256 list \<times> node_row list) result" where
  "addLeaf_loop K index [] cur isFilled siblings leaves = Inr (cur, siblings, leaves)"
| "addLeaf_loop K index (h # hs) cur isFilled siblings leaves =
     (if bit_at index h then
        (case idx siblings h of
           Inl e \<Rightarrow> Inl e
         | Inr s \<Rightarrow>
             let parent = Hash K [s, cur] in
             addLeaf_loop K index hs parent isFilled siblings (leaves @ [(parent, s, cur)]))
      else
        (case (if isFilled then upd siblings h cur else Inr siblings) of
           Inl e \<Rightarrow> Inl e
         | Inr siblings' \<Rightarrow>
             (case idx (zeroHashes K) h of
                Inl e \<Rightarrow> Inl e
              | Inr z \<Rightarrow>
                  let parent = Hash K [cur, z] in
                  addLeaf_loop K index hs parent False siblings' (leaves @ [(parent, cur, z)]))))"

text \<open>The siblings are changed in place before the store is called, so a failing store leaves them
  changed and the count as it was.\<close>

definition addLeaf :: "'st merkleTreeStore \<Rightarrow> keccak \<Rightarrow> MerkleTree \<Rightarrow> u64 \<Rightarrow> h256 \<Rightarrow> u32 \<Rightarrow> dbTx \<Rightarrow> 'st
    \<Rightarrow> unit result \<times> MerkleTree \<times> 'st" where
  "addLeaf S K mt depositID leaf index tx st =
     (if index \<noteq> mt_count mt then (Inl (ErrMsg ''mismatched deposit count''), mt, st)
      else case addLeaf_loop K index (levels_up (mt_height mt)) leaf True (mt_siblings mt) [] of
             Inl e \<Rightarrow> (Inl e, mt, st)
           | Inr (cur, siblings, leaves) \<Rightarrow>
               let mt1 = mt\<lparr>mt_siblings := siblings\<rparr> in
               (case ms_SetRoot S cur depositID (mt_networkID mt) tx st of
                  (Inl e, st1) \<Rightarrow> (Inl e, mt1, st1)
                | (Inr u, st1) \<Rightarrow>
                    (case ms_BulkSet S (map (\<lambda>(p, l, r). (p, (l, r), depositID)) leaves) tx st1 of
                       (Inl e, st2) \<Rightarrow> (Inl e, mt1, st2)
                     | (Inr u', st2) \<Rightarrow> (Inr (), mt1\<lparr>mt_count := mt_count mt + 1\<rparr>, st2))))"

definition resetLeaf :: "'st merkleTreeStore \<Rightarrow> keccak \<Rightarrow> MerkleTree \<Rightarrow> u32 \<Rightarrow> dbTx \<Rightarrow> 'st
    \<Rightarrow> unit result \<times> MerkleTree \<times> 'st" where
  "resetLeaf S K mt depositCount tx st = setSiblings S K (mt\<lparr>mt_count := depositCount\<rparr>) tx st"

definition rollbackMT :: "'st merkleTreeStore \<Rightarrow> keccak \<Rightarrow> MerkleTree \<Rightarrow> u32 \<Rightarrow> dbTx \<Rightarrow> 'st
    \<Rightarrow> unit result \<times> MerkleTree \<times> 'st" where
  "rollbackMT S K mt networkID tx st =
     (case stored_count S networkID st of
        (Inl e, st') \<Rightarrow> (Inl e, mt, st')
      | (Inr depositCnt, st') \<Rightarrow> setSiblings S K (mt\<lparr>mt_count := depositCnt\<rparr>) tx st')"

section \<open>The loop of adding a leaf\<close>

lemma addLeaf_loop_correct:
  assumes n: "unat index = length ls" and H: "length sibs \<le> 65"
    and sibs: "\<And>k. h \<le> k \<Longrightarrow> k < length sibs \<Longrightarrow> odd (length ls div 2 ^ k) \<Longrightarrow>
         sibs ! k = node K (ls @ [leaf]) k (2 * (length ls div 2 ^ Suc k))"
    and h: "h \<le> length sibs"
    and cur: "cur = node K (ls @ [leaf]) h (length ls div 2 ^ h)"
    and filled: "filled = low_ones (length ls) h"
  shows "addLeaf_loop K index [h..<length sibs] cur filled sibs acc =
           Inr (node K (ls @ [leaf]) (length sibs) (length ls div 2 ^ length sibs),
                new_sibs K (ls @ [leaf]) (length ls) h sibs,
                acc @ map (\<lambda>k. row_at K (ls @ [leaf]) k (length ls div 2 ^ Suc k)) [h..<length sibs])"
  using H sibs h cur filled
proof (induction "length sibs - h" arbitrary: h sibs cur filled acc)
  case 0
  thus ?case using new_sibs_end [of K "ls @ [leaf]" "length ls" sibs] by simp
next
  case (Suc d)
  let ?n = "length ls" and ?ls = "ls @ [leaf]"
  let ?up = "node K ?ls (Suc h) (?n div 2 ^ Suc h)" and ?row = "row_at K ?ls h (?n div 2 ^ Suc h)"
  have "h < length sibs" using Suc.hyps(2) by simp
  hence up: "[h..<length sibs] = h # [Suc h..<length sibs]" by (simp add: upt_conv_Cons)
  have idxz: "idx (zeroHashes K) h = Inr (zero_hash K h)"
    using \<open>h < length sibs\<close> Suc.prems(1) by (simp add: idx_zeroHashes)
  show ?case
  proof (cases "odd (?n div 2 ^ h)")
    case True
    have "idx sibs h = Inr (node K ?ls h (2 * (?n div 2 ^ Suc h)))"
      using Suc.prems(2) \<open>h < length sibs\<close> True by (simp add: idx_def del: power_Suc)
    moreover have "addLeaf_loop K index [Suc h..<length sibs] ?up filled sibs (acc @ [?row]) =
        Inr (node K ?ls (length sibs) (?n div 2 ^ length sibs), new_sibs K ?ls ?n (Suc h) sibs,
          (acc @ [?row]) @ map (\<lambda>k. row_at K ?ls k (?n div 2 ^ Suc k)) [Suc h..<length sibs])"
      by (rule Suc.hyps(1)) (use Suc.prems Suc.hyps(2) \<open>h < length sibs\<close> True in
          \<open>simp_all add: low_ones_Suc del: power_Suc node.simps\<close>)
    moreover have "?row = (Hash K [node K ?ls h (2 * (?n div 2 ^ Suc h)), cur],
        node K ?ls h (2 * (?n div 2 ^ Suc h)), cur)"
      "?up = Hash K [node K ?ls h (2 * (?n div 2 ^ Suc h)), cur]"
      by (simp_all only: row_at_odd [OF True] node_step_odd(1) [OF True] Suc.prems(4))
    moreover have "bit_at index h" using True by (simp add: n bit_at_unat)
    ultimately show ?thesis
      using new_sibs_odd [OF True, of K ?ls sibs]
      by (simp add: up Let_def del: power_Suc node.simps)
  next
    case False
    define sibs' where "sibs' = (if low_ones ?n h then sibs[h := cur] else sibs)"
    have sibs': "length sibs' = length sibs" "\<And>k. Suc h \<le> k \<Longrightarrow> sibs' ! k = sibs ! k"
      "(if filled then upd sibs h cur else Inr sibs) = Inr sibs'"
      using Suc.prems(5) \<open>h < length sibs\<close> by (auto simp: sibs'_def upd_def nth_list_update)
    have new: "new_sibs K ?ls ?n (Suc h) sibs' = new_sibs K ?ls ?n h sibs"
      unfolding sibs'_def Suc.prems(4) using False \<open>h < length sibs\<close> by (intro new_sibs_even) simp_all
    have "addLeaf_loop K index [Suc h..<length sibs'] ?up False sibs' (acc @ [?row]) =
        Inr (node K ?ls (length sibs') (?n div 2 ^ length sibs'), new_sibs K ?ls ?n (Suc h) sibs',
          (acc @ [?row]) @ map (\<lambda>k. row_at K ?ls k (?n div 2 ^ Suc k)) [Suc h..<length sibs'])"
      by (rule Suc.hyps(1)) (use Suc.prems Suc.hyps(2) \<open>h < length sibs\<close> False sibs'(1,2) in
          \<open>simp_all add: low_ones_Suc del: power_Suc node.simps\<close>)
    moreover have "?row = (Hash K [cur, zero_hash K h], cur, zero_hash K h)"
      "?up = Hash K [cur, zero_hash K h]"
      using False by (simp_all only: row_at_even right_empty node_step_even(1) Suc.prems(4) not_not)
    moreover have "\<not> bit_at index h" using False by (simp add: n bit_at_unat)
    ultimately show ?thesis
      by (simp add: up sibs'(1,3) new idxz Let_def del: power_Suc node.simps if_split)
  qed
qed

text \<open>The rows stored for a new leaf, the tree after it, and \<^verbatim>\<open>addLeaf\<close> as the two calls to the store.\<close>

definition path_inserts :: "keccak \<Rightarrow> nat \<Rightarrow> h256 list \<Rightarrow> nat \<Rightarrow> u64 \<Rightarrow> rht_row list" where
  "path_inserts K H ls i d = map (\<lambda>(p, l, r). (p, (l, r), d)) (path_rows K H ls i)"

definition grown_tree :: "keccak \<Rightarrow> h256 list \<Rightarrow> nat \<Rightarrow> MerkleTree \<Rightarrow> MerkleTree" where
  "grown_tree K ls n mt =
     mt\<lparr>mt_siblings := new_sibs K ls n 0 (mt_siblings mt), mt_count := mt_count mt + 1\<rparr>"

lemma addLeaf_eq:
  assumes H: "H = unat (mt_height mt)" "H \<le> 64" and sib: "sib_ok K H ls (mt_siblings mt)"
    and cnt: "mt_count mt = of_nat (length ls)" and len: "length ls < 2 ^ H" "length ls < 2 ^ 32"
  shows "addLeaf S K mt d leaf (mt_count mt) tx st =
    (let mt1 = mt\<lparr>mt_siblings := new_sibs K (ls @ [leaf]) (length ls) 0 (mt_siblings mt)\<rparr> in
     case ms_SetRoot S (tree_root K H (ls @ [leaf])) d (mt_networkID mt) tx st of
       (Inl e, st1) \<Rightarrow> (Inl e, mt1, st1)
     | (Inr u, st1) \<Rightarrow>
         (case ms_BulkSet S (path_inserts K H (ls @ [leaf]) (length ls) d) tx st1 of
            (Inl e, st2) \<Rightarrow> (Inl e, mt1, st2)
          | (Inr u', st2) \<Rightarrow> (Inr (), grown_tree K (ls @ [leaf]) (length ls) mt, st2)))"
proof -
  let ?ls = "ls @ [leaf]" and ?n = "length ls"
  have un: "unat (mt_count mt) = ?n" using len(2) by (simp add: cnt unat_of_nat)
  have lsib: "length (mt_siblings mt) = H" using sib by (simp add: sib_ok_def)
  have "addLeaf_loop K (mt_count mt) [0..<length (mt_siblings mt)] leaf True (mt_siblings mt) [] =
      Inr (node K ?ls (length (mt_siblings mt)) (?n div 2 ^ length (mt_siblings mt)),
           new_sibs K ?ls ?n 0 (mt_siblings mt),
           [] @ map (\<lambda>k. row_at K ?ls k (?n div 2 ^ Suc k)) [0..<length (mt_siblings mt)])"
  proof (rule addLeaf_loop_correct)
    show "leaf = node K ?ls 0 (?n div 2 ^ 0)" by (simp add: leaf_at_def)
    show "mt_siblings mt ! k = node K ?ls k (2 * (?n div 2 ^ Suc k))"
      if "k < length (mt_siblings mt)" "odd (?n div 2 ^ k)" for k
      using that lsib sib_ok_append [OF sib] by simp
  qed (use un lsib H in simp_all)
  hence loop: "addLeaf_loop K (mt_count mt) (levels_up (mt_height mt)) leaf True (mt_siblings mt) [] =
      Inr (tree_root K H ?ls, new_sibs K ?ls ?n 0 (mt_siblings mt), path_rows K H ?ls ?n)"
    using len(1) by (simp add: lsib levels_up_def H(1) [symmetric] tree_root_def path_rows_def
        del: power_Suc)
  show ?thesis
    by (simp add: addLeaf_def loop path_inserts_def grown_tree_def Let_def
        split: sum.splits prod.splits)
qed

section \<open>The contract of the store\<close>

locale merkle_store =
  fixes S :: "'st merkleTreeStore"
    and nodes :: "dbTx \<Rightarrow> 'st \<Rightarrow> node_row set"
    and roots :: "dbTx \<Rightarrow> 'st \<Rightarrow> (u32 \<times> u32 \<times> h256) set"
    and deposit_counts :: "dbTx \<Rightarrow> 'st \<Rightarrow> u64 \<Rightarrow> u32 set"
    and ready :: "dbTx \<Rightarrow> 'st \<Rightarrow> bool"
  assumes Get_frame: "ms_Get S k tx st = (x, st') \<Longrightarrow> nodes t st' = nodes t st \<and> roots t st' = roots t st"
    and Get_sound: "ms_Get S k tx st = (Inr (l, r), st') \<Longrightarrow> (k, l, r) \<in> nodes tx st"
    and Get_ready: "ready tx st \<Longrightarrow> (k, l, r) \<in> nodes tx st \<Longrightarrow>
          \<exists>v st'. ms_Get S k tx st = (Inr v, st') \<and> ready tx st'"
    and GetRoot_frame: "ms_GetRoot S c net tx st = (y, st') \<Longrightarrow>
          nodes t st' = nodes t st \<and> roots t st' = roots t st"
    and GetRoot_sound: "ms_GetRoot S c net tx st = (Inr r, st') \<Longrightarrow> (net, c, r) \<in> roots tx st"
    and GetRoot_ready: "ready tx st \<Longrightarrow> (net, c, r) \<in> roots tx st \<Longrightarrow>
          \<exists>v st'. ms_GetRoot S c net tx st = (Inr v, st') \<and> ready tx st'"
    and SetRoot_ok: "ms_SetRoot S r d net tx st = (Inr u, st') \<Longrightarrow>
          nodes tx st' = nodes tx st \<and>
          roots tx st' = roots tx st \<union> {(net, c, r) |c. c \<in> deposit_counts tx st d}"
    and BulkSet_ok: "ms_BulkSet S rows tx st = (Inr u, st') \<Longrightarrow>
          nodes tx st' = nodes tx st \<union> (\<lambda>(k, v, d). (k, v)) ` set rows \<and>
          roots tx st' = roots tx st"
begin

text \<open>A node of the tree is read as its two children.\<close>

lemma Get_node:
  assumes "no_clash (nodes tx st)" and "row_at K ls h q \<in> nodes tx st"
    and "ms_Get S (node K ls (Suc h) q) tx st = (Inr (l, r), st')"
  shows "l = node K ls h (2 * q)" and "r = node K ls h (2 * q + 1)"
proof -
  have "(node K ls (Suc h) q, l, r) \<in> nodes tx st" using assms(3) by (rule Get_sound)
  with assms(1,2) show "l = node K ls h (2 * q)" "r = node K ls h (2 * q + 1)"
    unfolding row_at_def by (blast dest: no_clashD)+
qed

text \<open>The descent of \<^verbatim>\<open>initSiblings\<close> reads the left children of the path.\<close>

lemma left_walk_correct:
  assumes "no_clash (nodes tx st)"
    and "\<And>k. k < h \<Longrightarrow> row_at K ls k (unat index div 2 ^ Suc k) \<in> nodes tx st"
    and "left_walk S tx index (rev [0..<h]) (node K ls h (unat index div 2 ^ h)) acc st = (res, st')"
  shows "nodes t st' = nodes t st \<and> roots t st' = roots t st \<and>
    (\<forall>sibs. res = Inr sibs \<longrightarrow>
       sibs = acc @ map (\<lambda>k. node K ls k (2 * (unat index div 2 ^ Suc k))) (rev [0..<h]))"
  using assms
proof (induction h arbitrary: acc st)
  case 0
  thus ?case by auto
next
  case (Suc h)
  let ?q = "unat index div 2 ^ Suc h" and ?cur = "node K ls (Suc h) (unat index div 2 ^ Suc h)"
  obtain v st1 where get: "ms_Get S ?cur tx st = (v, st1)" by fastforce
  note frame = Get_frame [OF get]
  show ?case
  proof (cases v)
    case (Inl e)
    thus ?thesis using Suc.prems(3) get frame by auto
  next
    case (Inr lr)
    then obtain l r where lr: "v = Inr (l, r)" by (cases lr) auto
    have row: "row_at K ls h ?q \<in> nodes tx st" using Suc.prems(2) by blast
    note child = Get_node [OF Suc.prems(1) row get [unfolded lr]]
    have next_node: "(if bit_at index h then r else l) = node K ls h (unat index div 2 ^ h)"
      using node_step_odd(2) [of "unat index" h] node_step_even(2) [of "unat index" h]
      by (auto simp: child bit_at_unat simp del: power_Suc)
    have "left_walk S tx index (rev [0..<h]) (node K ls h (unat index div 2 ^ h)) (acc @ [l]) st1 = (res, st')"
      using Suc.prems(3) get lr next_node by (simp del: power_Suc node.simps)
    from Suc.IH [OF _ _ this] show ?thesis
      using Suc.prems(1,2) frame child by (simp del: power_Suc node.simps)
  qed
qed

lemma left_walk_ready:
  assumes "ready tx st" and "no_clash (nodes tx st)"
    and "\<And>k. k < h \<Longrightarrow> row_at K ls k (unat index div 2 ^ Suc k) \<in> nodes tx st"
  shows "\<exists>sibs st'. left_walk S tx index (rev [0..<h]) (node K ls h (unat index div 2 ^ h)) acc st
           = (Inr sibs, st') \<and> ready tx st'"
  using assms
proof (induction h arbitrary: acc st)
  case 0
  thus ?case by simp
next
  case (Suc h)
  let ?q = "unat index div 2 ^ Suc h"
  have row: "row_at K ls h ?q \<in> nodes tx st" using Suc.prems(3) by blast
  obtain l r st1 where get: "ms_Get S (node K ls (Suc h) ?q) tx st = (Inr (l, r), st1)" "ready tx st1"
    using Get_ready [OF Suc.prems(1) row [unfolded row_at_def]] by auto
  note child = Get_node [OF Suc.prems(2) row get(1)]
  have next_node: "(if bit_at index h then r else l) = node K ls h (unat index div 2 ^ h)"
    using node_step_odd(2) [of "unat index" h] node_step_even(2) [of "unat index" h]
    by (auto simp: child bit_at_unat simp del: power_Suc)
  show ?case
    using Suc.IH [of st1 "acc @ [l]"] get Suc.prems(2,3) Get_frame [OF get(1)] next_node
    by (simp del: power_Suc node.simps)
qed

text \<open>Adding a leaf: whenever it succeeds, the stored root is the root of the longer list, the path
  of the new leaf is stored and the siblings are those of the longer list.\<close>

lemma addLeaf_correct:
  assumes H: "H = unat (mt_height mt)" "H \<le> 64" and sib: "sib_ok K H ls (mt_siblings mt)"
    and cnt: "mt_count mt = of_nat (length ls)" and len: "length ls < 2 ^ H" "length ls < 2 ^ 32"
    and ok: "tree_ok K H (mt_networkID mt) ls (nodes tx st) (roots tx st)"
    and dc: "deposit_counts tx st d = {of_nat (length ls)}"
    and run: "addLeaf S K mt d leaf index tx st = (Inr u, mt', st')"
  shows "index = of_nat (length ls)"
    and "mt_count mt' = of_nat (length (ls @ [leaf]))"
    and "mt_height mt' = mt_height mt" and "mt_networkID mt' = mt_networkID mt"
    and "sib_ok K H (ls @ [leaf]) (mt_siblings mt')"
    and "tree_ok K H (mt_networkID mt) (ls @ [leaf]) (nodes tx st') (roots tx st')"
    and "nodes tx st' = nodes tx st \<union> set (path_rows K H (ls @ [leaf]) (length ls))"
    and "roots tx st' = roots tx st \<union>
           {(mt_networkID mt, of_nat (length ls), tree_root K H (ls @ [leaf]))}"
proof -
  let ?ls = "ls @ [leaf]" and ?n = "length ls"
  have index: "index = mt_count mt" using run by (simp add: addLeaf_def split: if_splits)
  thus "index = of_nat ?n" using cnt by simp
  obtain x1 st1 where set: "ms_SetRoot S (tree_root K H ?ls) d (mt_networkID mt) tx st = (x1, st1)"
    by fastforce
  obtain x2 st2 where bulk: "ms_BulkSet S (path_inserts K H ?ls ?n d) tx st1 = (x2, st2)" by fastforce
  from run have res: "x1 = Inr ()" "x2 = Inr ()" "st2 = st'" and
    mt': "mt' = grown_tree K ?ls ?n mt"
    unfolding index addLeaf_eq [OF H sib cnt len]
    by (simp_all add: set bulk Let_def split: sum.splits)
  note set = set [unfolded res] and bulk = bulk [unfolded res]
  have im: "(\<lambda>(k, v, d). (k, v)) ` set (path_inserts K H ?ls ?n d) = set (path_rows K H ?ls ?n)"
    by (simp add: path_inserts_def image_image split_def)
  show nd: "nodes tx st' = nodes tx st \<union> set (path_rows K H ?ls ?n)"
    using SetRoot_ok [OF set] BulkSet_ok [OF bulk] by (simp add: im)
  show rt: "roots tx st' = roots tx st \<union> {(mt_networkID mt, of_nat ?n, tree_root K H ?ls)}"
    using SetRoot_ok [OF set] BulkSet_ok [OF bulk] dc by simp
  show "tree_ok K H (mt_networkID mt) ?ls (nodes tx st') (roots tx st')"
  proof (rule tree_ok_snoc)
    show "tree_ok K H (mt_networkID mt) ls (nodes tx st') (roots tx st')"
      by (rule tree_ok_mono [OF ok]) (auto simp: nd rt)
  qed (simp_all add: nd rt)
  show "sib_ok K H ?ls (mt_siblings mt')" using new_sibs_ok [OF sib] by (simp add: mt' grown_tree_def)
  show "mt_count mt' = of_nat (length ?ls)" by (simp add: mt' grown_tree_def cnt)
  show "mt_height mt' = mt_height mt" "mt_networkID mt' = mt_networkID mt"
    by (simp_all add: mt' grown_tree_def)
qed

text \<open>Rebuilding the siblings of the first \<open>m\<close> leaves from the store.\<close>

lemma getRoot_correct:
  assumes "tree_ok K H (mt_networkID mt) ls (nodes tx st) (roots tx st)"
    and "one_root (mt_networkID mt) (roots tx st)"
    and "mt_count mt = of_nat m" and "m \<le> length ls" and "m < 2 ^ 32"
    and "H = unat (mt_height mt)" and "H \<le> 64"
    and run: "getRoot S K mt tx st = (x, st')"
  shows "nodes t st' = nodes t st \<and> roots t st' = roots t st"
    and "x = Inr r \<Longrightarrow> r = tree_root K H (take m ls)"
    and "ready tx st \<Longrightarrow> \<exists>r. x = Inr r \<and> ready tx st'"
proof -
  have zero: "mt_count mt = 0 \<longleftrightarrow> m = 0" using assms(3,5) by (simp add: word_unat_eq_iff unat_of_nat)
  have *: "(nodes t st' = nodes t st \<and> roots t st' = roots t st) \<and>
     (x = Inr r \<longrightarrow> r = tree_root K H (take m ls)) \<and> (ready tx st \<longrightarrow> (\<exists>r. x = Inr r \<and> ready tx st'))"
  proof (cases "m = 0")
    case True
    thus ?thesis using run assms(6,7) zero by (auto simp: getRoot_def idx_zeroHashes tree_root_Nil)
  next
    case False
    have c: "mt_count mt - 1 = of_nat (m - 1)" using False assms(3) by (simp add: of_nat_diff)
    have get: "ms_GetRoot S (of_nat (m - 1)) (mt_networkID mt) tx st = (x, st')"
      using run False zero by (simp add: getRoot_def c)
    have "m - 1 < length ls" "Suc (m - 1) = m" using assms(4) False by simp_all
    hence stored: "(mt_networkID mt, of_nat (m - 1), tree_root K H (take m ls)) \<in> roots tx st"
      using assms(1) unfolding tree_ok_def by metis
    show ?thesis
      using GetRoot_frame [OF get] GetRoot_ready [OF _ stored] stored get assms(2)
      by (auto simp: one_root_def dest: GetRoot_sound)
  qed
  show "nodes t st' = nodes t st \<and> roots t st' = roots t st"
    and "x = Inr r \<Longrightarrow> r = tree_root K H (take m ls)"
    and "ready tx st \<Longrightarrow> \<exists>r. x = Inr r \<and> ready tx st'" using * by blast+
qed

lemma levels_down_eq: "0 < unat height \<Longrightarrow> levels_down height = rev [0..<unat height]"
  by (simp add: levels_down_def unat_minus_one unat_gt_0)

lemma zero_siblings_eq:
  "\<forall>h\<in>set hs. h \<le> 64 \<Longrightarrow> zero_siblings K hs acc = Inr (acc @ map (zero_hash K) hs)"
  by (induction hs arbitrary: acc) (auto simp: idx_zeroHashes)

lemma sib_ok_left_path:
  assumes "0 < m" and "m \<le> length ls"
  shows "sib_ok K H (take m ls) (map (\<lambda>k. node K (take m ls) k (2 * ((m - 1) div 2 ^ Suc k))) [0..<H])"
  using assms pred_div_pow [of m] by (auto simp: sib_ok_def min_def simp del: power_Suc)

lemma initSiblings_correct:
  assumes ok: "tree_ok K H (mt_networkID mt) ls (nodes tx st) (roots tx st)"
    and roots: "one_root (mt_networkID mt) (roots tx st)" and clash: "no_clash (nodes tx st)"
    and m: "mt_count mt = of_nat m" "m \<le> length ls" "m < 2 ^ 32" "m \<le> 2 ^ H"
    and H: "H = unat (mt_height mt)" "0 < H" "H \<le> 64"
    and run: "initSiblings S K mt tx st = (x, st')"
  shows "nodes t st' = nodes t st \<and> roots t st' = roots t st"
    and "x = Inr sibs \<Longrightarrow> sib_ok K H (take m ls) sibs"
    and "ready tx st \<Longrightarrow> \<exists>sibs. x = Inr sibs \<and> ready tx st'"
proof -
  have zero: "mt_count mt = 0 \<longleftrightarrow> m = 0" using m(1,3) by (simp add: word_unat_eq_iff unat_of_nat)
  have *: "(nodes t st' = nodes t st \<and> roots t st' = roots t st) \<and>
     (x = Inr sibs \<longrightarrow> sib_ok K H (take m ls) sibs) \<and> (ready tx st \<longrightarrow> (\<exists>sibs. x = Inr sibs \<and> ready tx st'))"
  proof (cases "m = 0")
    case True
    thus ?thesis using run H zero
      by (auto simp: initSiblings_def levels_up_def zero_siblings_eq sib_ok_def)
  next
    case False
    let ?i = "mt_count mt - 1" and ?f = "\<lambda>k. node K (take m ls) k (2 * ((m - 1) div 2 ^ Suc k))"
    have i: "unat ?i = m - 1" using False m(1,3) zero by (simp add: unat_minus_one unat_of_nat)
    obtain y st1 where get: "getRoot S K mt tx st = (y, st1)" by fastforce
    note root = getRoot_correct [OF ok roots m(1-3) H(1,3) get]
    show ?thesis
    proof (cases y)
      case (Inl e)
      thus ?thesis using run get root(1,3) False zero by (auto simp: initSiblings_def)
    next
      case (Inr r)
      have top: "r = node K (take m ls) H (unat ?i div 2 ^ H)"
        using root(2) [OF Inr] m(4) False by (simp add: i tree_root_def div_less)
      obtain z st2 where walk: "left_walk S tx ?i (rev [0..<H]) r [] st1 = (z, st2)" by fastforce
      have rows: "row_at K (take m ls) k (unat ?i div 2 ^ Suc k) \<in> nodes tx st1" if "k < H" for k
        using path_rows_stored [OF ok m(2), of "m - 1" k] that False root(1) by (simp add: i del: power_Suc)
      have clash1: "no_clash (nodes tx st1)" using clash root(1) by simp
      note W = left_walk_correct [OF clash1 rows walk [unfolded top]]
      have R: "\<exists>s. z = Inr s \<and> ready tx st2" if "ready tx st1"
        using left_walk_ready [OF that clash1 rows, of H "[]"] walk by (auto simp: top simp del: power_Suc)
      have x: "x = (case z of Inl e \<Rightarrow> Inl e | Inr s \<Rightarrow> Inr (rev s))" "st' = st2"
        using run get Inr walk False zero H
        by (auto simp: initSiblings_def levels_down_eq split: sum.splits)
      have "sib_ok K H (take m ls) (map ?f [0..<H])" using False m(2) by (intro sib_ok_left_path) simp_all
      thus ?thesis using W R root(1,3) Inr x walk
        by (auto simp: i rev_map simp del: power_Suc split: sum.splits)
    qed
  qed
  show "nodes t st' = nodes t st \<and> roots t st' = roots t st"
    and "x = Inr sibs \<Longrightarrow> sib_ok K H (take m ls) sibs"
    and "ready tx st \<Longrightarrow> \<exists>sibs. x = Inr sibs \<and> ready tx st'" using * by blast+
qed

end

end
