(* ===== verification/Rollup_Tree.thy ===== *)
theory Rollup_Tree
  imports Merkle_Tree
begin

text \<open>
  \<^verbatim>\<open>bridgectrl/merkletree.go\<close>, the trees computed from a whole list of leaves: the rollup exit
  tree, the proofs \<^verbatim>\<open>ComputeSiblings\<close> returns and the verification \<^verbatim>\<open>calculateRoot\<close>.  The lemmas
  compare them with the reference tree.
\<close>

section \<open>Trees built from a list of leaves\<close>

fun buildIntermediate :: "keccak \<Rightarrow> h256 list \<Rightarrow> (node_row list \<times> h256 list) result" where
  "buildIntermediate K [] = Inr ([], [])"
| "buildIntermediate K [l] = Inl GoPanic"
| "buildIntermediate K (l # r # leaves) =
     (case buildIntermediate K leaves of
        Inl e \<Rightarrow> Inl e
      | Inr (nodes, hashes) \<Rightarrow>
          let hash = Hash K [l, r] in Inr ((hash, l, r) # nodes, hash # hashes))"

text \<open>An odd level is padded with the hash of an empty subtree.\<close>

definition pad_level :: "keccak \<Rightarrow> nat \<Rightarrow> h256 list \<Rightarrow> (h256 list) result" where
  "pad_level K h leaves =
     (if odd (length leaves) then
        (case idx (zeroHashes K) h of Inl e \<Rightarrow> Inl e | Inr z \<Rightarrow> Inr (leaves @ [z]))
      else Inr leaves)"

text \<open>The loop over the levels that \<^verbatim>\<open>buildMTRoot\<close> and \<^verbatim>\<open>updateLeaf\<close> share: all the rows so far and
  the rows of the last level.\<close>

fun build_levels :: "keccak \<Rightarrow> nat list \<Rightarrow> h256 list \<Rightarrow> node_row list list \<Rightarrow> node_row list
    \<Rightarrow> (node_row list list \<times> node_row list) result" where
  "build_levels K [] leaves nodes ns = Inr (nodes, ns)"
| "build_levels K (h # hs) leaves nodes ns =
     (case pad_level K h leaves of
        Inl e \<Rightarrow> Inl e
      | Inr padded \<Rightarrow>
          (case buildIntermediate K padded of
             Inl e \<Rightarrow> Inl e
           | Inr (ns', hashes) \<Rightarrow> build_levels K hs hashes (nodes @ [ns']) ns'))"

definition or_zero_leaf :: "keccak \<Rightarrow> h256 list \<Rightarrow> h256 list" where
  "or_zero_leaf K leaves = (if length leaves = 0 then [zeroHashes K ! 0] else leaves)"

definition buildMTRoot :: "keccak \<Rightarrow> MerkleTree \<Rightarrow> h256 list \<Rightarrow> h256 result" where
  "buildMTRoot K mt leaves =
     (case build_levels K (levels_up (mt_height mt)) (or_zero_leaf K leaves) [] [] of
        Inl e \<Rightarrow> Inl e
      | Inr (nodes, ns) \<Rightarrow>
          (case ns of
             [(hash, l, r)] \<Rightarrow> Inr hash
           | _ \<Rightarrow> Inl (ErrMsg ''error: more than one root detected'')))"

definition updateLeaf :: "'st merkleTreeStore \<Rightarrow> keccak \<Rightarrow> MerkleTree \<Rightarrow> u64 \<Rightarrow> h256 list \<Rightarrow> dbTx \<Rightarrow> 'st
    \<Rightarrow> unit result \<times> MerkleTree \<times> 'st" where
  "updateLeaf S K mt depositID leaves tx st =
     (case build_levels K (levels_up (mt_height mt)) (or_zero_leaf K leaves) [] [] of
        Inl e \<Rightarrow> (Inl e, mt, st)
      | Inr (nodes, ns) \<Rightarrow>
          (case ns of
             [(root, l, r)] \<Rightarrow>
               (case ms_SetRoot S root depositID (mt_networkID mt) tx st of
                  (Inl e, st1) \<Rightarrow> (Inl e, mt, st1)
                | (Inr u, st1) \<Rightarrow>
                    (case ms_BulkSet S
                            (map (\<lambda>(p, l, r). (p, (l, r), depositID)) (concat nodes)) tx st1 of
                       (Inl e, st2) \<Rightarrow> (Inl e, mt, st2)
                     | (Inr u', st2) \<Rightarrow>
                         (Inr (), mt\<lparr>mt_count := of_nat (length leaves)\<rparr>, st2)))
           | _ \<Rightarrow> (Inl (ErrMsg ''error: more than one root detected''), mt, st)))"

text \<open>\<^verbatim>\<open>getLeaves\<close>: the leaves below the root, level by level.  A node that is not in the store is
  skipped when it is the hash of an empty subtree.\<close>

fun expand_level :: "'st merkleTreeStore \<Rightarrow> keccak \<Rightarrow> dbTx \<Rightarrow> h256 list \<Rightarrow> h256 list \<Rightarrow> 'st
    \<Rightarrow> (h256 list) result \<times> 'st" where
  "expand_level S K tx [] levelLeaves st = (Inr levelLeaves, st)"
| "expand_level S K tx (c # cs) levelLeaves st =
     (case ms_Get S c tx st of
        (Inl e, st') \<Rightarrow>
          (if c \<in> set (zeroHashes K) then expand_level S K tx cs levelLeaves st'
           else (Inl (ErrMsg ''height, cur, error''), st'))
      | (Inr (l, r), st') \<Rightarrow> expand_level S K tx cs (levelLeaves @ [l, r]) st')"

fun expand_levels :: "'st merkleTreeStore \<Rightarrow> keccak \<Rightarrow> dbTx \<Rightarrow> nat list \<Rightarrow> h256 list \<Rightarrow> 'st
    \<Rightarrow> (h256 list) result \<times> 'st" where
  "expand_levels S K tx [] cur st = (Inr cur, st)"
| "expand_levels S K tx (h # hs) cur st =
     (case expand_level S K tx cur [] st of
        (Inl e, st') \<Rightarrow> (Inl e, st')
      | (Inr levelLeaves, st') \<Rightarrow> expand_levels S K tx hs levelLeaves st')"

definition getLeaves :: "'st merkleTreeStore \<Rightarrow> keccak \<Rightarrow> MerkleTree \<Rightarrow> dbTx \<Rightarrow> 'st
    \<Rightarrow> (h256 list) result \<times> 'st" where
  "getLeaves S K mt tx st =
     (case getRoot S K mt tx st of
        (Inl e, st') \<Rightarrow> (Inl e, st')
      | (Inr root, st') \<Rightarrow> expand_levels S K tx (levels_down (mt_height mt)) [root] st')"

section \<open>The rollup exit tree\<close>

definition storeLeaves :: "'st merkleTreeStore \<Rightarrow> keccak \<Rightarrow> MerkleTree \<Rightarrow> h256 list \<Rightarrow> u64 \<Rightarrow> dbTx \<Rightarrow> 'st
    \<Rightarrow> unit result \<times> 'st" where
  "storeLeaves S K mt leaves blockID tx st =
     (case buildMTRoot K mt leaves of
        Inl e \<Rightarrow> (Inl e, st)
      | Inr root \<Rightarrow>
          (case ms_IsRollupExitRoot S root tx st of
             (Inl e, st1) \<Rightarrow> (Inl e, st1)
           | (Inr exist, st1) \<Rightarrow>
               (if exist then (Inr (), st1)
                else ms_AddRollupExitLeaves S
                       (map (\<lambda>(i, leaf). (leaf, of_nat (i + 1), root, blockID))
                          (zip [0..<length leaves] leaves)) tx st1)))"

text \<open>Missing rollups up to the new identifier are added with the zero leaf.\<close>

definition pad_rollups :: "RollupExitLeaf \<Rightarrow> RollupExitLeaf list \<Rightarrow> RollupExitLeaf list" where
  "pad_rollups rollupLeaf stored =
     stored @ map (\<lambda>i. \<lparr>rel_ID = 0, rel_BlockID = rel_BlockID rollupLeaf, rel_Leaf = 0,
                        rel_RollupId = of_nat (i + 1), rel_Root = 0\<rparr>)
                [length stored..<unat (rel_RollupId rollupLeaf)]"

definition place_rollup :: "RollupExitLeaf \<Rightarrow> RollupExitLeaf list \<Rightarrow> (RollupExitLeaf list) result" where
  "place_rollup rollupLeaf stored =
     (let i = unat (rel_RollupId rollupLeaf - 1) in
      case idx stored i of
        Inl e \<Rightarrow> Inl e
      | Inr l \<Rightarrow>
          (if rel_RollupId l = rel_RollupId rollupLeaf then Inr (stored[i := rollupLeaf])
           else Inl (ErrMsg ''error: RollupId doesn't match'')))"

definition addRollupExitLeaf :: "'st merkleTreeStore \<Rightarrow> keccak \<Rightarrow> MerkleTree \<Rightarrow> RollupExitLeaf \<Rightarrow> dbTx \<Rightarrow> 'st
    \<Rightarrow> unit result \<times> 'st" where
  "addRollupExitLeaf S K mt rollupLeaf tx st =
     (case ms_GetLatestRollupExitLeaves S tx st of
        (Inl e, st1) \<Rightarrow> (Inl e, st1)
      | (Inr stored, st1) \<Rightarrow>
          (case place_rollup rollupLeaf (pad_rollups rollupLeaf stored) of
             Inl e \<Rightarrow> (Inl e, st1)
           | Inr leaves \<Rightarrow>
               storeLeaves S K mt (map rel_Leaf leaves) (rel_BlockID rollupLeaf) tx st1))"

section \<open>Proofs\<close>

text \<open>The loop of \<^verbatim>\<open>ComputeSiblings\<close>.  The new index \<^verbatim>\<open>uint32(float64(index) / 2)\<close> is the half: a
  \<^verbatim>\<open>float64\<close> holds every \<^verbatim>\<open>uint32\<close> and its half exactly and the conversion truncates.\<close>

fun ComputeSiblings_loop :: "keccak \<Rightarrow> nat list \<Rightarrow> u32 \<Rightarrow> h256 list \<Rightarrow> h256 list \<Rightarrow> node_row list
    \<Rightarrow> (h256 list \<times> node_row list) result" where
  "ComputeSiblings_loop K [] index leaves siblings ns = Inr (siblings, ns)"
| "ComputeSiblings_loop K (h # hs) index leaves siblings ns =
     (case pad_level K h leaves of
        Inl e \<Rightarrow> Inl e
      | Inr padded \<Rightarrow>
          (case (if index mod 2 = 1 then idx padded (unat (index - 1))
                 else if length padded \<le> unat (index + 1)
                      then Inl (ErrMsg ''index out of bounds'')
                      else idx padded (unat (index + 1))) of
             Inl e \<Rightarrow> Inl e
           | Inr sibling \<Rightarrow>
               (case buildIntermediate K padded of
                  Inl e \<Rightarrow> Inl e
                | Inr (nsi, hashes) \<Rightarrow>
                    ComputeSiblings_loop K hs (index div 2) hashes (siblings @ [sibling]) nsi)))"

definition ComputeSiblings :: "keccak \<Rightarrow> u32 \<Rightarrow> h256 list \<Rightarrow> u8 \<Rightarrow> (h256 list \<times> h256) result" where
  "ComputeSiblings K rollupIndex leaves0 height =
     (let leaves = or_zero_leaf K leaves0 in
      if length leaves \<le> unat rollupIndex then Inl (ErrMsg ''rollupIndex is out of bounds'')
      else case ComputeSiblings_loop K (levels_up height) rollupIndex leaves [] [] of
             Inl e \<Rightarrow> Inl e
           | Inr (siblings, ns) \<Rightarrow>
               (case ns of
                  [(root, l, r)] \<Rightarrow> Inr (siblings, root)
                | _ \<Rightarrow> Inl (ErrMsg ''error: more than one root detected'')))"

fun calculateRoot_loop :: "keccak \<Rightarrow> nat list \<Rightarrow> u64 \<Rightarrow> h256 list \<Rightarrow> h256 \<Rightarrow> h256 result" where
  "calculateRoot_loop K [] index smtProof nd = Inr nd"
| "calculateRoot_loop K (h # hs) index smtProof nd =
     (case idx smtProof h of
        Inl e \<Rightarrow> Inl e
      | Inr s \<Rightarrow>
          calculateRoot_loop K hs index smtProof
            (if drop_bit h index AND 1 = 1 then Hash K [s, nd] else Hash K [nd, s]))"

definition calculateRoot :: "keccak \<Rightarrow> h256 \<Rightarrow> h256 list \<Rightarrow> u64 \<Rightarrow> u8 \<Rightarrow> h256 result" where
  "calculateRoot K leafHash smtProof index height =
     calculateRoot_loop K (levels_up height) index smtProof leafHash"

section \<open>One level\<close>

lemma buildIntermediate_eq:
  "buildIntermediate K (map f [0..<2 * n]) =
     Inr (map (\<lambda>q. (Hash K [f (2 * q), f (2 * q + 1)], f (2 * q), f (2 * q + 1))) [0..<n],
          map (\<lambda>q. Hash K [f (2 * q), f (2 * q + 1)]) [0..<n])"
proof (induction n arbitrary: f)
  case (Suc n)
  have 1: "[0..<2 * Suc n] = 0 # 1 # map (\<lambda>i. i + 2) [0..<2 * n]"
    by (rule nth_equalityI) (auto simp: nth_Cons split: nat.splits simp del: upt_Suc)
  have 2: "[0..<Suc n] = 0 # map Suc [0..<n]" by (simp add: map_Suc_upt upt_conv_Cons del: upt_Suc)
  show ?case
    unfolding 1 2 using Suc [of "\<lambda>i. f (i + 2)"] by (simp add: comp_def Let_def del: upt_Suc)
qed simp

text \<open>A level holds the nodes up to a position beyond which every subtree is empty.\<close>

lemma pad_level_eq:
  assumes "length ls \<le> w * 2 ^ h" and "h \<le> 64"
  shows "pad_level K h (map (node K ls h) [0..<w]) = Inr (map (node K ls h) [0..<2 * (Suc w div 2)])"
proof (cases "odd w")
  case True
  hence "2 * (Suc w div 2) = Suc w" by simp
  thus ?thesis using True assms by (simp add: pad_level_def idx_zeroHashes node_empty)
next
  case False
  hence "2 * (Suc w div 2) = w" by simp
  thus ?thesis using False by (simp add: pad_level_def)
qed

lemma level_up_eq:
  "buildIntermediate K (map (node K ls h) [0..<2 * n]) =
     Inr (map (row_at K ls h) [0..<n], map (node K ls (Suc h)) [0..<n])"
  by (simp add: buildIntermediate_eq row_at_def)

fun halves :: "nat \<Rightarrow> nat \<Rightarrow> nat" where
  "halves 0 w = w"
| "halves (Suc k) w = halves k (Suc w div 2)"

lemma halves_one: "0 < w \<Longrightarrow> w \<le> 2 ^ k \<Longrightarrow> halves k w = 1"
  by (induction k arbitrary: w) auto

lemma halves_cover: "w \<le> halves k w * 2 ^ k"
proof (induction k arbitrary: w)
  case (Suc k)
  have "w \<le> 2 * (Suc w div 2)" by simp
  also have "\<dots> \<le> 2 * (halves k (Suc w div 2) * 2 ^ k)" using Suc [of "Suc w div 2"] by simp
  finally show ?case by simp
qed simp

lemma half_cover: "(n::nat) \<le> w * 2 ^ h \<Longrightarrow> n \<le> Suc w div 2 * 2 ^ Suc h"
proof -
  assume "n \<le> w * 2 ^ h"
  also have "\<dots> \<le> (2 * (Suc w div 2)) * 2 ^ h" by (rule mult_le_mono1) simp
  finally show ?thesis by (simp add: algebra_simps)
qed

section \<open>All levels\<close>

lemma build_levels_eq:
  assumes "h \<le> H" and "H \<le> 65" and "length ls \<le> w * 2 ^ h"
  shows "build_levels K [h..<H] (map (node K ls h) [0..<w]) nodes ns =
    Inr (nodes @ map (\<lambda>k. map (row_at K ls k) [0..<halves (Suc k - h) w]) [h..<H],
         if h = H then ns else map (row_at K ls (H - 1)) [0..<halves (H - h) w])"
  using assms
proof (induction "H - h" arbitrary: h w nodes ns)
  case 0
  thus ?case by simp
next
  case (Suc d)
  hence "h < H" by simp
  hence up: "[h..<H] = h # [Suc h..<H]" by (simp add: upt_conv_Cons)
  let ?w = "Suc w div 2"
  have IH: "build_levels K [Suc h..<H] (map (node K ls (Suc h)) [0..<?w]) (nodes @ [map (row_at K ls h) [0..<?w]])
      (map (row_at K ls h) [0..<?w]) =
    Inr ((nodes @ [map (row_at K ls h) [0..<?w]]) @
           map (\<lambda>k. map (row_at K ls k) [0..<halves (Suc k - Suc h) ?w]) [Suc h..<H],
         if Suc h = H then map (row_at K ls h) [0..<?w] else map (row_at K ls (H - 1)) [0..<halves (H - Suc h) ?w])"
    by (rule Suc.hyps(1)) (use Suc.prems Suc.hyps(2) \<open>h < H\<close> half_cover in \<open>simp_all del: power_Suc\<close>)
  have hv: "map (\<lambda>k. map (row_at K ls k) [0..<halves (Suc k - h) w]) [Suc h..<H] =
      map (\<lambda>k. map (row_at K ls k) [0..<halves (Suc k - Suc h) ?w]) [Suc h..<H]"
    by (rule map_cong) (auto simp: Suc_diff_le)
  have hH: "halves (H - h) w = halves (H - Suc h) ?w"
    using \<open>h < H\<close> by (simp add: Suc_diff_Suc [symmetric])
  have h1: "halves (Suc h - h) w = ?w" by (simp add: Suc_diff_le)
  have last: "Suc h = H \<Longrightarrow> H - 1 = h" by simp
  show ?case
    using IH \<open>h < H\<close> Suc.prems
    by (cases "Suc h = H") (auto simp: up pad_level_eq level_up_eq hv hH h1 simp del: node.simps)
qed

lemma leaf_at_or_zero: "leaf_at (or_zero_leaf K ls) i = leaf_at ls i"
  by (simp add: leaf_at_def or_zero_leaf_def zeroHashes_def nth_generateZeroHashes)

lemma node_or_zero [simp]: "node K (or_zero_leaf K ls) h q = node K ls h q"
  by (rule node_cong) (simp add: leaf_at_or_zero)

lemma or_zero_as_map: "map (node K ls 0) [0..<length (or_zero_leaf K ls)] = or_zero_leaf K ls"
  by (auto simp: leaf_at_def or_zero_leaf_def zeroHashes_def nth_generateZeroHashes intro!: nth_equalityI)

lemma length_or_zero: "length (or_zero_leaf K ls) = max (Suc 0) (length ls)"
  by (cases ls) (simp_all add: or_zero_leaf_def)

lemma build_levels_leaves:
  assumes "0 < H" and "H \<le> 65"
  shows "build_levels K [0..<H] (or_zero_leaf K ls) [] [] =
    Inr (map (\<lambda>k. map (row_at K ls k) [0..<halves (Suc k) (max (Suc 0) (length ls))]) [0..<H],
         map (row_at K ls (H - 1)) [0..<halves H (max (Suc 0) (length ls))])"
proof -
  have "build_levels K [0..<H] (map (node K ls 0) [0..<length (or_zero_leaf K ls)]) [] [] =
    Inr ([] @ map (\<lambda>k. map (row_at K ls k) [0..<halves (Suc k - 0) (length (or_zero_leaf K ls))]) [0..<H],
         if 0 = H then [] else map (row_at K ls (H - 1)) [0..<halves (H - 0) (length (or_zero_leaf K ls))])"
    by (rule build_levels_eq) (use assms in \<open>auto simp: length_or_zero\<close>)
  thus ?thesis using assms unfolding or_zero_as_map unfolding length_or_zero by simp
qed

text \<open>\<^verbatim>\<open>buildMTRoot\<close> computes the reference root, and refuses a list that does not fit.\<close>

lemma buildMTRoot_fits:
  assumes "H = unat (mt_height mt)" and "0 < H" and "H \<le> 65" and "length ls \<le> 2 ^ H"
  shows "buildMTRoot K mt ls = Inr (tree_root K H ls)"
proof -
  have "halves H (max (Suc 0) (length ls)) = 1" by (rule halves_one) (use assms in \<open>auto simp: max_def\<close>)
  moreover have "row_at K ls (H - 1) 0 = (tree_root K H ls, node K ls (H - 1) 0, node K ls (H - 1) 1)"
    using assms(2) by (simp add: row_at_def tree_root_def del: node.simps)
  ultimately show ?thesis
    using assms by (simp add: buildMTRoot_def levels_up_def build_levels_leaves)
qed

lemma buildMTRoot_too_many:
  assumes "H = unat (mt_height mt)" and "0 < H" and "H \<le> 65" and "2 ^ H < length ls"
  shows "buildMTRoot K mt ls = Inl (ErrMsg ''error: more than one root detected'')"
proof -
  have "max (Suc 0) (length ls) \<le> halves H (max (Suc 0) (length ls)) * 2 ^ H" by (rule halves_cover)
  with assms(4) have "2 ^ H < halves H (max (Suc 0) (length ls)) * 2 ^ H" by linarith
  hence "halves H (max (Suc 0) (length ls)) \<noteq> 0" "halves H (max (Suc 0) (length ls)) \<noteq> Suc 0" by auto
  then obtain k where k: "halves H (max (Suc 0) (length ls)) = Suc (Suc k)"
    using not0_implies_Suc by metis
  obtain p l r x xs where "map (row_at K ls (H - 1)) [0..<Suc (Suc k)] = (p, l, r) # x # xs"
    by (simp add: row_at_def upt_conv_Cons del: upt_Suc node.simps)
  thus ?thesis
    unfolding buildMTRoot_def levels_up_def assms(1) [symmetric] build_levels_leaves [OF assms(2,3)] k
    by simp
qed

section \<open>Sibling paths\<close>

lemma mod2_unat: "(x::'a::len word) mod 2 = 1 \<longleftrightarrow> odd (unat x)" if "1 < LENGTH('a)"
proof -
  have "(2::nat) ^ 1 < 2 ^ LENGTH('a)" using that by (rule power_strict_increasing) simp
  hence "unat (2::'a word) = 2" using that by (simp add: unat_numeral)
  thus ?thesis by (simp add: word_unat_eq_iff unat_mod_distrib odd_iff_mod_2_eq_one)
qed

text \<open>The position of the sibling, computed on \<^verbatim>\<open>uint32\<close> without wrap-around.\<close>

lemma sibling_index:
  fixes index :: u32
  assumes "unat index = q" and "q < 2 * w"
  shows "odd q \<Longrightarrow> unat (index - 1) = q - 1"
    and "even q \<Longrightarrow> unat (index + 1) = q + 1 \<and> q + 1 < 2 * w"
proof -
  show "unat (index - 1) = q - 1" if "odd q"
  proof -
    have "index \<noteq> 0" using assms(1) that by auto
    thus ?thesis using assms(1) by (simp add: unat_minus_one)
  qed
  show "unat (index + 1) = q + 1 \<and> q + 1 < 2 * w" if "even q"
  proof
    have "unat index < 2 ^ LENGTH(32)" by (rule unsigned_less)
    hence "q < 2 ^ 32" using assms(1) by simp
    moreover have "q \<noteq> 2 ^ 32 - 1" using that by auto
    ultimately have "Suc q < 2 ^ 32" by simp
    thus "unat (index + 1) = q + 1" using assms(1) by (simp add: unat_word_ariths)
    show "q + 1 < 2 * w" using that assms(2) by (auto elim!: evenE)
  qed
qed

lemma ComputeSiblings_loop_eq:
  assumes "h \<le> H" and "H \<le> 65" and "length ls \<le> w * 2 ^ h"
    and "unat index = i div 2 ^ h" and "i div 2 ^ h < w"
  shows "ComputeSiblings_loop K [h..<H] index (map (node K ls h) [0..<w]) sibs ns =
    Inr (sibs @ map (sibling_at K ls i) [h..<H],
         if h = H then ns else map (row_at K ls (H - 1)) [0..<halves (H - h) w])"
  using assms
proof (induction "H - h" arbitrary: h w index sibs ns)
  case 0
  thus ?case by simp
next
  case (Suc d)
  hence "h < H" by simp
  hence up: "[h..<H] = h # [Suc h..<H]" by (simp add: upt_conv_Cons)
  let ?w = "Suc w div 2" and ?q = "i div 2 ^ h"
  have q: "?q < 2 * ?w" using Suc.prems(5) by simp
  have half: "unat (index div 2) = i div 2 ^ Suc h"
    using Suc.prems(4) by (simp add: unat_div_distrib div_Suc_pow del: power_Suc)
  have less: "i div 2 ^ Suc h < ?w" using q by (simp add: div_Suc_pow less_mult_imp_div_less mult.commute del: power_Suc)
  have sib: "(if index mod 2 = 1 then idx (map (node K ls h) [0..<2 * ?w]) (unat (index - 1))
              else if length (map (node K ls h) [0..<2 * ?w]) \<le> unat (index + 1)
                   then Inl (ErrMsg ''index out of bounds'')
                   else idx (map (node K ls h) [0..<2 * ?w]) (unat (index + 1))) =
             Inr (sibling_at K ls i h)"
    using sibling_index [OF Suc.prems(4) q] q Suc.prems(4)
    by (cases "odd ?q") (simp_all add: mod2_unat idx_def sibling_at_def Let_def)
  have IH: "ComputeSiblings_loop K [Suc h..<H] (index div 2) (map (node K ls (Suc h)) [0..<?w])
      (sibs @ [sibling_at K ls i h]) (map (row_at K ls h) [0..<?w]) =
    Inr ((sibs @ [sibling_at K ls i h]) @ map (sibling_at K ls i) [Suc h..<H],
         if Suc h = H then map (row_at K ls h) [0..<?w] else map (row_at K ls (H - 1)) [0..<halves (H - Suc h) ?w])"
    by (rule Suc.hyps(1)) (use Suc.prems Suc.hyps(2) \<open>h < H\<close> half_cover half less in \<open>simp_all del: power_Suc\<close>)
  have hH: "halves (H - h) w = halves (H - Suc h) ?w"
    using \<open>h < H\<close> by (simp add: Suc_diff_Suc [symmetric])
  have pad: "pad_level K h (map (node K ls h) [0..<w]) = Inr (map (node K ls h) [0..<2 * ?w])"
    using Suc.prems \<open>h < H\<close> by (intro pad_level_eq) simp_all
  show ?case
    using IH \<open>h < H\<close> unfolding up ComputeSiblings_loop.simps pad sum.case sib level_up_eq prod.case
    by (auto simp: hH)
qed

text \<open>\<^verbatim>\<open>ComputeSiblings\<close> returns the sibling path and the root of the reference tree.\<close>

lemma ComputeSiblings_eq:
  assumes "H = unat height" and "0 < H" and "H \<le> 65" and "length ls \<le> 2 ^ H"
    and "unat i < max (Suc 0) (length ls)"
  shows "ComputeSiblings K i ls height = Inr (sibling_path K H ls (unat i), tree_root K H ls)"
proof -
  have one: "halves H (max (Suc 0) (length ls)) = 1" by (rule halves_one) (use assms in auto)
  have "ComputeSiblings_loop K [0..<H] i (map (node K ls 0) [0..<length (or_zero_leaf K ls)]) [] [] =
    Inr ([] @ map (sibling_at K ls (unat i)) [0..<H],
         if 0 = H then [] else map (row_at K ls (H - 1)) [0..<halves (H - 0) (length (or_zero_leaf K ls))])"
    by (rule ComputeSiblings_loop_eq) (use assms in \<open>auto simp: length_or_zero\<close>)
  hence "ComputeSiblings_loop K [0..<H] i (or_zero_leaf K ls) [] [] =
    Inr (sibling_path K H ls (unat i), [row_at K ls (H - 1) 0])"
    unfolding or_zero_as_map unfolding length_or_zero using one assms(2) by (simp add: sibling_path_def)
  moreover have "row_at K ls (H - 1) 0 = (tree_root K H ls, node K ls (H - 1) 0, node K ls (H - 1) 1)"
    using assms(2) by (simp add: row_at_def tree_root_def del: node.simps)
  ultimately show ?thesis
    using assms(5)
    by (auto simp: ComputeSiblings_def levels_up_def assms(1) [symmetric] length_or_zero not_le less_max_iff_disj)
qed

section \<open>Verifying a proof\<close>

text \<open>The node reached from a leaf after \<open>k\<close> levels of a proof.\<close>

fun climb :: "keccak \<Rightarrow> h256 list \<Rightarrow> u64 \<Rightarrow> h256 \<Rightarrow> nat \<Rightarrow> h256" where
  "climb K p index leaf 0 = leaf"
| "climb K p index leaf (Suc k) =
     (if bit index k then Hash K [p ! k, climb K p index leaf k]
      else Hash K [climb K p index leaf k, p ! k])"

lemma shift_and_one: "(drop_bit h (x::'a::len word) AND 1 = 1) = bit x h"
  by (simp add: and_one_eq bit_iff_odd_drop_bit odd_iff_mod_2_eq_one)

lemma calculateRoot_loop_eq:
  assumes "h \<le> H"
  shows "calculateRoot_loop K [h..<H] index p (climb K p index leaf h) =
    (if H \<le> length p \<or> h = H then Inr (climb K p index leaf H) else Inl GoPanic)"
  using assms
proof (induction "H - h" arbitrary: h)
  case 0
  thus ?case by simp
next
  case (Suc d)
  hence "h < H" by simp
  hence up: "[h..<H] = h # [Suc h..<H]" by (simp add: upt_conv_Cons)
  have "calculateRoot_loop K [Suc h..<H] index p (climb K p index leaf (Suc h)) =
    (if H \<le> length p \<or> Suc h = H then Inr (climb K p index leaf H) else Inl GoPanic)"
    by (rule Suc.hyps(1)) (use Suc.hyps(2) \<open>h < H\<close> in simp_all)
  thus ?case using \<open>h < H\<close>
    by (cases "h < length p") (auto simp: up idx_def shift_and_one split: if_splits)
qed

lemma calculateRoot_eq:
  assumes "H = unat height" and "H \<le> length p"
  shows "calculateRoot K leaf p index height = Inr (climb K p index leaf H)"
  using calculateRoot_loop_eq [of 0 H K index p leaf] assms
  by (simp add: calculateRoot_def levels_up_def)

text \<open>The reference sibling path leads from a leaf to the root.\<close>

lemma climb_sibling_path:
  assumes "k \<le> H"
  shows "climb K (sibling_path K H ls (unat index)) index (leaf_at ls (unat index)) k =
    node K ls k (unat index div 2 ^ k)"
  using assms
proof (induction k)
  case (Suc k)
  thus ?case
    using node_step_odd(1,3) [of "unat index" k K ls] node_step_even(1,3) [of "unat index" k K ls]
    by (cases "odd (unat index div 2 ^ k)") (simp_all add: bit_unat del: node.simps power_Suc)
qed simp

text \<open>The bytes hashed at level \<open>k\<close> while a proof is checked.\<close>

definition level_bytes :: "keccak \<Rightarrow> h256 list \<Rightarrow> u64 \<Rightarrow> h256 \<Rightarrow> nat \<Rightarrow> bytes" where
  "level_bytes K p index leaf k =
     (if bit index k then be_bytes 32 (p ! k) @ be_bytes 32 (climb K p index leaf k)
      else be_bytes 32 (climb K p index leaf k) @ be_bytes 32 (p ! k))"

lemma climb_level_bytes: "climb K p index leaf (Suc k) = K (level_bytes K p index leaf k)"
  by (simp add: level_bytes_def Hash_def)

lemma climb_inj:
  assumes "climb K p index leaf n = climb K p' index leaf' n"
    and "\<forall>k<n. \<not> collision K (level_bytes K p index leaf k) (level_bytes K p' index leaf' k)"
  shows "leaf = leaf' \<and> (\<forall>k<n. p ! k = p' ! k)"
  using assms
proof (induction n)
  case (Suc n)
  have "level_bytes K p index leaf n = level_bytes K p' index leaf' n"
    using Suc.prems by (auto simp: climb_level_bytes collision_def simp del: climb.simps)
  hence "climb K p index leaf n = climb K p' index leaf' n \<and> p ! n = p' ! n"
    by (auto simp: level_bytes_def split: if_splits dest: be_bytes_inj)
  with Suc show ?case by (auto simp: less_Suc_eq)
qed simp

section \<open>Properties\<close>

text \<open>C8. The rollup exit root is computed as the reference tree says: \<^verbatim>\<open>buildMTRoot\<close> returns the root of
  the tree of the given leaves padded with zero leaves when they fit into the tree, and the error otherwise.\<close>

theorem buildMTRoot_spec:
  assumes "0 < unat (mt_height mt)" and "unat (mt_height mt) \<le> 65"
  shows "buildMTRoot K mt ls =
    (if length ls \<le> 2 ^ unat (mt_height mt) then Inr (tree_root K (unat (mt_height mt)) ls)
     else Inl (ErrMsg ''error: more than one root detected''))"
  using assms buildMTRoot_fits [OF refl] buildMTRoot_too_many [OF refl] by simp

theorem buildMTRoot_spec_witness:
  "buildMTRoot (\<lambda>b. of_nat (length b)) \<lparr>mt_networkID = 1, mt_height = 1, mt_count = 0, mt_siblings = []\<rparr> [1, 2, 3] =
     Inl (ErrMsg ''error: more than one root detected'') \<and>
   buildMTRoot (\<lambda>b. of_nat (length b)) \<lparr>mt_networkID = 1, mt_height = 1, mt_count = 0, mt_siblings = []\<rparr> [1, 2] =
     Inr (tree_root (\<lambda>b. of_nat (length b)) 1 [1, 2])"
  using buildMTRoot_spec [of "\<lparr>mt_networkID = 1, mt_height = 1, mt_count = 0, mt_siblings = []\<rparr>" "\<lambda>b. of_nat (length b)" "[1, 2, 3]"]
    buildMTRoot_spec [of "\<lparr>mt_networkID = 1, mt_height = 1, mt_count = 0, mt_siblings = []\<rparr>" "\<lambda>b. of_nat (length b)" "[1, 2]"]
  by simp

text \<open>C6. A rollup exit proof verifies: for every rollup whose leaf is in the tree, \<^verbatim>\<open>ComputeSiblings\<close>
  returns one sibling per level and the root that \<^verbatim>\<open>buildMTRoot\<close> computes, and \<^verbatim>\<open>calculateRoot\<close> leads from
  the leaf of the rollup along these siblings to that root.\<close>

theorem ComputeSiblings_verifies:
  assumes "0 < unat height" and "unat height \<le> 64" and "length ls \<le> 2 ^ unat height"
    and "unat i < max 1 (length ls)"
  shows "\<exists>sibs. ComputeSiblings K i ls height = Inr (sibs, tree_root K (unat height) ls) \<and>
    length sibs = unat height \<and>
    buildMTRoot K \<lparr>mt_networkID = net, mt_height = height, mt_count = c, mt_siblings = []\<rparr> ls =
      Inr (tree_root K (unat height) ls) \<and>
    calculateRoot K (leaf_at ls (unat i)) sibs (ucast i) height = Inr (tree_root K (unat height) ls)"
proof (intro exI conjI)
  let ?H = "unat height" and ?p = "sibling_path K (unat height) ls (unat i)"
  show "ComputeSiblings K i ls height = Inr (?p, tree_root K ?H ls)"
    by (rule ComputeSiblings_eq) (use assms in simp_all)
  show "length ?p = ?H" by simp
  show "buildMTRoot K \<lparr>mt_networkID = net, mt_height = height, mt_count = c, mt_siblings = []\<rparr> ls = Inr (tree_root K ?H ls)"
    by (rule buildMTRoot_fits) (use assms in simp_all)
  have u: "unat (ucast i :: u64) = unat i" by transfer (simp add: take_bit_eq_mod)
  have "unat i < 2 ^ ?H" using assms by (cases "length ls") (auto simp: max_def split: if_splits)
  hence z: "unat i div 2 ^ ?H = 0" by simp
  show "calculateRoot K (leaf_at ls (unat i)) ?p (ucast i) height = Inr (tree_root K ?H ls)"
    using calculateRoot_eq [of ?H height ?p K "leaf_at ls (unat i)" "ucast i"]
      climb_sibling_path [of ?H ?H K ls "ucast i"] z by (simp add: u tree_root_def)
qed

theorem ComputeSiblings_verifies_witness:
  "\<exists>sibs. ComputeSiblings (\<lambda>b. of_nat (length b)) 1 [7, 8, 9] 2 = Inr (sibs, tree_root (\<lambda>b. of_nat (length b)) 2 [7, 8, 9]) \<and>
    length sibs = 2 \<and>
    buildMTRoot (\<lambda>b. of_nat (length b)) \<lparr>mt_networkID = 0, mt_height = 2, mt_count = 0, mt_siblings = []\<rparr> [7, 8, 9] =
      Inr (tree_root (\<lambda>b. of_nat (length b)) 2 [7, 8, 9]) \<and>
    calculateRoot (\<lambda>b. of_nat (length b)) 8 sibs 1 2 = Inr (tree_root (\<lambda>b. of_nat (length b)) 2 [7, 8, 9])"
  using ComputeSiblings_verifies [of 2 "[7, 8, 9]" 1 "\<lambda>b. of_nat (length b)" 0 0] by (simp add: leaf_at_def)

text \<open>C7. A root binds its leaves: when two proofs for the same index lead to the same root, the leaves are
  equal, or at some level the two pairs of children that are hashed are a collision of the hash function.\<close>

theorem calculateRoot_binding:
  assumes "calculateRoot K leaf p index height = Inr root" and "calculateRoot K leaf' p' index height = Inr root"
    and "length p = unat height" and "length p' = unat height"
  shows "leaf = leaf' \<and> p = p' \<or>
    (\<exists>k<unat height. collision K (level_bytes K p index leaf k) (level_bytes K p' index leaf' k))"
proof (cases "\<exists>k<unat height. collision K (level_bytes K p index leaf k) (level_bytes K p' index leaf' k)")
  case False
  have "climb K p index leaf (unat height) = climb K p' index leaf' (unat height)"
    using assms calculateRoot_eq [of "unat height" height p K leaf index]
      calculateRoot_eq [of "unat height" height p' K leaf' index] by simp
  hence "leaf = leaf' \<and> (\<forall>k<unat height. p ! k = p' ! k)" by (rule climb_inj) (use False in blast)
  thus ?thesis using assms(3,4) by (auto intro: nth_equalityI)
qed simp

theorem calculateRoot_binding_witness:
  "calculateRoot (\<lambda>_. 4) 1 [3] 0 1 = Inr 4 \<and> calculateRoot (\<lambda>_. 4) 2 [3] 0 1 = Inr 4 \<and>
   ((1 :: h256) = 2 \<and> [3 :: h256] = [3] \<or>
    (\<exists>k<unat (1 :: u8). collision (\<lambda>_. 4) (level_bytes (\<lambda>_. 4) [3] 0 1 k) (level_bytes (\<lambda>_. 4) [3] 0 2 k)))"
proof -
  have a: "calculateRoot (\<lambda>_. 4) x [3] 0 1 = Inr 4" for x
    by (simp add: calculateRoot_def levels_up_def idx_def Hash_def)
  show ?thesis using a [of 1] a [of 2] calculateRoot_binding [OF a [of 1] a [of 2]] by simp
qed

end
