(* ===== verification/Monitored_Tx.thy ===== *)
theory Monitored_Tx
  imports Ether_Types
begin

text \<open>
  \<^verbatim>\<open>claimtxman/types/monitoredtx.go\<close>: the claim transactions the service sends and watches, the
  groups of claims sent in one compressed call, and the history of the transactions sent for a group.
  Times and durations are integers (nanoseconds).  The map \<^verbatim>\<open>History\<close> of transaction hashes is a
  list without repetitions, in one of the orders its iteration can take.  The value, the gas
  price and the compressed data may be nil; a nil value is stored as the text \<^verbatim>\<open><nil>\<close>, which is read as nil.
\<close>

section \<open>Definitions\<close>

datatype MonitoredTxStatus =
    MonitoredTxStatusCreated
  | MonitoredTxStatusFailed
  | MonitoredTxStatusConfirmed
  | MonitoredTxStatusCompressing
  | MonitoredTxStatusClaiming

record MonitoredTx =
  mtx_DepositID :: u64
  mtx_From :: address
  mtx_To :: "address option"
  mtx_Nonce :: u64
  mtx_Value :: "int option"
  mtx_Data :: bytes
  mtx_Gas :: u64
  mtx_GasPrice :: "int option"
  mtx_Status :: MonitoredTxStatus
  mtx_History :: "h256 list"
  mtx_CreatedAt :: int
  mtx_UpdatedAt :: int
  mtx_GroupID :: "u64 option"
  mtx_GlobalExitRoot :: h256

text \<open>The status is a string; \<open>MonitoredTxGroupStatusNone\<close> is the empty one, its zero value.\<close>

datatype MonitoredTxGroupStatus =
    MonitoredTxGroupStatusNone
  | MonitoredTxGroupStatusCreated
  | MonitoredTxGroupStatusClaiming
  | MonitoredTxGroupStatussFailed
  | MonitoredTxGroupStatusConfirmed

text \<open>The receipt status of a sent transaction: nil while it is pending.\<close>

datatype ReceiptStatus = ReceiptStatusFailed | ReceiptStatusSuccessful | ReceiptStatusOutdated

record TxHashHistoryEntry =
  the_TxHash :: h256
  the_ReceiptStatus :: "ReceiptStatus option"
  the_CreatedAt :: int

record TxHistoryV2 =
  th_Version :: u64
  th_TxHashes :: "TxHashHistoryEntry list"

record MonitoredTxGroupDBEntry =
  grp_GroupID :: u64
  grp_Status :: MonitoredTxGroupStatus
  grp_DepositIDs :: "u64 list"
  grp_CompressedTxData :: "bytes option"
  grp_ClaimTxHistory :: "TxHistoryV2 option"
  grp_CreatedAt :: int
  grp_UpdatedAt :: int
  grp_NumRetries :: "32 word"
  grp_LastLog :: string

record MonitoredTxGroup =
  mg_DbEntry :: MonitoredTxGroupDBEntry
  mg_Txs :: "MonitoredTx list"

definition IsPending :: "TxHashHistoryEntry \<Rightarrow> bool" where
  "IsPending t = (the_ReceiptStatus t = None)"

definition IsFailed :: "TxHashHistoryEntry \<Rightarrow> bool" where
  "IsFailed t = (case the_ReceiptStatus t of None \<Rightarrow> False | Some s \<Rightarrow> s = ReceiptStatusFailed)"

definition IsSuccessful :: "TxHashHistoryEntry \<Rightarrow> bool" where
  "IsSuccessful t = (case the_ReceiptStatus t of None \<Rightarrow> False | Some s \<Rightarrow> s = ReceiptStatusSuccessful)"

definition IsOutdated :: "TxHashHistoryEntry \<Rightarrow> bool" where
  "IsOutdated t = (case the_ReceiptStatus t of None \<Rightarrow> False | Some s \<Rightarrow> s = ReceiptStatusOutdated)"

definition Outdate :: "TxHashHistoryEntry \<Rightarrow> TxHashHistoryEntry" where
  "Outdate t = t\<lparr>the_ReceiptStatus := Some ReceiptStatusOutdated\<rparr>"

definition ReceiptFailed :: "TxHashHistoryEntry \<Rightarrow> TxHashHistoryEntry" where
  "ReceiptFailed t = t\<lparr>the_ReceiptStatus := Some ReceiptStatusFailed\<rparr>"

definition ReceiptSuccessful :: "TxHashHistoryEntry \<Rightarrow> TxHashHistoryEntry" where
  "ReceiptSuccessful t = t\<lparr>the_ReceiptStatus := Some ReceiptStatusSuccessful\<rparr>"

definition IsExhaustedTimeWaitingForReceipt :: "TxHashHistoryEntry \<Rightarrow> int \<Rightarrow> int \<Rightarrow> bool" where
  "IsExhaustedTimeWaitingForReceipt t now maxTime = (maxTime < now - the_CreatedAt t)"

text \<open>\<^verbatim>\<open>TxHistoryV2.AddPendingTx\<close> at time \<open>now\<close>, and the group's method, which creates the history
  on first use.\<close>

definition history_AddPendingTx :: "int \<Rightarrow> TxHistoryV2 \<Rightarrow> h256 \<Rightarrow> TxHistoryV2" where
  "history_AddPendingTx now t txHash =
     t\<lparr>th_TxHashes := th_TxHashes t @
          [\<lparr>the_TxHash = txHash, the_ReceiptStatus = None, the_CreatedAt = now\<rparr>]\<rparr>"

definition group_AddPendingTx :: "int \<Rightarrow> MonitoredTxGroupDBEntry \<Rightarrow> h256 \<Rightarrow> MonitoredTxGroupDBEntry" where
  "group_AddPendingTx now m txHash =
     (let t = (case grp_ClaimTxHistory m of None \<Rightarrow> \<lparr>th_Version = 1, th_TxHashes = []\<rparr> | Some t \<Rightarrow> t)
      in m\<lparr>grp_ClaimTxHistory := Some (history_AddPendingTx now t txHash)\<rparr>)"

definition IsClaimTxHistoryEmpty :: "MonitoredTxGroupDBEntry \<Rightarrow> bool" where
  "IsClaimTxHistoryEmpty m =
     (case grp_ClaimTxHistory m of None \<Rightarrow> True | Some t \<Rightarrow> length (th_TxHashes t) = 0)"

text \<open>\<^verbatim>\<open>GetMoreRecentTx\<close>: the first entry with the largest creation time.\<close>

fun more_recent :: "TxHashHistoryEntry \<Rightarrow> TxHashHistoryEntry list \<Rightarrow> TxHashHistoryEntry" where
  "more_recent best [] = best"
| "more_recent best (t # ts) =
     (if the_CreatedAt best < the_CreatedAt t then more_recent t ts else more_recent best ts)"

definition GetMoreRecentTx :: "TxHistoryV2 \<Rightarrow> TxHashHistoryEntry option" where
  "GetMoreRecentTx t =
     (case th_TxHashes t of [] \<Rightarrow> None | x # xs \<Rightarrow> Some (more_recent x (x # xs)))"

definition AssignTxsGroupID :: "MonitoredTxGroup \<Rightarrow> MonitoredTxGroup" where
  "AssignTxsGroupID m =
     m\<lparr>mg_Txs := map (\<lambda>tx. tx\<lparr>mtx_GroupID := Some (grp_GroupID (mg_DbEntry m))\<rparr>) (mg_Txs m)\<rparr>"

definition NewMonitoredTxGroup :: "MonitoredTxGroupDBEntry \<Rightarrow> MonitoredTx list \<Rightarrow> MonitoredTxGroup" where
  "NewMonitoredTxGroup entry txs = AssignTxsGroupID \<lparr>mg_DbEntry = entry, mg_Txs = txs\<rparr>"

definition GetTxByDepositID :: "MonitoredTxGroup \<Rightarrow> u64 \<Rightarrow> MonitoredTx option" where
  "GetTxByDepositID m depositID = find (\<lambda>tx. mtx_DepositID tx = depositID) (mg_Txs m)"

definition group_AddTx :: "MonitoredTxGroup \<Rightarrow> MonitoredTx \<Rightarrow> MonitoredTxGroup" where
  "group_AddTx m tx =
     m\<lparr>mg_Txs := mg_Txs m @ [tx\<lparr>mtx_GroupID := Some (grp_GroupID (mg_DbEntry m))\<rparr>]\<rparr>"

definition GetTxsDepositID :: "MonitoredTxGroup \<Rightarrow> u64 list" where
  "GetTxsDepositID m = map mtx_DepositID (mg_Txs m)"

text \<open>The history of a single claim transaction: \<open>None\<close> is \<^verbatim>\<open>ErrAlreadyExists\<close>.\<close>

definition AddHistory :: "MonitoredTx \<Rightarrow> h256 \<Rightarrow> MonitoredTx option" where
  "AddHistory mTx txHash =
     (if txHash \<in> set (mtx_History mTx) then None
      else Some (mTx\<lparr>mtx_History := mtx_History mTx @ [txHash]\<rparr>))"

definition RemoveHistory :: "MonitoredTx \<Rightarrow> h256 \<Rightarrow> MonitoredTx" where
  "RemoveHistory mTx txHash = mTx\<lparr>mtx_History := filter (\<lambda>h. h \<noteq> txHash) (mtx_History mTx)\<rparr>"

definition IsCandidateToBeGrouped :: "MonitoredTx \<Rightarrow> h256 \<Rightarrow> bool" where
  "IsCandidateToBeGrouped mTx ger \<longleftrightarrow>
     mtx_Status mTx = MonitoredTxStatusCreated \<and> length (mtx_History mTx) = 0 \<and>
     mtx_GroupID mTx = None \<and> mtx_GlobalExitRoot mTx = ger"

section \<open>Lemmas\<close>

lemma more_recent_in: "more_recent best ts \<in> insert best (set ts)"
  by (induction ts arbitrary: best) auto

lemma more_recent_max: "t \<in> insert best (set ts) \<Longrightarrow> the_CreatedAt t \<le> the_CreatedAt (more_recent best ts)"
proof (induction ts arbitrary: best t)
  case (Cons u us)
  have le: "the_CreatedAt b \<le> the_CreatedAt (more_recent b us)" for b using Cons.IH by simp
  have in_us: "the_CreatedAt t \<le> the_CreatedAt (more_recent b us)" if "t \<in> set us" for b
    using Cons.IH that by simp
  show ?case using Cons.prems in_us le [of best] le [of u] by auto
qed simp

lemma GetMoreRecentTx_SomeD:
  assumes "GetMoreRecentTx h = Some t"
  shows "t \<in> set (th_TxHashes h)" and "\<forall>u\<in>set (th_TxHashes h). the_CreatedAt u \<le> the_CreatedAt t"
  using assms more_recent_in more_recent_max
  by (force simp: GetMoreRecentTx_def split: list.splits)+

lemma GetMoreRecentTx_None_iff: "GetMoreRecentTx h = None \<longleftrightarrow> th_TxHashes h = []"
  by (simp add: GetMoreRecentTx_def split: list.splits)

lemma receipt_states [simp]:
  "\<not> IsPending (Outdate t)" "\<not> IsPending (ReceiptFailed t)" "\<not> IsPending (ReceiptSuccessful t)"
  "IsSuccessful (ReceiptSuccessful t)" "IsFailed (ReceiptFailed t)" "IsOutdated (Outdate t)"
  by (simp_all add: IsPending_def IsSuccessful_def IsFailed_def IsOutdated_def Outdate_def
      ReceiptFailed_def ReceiptSuccessful_def)

lemma AddHistory_distinct:
  "AddHistory mTx h = Some mTx' \<Longrightarrow> distinct (mtx_History mTx) \<Longrightarrow> distinct (mtx_History mTx')"
  by (auto simp: AddHistory_def split: if_splits)

end
