(* ===== verification/Pg_Storage.thy ===== *)
theory Pg_Storage
  imports Rollup_Tree Monitored_Tx
begin

text \<open>
  \<^verbatim>\<open>db/pgstorage\<close>: the PostgreSQL storage behind every component, with the schema the migrations
  end at.  The database is the record \<open>db\<close> of its tables; a table is the list of its rows in the
  order they were inserted.  An integrity constraint (foreign key, primary key, unique) that a statement
  breaks makes the statement fail; a deletion cascades along the foreign keys.

  \<^item> The row of block 0, which the first migration inserts without number and network, is not in
    the list: \<open>block_ref\<close> accepts the identifier 0.
  \<^item> A query without \<^verbatim>\<open>ORDER BY\<close> takes the rows in insertion order; rows with equal sort keys come
    in one of their orders.
  \<^item> Columns that hold the decimal rendering of a \<^verbatim>\<open>*big.Int\<close> hold the integer.
  \<^item> \<open>pg\<close> is the state of the connection pool: the committed database, the open transaction with its
    own view, the transactions that were begun and abandoned, and the outcomes of the next calls to
    the server, \<open>True\<close> for a call that fails.  When the list is used up no call fails.  A statement
    that fails inside a transaction aborts it; the following ones fail until it is rolled back.
\<close>

section \<open>Tables\<close>

record block_row =
  br_id :: u64
  br_num :: u64
  br_hash :: h256
  br_net :: u32

text \<open>A deposit row is the struct with the identifier the database gave it, without the block number,
  and the column \<^verbatim>\<open>ignore\<close>.\<close>

record deposit_row = Deposit +
  dr_ignore :: bool

record exit_root_row =
  er_id :: u64
  er_block_id :: u64
  er_ger :: h256
  er_exit_roots :: "h256 list"
  er_net :: u32
  er_allowed :: bool

record root_row =
  rt_root :: h256
  rt_deposit_id :: u64
  rt_network :: u32

record set_unset_row =
  su_block_id :: u64
  su_mainnet_flag :: bool
  su_rollup_index :: u32
  su_index :: u32
  su_global_index :: int
  su_type :: string

record db =
  t_block :: "block_row list"
  t_exit_root :: "exit_root_row list"
  t_remove_exit_root :: "(u64 \<times> h256 \<times> u32) list"
  t_deposit :: "deposit_row list"
  t_claim :: "Claim list"
  t_token_wrapped :: "TokenWrapped list"
  t_root :: "root_row list"
  t_rht :: "rht_row list"
  t_rollup_exit :: "RollupExitLeaf list"
  t_backward_let :: "BackwardLET list"
  t_forward_let :: "ForwardLET list"
  t_set_unset_claim :: "set_unset_row list"
  t_status :: "SyncStatus list"
  t_monitored_txs :: "MonitoredTx list"
  t_monitored_txs_group :: "MonitoredTxGroupDBEntry list"
  seq_block :: u64
  seq_deposit :: u64
  seq_exit_root :: u64
  seq_rollup_exit :: u64

definition empty_db :: db where
  "empty_db = \<lparr>t_block = [], t_exit_root = [], t_remove_exit_root = [], t_deposit = [], t_claim = [],
     t_token_wrapped = [], t_root = [], t_rht = [], t_rollup_exit = [], t_backward_let = [],
     t_forward_let = [], t_set_unset_claim = [], t_status = [], t_monitored_txs = [],
     t_monitored_txs_group = [], seq_block = 1, seq_deposit = 1, seq_exit_root = 1, seq_rollup_exit = 1\<rparr>"

text \<open>\<^verbatim>\<open>ORDER BY key DESC\<close> and \<^verbatim>\<open>LIMIT 1\<close>.\<close>

definition order_desc :: "('a \<Rightarrow> 'k::linorder) \<Rightarrow> 'a list \<Rightarrow> 'a list" where
  "order_desc key xs = rev (sort_key key xs)"

definition first_row :: "'a list \<Rightarrow> 'a result" where
  "first_row xs = (case xs of [] \<Rightarrow> Inl ErrStorageNotFound | x # _ \<Rightarrow> Inr x)"

text \<open>Drawing \<open>n\<close> identifiers from a sequence, which ends at the largest 64-bit signed value: the value
  the sequence has afterwards.\<close>

definition nextval :: "nat \<Rightarrow> u64 \<Rightarrow> u64 result" where
  "nextval n s =
     (if unat s + n \<le> 2 ^ 63 then Inr (s + of_nat n)
      else Inl (ErrMsg ''nextval: reached maximum value of sequence''))"

text \<open>Foreign keys.\<close>

definition block_ref :: "db \<Rightarrow> u64 \<Rightarrow> bool" where
  "block_ref d i \<longleftrightarrow> i = 0 \<or> i \<in> br_id ` set (t_block d)"

definition deposit_ref :: "db \<Rightarrow> u64 \<Rightarrow> bool" where
  "deposit_ref d i \<longleftrightarrow> i \<in> dep_Id ` set (t_deposit d)"

section \<open>Connection and transactions\<close>

record open_tx =
  tx_view :: db
  tx_aborted :: bool

record pg =
  pg_committed :: db
  pg_open :: "open_tx option"
  pg_abandoned :: nat
  pg_faults :: "bool list"

definition pg_init :: pg where
  "pg_init = \<lparr>pg_committed = empty_db, pg_open = None, pg_abandoned = 0, pg_faults = []\<rparr>"

text \<open>One call to the server: does it fail, and the state with that outcome used up.\<close>

definition pg_call :: "pg \<Rightarrow> bool \<times> pg" where
  "pg_call st = (case pg_faults st of [] \<Rightarrow> (False, st) | b # bs \<Rightarrow> (b, st\<lparr>pg_faults := bs\<rparr>))"

definition pg_abort :: "dbTx \<Rightarrow> pg \<Rightarrow> pg" where
  "pg_abort tx st =
     (case tx of NoTx \<Rightarrow> st
      | Tx \<Rightarrow> st\<lparr>pg_open := map_option (\<lambda>t. t\<lparr>tx_aborted := True\<rparr>) (pg_open st)\<rparr>)"

text \<open>The database a statement works on, \<^verbatim>\<open>getExecQuerier\<close>: the open transaction or the pool.\<close>

definition pg_view :: "dbTx \<Rightarrow> pg \<Rightarrow> db result" where
  "pg_view tx st =
     (case tx of NoTx \<Rightarrow> Inr (pg_committed st)
      | Tx \<Rightarrow> (case pg_open st of None \<Rightarrow> Inl ErrTxClosed
               | Some t \<Rightarrow> if tx_aborted t then Inl ErrTxAborted else Inr (tx_view t)))"

definition pg_store :: "dbTx \<Rightarrow> db \<Rightarrow> pg \<Rightarrow> pg" where
  "pg_store tx d st =
     (case tx of NoTx \<Rightarrow> st\<lparr>pg_committed := d\<rparr>
      | Tx \<Rightarrow> st\<lparr>pg_open := map_option (\<lambda>t. t\<lparr>tx_view := d\<rparr>) (pg_open st)\<rparr>)"

text \<open>A query; its result may be an error value such as not finding a row, which does not abort.\<close>

definition pg_query :: "dbTx \<Rightarrow> (db \<Rightarrow> 'a result) \<Rightarrow> pg \<Rightarrow> 'a result \<times> pg" where
  "pg_query tx f st =
     (case pg_call st of
        (True, st') \<Rightarrow> (Inl ErrIO, pg_abort tx st')
      | (False, st') \<Rightarrow> (case pg_view tx st' of Inl e \<Rightarrow> (Inl e, st') | Inr d \<Rightarrow> (f d, st')))"

text \<open>A statement that changes the database or fails.\<close>

definition pg_exec :: "dbTx \<Rightarrow> (db \<Rightarrow> ('a \<times> db) result) \<Rightarrow> pg \<Rightarrow> 'a result \<times> pg" where
  "pg_exec tx f st =
     (case pg_call st of
        (True, st') \<Rightarrow> (Inl ErrIO, pg_abort tx st')
      | (False, st') \<Rightarrow>
          (case pg_view tx st' of
             Inl e \<Rightarrow> (Inl e, st')
           | Inr d \<Rightarrow>
               (case f d of
                  Inl e \<Rightarrow> (Inl e, pg_abort tx st')
                | Inr (x, d') \<Rightarrow> (Inr x, pg_store tx d' st'))))"

text \<open>Beginning a transaction while another one is open abandons the open one.\<close>

definition BeginDBTransaction :: "pg \<Rightarrow> dbTx result \<times> pg" where
  "BeginDBTransaction st =
     (case pg_call st of
        (True, st') \<Rightarrow> (Inl ErrIO, st')
      | (False, st') \<Rightarrow>
          (Inr Tx, st'\<lparr>pg_open := Some \<lparr>tx_view = pg_committed st', tx_aborted = False\<rparr>,
                       pg_abandoned := pg_abandoned st' + (if pg_open st' = None then 0 else 1)\<rparr>))"

text \<open>Identifiers drawn from a sequence are not given back when a transaction ends without commit.\<close>

definition keep_seqs :: "db \<Rightarrow> db \<Rightarrow> db" where
  "keep_seqs v d =
     d\<lparr>seq_block := max (seq_block v) (seq_block d), seq_deposit := max (seq_deposit v) (seq_deposit d),
       seq_exit_root := max (seq_exit_root v) (seq_exit_root d),
       seq_rollup_exit := max (seq_rollup_exit v) (seq_rollup_exit d)\<rparr>"

definition pg_discard :: "open_tx \<Rightarrow> pg \<Rightarrow> pg" where
  "pg_discard t st =
     st\<lparr>pg_open := None, pg_committed := keep_seqs (tx_view t) (pg_committed st)\<rparr>"

definition Rollback :: "dbTx \<Rightarrow> pg \<Rightarrow> unit result \<times> pg" where
  "Rollback tx st =
     (case tx of
        NoTx \<Rightarrow> (Inl ErrNilDBTransaction, st)
      | Tx \<Rightarrow>
          (case pg_open st of
             None \<Rightarrow> (Inl ErrTxClosed, st)
           | Some t \<Rightarrow>
               (case pg_call st of
                  (True, st') \<Rightarrow> (Inl ErrIO, pg_discard t st')
                | (False, st') \<Rightarrow> (Inr (), pg_discard t st'))))"

text \<open>A commit of an aborted transaction rolls it back; a commit call that fails is taken not to have
  reached the server.\<close>

definition Commit :: "dbTx \<Rightarrow> pg \<Rightarrow> unit result \<times> pg" where
  "Commit tx st =
     (case tx of
        NoTx \<Rightarrow> (Inl ErrNilDBTransaction, st)
      | Tx \<Rightarrow>
          (case pg_open st of
             None \<Rightarrow> (Inl ErrTxClosed, st)
           | Some t \<Rightarrow>
               (case pg_call st of
                  (True, st') \<Rightarrow> (Inl ErrIO, pg_discard t st')
                | (False, st') \<Rightarrow>
                    (if tx_aborted t then (Inl ErrTxAborted, pg_discard t st')
                     else (Inr (), st'\<lparr>pg_open := None, pg_committed := tx_view t\<rparr>)))))"

section \<open>Blocks\<close>

definition mk_block :: "u64 \<Rightarrow> u64 \<Rightarrow> h256 \<Rightarrow> u32 \<Rightarrow> Block" where
  "mk_block i num hash net =
     \<lparr>blk_ID = i, blk_BlockNumber = num, blk_BlockHash = hash, blk_NetworkID = net,
      blk_GlobalExitRoots = [], blk_RemoveL2GER = [], blk_Deposits = [], blk_Claims = [],
      blk_Tokens = [], blk_VerifiedBatches = [], blk_UnsetClaims = [], blk_SetClaims = [],
      blk_BackwardLETs = [], blk_ForwardLETs = []\<rparr>"

definition blocks_of :: "u32 \<Rightarrow> db \<Rightarrow> block_row list" where
  "blocks_of net d = order_desc br_num (filter (\<lambda>b. br_net b = net) (t_block d))"

definition GetLastBlock :: "u32 \<Rightarrow> dbTx \<Rightarrow> pg \<Rightarrow> Block result \<times> pg" where
  "GetLastBlock networkID tx =
     pg_query tx (\<lambda>d. map_sum id (\<lambda>b. mk_block (br_id b) (br_num b) (br_hash b) (br_net b))
                        (first_row (blocks_of networkID d)))"

definition GetPreviousBlock :: "u32 \<Rightarrow> u64 \<Rightarrow> dbTx \<Rightarrow> pg \<Rightarrow> Block result \<times> pg" where
  "GetPreviousBlock networkID offset tx =
     pg_query tx (\<lambda>d. map_sum id (\<lambda>b. mk_block 0 (br_num b) (br_hash b) (br_net b))
                        (first_row (drop (unat offset) (blocks_of networkID d))))"

text \<open>A known hash keeps its row; the identifier of the row is returned either way.\<close>

definition AddBlock :: "Block \<Rightarrow> dbTx \<Rightarrow> pg \<Rightarrow> u64 result \<times> pg" where
  "AddBlock block tx =
     pg_exec tx (\<lambda>d.
       case nextval 1 (seq_block d) of
         Inl e \<Rightarrow> Inl e
       | Inr s \<Rightarrow>
           (case filter (\<lambda>b. br_hash b = blk_BlockHash block) (t_block d) of
              [] \<Rightarrow> Inr (seq_block d, d\<lparr>t_block := t_block d @
                       [\<lparr>br_id = seq_block d, br_num = blk_BlockNumber block, br_hash = blk_BlockHash block,
                         br_net = blk_NetworkID block\<rparr>], seq_block := s\<rparr>)
            | b # _ \<Rightarrow> Inr (br_id b, d\<lparr>seq_block := s\<rparr>)))"

text \<open>Deletions, with the cascades of the foreign keys.\<close>

definition delete_deposits :: "(deposit_row \<Rightarrow> bool) \<Rightarrow> db \<Rightarrow> db" where
  "delete_deposits P d =
     (let kept = filter (\<lambda>r. \<not> P r) (t_deposit d); refs = dep_Id ` set kept in
      d\<lparr>t_deposit := kept,
        t_root := filter (\<lambda>r. rt_deposit_id r \<in> refs) (t_root d),
        t_rht := filter (\<lambda>(k, v, i). i \<in> refs) (t_rht d)\<rparr>)"

definition delete_blocks :: "(block_row \<Rightarrow> bool) \<Rightarrow> db \<Rightarrow> db" where
  "delete_blocks P d =
     (let kept = filter (\<lambda>b. \<not> P b) (t_block d);
          alive = (\<lambda>i. i = 0 \<or> i \<in> br_id ` set kept);
          d' = delete_deposits (\<lambda>r. \<not> alive (dep_BlockID r)) d in
      d'\<lparr>t_block := kept,
         t_exit_root := filter (\<lambda>r. alive (er_block_id r)) (t_exit_root d),
         t_remove_exit_root := filter (\<lambda>(i, _). alive i) (t_remove_exit_root d),
         t_claim := filter (\<lambda>r. alive (clm_BlockID r)) (t_claim d),
         t_token_wrapped := filter (\<lambda>r. alive (tok_BlockID r)) (t_token_wrapped d),
         t_rollup_exit := filter (\<lambda>r. alive (rel_BlockID r)) (t_rollup_exit d),
         t_backward_let := filter (\<lambda>r. alive (bl_BlockID r)) (t_backward_let d),
         t_forward_let := filter (\<lambda>r. alive (fl_BlockID r)) (t_forward_let d),
         t_set_unset_claim := filter (\<lambda>r. alive (su_block_id r)) (t_set_unset_claim d)\<rparr>)"

definition Reset :: "u64 \<Rightarrow> u32 \<Rightarrow> dbTx \<Rightarrow> pg \<Rightarrow> unit result \<times> pg" where
  "Reset blockNumber networkID tx =
     pg_exec tx (\<lambda>d. Inr ((), delete_blocks (\<lambda>b. blockNumber < br_num b \<and> br_net b = networkID) d))"

section \<open>Global exit roots\<close>

definition insert_exit_root :: "u64 \<Rightarrow> h256 \<Rightarrow> h256 list \<Rightarrow> u32 \<Rightarrow> u64 \<Rightarrow> db \<Rightarrow> db" where
  "insert_exit_root block_id ger roots net s d =
     d\<lparr>t_exit_root := t_exit_root d @
         [\<lparr>er_id = seq_exit_root d, er_block_id = block_id, er_ger = ger, er_exit_roots = roots,
           er_net = net, er_allowed = True\<rparr>],
       seq_exit_root := s\<rparr>"

text \<open>The constraint UC: one row for a block, a global exit root and a network.\<close>

definition exit_root_taken :: "u64 \<Rightarrow> h256 \<Rightarrow> u32 \<Rightarrow> db \<Rightarrow> bool" where
  "exit_root_taken block_id ger net d \<longleftrightarrow>
     list_ex (\<lambda>r. er_block_id r = block_id \<and> er_ger r = ger \<and> er_net r = net) (t_exit_root d)"

text \<open>\<^verbatim>\<open>[][]byte{roots[0][:], roots[1][:]}\<close>\<close>

definition two_roots :: "h256 list \<Rightarrow> (h256 list) result" where
  "two_roots roots =
     (case idx roots 0 of Inl e \<Rightarrow> Inl e
      | Inr a \<Rightarrow> (case idx roots 1 of Inl e \<Rightarrow> Inl e | Inr b \<Rightarrow> Inr [a, b]))"

definition AddGlobalExitRoot :: "GlobalExitRoot \<Rightarrow> dbTx \<Rightarrow> pg \<Rightarrow> unit result \<times> pg" where
  "AddGlobalExitRoot exitRoot tx st =
     (case (if length (ger_ExitRoots exitRoot) \<noteq> 0 then two_roots (ger_ExitRoots exitRoot) else Inr []) of
        Inl e \<Rightarrow> (Inl e, st)
      | Inr exitRoots \<Rightarrow>
          pg_exec tx (\<lambda>d.
            case nextval 1 (seq_exit_root d) of
              Inl e \<Rightarrow> Inl e
            | Inr s \<Rightarrow>
                if exit_root_taken (ger_BlockID exitRoot) (ger_GlobalExitRoot exitRoot) (ger_NetworkID exitRoot) d
                then Inl ErrUnique
                else if \<not> block_ref d (ger_BlockID exitRoot) then Inl ErrForeignKey
                else Inr ((), insert_exit_root (ger_BlockID exitRoot) (ger_GlobalExitRoot exitRoot) exitRoots
                                (ger_NetworkID exitRoot) s d)) st)"

text \<open>The sequencer's roots hang on block 0; a known one is left alone.\<close>

definition AddTrustedGlobalExitRoot :: "GlobalExitRoot \<Rightarrow> dbTx \<Rightarrow> pg \<Rightarrow> bool result \<times> pg" where
  "AddTrustedGlobalExitRoot exitRoot tx st =
     (case two_roots (ger_ExitRoots exitRoot) of
        Inl e \<Rightarrow> (Inl e, st)
      | Inr exitRoots \<Rightarrow>
          pg_exec tx (\<lambda>d.
            case nextval 1 (seq_exit_root d) of
              Inl e \<Rightarrow> Inl e
            | Inr s \<Rightarrow>
                if exit_root_taken 0 (ger_GlobalExitRoot exitRoot) (ger_NetworkID exitRoot) d
                then Inr (False, d\<lparr>seq_exit_root := s\<rparr>)
                else Inr (True, insert_exit_root 0 (ger_GlobalExitRoot exitRoot) exitRoots
                                  (ger_NetworkID exitRoot) s d)) st)"

definition UpdateL2GER :: "GlobalExitRoot \<Rightarrow> dbTx \<Rightarrow> pg \<Rightarrow> unit result \<times> pg" where
  "UpdateL2GER ger tx st =
     (case two_roots (ger_ExitRoots ger) of
        Inl e \<Rightarrow> (Inl e, st)
      | Inr exitRoots \<Rightarrow>
          pg_exec tx (\<lambda>d. Inr ((), d\<lparr>t_exit_root := map (\<lambda>r. if er_id r = ger_ID ger
                                        then r\<lparr>er_exit_roots := exitRoots\<rparr> else r) (t_exit_root d)\<rparr>)) st)"

definition mk_ger :: "u64 \<Rightarrow> h256 list \<Rightarrow> h256 \<Rightarrow> u32 \<Rightarrow> u64 \<Rightarrow> GlobalExitRoot" where
  "mk_ger block_id roots ger net i =
     \<lparr>ger_BlockID = block_id, ger_BlockNumber = 0, ger_ExitRoots = roots, ger_GlobalExitRoot = ger,
      ger_NetworkID = net, ger_ID = i\<rparr>"

text \<open>Newest first.\<close>

definition exit_roots_where :: "(exit_root_row \<Rightarrow> bool) \<Rightarrow> db \<Rightarrow> exit_root_row list" where
  "exit_roots_where P d = order_desc er_id (filter (\<lambda>r. er_allowed r \<and> P r) (t_exit_root d))"

definition l1_ger_of_row :: "exit_root_row \<Rightarrow> GlobalExitRoot result" where
  "l1_ger_of_row r =
     (case two_roots (er_exit_roots r) of
        Inl e \<Rightarrow> Inl e | Inr roots \<Rightarrow> Inr (mk_ger (er_block_id r) roots (er_ger r) 0 0))"

definition GetLatestL1SyncedExitRoot :: "dbTx \<Rightarrow> pg \<Rightarrow> GlobalExitRoot result \<times> pg" where
  "GetLatestL1SyncedExitRoot tx =
     pg_query tx (\<lambda>d. case first_row (exit_roots_where (\<lambda>r. 0 < er_block_id r \<and> er_net r = 0) d) of
                        Inl e \<Rightarrow> Inl e | Inr r \<Rightarrow> l1_ger_of_row r)"

definition GetL1ExitRootByGER :: "h256 \<Rightarrow> dbTx \<Rightarrow> pg \<Rightarrow> GlobalExitRoot result \<times> pg" where
  "GetL1ExitRootByGER ger tx =
     pg_query tx (\<lambda>d. case first_row (exit_roots_where
                             (\<lambda>r. 0 < er_block_id r \<and> er_ger r = ger \<and> er_net r = 0) d) of
                        Inl e \<Rightarrow> Inl e | Inr r \<Rightarrow> l1_ger_of_row r)"

definition GetL2ExitRootsByGER :: "h256 \<Rightarrow> dbTx \<Rightarrow> pg \<Rightarrow> (GlobalExitRoot list) result \<times> pg" where
  "GetL2ExitRootsByGER ger tx =
     pg_query tx (\<lambda>d. Inr (map (\<lambda>r. mk_ger (er_block_id r) [] (er_ger r) (er_net r) (er_id r))
        (exit_roots_where (\<lambda>r. 0 < er_block_id r \<and> er_ger r = ger \<and> er_net r \<noteq> 0 \<and>
                               length (er_exit_roots r) = 0) d)))"

text \<open>A row without its two roots takes them from the L1 row of the same global exit root.\<close>

definition GetLatestTrustedExitRoot :: "u32 \<Rightarrow> dbTx \<Rightarrow> pg \<Rightarrow> GlobalExitRoot result \<times> pg" where
  "GetLatestTrustedExitRoot networkID tx st =
     (case pg_query tx (\<lambda>d. first_row (exit_roots_where (\<lambda>r. er_net r = networkID) d)) st of
        (Inl e, st1) \<Rightarrow> (Inl e, st1)
      | (Inr r, st1) \<Rightarrow>
          let ger = mk_ger (er_block_id r) (er_exit_roots r) (er_ger r) (er_net r) (er_id r) in
          if length (er_exit_roots r) = 2 then (Inr ger, st1)
          else case GetL1ExitRootByGER (er_ger r) tx st1 of
                 (Inl e, st2) \<Rightarrow> (Inl ErrL1GERNotFound, st2)
               | (Inr l1, st2) \<Rightarrow> (Inr (ger\<lparr>ger_ExitRoots := ger_ExitRoots l1\<rparr>), st2))"

definition GetLatestExitRoot :: "u32 \<Rightarrow> u32 \<Rightarrow> dbTx \<Rightarrow> pg \<Rightarrow> GlobalExitRoot result \<times> pg" where
  "GetLatestExitRoot networkID destNetwork tx st =
     (if destNetwork \<noteq> 0 then GetLatestTrustedExitRoot destNetwork tx st
      else GetLatestL1SyncedExitRoot tx st)"

section \<open>Deposits, claims and wrapped tokens\<close>

definition new_deposit_row :: "u64 \<Rightarrow> Deposit \<Rightarrow> deposit_row" where
  "new_deposit_row i deposit =
     Deposit.extend (deposit\<lparr>dep_Id := i, dep_BlockNumber := 0, dep_ReadyForClaim := False\<rparr>)
       (deposit_row.fields False)"

definition AddDeposit :: "Deposit \<Rightarrow> dbTx \<Rightarrow> pg \<Rightarrow> u64 result \<times> pg" where
  "AddDeposit deposit tx =
     pg_exec tx (\<lambda>d.
       case nextval 1 (seq_deposit d) of
         Inl e \<Rightarrow> Inl e
       | Inr s \<Rightarrow>
           if \<not> block_ref d (dep_BlockID deposit) then Inl ErrForeignKey
           else Inr (seq_deposit d,
                  d\<lparr>t_deposit := t_deposit d @ [new_deposit_row (seq_deposit d) deposit], seq_deposit := s\<rparr>))"

text \<open>The primary key of a claim.\<close>

definition claim_key :: "Claim \<Rightarrow> u32 \<times> u32 \<times> u32 \<times> bool" where
  "claim_key c = (clm_Index c, clm_RollupIndex c, clm_NetworkID c, clm_MainnetFlag c)"

definition AddClaim :: "Claim \<Rightarrow> dbTx \<Rightarrow> pg \<Rightarrow> unit result \<times> pg" where
  "AddClaim claim tx =
     pg_exec tx (\<lambda>d.
       if \<not> block_ref d (clm_BlockID claim) then Inl ErrForeignKey
       else if claim_key claim \<in> claim_key ` set (t_claim d) then Inl ErrUnique
       else Inr ((), d\<lparr>t_claim := t_claim d @ [claim\<lparr>clm_BlockNumber := 0\<rparr>]\<rparr>))"

definition DeleteClaimByGlobalIndex :: "int \<Rightarrow> u32 \<Rightarrow> dbTx \<Rightarrow> pg \<Rightarrow> unit result \<times> pg" where
  "DeleteClaimByGlobalIndex globalIndex networkID tx =
     pg_exec tx (\<lambda>d. Inr ((), d\<lparr>t_claim := filter (\<lambda>c. \<not> (clm_GlobalIndex c = Some globalIndex \<and>
                                   clm_NetworkID c = networkID)) (t_claim d)\<rparr>))"

text \<open>The claim of a deposit: the origin of a claim is the mainnet, or the rollup after its index.
  The addition is on the 64-bit column.\<close>

definition GetClaim :: "u32 \<Rightarrow> u32 \<Rightarrow> u32 \<Rightarrow> dbTx \<Rightarrow> pg \<Rightarrow> Claim result \<times> pg" where
  "GetClaim depositCount originNetworkID networkID tx =
     pg_query tx (\<lambda>d.
       map_sum id (\<lambda>c. c\<lparr>clm_MainnetFlag := (originNetworkID = 0)\<rparr>)
         (first_row (filter (\<lambda>c. clm_Index c = depositCount \<and> clm_NetworkID c = networkID \<and>
            (if originNetworkID = 0 then clm_MainnetFlag c
             else \<not> clm_MainnetFlag c \<and> unat (clm_RollupIndex c) + 1 = unat originNetworkID)) (t_claim d))))"

text \<open>\<^verbatim>\<open>INNER JOIN sync.block ON d.network_id = b.network_id AND d.block_id = b.id\<close>\<close>

definition join_block :: "db \<Rightarrow> deposit_row \<Rightarrow> Deposit list" where
  "join_block d r =
     map (\<lambda>b. (Deposit.truncate r)\<lparr>dep_BlockNumber := br_num b\<rparr>)
       (filter (\<lambda>b. br_net b = dep_NetworkID r \<and> br_id b = dep_BlockID r) (t_block d))"

definition GetDeposit :: "u32 \<Rightarrow> u32 \<Rightarrow> dbTx \<Rightarrow> pg \<Rightarrow> Deposit result \<times> pg" where
  "GetDeposit depositCounter networkID tx =
     pg_query tx (\<lambda>d. first_row (concat (map (join_block d)
        (filter (\<lambda>r. dep_NetworkID r = networkID \<and> dep_DepositCount r = depositCounter) (t_deposit d)))))"

text \<open>\<^verbatim>\<open>coalesce(MAX(deposit_cnt), -1)\<close>\<close>

definition max_count :: "u32 list \<Rightarrow> int" where
  "max_count cs = fold max (map uint cs) (- 1)"

definition GetNumberDeposits :: "u32 \<Rightarrow> u64 \<Rightarrow> dbTx \<Rightarrow> pg \<Rightarrow> u32 result \<times> pg" where
  "GetNumberDeposits networkID blockNumber tx =
     pg_query tx (\<lambda>d. Inr (of_int (max_count (map dep_DepositCount
        (filter (\<lambda>r. dep_BlockNumber r \<le> blockNumber)
           (concat (map (join_block d) (filter (\<lambda>r. dep_NetworkID r = networkID) (t_deposit d)))))) + 1)))"

definition ResetDeposits :: "u32 \<Rightarrow> u32 \<Rightarrow> dbTx \<Rightarrow> pg \<Rightarrow> unit result \<times> pg" where
  "ResetDeposits depositCount networkID tx st =
     (if networkID = 0 then (Inl (ErrMsg ''cannot reset L1 deposits''), st)
      else pg_exec tx (\<lambda>d. Inr ((), delete_deposits
             (\<lambda>r. depositCount \<le> dep_DepositCount r \<and> dep_NetworkID r = networkID) d)) st)"

definition GetTokenMetadata :: "u32 \<Rightarrow> u32 \<Rightarrow> address \<Rightarrow> dbTx \<Rightarrow> pg \<Rightarrow> bytes result \<times> pg" where
  "GetTokenMetadata networkID destNet originalTokenAddr tx =
     pg_query tx (\<lambda>d. case filter (\<lambda>r. dep_NetworkID r = networkID \<and> dep_OriginalAddress r = originalTokenAddr \<and>
                                    dep_DestinationNetwork r = destNet) (t_deposit d) of
                        [] \<Rightarrow> Inl ErrNoRows | r # _ \<Rightarrow> Inr (dep_Metadata r))"

definition empty_metadata :: TokenMetadata where
  "empty_metadata = \<lparr>tm_Name = [], tm_Symbol = [], tm_Decimals = 0\<rparr>"

definition token_key :: "TokenWrapped \<Rightarrow> u32 \<times> u32 \<times> address" where
  "token_key t = (tok_NetworkID t, tok_OriginalNetwork t, tok_OriginalTokenAddress t)"

text \<open>The decoding of a token's metadata is done by the ABI library: the parameter \<open>decode\<close>.\<close>

definition insert_token :: "TokenWrapped \<Rightarrow> TokenMetadata \<Rightarrow> dbTx \<Rightarrow> pg \<Rightarrow> unit result \<times> pg" where
  "insert_token token meta tx =
     pg_exec tx (\<lambda>d.
       if \<not> block_ref d (tok_BlockID token) then Inl ErrForeignKey
       else if token_key token \<in> token_key ` set (t_token_wrapped d) then Inl ErrUnique
       else Inr ((), d\<lparr>t_token_wrapped := t_token_wrapped d @
                        [token\<lparr>tok_TokenMetadata := meta, tok_BlockNumber := 0\<rparr>]\<rparr>))"

definition AddTokenWrapped :: "(bytes \<Rightarrow> TokenMetadata result) \<Rightarrow> TokenWrapped \<Rightarrow> dbTx \<Rightarrow> pg \<Rightarrow> unit result \<times> pg" where
  "AddTokenWrapped decode token tx st =
     (case GetTokenMetadata (tok_OriginalNetwork token) (tok_NetworkID token)
             (tok_OriginalTokenAddress token) tx st of
        (Inl e, st1) \<Rightarrow> (if e \<noteq> ErrNoRows then (Inl e, st1) else insert_token token empty_metadata tx st1)
      | (Inr metadata, st1) \<Rightarrow>
          (case decode metadata of
             Inl e \<Rightarrow> (Inl e, st1)
           | Inr meta \<Rightarrow> insert_token token meta tx st1))"

section \<open>Merkle trees\<close>

definition root_join :: "db \<Rightarrow> (root_row \<times> deposit_row) list" where
  "root_join d = concat (map (\<lambda>r. map (Pair r) (filter (\<lambda>p. dep_Id p = rt_deposit_id r) (t_deposit d))) (t_root d))"

text \<open>An error other than a missing row is dropped: the count is then 0.\<close>

definition GetDepositCountByRoot :: "h256 \<Rightarrow> u32 \<Rightarrow> dbTx \<Rightarrow> pg \<Rightarrow> u32 result \<times> pg" where
  "GetDepositCountByRoot root network tx st =
     (case pg_query tx (\<lambda>d. map_sum id (\<lambda>(r, p). dep_DepositCount p) (first_row
              (filter (\<lambda>(r, p). rt_root r = root \<and> rt_network r = network) (root_join d)))) st of
        (Inl e, st') \<Rightarrow> (if e = ErrStorageNotFound then Inl e else Inr 0, st')
      | (Inr c, st') \<Rightarrow> (Inr c, st'))"

definition CheckIfRootExists :: "h256 \<Rightarrow> u32 \<Rightarrow> dbTx \<Rightarrow> pg \<Rightarrow> bool result \<times> pg" where
  "CheckIfRootExists root network tx st =
     (case pg_query tx (\<lambda>d. Inr (list_ex (\<lambda>r. rt_root r = root \<and> rt_network r = network) (t_root d))) st of
        (Inl e, st') \<Rightarrow> (Inr False, st')
      | (Inr b, st') \<Rightarrow> (Inr b, st'))"

definition GetRoot :: "u32 \<Rightarrow> u32 \<Rightarrow> dbTx \<Rightarrow> pg \<Rightarrow> h256 result \<times> pg" where
  "GetRoot depositCnt network tx =
     pg_query tx (\<lambda>d. map_sum id (\<lambda>(r, p). rt_root r) (first_row
        (filter (\<lambda>(r, p). dep_DepositCount p = depositCnt \<and> rt_network r = network) (root_join d))))"

definition SetRoot :: "h256 \<Rightarrow> u64 \<Rightarrow> u32 \<Rightarrow> dbTx \<Rightarrow> pg \<Rightarrow> unit result \<times> pg" where
  "SetRoot root depositID network tx =
     pg_exec tx (\<lambda>d.
       if \<not> deposit_ref d depositID then Inl ErrForeignKey
       else if depositID \<in> rt_deposit_id ` set (t_root d) then Inl ErrUnique
       else Inr ((), d\<lparr>t_root := t_root d @
                        [\<lparr>rt_root = root, rt_deposit_id = depositID, rt_network = network\<rparr>]\<rparr>))"

definition GetNode :: "h256 \<Rightarrow> dbTx \<Rightarrow> pg \<Rightarrow> (h256 \<times> h256) result \<times> pg" where
  "GetNode key tx =
     pg_query tx (\<lambda>d. map_sum id (\<lambda>(k, v, i). v) (first_row (filter (\<lambda>(k, v, i). k = key) (t_rht d))))"

text \<open>The primary key of the reverse hash table is the key with the deposit.\<close>

definition rht_key :: "rht_row \<Rightarrow> h256 \<times> u64" where
  "rht_key r = (case r of (k, v, i) \<Rightarrow> (k, i))"

definition BulkSet :: "rht_row list \<Rightarrow> dbTx \<Rightarrow> pg \<Rightarrow> unit result \<times> pg" where
  "BulkSet rows tx =
     pg_exec tx (\<lambda>d.
       if \<not> list_all (\<lambda>(k, v, i). deposit_ref d i) rows then Inl ErrForeignKey
       else if \<not> distinct (map rht_key rows) \<or> \<not> set (map rht_key rows) \<inter> rht_key ` set (t_rht d) = {}
         then Inl ErrUnique
       else Inr ((), d\<lparr>t_rht := t_rht d @ rows\<rparr>))"

definition Set :: "h256 \<Rightarrow> h256 \<times> h256 \<Rightarrow> u64 \<Rightarrow> dbTx \<Rightarrow> pg \<Rightarrow> unit result \<times> pg" where
  "Set key value depositID tx = BulkSet [(key, value, depositID)] tx"

fun number_rows :: "u64 \<Rightarrow> rollup_row list \<Rightarrow> RollupExitLeaf list" where
  "number_rows i [] = []"
| "number_rows i ((leaf, rid, root, block) # rows) =
     \<lparr>rel_ID = i, rel_BlockID = block, rel_Leaf = leaf, rel_RollupId = rid, rel_Root = root\<rparr>
     # number_rows (i + 1) rows"

definition AddRollupExitLeaves :: "rollup_row list \<Rightarrow> dbTx \<Rightarrow> pg \<Rightarrow> unit result \<times> pg" where
  "AddRollupExitLeaves rows tx =
     pg_exec tx (\<lambda>d.
       case nextval (length rows) (seq_rollup_exit d) of
         Inl e \<Rightarrow> Inl e
       | Inr s \<Rightarrow>
           if \<not> list_all (\<lambda>(leaf, rid, root, block). block_ref d block) rows then Inl ErrForeignKey
           else Inr ((), d\<lparr>t_rollup_exit := t_rollup_exit d @ number_rows (seq_rollup_exit d) rows,
                           seq_rollup_exit := s\<rparr>))"

definition GetRollupExitLeavesByRoot :: "h256 \<Rightarrow> dbTx \<Rightarrow> pg \<Rightarrow> (RollupExitLeaf list) result \<times> pg" where
  "GetRollupExitLeavesByRoot root tx =
     pg_query tx (\<lambda>d. Inr (sort_key rel_RollupId (filter (\<lambda>r. rel_Root r = root) (t_rollup_exit d))))"

definition IsRollupExitRoot :: "h256 \<Rightarrow> dbTx \<Rightarrow> pg \<Rightarrow> bool result \<times> pg" where
  "IsRollupExitRoot root tx =
     pg_query tx (\<lambda>d. Inr (list_ex (\<lambda>r. rel_Root r = root) (t_rollup_exit d)))"

text \<open>For every rollup its row with the largest identifier, by rollup identifier.\<close>

definition GetLatestRollupExitLeaves :: "dbTx \<Rightarrow> pg \<Rightarrow> (RollupExitLeaf list) result \<times> pg" where
  "GetLatestRollupExitLeaves tx =
     pg_query tx (\<lambda>d. Inr (sort_key rel_RollupId (filter (\<lambda>r.
        list_all (\<lambda>r'. rel_RollupId r' = rel_RollupId r \<longrightarrow> rel_ID r' \<le> rel_ID r) (t_rollup_exit d))
        (t_rollup_exit d))))"

text \<open>A failing query is reported as the deposit count 0, without error.\<close>

definition GetLastDepositCount :: "u32 \<Rightarrow> dbTx \<Rightarrow> pg \<Rightarrow> u32 result \<times> pg" where
  "GetLastDepositCount networkID tx st =
     (case pg_query tx (\<lambda>d.
         let ids = map rt_deposit_id (filter (\<lambda>r. rt_network r = networkID) (t_root d)) in
         Inr (if ids = [] then - 1
              else max_count (map dep_DepositCount (filter (\<lambda>p. dep_Id p = fold max ids 0) (t_deposit d))))) st of
        (Inl e, st') \<Rightarrow> (Inr 0, st')
      | (Inr depositCnt, st') \<Rightarrow>
          (if depositCnt < 0 then (Inl ErrStorageNotFound, st') else (Inr (of_int depositCnt), st')))"

text \<open>The storage as the store of the Merkle trees.\<close>

definition pg_merkleTreeStore :: "pg merkleTreeStore" where
  "pg_merkleTreeStore =
     \<lparr>ms_Get = GetNode, ms_BulkSet = BulkSet, ms_GetRoot = GetRoot, ms_SetRoot = SetRoot,
      ms_GetLastDepositCount = GetLastDepositCount, ms_AddRollupExitLeaves = AddRollupExitLeaves,
      ms_GetRollupExitLeavesByRoot = GetRollupExitLeavesByRoot,
      ms_GetLatestRollupExitLeaves = GetLatestRollupExitLeaves, ms_IsRollupExitRoot = IsRollupExitRoot\<rparr>"

section \<open>Sovereign chain events\<close>

definition AddBackwardLET :: "BackwardLET \<Rightarrow> dbTx \<Rightarrow> pg \<Rightarrow> unit result \<times> pg" where
  "AddBackwardLET b tx =
     pg_exec tx (\<lambda>d. if \<not> block_ref d (bl_BlockID b) then Inl ErrForeignKey
                     else Inr ((), d\<lparr>t_backward_let := t_backward_let d @ [b]\<rparr>))"

definition AddForwardLET :: "ForwardLET \<Rightarrow> dbTx \<Rightarrow> pg \<Rightarrow> unit result \<times> pg" where
  "AddForwardLET f tx =
     pg_exec tx (\<lambda>d. if \<not> block_ref d (fl_BlockID f) then Inl ErrForeignKey
                     else Inr ((), d\<lparr>t_forward_let := t_forward_let d @ [f]\<rparr>))"

definition addSetUnsetClaim :: "string \<Rightarrow> u64 \<Rightarrow> bool \<Rightarrow> u32 \<Rightarrow> u32 \<Rightarrow> int \<Rightarrow> dbTx \<Rightarrow> pg \<Rightarrow> unit result \<times> pg" where
  "addSetUnsetClaim eventType blockID mainnetFlag rollupIndex index globalIndex tx =
     pg_exec tx (\<lambda>d. if \<not> block_ref d blockID then Inl ErrForeignKey
                     else Inr ((), d\<lparr>t_set_unset_claim := t_set_unset_claim d @
                       [\<lparr>su_block_id = blockID, su_mainnet_flag = mainnetFlag, su_rollup_index = rollupIndex,
                         su_index = index, su_global_index = globalIndex, su_type = eventType\<rparr>]\<rparr>))"

definition AddSetClaim :: "SetClaim \<Rightarrow> dbTx \<Rightarrow> pg \<Rightarrow> unit result \<times> pg" where
  "AddSetClaim s = addSetUnsetClaim ''SET'' (sc_BlockID s) (sc_MainnetFlag s) (sc_RollupIndex s)
     (sc_Index s) (sc_GlobalIndex s)"

definition AddUnsetClaim :: "UnsetClaim \<Rightarrow> dbTx \<Rightarrow> pg \<Rightarrow> unit result \<times> pg" where
  "AddUnsetClaim u = addSetUnsetClaim ''UNSET'' (uc_BlockID u) (uc_MainnetFlag u) (uc_RollupIndex u)
     (uc_Index u) (uc_GlobalIndex u)"

definition AddSyncStatus :: "SyncStatus \<Rightarrow> dbTx \<Rightarrow> pg \<Rightarrow> unit result \<times> pg" where
  "AddSyncStatus s tx =
     pg_exec tx (\<lambda>d. Inr ((), d\<lparr>t_status :=
        (if sst_NetworkID s \<in> sst_NetworkID ` set (t_status d)
         then map (\<lambda>r. if sst_NetworkID r = sst_NetworkID s then s else r) (t_status d)
         else t_status d @ [s])\<rparr>))"

definition GetSyncStatus :: "dbTx \<Rightarrow> pg \<Rightarrow> (SyncStatus list) result \<times> pg" where
  "GetSyncStatus tx = pg_query tx (\<lambda>d. Inr (sort_key sst_NetworkID (t_status d)))"

text \<open>What evaluating a statement on a given database unfolds.\<close>

lemmas pg_run = pg_exec_def pg_query_def pg_call_def pg_view_def pg_store_def pg_init_def empty_db_def nextval_def

section \<open>Queries and statements\<close>

text \<open>The database behind a handle, whether or not the transaction was aborted.\<close>

definition raw_view :: "dbTx \<Rightarrow> pg \<Rightarrow> db option" where
  "raw_view tx st = (case tx of NoTx \<Rightarrow> Some (pg_committed st) | Tx \<Rightarrow> map_option tx_view (pg_open st))"

text \<open>No pending failure and the handle usable.\<close>

definition pg_ready :: "dbTx \<Rightarrow> pg \<Rightarrow> bool" where
  "pg_ready tx st \<longleftrightarrow> True \<notin> set (pg_faults st) \<and> is_ok (pg_view tx st)"

lemma raw_view_pg_call [simp]: "pg_call st = (b, st') \<Longrightarrow> raw_view t st' = raw_view t st"
  by (auto simp: pg_call_def raw_view_def split: list.splits dbTx.splits)

lemma raw_view_pg_abort [simp]: "raw_view t (pg_abort tx st) = raw_view t st"
  by (cases "pg_open st") (auto simp: pg_abort_def raw_view_def split: dbTx.splits)

lemma raw_view_pg_store:
  "raw_view tx st = Some d \<Longrightarrow> raw_view tx (pg_store tx d' st) = Some d'"
  "t \<noteq> tx \<Longrightarrow> raw_view t (pg_store tx d' st) = raw_view t st"
  by (auto simp: pg_store_def raw_view_def split: dbTx.splits)

lemma pg_view_raw: "pg_view tx st = Inr d \<Longrightarrow> raw_view tx st = Some d"
  by (auto simp: pg_view_def raw_view_def split: dbTx.splits option.splits if_splits)

lemma pg_view_call: "pg_call st = (b, st') \<Longrightarrow> pg_view tx st' = pg_view tx st"
  by (auto simp: pg_call_def pg_view_def split: list.splits dbTx.splits)

lemma pg_query_frame: "pg_query tx f st = (x, st') \<Longrightarrow> raw_view t st' = raw_view t st"
  by (auto simp: pg_query_def split: prod.splits bool.splits sum.splits)

lemma pg_query_InrD:
  "pg_query tx f st = (Inr x, st') \<Longrightarrow> \<exists>d. raw_view tx st = Some d \<and> f d = Inr x"
  by (auto simp: pg_query_def split: prod.splits bool.splits sum.splits dest!: pg_view_raw)

lemma pg_call_ready: "pg_ready tx st \<Longrightarrow> \<exists>st'. pg_call st = (False, st') \<and> pg_ready tx st'"
  by (cases "pg_faults st")
     (auto simp: pg_ready_def pg_call_def pg_view_def split: dbTx.splits option.splits)

lemma pg_query_ready:
  assumes "pg_ready tx st"
  shows "\<exists>d st'. raw_view tx st = Some d \<and> pg_query tx f st = (f d, st') \<and> pg_ready tx st'"
proof -
  obtain st' where st': "pg_call st = (False, st')" "pg_ready tx st'" using pg_call_ready assms by blast
  then obtain d where "pg_view tx st' = Inr d" by (cases "pg_view tx st'") (auto simp: pg_ready_def)
  thus ?thesis using st' pg_view_raw [of tx st' d] by (auto simp: pg_query_def)
qed

lemma pg_exec_InrD:
  assumes "pg_exec tx f st = (Inr x, st')"
  shows "\<exists>d d'. raw_view tx st = Some d \<and> f d = Inr (x, d') \<and> raw_view tx st' = Some d' \<and>
           (\<forall>t. t \<noteq> tx \<longrightarrow> raw_view t st' = raw_view t st)"
proof -
  obtain b st1 where call: "pg_call st = (b, st1)" by fastforce
  with assms have "\<not> b" by (auto simp: pg_exec_def)
  with assms call obtain d d' where d: "pg_view tx st1 = Inr d" "f d = Inr (x, d')" "st' = pg_store tx d' st1"
    by (auto simp: pg_exec_def split: sum.splits)
  have "raw_view tx st1 = Some d" using d(1) by (rule pg_view_raw)
  thus ?thesis using d call raw_view_pg_store by simp
qed

lemma pg_exec_InrE:
  assumes "pg_exec tx f st = (Inr x, st')" and "raw_view tx st = Some d"
  obtains d' where "f d = Inr (x, d')" and "raw_view tx st' = Some d'"
    and "\<And>t. t \<noteq> tx \<Longrightarrow> raw_view t st' = raw_view t st"
proof -
  obtain d0 d' where "raw_view tx st = Some d0" "f d0 = Inr (x, d')" "raw_view tx st' = Some d'"
    "\<forall>t. t \<noteq> tx \<longrightarrow> raw_view t st' = raw_view t st"
    using pg_exec_InrD [OF assms(1)] by blast
  thus thesis using assms(2) by (intro that [of d']) simp_all
qed

lemma pg_exec_InlD: "pg_exec tx f st = (Inl e, st') \<Longrightarrow> raw_view t st' = raw_view t st"
  by (auto simp: pg_exec_def split: prod.splits bool.splits sum.splits)

lemma pg_exec_ready:
  assumes "pg_ready tx st" and "\<And>d. raw_view tx st = Some d \<Longrightarrow> \<exists>x d'. f d = Inr (x, d')"
  shows "\<exists>x st'. pg_exec tx f st = (Inr x, st') \<and> pg_ready tx st'"
proof -
  obtain st' where st': "pg_call st = (False, st')" "pg_ready tx st'" using pg_call_ready assms(1) by blast
  then obtain d where d: "pg_view tx st' = Inr d" by (cases "pg_view tx st'") (auto simp: pg_ready_def)
  hence "raw_view tx st = Some d" using st'(1) pg_view_raw by fastforce
  then obtain x d' where "f d = Inr (x, d')" using assms(2) by blast
  thus ?thesis using st' d
    by (auto simp: pg_exec_def pg_ready_def pg_store_def pg_view_def split: dbTx.splits option.splits if_splits)
qed

section \<open>The storage keeps the contract of the Merkle store\<close>

definition pg_nodes :: "dbTx \<Rightarrow> pg \<Rightarrow> node_row set" where
  "pg_nodes tx st = (case raw_view tx st of None \<Rightarrow> {} | Some d \<Rightarrow> (\<lambda>(k, v, i). (k, v)) ` set (t_rht d))"

definition pg_roots :: "dbTx \<Rightarrow> pg \<Rightarrow> (u32 \<times> u32 \<times> h256) set" where
  "pg_roots tx st =
     (case raw_view tx st of None \<Rightarrow> {}
      | Some d \<Rightarrow> (\<lambda>(r, p). (rt_network r, dep_DepositCount p, rt_root r)) ` set (root_join d))"

definition pg_deposit_counts :: "dbTx \<Rightarrow> pg \<Rightarrow> u64 \<Rightarrow> u32 set" where
  "pg_deposit_counts tx st i =
     (case raw_view tx st of None \<Rightarrow> {}
      | Some d \<Rightarrow> dep_DepositCount ` {p \<in> set (t_deposit d). dep_Id p = i})"

lemma first_row_InrD: "first_row xs = Inr x \<Longrightarrow> x \<in> set xs"
  by (auto simp: first_row_def split: list.splits)

lemma first_row_ex: "x \<in> set xs \<Longrightarrow> \<exists>y. first_row xs = Inr y"
  by (cases xs) (auto simp: first_row_def)

lemma root_join_add:
  "set (root_join (d\<lparr>t_root := t_root d @ [r]\<rparr>)) =
     set (root_join d) \<union> Pair r ` {p \<in> set (t_deposit d). dep_Id p = rt_deposit_id r}"
  by (auto simp: root_join_def)

lemma pg_views_frame:
  assumes "\<And>t. raw_view t st' = raw_view t st"
  shows "pg_nodes t st' = pg_nodes t st" and "pg_roots t st' = pg_roots t st"
  using assms by (simp_all add: pg_nodes_def pg_roots_def)

lemma GetNode_sound: "GetNode k tx st = (Inr (l, r), st') \<Longrightarrow> (k, l, r) \<in> pg_nodes tx st"
  by (force simp: GetNode_def pg_nodes_def map_sum_def dest!: pg_query_InrD first_row_InrD split: sum.splits)

lemma GetNode_ready:
  assumes "pg_ready tx st" and "(k, l, r) \<in> pg_nodes tx st"
  shows "\<exists>v st'. GetNode k tx st = (Inr v, st') \<and> pg_ready tx st'"
proof -
  let ?f = "\<lambda>d. map_sum id (\<lambda>(k, v, i). v) (first_row (filter (\<lambda>(k', v, i). k' = k) (t_rht d)))"
  obtain d st' where d: "raw_view tx st = Some d" "pg_query tx ?f st = (?f d, st')" "pg_ready tx st'"
    using pg_query_ready [OF assms(1), of ?f] by blast
  then obtain i where "(k, (l, r), i) \<in> set (t_rht d)" using assms(2) by (auto simp: pg_nodes_def)
  then obtain y where "first_row (filter (\<lambda>(k', v, i). k' = k) (t_rht d)) = Inr y"
    using first_row_ex [of "(k, (l, r), i)"] by force
  thus ?thesis using d by (auto simp: GetNode_def)
qed

lemma GetRoot_sound: "GetRoot c net tx st = (Inr r, st') \<Longrightarrow> (net, c, r) \<in> pg_roots tx st"
  by (force simp: GetRoot_def pg_roots_def map_sum_def dest!: pg_query_InrD first_row_InrD split: sum.splits)

lemma GetRoot_ready:
  assumes "pg_ready tx st" and "(net, c, r) \<in> pg_roots tx st"
  shows "\<exists>v st'. GetRoot c net tx st = (Inr v, st') \<and> pg_ready tx st'"
proof -
  let ?P = "\<lambda>(r, p). dep_DepositCount p = c \<and> rt_network r = net"
  let ?f = "\<lambda>d. map_sum id (\<lambda>(r, p). rt_root r) (first_row (filter ?P (root_join d)))"
  obtain d st' where d: "raw_view tx st = Some d" "pg_query tx ?f st = (?f d, st')" "pg_ready tx st'"
    using pg_query_ready [OF assms(1), of ?f] by blast
  then obtain x where "x \<in> set (filter ?P (root_join d))" using assms(2) by (auto simp: pg_roots_def)
  from first_row_ex [OF this] obtain y where "first_row (filter ?P (root_join d)) = Inr y" ..
  thus ?thesis using d by (auto simp: GetRoot_def)
qed

lemma SetRoot_ok:
  assumes "SetRoot r i net tx st = (Inr u, st')"
  shows "pg_nodes tx st' = pg_nodes tx st \<and>
    pg_roots tx st' = pg_roots tx st \<union> {(net, c, r) |c. c \<in> pg_deposit_counts tx st i}"
  using pg_exec_InrD [OF assms [unfolded SetRoot_def]]
  by (auto simp: pg_nodes_def pg_roots_def pg_deposit_counts_def root_join_add split: if_splits) force+

lemma root_join_rht [simp]: "root_join (d\<lparr>t_rht := x\<rparr>) = root_join d"
  by (simp add: root_join_def)

lemma BulkSet_ok:
  assumes "BulkSet rows tx st = (Inr u, st')"
  shows "pg_nodes tx st' = pg_nodes tx st \<union> (\<lambda>(k, v, i). (k, v)) ` set rows \<and>
    pg_roots tx st' = pg_roots tx st"
proof -
  obtain d where "raw_view tx st = Some d" "raw_view tx st' = Some (d\<lparr>t_rht := t_rht d @ rows\<rparr>)"
    using pg_exec_InrD [OF assms [unfolded BulkSet_def]] by (auto split: if_splits)
  thus ?thesis by (simp add: pg_nodes_def pg_roots_def image_Un)
qed

lemma GetNode_frame:
  "GetNode k tx st = (x, st') \<Longrightarrow> pg_nodes t st' = pg_nodes t st \<and> pg_roots t st' = pg_roots t st"
  unfolding GetNode_def by (simp add: pg_views_frame [of st' st, OF pg_query_frame])

lemma pg_merkle_sel:
  "ms_Get pg_merkleTreeStore = GetNode" "ms_BulkSet pg_merkleTreeStore = BulkSet"
  "ms_GetRoot pg_merkleTreeStore = GetRoot" "ms_SetRoot pg_merkleTreeStore = SetRoot"
  "ms_GetLastDepositCount pg_merkleTreeStore = GetLastDepositCount"
  "ms_AddRollupExitLeaves pg_merkleTreeStore = AddRollupExitLeaves"
  "ms_GetRollupExitLeavesByRoot pg_merkleTreeStore = GetRollupExitLeavesByRoot"
  "ms_GetLatestRollupExitLeaves pg_merkleTreeStore = GetLatestRollupExitLeaves"
  "ms_IsRollupExitRoot pg_merkleTreeStore = IsRollupExitRoot"
  by (simp_all add: pg_merkleTreeStore_def)

lemma GetRoot_frame:
  "GetRoot c net tx st = (x, st') \<Longrightarrow> pg_nodes t st' = pg_nodes t st \<and> pg_roots t st' = pg_roots t st"
  unfolding GetRoot_def by (simp add: pg_views_frame [of st' st, OF pg_query_frame])

interpretation pgm: merkle_store pg_merkleTreeStore pg_nodes pg_roots pg_deposit_counts pg_ready
  by (unfold_locales; unfold pg_merkle_sel;
      (rule GetNode_frame GetNode_sound GetNode_ready GetRoot_frame GetRoot_sound GetRoot_ready
        SetRoot_ok BulkSet_ok; assumption))

end
