(* ===== verification/Pg_Integrity.thy ===== *)
theory Pg_Integrity
  imports Pg_Storage
begin

text \<open>
  Integrity of the database: identifiers below their sequence and without repetition (increasing in
  the tables of deposits and exit roots), unique keys,
  and every reference to a block or a deposit pointing at a row.  \<open>db_ok\<close> is the invariant of one
  database and \<open>pg_ok\<close> that of the connection, committed and open view; every operation of the storage
  keeps it, the deletions because they cascade.
\<close>

section \<open>The invariant\<close>

definition blocks_ok :: "db \<Rightarrow> bool" where
  "blocks_ok d \<longleftrightarrow> distinct (map br_id (t_block d)) \<and> distinct (map br_hash (t_block d)) \<and>
     (\<forall>b\<in>set (t_block d). 0 < br_id b \<and> br_id b < seq_block d) \<and> 0 < seq_block d"

definition deposits_ok :: "db \<Rightarrow> bool" where
  "deposits_ok d \<longleftrightarrow> sorted_wrt (<) (map dep_Id (t_deposit d)) \<and>
     (\<forall>p\<in>set (t_deposit d). dep_Id p < seq_deposit d \<and> block_ref d (dep_BlockID p))"

definition exit_root_key :: "exit_root_row \<Rightarrow> u64 \<times> h256 \<times> u32" where
  "exit_root_key r = (er_block_id r, er_ger r, er_net r)"

definition exit_roots_ok :: "db \<Rightarrow> bool" where
  "exit_roots_ok d \<longleftrightarrow> sorted_wrt (<) (map er_id (t_exit_root d)) \<and> distinct (map exit_root_key (t_exit_root d)) \<and>
     (\<forall>r\<in>set (t_exit_root d). er_id r < seq_exit_root d \<and> block_ref d (er_block_id r))"

definition claims_ok :: "db \<Rightarrow> bool" where
  "claims_ok d \<longleftrightarrow> distinct (map claim_key (t_claim d)) \<and> (\<forall>c\<in>set (t_claim d). block_ref d (clm_BlockID c))"

definition tokens_ok :: "db \<Rightarrow> bool" where
  "tokens_ok d \<longleftrightarrow> distinct (map token_key (t_token_wrapped d)) \<and>
     (\<forall>t\<in>set (t_token_wrapped d). block_ref d (tok_BlockID t))"

definition trees_ok :: "db \<Rightarrow> bool" where
  "trees_ok d \<longleftrightarrow> distinct (map rt_deposit_id (t_root d)) \<and> distinct (map rht_key (t_rht d)) \<and>
     (\<forall>r\<in>set (t_root d). deposit_ref d (rt_deposit_id r)) \<and>
     list_all (\<lambda>x. deposit_ref d (snd (snd x))) (t_rht d)"

definition rollup_ok :: "db \<Rightarrow> bool" where
  "rollup_ok d \<longleftrightarrow> distinct (map rel_ID (t_rollup_exit d)) \<and>
     (\<forall>r\<in>set (t_rollup_exit d). rel_ID r < seq_rollup_exit d \<and> block_ref d (rel_BlockID r))"

definition events_ok :: "db \<Rightarrow> bool" where
  "events_ok d \<longleftrightarrow> (\<forall>b\<in>set (t_backward_let d). block_ref d (bl_BlockID b)) \<and>
     (\<forall>f\<in>set (t_forward_let d). block_ref d (fl_BlockID f)) \<and>
     (\<forall>s\<in>set (t_set_unset_claim d). block_ref d (su_block_id s)) \<and>
     list_all (\<lambda>x. block_ref d (fst x)) (t_remove_exit_root d) \<and>
     distinct (map sst_NetworkID (t_status d))"

definition monitors_ok :: "db \<Rightarrow> bool" where
  "monitors_ok d \<longleftrightarrow> distinct (map mtx_DepositID (t_monitored_txs d)) \<and>
     distinct (map grp_GroupID (t_monitored_txs_group d))"

definition db_ok :: "db \<Rightarrow> bool" where
  "db_ok d \<longleftrightarrow> blocks_ok d \<and> deposits_ok d \<and> exit_roots_ok d \<and> claims_ok d \<and> tokens_ok d \<and>
     trees_ok d \<and> rollup_ok d \<and> events_ok d \<and> monitors_ok d"

definition pg_ok :: "pg \<Rightarrow> bool" where
  "pg_ok st \<longleftrightarrow> (\<forall>t d. raw_view t st = Some d \<longrightarrow> db_ok d)"

lemmas db_ok_defs = db_ok_def blocks_ok_def deposits_ok_def exit_roots_ok_def claims_ok_def
  tokens_ok_def trees_ok_def rollup_ok_def events_ok_def monitors_ok_def

section \<open>Frames\<close>

text \<open>A reference survives as long as the table it points into only grows.\<close>

lemma block_ref_mono: "set (t_block d) \<subseteq> set (t_block d') \<Longrightarrow> block_ref d i \<Longrightarrow> block_ref d' i"
  by (auto simp: block_ref_def)

lemma block_ref_cong [simp]:
  "block_ref (d\<lparr>t_exit_root := x1\<rparr>) i = block_ref d i" "block_ref (d\<lparr>t_deposit := x2\<rparr>) i = block_ref d i"
  "block_ref (d\<lparr>t_claim := x3\<rparr>) i = block_ref d i" "block_ref (d\<lparr>t_token_wrapped := x4\<rparr>) i = block_ref d i"
  "block_ref (d\<lparr>t_root := x5\<rparr>) i = block_ref d i" "block_ref (d\<lparr>t_rht := x6\<rparr>) i = block_ref d i"
  "block_ref (d\<lparr>t_rollup_exit := x7\<rparr>) i = block_ref d i" "block_ref (d\<lparr>t_backward_let := x8\<rparr>) i = block_ref d i"
  "block_ref (d\<lparr>t_forward_let := x9\<rparr>) i = block_ref d i" "block_ref (d\<lparr>t_set_unset_claim := x10\<rparr>) i = block_ref d i"
  "block_ref (d\<lparr>t_remove_exit_root := x11\<rparr>) i = block_ref d i" "block_ref (d\<lparr>t_status := x12\<rparr>) i = block_ref d i"
  "block_ref (d\<lparr>t_monitored_txs := x13\<rparr>) i = block_ref d i"
  "block_ref (d\<lparr>t_monitored_txs_group := x14\<rparr>) i = block_ref d i"
  "block_ref (d\<lparr>seq_block := s1\<rparr>) i = block_ref d i" "block_ref (d\<lparr>seq_deposit := s2\<rparr>) i = block_ref d i"
  "block_ref (d\<lparr>seq_exit_root := s3\<rparr>) i = block_ref d i" "block_ref (d\<lparr>seq_rollup_exit := s4\<rparr>) i = block_ref d i"
  by (simp_all add: block_ref_def)

lemma deposit_ref_cong [simp]:
  "deposit_ref (d\<lparr>t_exit_root := x1\<rparr>) i = deposit_ref d i" "deposit_ref (d\<lparr>t_block := x2\<rparr>) i = deposit_ref d i"
  "deposit_ref (d\<lparr>t_claim := x3\<rparr>) i = deposit_ref d i" "deposit_ref (d\<lparr>t_token_wrapped := x4\<rparr>) i = deposit_ref d i"
  "deposit_ref (d\<lparr>t_root := x5\<rparr>) i = deposit_ref d i" "deposit_ref (d\<lparr>t_rht := x6\<rparr>) i = deposit_ref d i"
  "deposit_ref (d\<lparr>t_rollup_exit := x7\<rparr>) i = deposit_ref d i" "deposit_ref (d\<lparr>t_backward_let := x8\<rparr>) i = deposit_ref d i"
  "deposit_ref (d\<lparr>t_forward_let := x9\<rparr>) i = deposit_ref d i" "deposit_ref (d\<lparr>t_set_unset_claim := x10\<rparr>) i = deposit_ref d i"
  "deposit_ref (d\<lparr>t_remove_exit_root := x11\<rparr>) i = deposit_ref d i" "deposit_ref (d\<lparr>t_status := x12\<rparr>) i = deposit_ref d i"
  "deposit_ref (d\<lparr>t_monitored_txs := x13\<rparr>) i = deposit_ref d i"
  "deposit_ref (d\<lparr>t_monitored_txs_group := x14\<rparr>) i = deposit_ref d i"
  "deposit_ref (d\<lparr>seq_block := s1\<rparr>) i = deposit_ref d i" "deposit_ref (d\<lparr>seq_deposit := s2\<rparr>) i = deposit_ref d i"
  "deposit_ref (d\<lparr>seq_exit_root := s3\<rparr>) i = deposit_ref d i" "deposit_ref (d\<lparr>seq_rollup_exit := s4\<rparr>) i = deposit_ref d i"
  by (simp_all add: deposit_ref_def)

lemma block_ref_0 [simp, intro]: "block_ref d 0"
  by (simp add: block_ref_def)

lemma frame_t_exit_root [simp]:
  "blocks_ok (d\<lparr>t_exit_root := x\<rparr>) = blocks_ok d" "deposits_ok (d\<lparr>t_exit_root := x\<rparr>) = deposits_ok d"
  "claims_ok (d\<lparr>t_exit_root := x\<rparr>) = claims_ok d" "tokens_ok (d\<lparr>t_exit_root := x\<rparr>) = tokens_ok d"
  "trees_ok (d\<lparr>t_exit_root := x\<rparr>) = trees_ok d" "rollup_ok (d\<lparr>t_exit_root := x\<rparr>) = rollup_ok d"
  "events_ok (d\<lparr>t_exit_root := x\<rparr>) = events_ok d" "monitors_ok (d\<lparr>t_exit_root := x\<rparr>) = monitors_ok d"
  by (simp_all add: blocks_ok_def deposits_ok_def claims_ok_def tokens_ok_def trees_ok_def rollup_ok_def events_ok_def monitors_ok_def)

lemma frame_t_remove_exit_root [simp]:
  "blocks_ok (d\<lparr>t_remove_exit_root := x\<rparr>) = blocks_ok d" "deposits_ok (d\<lparr>t_remove_exit_root := x\<rparr>) = deposits_ok d"
  "exit_roots_ok (d\<lparr>t_remove_exit_root := x\<rparr>) = exit_roots_ok d" "claims_ok (d\<lparr>t_remove_exit_root := x\<rparr>) = claims_ok d"
  "tokens_ok (d\<lparr>t_remove_exit_root := x\<rparr>) = tokens_ok d" "trees_ok (d\<lparr>t_remove_exit_root := x\<rparr>) = trees_ok d"
  "rollup_ok (d\<lparr>t_remove_exit_root := x\<rparr>) = rollup_ok d" "monitors_ok (d\<lparr>t_remove_exit_root := x\<rparr>) = monitors_ok d"
  by (simp_all add: blocks_ok_def deposits_ok_def exit_roots_ok_def claims_ok_def tokens_ok_def trees_ok_def rollup_ok_def monitors_ok_def)

lemma frame_t_deposit [simp]:
  "blocks_ok (d\<lparr>t_deposit := x\<rparr>) = blocks_ok d" "exit_roots_ok (d\<lparr>t_deposit := x\<rparr>) = exit_roots_ok d"
  "claims_ok (d\<lparr>t_deposit := x\<rparr>) = claims_ok d" "tokens_ok (d\<lparr>t_deposit := x\<rparr>) = tokens_ok d"
  "rollup_ok (d\<lparr>t_deposit := x\<rparr>) = rollup_ok d" "events_ok (d\<lparr>t_deposit := x\<rparr>) = events_ok d"
  "monitors_ok (d\<lparr>t_deposit := x\<rparr>) = monitors_ok d"
  by (simp_all add: blocks_ok_def exit_roots_ok_def claims_ok_def tokens_ok_def rollup_ok_def events_ok_def monitors_ok_def)

lemma frame_t_claim [simp]:
  "blocks_ok (d\<lparr>t_claim := x\<rparr>) = blocks_ok d" "deposits_ok (d\<lparr>t_claim := x\<rparr>) = deposits_ok d"
  "exit_roots_ok (d\<lparr>t_claim := x\<rparr>) = exit_roots_ok d" "tokens_ok (d\<lparr>t_claim := x\<rparr>) = tokens_ok d"
  "trees_ok (d\<lparr>t_claim := x\<rparr>) = trees_ok d" "rollup_ok (d\<lparr>t_claim := x\<rparr>) = rollup_ok d"
  "events_ok (d\<lparr>t_claim := x\<rparr>) = events_ok d" "monitors_ok (d\<lparr>t_claim := x\<rparr>) = monitors_ok d"
  by (simp_all add: blocks_ok_def deposits_ok_def exit_roots_ok_def tokens_ok_def trees_ok_def rollup_ok_def events_ok_def monitors_ok_def)

lemma frame_t_token_wrapped [simp]:
  "blocks_ok (d\<lparr>t_token_wrapped := x\<rparr>) = blocks_ok d" "deposits_ok (d\<lparr>t_token_wrapped := x\<rparr>) = deposits_ok d"
  "exit_roots_ok (d\<lparr>t_token_wrapped := x\<rparr>) = exit_roots_ok d" "claims_ok (d\<lparr>t_token_wrapped := x\<rparr>) = claims_ok d"
  "trees_ok (d\<lparr>t_token_wrapped := x\<rparr>) = trees_ok d" "rollup_ok (d\<lparr>t_token_wrapped := x\<rparr>) = rollup_ok d"
  "events_ok (d\<lparr>t_token_wrapped := x\<rparr>) = events_ok d" "monitors_ok (d\<lparr>t_token_wrapped := x\<rparr>) = monitors_ok d"
  by (simp_all add: blocks_ok_def deposits_ok_def exit_roots_ok_def claims_ok_def trees_ok_def rollup_ok_def events_ok_def monitors_ok_def)

lemma frame_t_root [simp]:
  "blocks_ok (d\<lparr>t_root := x\<rparr>) = blocks_ok d" "deposits_ok (d\<lparr>t_root := x\<rparr>) = deposits_ok d"
  "exit_roots_ok (d\<lparr>t_root := x\<rparr>) = exit_roots_ok d" "claims_ok (d\<lparr>t_root := x\<rparr>) = claims_ok d"
  "tokens_ok (d\<lparr>t_root := x\<rparr>) = tokens_ok d" "rollup_ok (d\<lparr>t_root := x\<rparr>) = rollup_ok d"
  "events_ok (d\<lparr>t_root := x\<rparr>) = events_ok d" "monitors_ok (d\<lparr>t_root := x\<rparr>) = monitors_ok d"
  by (simp_all add: blocks_ok_def deposits_ok_def exit_roots_ok_def claims_ok_def tokens_ok_def rollup_ok_def events_ok_def monitors_ok_def)

lemma frame_t_rht [simp]:
  "blocks_ok (d\<lparr>t_rht := x\<rparr>) = blocks_ok d" "deposits_ok (d\<lparr>t_rht := x\<rparr>) = deposits_ok d"
  "exit_roots_ok (d\<lparr>t_rht := x\<rparr>) = exit_roots_ok d" "claims_ok (d\<lparr>t_rht := x\<rparr>) = claims_ok d"
  "tokens_ok (d\<lparr>t_rht := x\<rparr>) = tokens_ok d" "rollup_ok (d\<lparr>t_rht := x\<rparr>) = rollup_ok d"
  "events_ok (d\<lparr>t_rht := x\<rparr>) = events_ok d" "monitors_ok (d\<lparr>t_rht := x\<rparr>) = monitors_ok d"
  by (simp_all add: blocks_ok_def deposits_ok_def exit_roots_ok_def claims_ok_def tokens_ok_def rollup_ok_def events_ok_def monitors_ok_def)

lemma frame_t_rollup_exit [simp]:
  "blocks_ok (d\<lparr>t_rollup_exit := x\<rparr>) = blocks_ok d" "deposits_ok (d\<lparr>t_rollup_exit := x\<rparr>) = deposits_ok d"
  "exit_roots_ok (d\<lparr>t_rollup_exit := x\<rparr>) = exit_roots_ok d" "claims_ok (d\<lparr>t_rollup_exit := x\<rparr>) = claims_ok d"
  "tokens_ok (d\<lparr>t_rollup_exit := x\<rparr>) = tokens_ok d" "trees_ok (d\<lparr>t_rollup_exit := x\<rparr>) = trees_ok d"
  "events_ok (d\<lparr>t_rollup_exit := x\<rparr>) = events_ok d" "monitors_ok (d\<lparr>t_rollup_exit := x\<rparr>) = monitors_ok d"
  by (simp_all add: blocks_ok_def deposits_ok_def exit_roots_ok_def claims_ok_def tokens_ok_def trees_ok_def events_ok_def monitors_ok_def)

lemma frame_t_backward_let [simp]:
  "blocks_ok (d\<lparr>t_backward_let := x\<rparr>) = blocks_ok d" "deposits_ok (d\<lparr>t_backward_let := x\<rparr>) = deposits_ok d"
  "exit_roots_ok (d\<lparr>t_backward_let := x\<rparr>) = exit_roots_ok d" "claims_ok (d\<lparr>t_backward_let := x\<rparr>) = claims_ok d"
  "tokens_ok (d\<lparr>t_backward_let := x\<rparr>) = tokens_ok d" "trees_ok (d\<lparr>t_backward_let := x\<rparr>) = trees_ok d"
  "rollup_ok (d\<lparr>t_backward_let := x\<rparr>) = rollup_ok d" "monitors_ok (d\<lparr>t_backward_let := x\<rparr>) = monitors_ok d"
  by (simp_all add: blocks_ok_def deposits_ok_def exit_roots_ok_def claims_ok_def tokens_ok_def trees_ok_def rollup_ok_def monitors_ok_def)

lemma frame_t_forward_let [simp]:
  "blocks_ok (d\<lparr>t_forward_let := x\<rparr>) = blocks_ok d" "deposits_ok (d\<lparr>t_forward_let := x\<rparr>) = deposits_ok d"
  "exit_roots_ok (d\<lparr>t_forward_let := x\<rparr>) = exit_roots_ok d" "claims_ok (d\<lparr>t_forward_let := x\<rparr>) = claims_ok d"
  "tokens_ok (d\<lparr>t_forward_let := x\<rparr>) = tokens_ok d" "trees_ok (d\<lparr>t_forward_let := x\<rparr>) = trees_ok d"
  "rollup_ok (d\<lparr>t_forward_let := x\<rparr>) = rollup_ok d" "monitors_ok (d\<lparr>t_forward_let := x\<rparr>) = monitors_ok d"
  by (simp_all add: blocks_ok_def deposits_ok_def exit_roots_ok_def claims_ok_def tokens_ok_def trees_ok_def rollup_ok_def monitors_ok_def)

lemma frame_t_set_unset_claim [simp]:
  "blocks_ok (d\<lparr>t_set_unset_claim := x\<rparr>) = blocks_ok d" "deposits_ok (d\<lparr>t_set_unset_claim := x\<rparr>) = deposits_ok d"
  "exit_roots_ok (d\<lparr>t_set_unset_claim := x\<rparr>) = exit_roots_ok d" "claims_ok (d\<lparr>t_set_unset_claim := x\<rparr>) = claims_ok d"
  "tokens_ok (d\<lparr>t_set_unset_claim := x\<rparr>) = tokens_ok d" "trees_ok (d\<lparr>t_set_unset_claim := x\<rparr>) = trees_ok d"
  "rollup_ok (d\<lparr>t_set_unset_claim := x\<rparr>) = rollup_ok d" "monitors_ok (d\<lparr>t_set_unset_claim := x\<rparr>) = monitors_ok d"
  by (simp_all add: blocks_ok_def deposits_ok_def exit_roots_ok_def claims_ok_def tokens_ok_def trees_ok_def rollup_ok_def monitors_ok_def)

lemma frame_t_status [simp]:
  "blocks_ok (d\<lparr>t_status := x\<rparr>) = blocks_ok d" "deposits_ok (d\<lparr>t_status := x\<rparr>) = deposits_ok d"
  "exit_roots_ok (d\<lparr>t_status := x\<rparr>) = exit_roots_ok d" "claims_ok (d\<lparr>t_status := x\<rparr>) = claims_ok d"
  "tokens_ok (d\<lparr>t_status := x\<rparr>) = tokens_ok d" "trees_ok (d\<lparr>t_status := x\<rparr>) = trees_ok d"
  "rollup_ok (d\<lparr>t_status := x\<rparr>) = rollup_ok d" "monitors_ok (d\<lparr>t_status := x\<rparr>) = monitors_ok d"
  by (simp_all add: blocks_ok_def deposits_ok_def exit_roots_ok_def claims_ok_def tokens_ok_def trees_ok_def rollup_ok_def monitors_ok_def)

lemma frame_t_monitored_txs [simp]:
  "blocks_ok (d\<lparr>t_monitored_txs := x\<rparr>) = blocks_ok d" "deposits_ok (d\<lparr>t_monitored_txs := x\<rparr>) = deposits_ok d"
  "exit_roots_ok (d\<lparr>t_monitored_txs := x\<rparr>) = exit_roots_ok d" "claims_ok (d\<lparr>t_monitored_txs := x\<rparr>) = claims_ok d"
  "tokens_ok (d\<lparr>t_monitored_txs := x\<rparr>) = tokens_ok d" "trees_ok (d\<lparr>t_monitored_txs := x\<rparr>) = trees_ok d"
  "rollup_ok (d\<lparr>t_monitored_txs := x\<rparr>) = rollup_ok d" "events_ok (d\<lparr>t_monitored_txs := x\<rparr>) = events_ok d"
  by (simp_all add: blocks_ok_def deposits_ok_def exit_roots_ok_def claims_ok_def tokens_ok_def trees_ok_def rollup_ok_def events_ok_def)

lemma frame_t_monitored_txs_group [simp]:
  "blocks_ok (d\<lparr>t_monitored_txs_group := x\<rparr>) = blocks_ok d" "deposits_ok (d\<lparr>t_monitored_txs_group := x\<rparr>) = deposits_ok d"
  "exit_roots_ok (d\<lparr>t_monitored_txs_group := x\<rparr>) = exit_roots_ok d" "claims_ok (d\<lparr>t_monitored_txs_group := x\<rparr>) = claims_ok d"
  "tokens_ok (d\<lparr>t_monitored_txs_group := x\<rparr>) = tokens_ok d" "trees_ok (d\<lparr>t_monitored_txs_group := x\<rparr>) = trees_ok d"
  "rollup_ok (d\<lparr>t_monitored_txs_group := x\<rparr>) = rollup_ok d" "events_ok (d\<lparr>t_monitored_txs_group := x\<rparr>) = events_ok d"
  by (simp_all add: blocks_ok_def deposits_ok_def exit_roots_ok_def claims_ok_def tokens_ok_def trees_ok_def rollup_ok_def events_ok_def)

lemma frame_seq_block [simp]:
  "deposits_ok (d\<lparr>seq_block := x\<rparr>) = deposits_ok d" "exit_roots_ok (d\<lparr>seq_block := x\<rparr>) = exit_roots_ok d"
  "claims_ok (d\<lparr>seq_block := x\<rparr>) = claims_ok d" "tokens_ok (d\<lparr>seq_block := x\<rparr>) = tokens_ok d"
  "trees_ok (d\<lparr>seq_block := x\<rparr>) = trees_ok d" "rollup_ok (d\<lparr>seq_block := x\<rparr>) = rollup_ok d"
  "events_ok (d\<lparr>seq_block := x\<rparr>) = events_ok d" "monitors_ok (d\<lparr>seq_block := x\<rparr>) = monitors_ok d"
  by (simp_all add: deposits_ok_def exit_roots_ok_def claims_ok_def tokens_ok_def trees_ok_def rollup_ok_def events_ok_def monitors_ok_def)

lemma frame_seq_deposit [simp]:
  "blocks_ok (d\<lparr>seq_deposit := x\<rparr>) = blocks_ok d" "exit_roots_ok (d\<lparr>seq_deposit := x\<rparr>) = exit_roots_ok d"
  "claims_ok (d\<lparr>seq_deposit := x\<rparr>) = claims_ok d" "tokens_ok (d\<lparr>seq_deposit := x\<rparr>) = tokens_ok d"
  "trees_ok (d\<lparr>seq_deposit := x\<rparr>) = trees_ok d" "rollup_ok (d\<lparr>seq_deposit := x\<rparr>) = rollup_ok d"
  "events_ok (d\<lparr>seq_deposit := x\<rparr>) = events_ok d" "monitors_ok (d\<lparr>seq_deposit := x\<rparr>) = monitors_ok d"
  by (simp_all add: blocks_ok_def exit_roots_ok_def claims_ok_def tokens_ok_def trees_ok_def rollup_ok_def events_ok_def monitors_ok_def)

lemma frame_seq_exit_root [simp]:
  "blocks_ok (d\<lparr>seq_exit_root := x\<rparr>) = blocks_ok d" "deposits_ok (d\<lparr>seq_exit_root := x\<rparr>) = deposits_ok d"
  "claims_ok (d\<lparr>seq_exit_root := x\<rparr>) = claims_ok d" "tokens_ok (d\<lparr>seq_exit_root := x\<rparr>) = tokens_ok d"
  "trees_ok (d\<lparr>seq_exit_root := x\<rparr>) = trees_ok d" "rollup_ok (d\<lparr>seq_exit_root := x\<rparr>) = rollup_ok d"
  "events_ok (d\<lparr>seq_exit_root := x\<rparr>) = events_ok d" "monitors_ok (d\<lparr>seq_exit_root := x\<rparr>) = monitors_ok d"
  by (simp_all add: blocks_ok_def deposits_ok_def claims_ok_def tokens_ok_def trees_ok_def rollup_ok_def events_ok_def monitors_ok_def)

lemma frame_seq_rollup_exit [simp]:
  "blocks_ok (d\<lparr>seq_rollup_exit := x\<rparr>) = blocks_ok d" "deposits_ok (d\<lparr>seq_rollup_exit := x\<rparr>) = deposits_ok d"
  "exit_roots_ok (d\<lparr>seq_rollup_exit := x\<rparr>) = exit_roots_ok d" "claims_ok (d\<lparr>seq_rollup_exit := x\<rparr>) = claims_ok d"
  "tokens_ok (d\<lparr>seq_rollup_exit := x\<rparr>) = tokens_ok d" "trees_ok (d\<lparr>seq_rollup_exit := x\<rparr>) = trees_ok d"
  "events_ok (d\<lparr>seq_rollup_exit := x\<rparr>) = events_ok d" "monitors_ok (d\<lparr>seq_rollup_exit := x\<rparr>) = monitors_ok d"
  by (simp_all add: blocks_ok_def deposits_ok_def exit_roots_ok_def claims_ok_def tokens_ok_def trees_ok_def events_ok_def monitors_ok_def)

lemma nextval_InrD:
  assumes "nextval n s = Inr s'"
  shows "unat s' = unat s + n"
proof -
  have le: "unat s + n \<le> 2 ^ 63" and s': "s' = s + of_nat n"
    using assms by (auto simp: nextval_def split: if_splits)
  hence "n < 2 ^ 64" by simp
  thus ?thesis using le by (simp add: s' unat_word_ariths unat_of_nat)
qed

lemma nextval_one: "nextval 1 s = Inr s' \<Longrightarrow> s < s' \<and> (x < s' \<longleftrightarrow> x \<le> s)"
  by (drule nextval_InrD) (auto simp: word_less_nat_alt word_le_nat_alt)

section \<open>Statements keep the invariant\<close>

lemma pg_ok_query: "pg_ok st \<Longrightarrow> pg_query tx f st = (x, st') \<Longrightarrow> pg_ok st'"
  by (simp add: pg_ok_def pg_query_frame [of tx f st x st'])

lemma pg_ok_exec:
  assumes "pg_ok st" and "pg_exec tx f st = (x, st')"
    and "\<And>d y d'. db_ok d \<Longrightarrow> f d = Inr (y, d') \<Longrightarrow> db_ok d'"
  shows "pg_ok st'"
proof (cases x)
  case (Inl e)
  thus ?thesis using assms(1,2) pg_exec_InlD by (fastforce simp: pg_ok_def)
next
  case (Inr y)
  from pg_exec_InrD [OF assms(2) [unfolded Inr]] obtain d d' where
    d: "raw_view tx st = Some d" "f d = Inr (y, d')" "raw_view tx st' = Some d'"
    "\<forall>t. t \<noteq> tx \<longrightarrow> raw_view t st' = raw_view t st" by blast
  have "db_ok d'" using assms(1,3) d(1,2) unfolding pg_ok_def by blast
  thus ?thesis using d assms(1) unfolding pg_ok_def by (metis option.inject)
qed

lemma pg_ok_AddBlock: "pg_ok st \<Longrightarrow> AddBlock b tx st = (x, st') \<Longrightarrow> pg_ok st'"
  unfolding AddBlock_def
proof (erule pg_ok_exec, assumption)
  fix d y d'
  assume ok: "db_ok d"
    and run: "(case nextval 1 (seq_block d) of Inl e \<Rightarrow> Inl e
       | Inr s \<Rightarrow>
           (case filter (\<lambda>b'. br_hash b' = blk_BlockHash b) (t_block d) of
              [] \<Rightarrow> Inr (seq_block d, d\<lparr>t_block := t_block d @
                       [\<lparr>br_id = seq_block d, br_num = blk_BlockNumber b, br_hash = blk_BlockHash b,
                         br_net = blk_NetworkID b\<rparr>], seq_block := s\<rparr>)
            | b # _ \<Rightarrow> Inr (br_id b, d\<lparr>seq_block := s\<rparr>))) = Inr (y, d')"
  then obtain s where s: "nextval 1 (seq_block d) = Inr s" by (auto split: sum.splits)
  note nv = nextval_one [OF s]
  have ref: "block_ref d i \<Longrightarrow> block_ref d' i" for i
    by (rule block_ref_mono) (use run s in \<open>auto split: list.splits\<close>)
  have dref: "deposit_ref d' i = deposit_ref d i" for i
    using run s by (auto simp: deposit_ref_def split: list.splits)
  have "blocks_ok d'"
    using ok run s nv by (fastforce simp: db_ok_def blocks_ok_def filter_empty_conv split: list.splits)
  moreover have "list_all (\<lambda>x. block_ref d' (fst x)) xs" if "list_all (\<lambda>x. block_ref d (fst x)) xs"
    for xs :: "(u64 \<times> h256 \<times> u32) list" using that ref by (auto simp: list_all_iff)
  ultimately show "db_ok d'" using ok run s ref dref by (auto simp: db_ok_defs split: list.splits)
qed

lemma distinct_map_filter: "distinct (map f xs) \<Longrightarrow> distinct (map f (filter P xs))"
  by (induction xs) auto

lemma sorted_map_filter: "sorted_wrt (<) (map f xs) \<Longrightarrow> sorted_wrt (<) (map f (filter P xs))"
  by (induction xs) auto

lemma db_ok_delete_deposits: "db_ok d \<Longrightarrow> db_ok (delete_deposits P d)"
  by (auto simp: db_ok_def deposits_ok_def trees_ok_def delete_deposits_def Let_def deposit_ref_def
      distinct_map_filter sorted_map_filter list_all_iff)

lemma block_ref_delete_blocks:
  "block_ref (delete_blocks P d) i \<longleftrightarrow> i = 0 \<or> (\<exists>b\<in>set (t_block d). br_id b = i \<and> \<not> P b)"
  by (auto simp: block_ref_def delete_blocks_def Let_def)

lemma db_ok_delete_blocks: "db_ok d \<Longrightarrow> db_ok (delete_blocks P d)"
  by (auto simp: db_ok_defs delete_blocks_def delete_deposits_def Let_def deposit_ref_def block_ref_def
      distinct_map_filter sorted_map_filter list_all_iff)

lemma pg_ok_Reset: "pg_ok st \<Longrightarrow> Reset n net tx st = (x, st') \<Longrightarrow> pg_ok st'"
  unfolding Reset_def by (erule pg_ok_exec) (auto intro: db_ok_delete_blocks)

lemma pg_ok_ResetDeposits: "pg_ok st \<Longrightarrow> ResetDeposits n net tx st = (x, st') \<Longrightarrow> pg_ok st'"
  unfolding ResetDeposits_def
  by (auto split: if_splits elim!: pg_ok_exec intro: db_ok_delete_deposits)

lemma db_ok_insert_exit_root:
  assumes "db_ok d" and "nextval (Suc 0) (seq_exit_root d) = Inr s" and "block_ref d i"
    and "\<not> exit_root_taken i ger net d"
  shows "db_ok (insert_exit_root i ger roots net s d)"
proof -
  have "(i, ger, net) \<notin> exit_root_key ` set (t_exit_root d)"
    using assms(4) by (auto simp: exit_root_taken_def exit_root_key_def list_ex_iff)
  moreover have "seq_exit_root d \<notin> er_id ` set (t_exit_root d)" using assms(1) by (auto simp: db_ok_defs)
  ultimately have "exit_roots_ok (insert_exit_root i ger roots net s d)"
    using assms(1,3) nextval_one [unfolded One_nat_def, OF assms(2)]
    by (auto simp: db_ok_def exit_roots_ok_def insert_exit_root_def exit_root_key_def sorted_wrt_append)
  thus ?thesis using assms(1) by (auto simp: db_ok_defs insert_exit_root_def)
qed

lemma pg_ok_AddGlobalExitRoot:
  assumes "pg_ok st" and run: "AddGlobalExitRoot g tx st = (x, st')"
  shows "pg_ok st'"
proof (cases "if length (ger_ExitRoots g) \<noteq> 0 then two_roots (ger_ExitRoots g) else Inr []")
  case (Inl e)
  thus ?thesis using assms unfolding AddGlobalExitRoot_def Inl by simp
next
  case (Inr roots)
  show ?thesis
    by (rule pg_ok_exec [OF assms(1) run [unfolded AddGlobalExitRoot_def Inr sum.case]])
       (auto intro: db_ok_insert_exit_root split: sum.splits if_splits)
qed

lemma db_ok_seq_exit_root:
  "db_ok d \<Longrightarrow> nextval (Suc 0) (seq_exit_root d) = Inr s \<Longrightarrow> db_ok (d\<lparr>seq_exit_root := s\<rparr>)"
  by (drule nextval_one [unfolded One_nat_def]) (fastforce simp: db_ok_defs)

lemma pg_ok_AddTrustedGlobalExitRoot:
  assumes "pg_ok st" and run: "AddTrustedGlobalExitRoot g tx st = (x, st')"
  shows "pg_ok st'"
proof (cases "two_roots (ger_ExitRoots g)")
  case (Inl e)
  thus ?thesis using assms by (simp add: AddTrustedGlobalExitRoot_def)
next
  case (Inr roots)
  show ?thesis
    by (rule pg_ok_exec [OF assms(1) run [unfolded AddTrustedGlobalExitRoot_def Inr sum.case]])
       (auto intro: db_ok_insert_exit_root db_ok_seq_exit_root split: sum.splits if_splits)
qed

lemma pg_ok_UpdateL2GER: "pg_ok st \<Longrightarrow> UpdateL2GER g tx st = (x, st') \<Longrightarrow> pg_ok st'"
proof -
  have keys: "map er_id (map (\<lambda>r. if Q r then r\<lparr>er_exit_roots := e\<rparr> else r) xs) = map er_id xs"
    "map exit_root_key (map (\<lambda>r. if Q r then r\<lparr>er_exit_roots := e\<rparr> else r) xs) = map exit_root_key xs"
    for Q e xs by (auto simp: exit_root_key_def)
  have "db_ok d \<Longrightarrow> db_ok (d\<lparr>t_exit_root := map (\<lambda>r. if Q r then r\<lparr>er_exit_roots := e\<rparr> else r) (t_exit_root d)\<rparr>)"
    for d Q e by (simp add: db_ok_def exit_roots_ok_def keys del: map_map) auto
  thus "pg_ok st \<Longrightarrow> UpdateL2GER g tx st = (x, st') \<Longrightarrow> pg_ok st'"
    unfolding UpdateL2GER_def by (auto split: sum.splits elim!: pg_ok_exec)
qed

lemma pg_ok_AddDeposit: "pg_ok st \<Longrightarrow> AddDeposit p tx st = (x, st') \<Longrightarrow> pg_ok st'"
  unfolding AddDeposit_def
proof (erule pg_ok_exec, assumption)
  fix d y d'
  assume ok: "db_ok d"
    and run: "(case nextval 1 (seq_deposit d) of Inl e \<Rightarrow> Inl e
       | Inr s \<Rightarrow> if \<not> block_ref d (dep_BlockID p) then Inl ErrForeignKey
           else Inr (seq_deposit d,
                  d\<lparr>t_deposit := t_deposit d @ [new_deposit_row (seq_deposit d) p], seq_deposit := s\<rparr>)) = Inr (y, d')"
  then obtain s where s: "nextval 1 (seq_deposit d) = Inr s" "block_ref d (dep_BlockID p)"
    "d' = d\<lparr>t_deposit := t_deposit d @ [new_deposit_row (seq_deposit d) p], seq_deposit := s\<rparr>"
    by (auto split: sum.splits if_splits)
  have row: "dep_Id (new_deposit_row i p) = i" "dep_BlockID (new_deposit_row i p) = dep_BlockID p" for i
    by (simp_all add: new_deposit_row_def Deposit.defs deposit_row.defs)
  have "seq_deposit d \<notin> dep_Id ` set (t_deposit d)" using ok by (auto simp: db_ok_defs)
  hence "deposits_ok d'" using ok s nextval_one [OF s(1)]
    by (auto simp: db_ok_def deposits_ok_def row sorted_wrt_append)
  moreover have mono: "deposit_ref d i \<Longrightarrow> deposit_ref d' i" for i by (auto simp: deposit_ref_def s(3))
  moreover have "trees_ok d'" using ok mono by (auto simp: db_ok_def trees_ok_def s(3) list_all_iff)
  ultimately show "db_ok d'" using ok by (simp add: db_ok_def s(3))
qed

lemma row_keys [simp]:
  "claim_key (c\<lparr>clm_BlockNumber := n\<rparr>) = claim_key c"
  "token_key (t\<lparr>tok_TokenMetadata := m\<rparr>) = token_key t" "token_key (t\<lparr>tok_BlockNumber := n'\<rparr>) = token_key t"
  by (simp_all add: claim_key_def token_key_def)

lemma pg_ok_AddClaim: "pg_ok st \<Longrightarrow> AddClaim c tx st = (x, st') \<Longrightarrow> pg_ok st'"
  unfolding AddClaim_def
  by (erule pg_ok_exec, assumption) (auto simp: db_ok_def claims_ok_def split: if_splits)

lemma pg_ok_DeleteClaimByGlobalIndex:
  "pg_ok st \<Longrightarrow> DeleteClaimByGlobalIndex g net tx st = (x, st') \<Longrightarrow> pg_ok st'"
  unfolding DeleteClaimByGlobalIndex_def
  by (erule pg_ok_exec, assumption) (auto simp: db_ok_def claims_ok_def distinct_map_filter)

lemma pg_ok_insert_token: "pg_ok st \<Longrightarrow> insert_token t m tx st = (x, st') \<Longrightarrow> pg_ok st'"
  unfolding insert_token_def
  by (erule pg_ok_exec, assumption) (auto simp: db_ok_def tokens_ok_def split: if_splits)

lemma pg_ok_AddTokenWrapped: "pg_ok st \<Longrightarrow> AddTokenWrapped decode t tx st = (x, st') \<Longrightarrow> pg_ok st'"
  unfolding AddTokenWrapped_def GetTokenMetadata_def
  by (auto split: prod.splits sum.splits if_splits dest: pg_ok_query pg_ok_insert_token)

lemma pg_ok_SetRoot: "pg_ok st \<Longrightarrow> SetRoot r i net tx st = (x, st') \<Longrightarrow> pg_ok st'"
  unfolding SetRoot_def by (erule pg_ok_exec, assumption) (auto simp: db_ok_def trees_ok_def split: if_splits)

lemma pg_ok_BulkSet: "pg_ok st \<Longrightarrow> BulkSet rows tx st = (x, st') \<Longrightarrow> pg_ok st'"
  unfolding BulkSet_def
proof (erule pg_ok_exec, assumption)
  fix d y d'
  assume ok: "db_ok d"
    and run: "(if \<not> list_all (\<lambda>(k, v, i). deposit_ref d i) rows then Inl ErrForeignKey
       else if \<not> distinct (map rht_key rows) \<or> \<not> set (map rht_key rows) \<inter> rht_key ` set (t_rht d) = {}
         then Inl ErrUnique
       else Inr ((), d\<lparr>t_rht := t_rht d @ rows\<rparr>)) = Inr (y, d')"
  hence refs: "list_all (\<lambda>x. deposit_ref d (snd (snd x))) rows"
    and keys: "distinct (map rht_key rows)" "set (map rht_key rows) \<inter> rht_key ` set (t_rht d) = {}"
    and d': "d' = d\<lparr>t_rht := t_rht d @ rows\<rparr>"
    by (simp_all add: case_prod_beta' split: if_splits)
  have "trees_ok d'" using ok refs keys by (simp add: d' db_ok_def trees_ok_def Int_commute)
  thus "db_ok d'" using ok by (simp add: d' db_ok_def)
qed

lemma number_rows_ids: "map rel_ID (number_rows i rows) = map (\<lambda>k. i + of_nat k) [0..<length rows]"
proof (induction i rows rule: number_rows.induct)
  case (2 i leaf rid root block rows)
  have "[0..<Suc (length rows)] = 0 # map Suc [0..<length rows]" by (simp add: upt_conv_Cons map_Suc_upt del: upt_Suc)
  thus ?case using 2 by (simp add: comp_def add.assoc del: upt_Suc)
qed simp

lemma number_rows_blocks: "rel_BlockID ` set (number_rows i rows) = (\<lambda>(leaf, rid, root, block). block) ` set rows"
  by (induction i rows rule: number_rows.induct) auto

lemma pg_ok_AddRollupExitLeaves: "pg_ok st \<Longrightarrow> AddRollupExitLeaves rows tx st = (x, st') \<Longrightarrow> pg_ok st'"
  unfolding AddRollupExitLeaves_def
proof (erule pg_ok_exec, assumption)
  fix d y d'
  assume ok: "db_ok d"
    and run: "(case nextval (length rows) (seq_rollup_exit d) of Inl e \<Rightarrow> Inl e
       | Inr s \<Rightarrow> if \<not> list_all (\<lambda>(leaf, rid, root, block). block_ref d block) rows then Inl ErrForeignKey
           else Inr ((), d\<lparr>t_rollup_exit := t_rollup_exit d @ number_rows (seq_rollup_exit d) rows,
                           seq_rollup_exit := s\<rparr>)) = Inr (y, d')"
  then obtain s where s: "nextval (length rows) (seq_rollup_exit d) = Inr s"
    "list_all (\<lambda>(leaf, rid, root, block). block_ref d block) rows"
    "d' = d\<lparr>t_rollup_exit := t_rollup_exit d @ number_rows (seq_rollup_exit d) rows, seq_rollup_exit := s\<rparr>"
    by (auto split: sum.splits if_splits)
  let ?s = "seq_rollup_exit d" and ?new = "number_rows (seq_rollup_exit d) rows"
  have us: "unat s = unat ?s + length rows" by (rule nextval_InrD [OF s(1)])
  have uk: "unat (?s + of_nat k) = unat ?s + k" if "k < length rows" for k
    using that us unat_less [of s] by (simp add: unat_word_ariths unat_of_nat)
  have old: "\<forall>r\<in>set (t_rollup_exit d). rel_ID r < ?s" using ok by (auto simp: db_ok_defs)
  have ids: "rel_ID ` set ?new = (\<lambda>k. ?s + of_nat k) ` {0..<length rows}"
    using arg_cong [OF number_rows_ids [of ?s rows], of set] by simp
  have "distinct (map rel_ID ?new)"
    unfolding number_rows_ids distinct_map by (auto intro!: inj_onI) (metis uk add_left_cancel)
  moreover have "rel_ID ` set (t_rollup_exit d) \<inter> rel_ID ` set ?new = {}"
    using old uk unfolding ids by (fastforce simp: word_less_nat_alt)
  moreover have "\<forall>r\<in>set ?new. rel_ID r < s"
  proof
    fix r assume "r \<in> set ?new"
    then obtain k where "k < length rows" "rel_ID r = ?s + of_nat k" using ids by (force simp: image_iff)
    thus "rel_ID r < s" using uk us by (simp add: word_less_nat_alt)
  qed
  moreover have "\<forall>r\<in>set ?new. block_ref d (rel_BlockID r)"
    using s(2) number_rows_blocks [of ?s rows] by (force simp: list_all_iff)
  moreover have "\<forall>r\<in>set (t_rollup_exit d). rel_ID r < s" using old us by (auto simp: word_less_nat_alt)
  ultimately have "rollup_ok d'" using ok by (auto simp: db_ok_def rollup_ok_def s(3))
  thus "db_ok d'" using ok by (simp add: db_ok_def s(3))
qed

lemma pg_ok_events:
  "pg_ok st \<Longrightarrow> AddBackwardLET b tx st = (x, st') \<Longrightarrow> pg_ok st'"
  "pg_ok st \<Longrightarrow> AddForwardLET f tx st = (x, st') \<Longrightarrow> pg_ok st'"
  "pg_ok st \<Longrightarrow> AddSetClaim s tx st = (x, st') \<Longrightarrow> pg_ok st'"
  "pg_ok st \<Longrightarrow> AddUnsetClaim u tx st = (x, st') \<Longrightarrow> pg_ok st'"
  unfolding AddBackwardLET_def AddForwardLET_def AddSetClaim_def AddUnsetClaim_def addSetUnsetClaim_def
  by (erule pg_ok_exec, assumption, force simp: db_ok_def events_ok_def split: if_splits)+

lemma pg_ok_AddSyncStatus: "pg_ok st \<Longrightarrow> AddSyncStatus s tx st = (x, st') \<Longrightarrow> pg_ok st'"
  unfolding AddSyncStatus_def
proof (erule pg_ok_exec, assumption)
  fix d y d'
  have eq: "map sst_NetworkID (map (\<lambda>r. if sst_NetworkID r = n then s else r) xs) = map sst_NetworkID xs"
    if "sst_NetworkID s = n" for xs n using that by auto
  assume "db_ok d" and "Inr ((), d\<lparr>t_status :=
        (if sst_NetworkID s \<in> sst_NetworkID ` set (t_status d)
         then map (\<lambda>r. if sst_NetworkID r = sst_NetworkID s then s else r) (t_status d)
         else t_status d @ [s])\<rparr>) = Inr (y, d')"
  thus "db_ok d'" by (auto simp: db_ok_def events_ok_def eq simp del: map_map split: if_splits)
qed

section \<open>Transactions keep the invariant\<close>

lemma db_ok_keep_seqs:
  assumes "db_ok d"
  shows "db_ok (keep_seqs v d)"
proof -
  have less: "(x::u64) < b \<Longrightarrow> x < max a b" for x a b by (simp add: less_max_iff_disj)
  show ?thesis
    using assms by (auto simp: db_ok_def blocks_ok_def deposits_ok_def exit_roots_ok_def rollup_ok_def
        keep_seqs_def intro!: less)
qed

lemma db_ok_empty: "db_ok empty_db"
  by (simp add: db_ok_defs empty_db_def)

lemma pg_ok_init: "pg_ok pg_init"
  by (auto simp: pg_ok_def raw_view_def pg_init_def db_ok_empty split: dbTx.splits)

lemma pg_ok_alt:
  "pg_ok st \<longleftrightarrow> db_ok (pg_committed st) \<and> (\<forall>t. pg_open st = Some t \<longrightarrow> db_ok (tx_view t))"
  by (auto simp: pg_ok_def raw_view_def split: dbTx.splits)

lemma pg_ok_call: "pg_ok st \<Longrightarrow> pg_call st = (b, st') \<Longrightarrow> pg_ok st'"
  by (auto simp: pg_ok_def)

lemma pg_ok_discard: "pg_ok st \<Longrightarrow> pg_ok (pg_discard t st)"
  by (auto simp: pg_ok_alt pg_discard_def db_ok_keep_seqs)

lemma pg_ok_BeginDBTransaction:
  assumes "pg_ok st" and "BeginDBTransaction st = (x, st')"
  shows "pg_ok st'"
proof -
  obtain b st1 where call: "pg_call st = (b, st1)" by fastforce
  have "pg_ok st1" using assms(1) call by (rule pg_ok_call)
  thus ?thesis using assms(2) call by (cases b) (auto simp: BeginDBTransaction_def pg_ok_alt)
qed

lemma pg_ok_Rollback: "pg_ok st \<Longrightarrow> Rollback tx st = (x, st') \<Longrightarrow> pg_ok st'"
  by (auto simp: Rollback_def split: dbTx.splits option.splits prod.splits bool.splits
      intro: pg_ok_discard dest: pg_ok_call)

lemma pg_ok_Commit:
  assumes "pg_ok st" and "Commit tx st = (x, st')"
  shows "pg_ok st'"
proof (cases "pg_open st")
  case None
  thus ?thesis using assms by (auto simp: Commit_def split: dbTx.splits)
next
  case (Some t)
  obtain b st1 where call: "pg_call st = (b, st1)" by fastforce
  have "pg_ok st1" using assms(1) call by (rule pg_ok_call)
  moreover have "db_ok (tx_view t)" using assms(1) Some by (simp add: pg_ok_alt)
  ultimately show ?thesis
    using assms Some call pg_ok_discard [of st1 t]
    by (cases b) (auto simp: Commit_def pg_ok_alt split: dbTx.splits if_splits)
qed

end
