(* ===== verification/Bridge_Ctrl.thy ===== *)
theory Bridge_Ctrl
  imports Pg_Integrity
begin

text \<open>
  \<^verbatim>\<open>bridgectrl/bridgectrl.go\<close>: the controller with one exit tree per network and the rollup exit
  tree.  \<open>net_tree\<close> relates the rows a database holds for a network to the list of the leaves of its
  deposits; the lemmas show that adding a deposit extends that list, that the in-memory tree keeps
  mirroring it, and that rebuilding a tree from the database (at start, after a rollback or a
  reorganisation) gives the tree of the deposits that are stored.
\<close>

section \<open>Definitions\<close>

record BridgeController =
  bc_exitTrees :: "MerkleTree list"
  bc_rollupsTree :: MerkleTree
  bc_merkleTreeIDs :: "u32 \<rightharpoonup> u32"

text \<open>\<^verbatim>\<open>math.MaxInt32\<close>, the network identifier of the rollup exit tree.\<close>

definition rollupsTreeID :: u32 where
  "rollupsTreeID = 2147483647"

fun new_trees :: "'st merkleTreeStore \<Rightarrow> keccak \<Rightarrow> u8 \<Rightarrow> nat \<Rightarrow> u32 list \<Rightarrow> (u32 \<rightharpoonup> u32) \<Rightarrow> MerkleTree list \<Rightarrow> 'st
    \<Rightarrow> (MerkleTree list \<times> (u32 \<rightharpoonup> u32)) result \<times> 'st" where
  "new_trees S K height i [] ids trees st = (Inr (trees, ids), st)"
| "new_trees S K height i (networkID # nets) ids trees st =
     (case NewMerkleTree S K height networkID st of
        (Inl e, st') \<Rightarrow> (Inl e, st')
      | (Inr mt, st') \<Rightarrow>
          new_trees S K height (i + 1) nets (ids(networkID \<mapsto> of_nat i)) (trees @ [mt]) st')"

definition NewBridgeController :: "'st merkleTreeStore \<Rightarrow> keccak \<Rightarrow> u8 \<Rightarrow> u32 list \<Rightarrow> 'st
    \<Rightarrow> BridgeController result \<times> 'st" where
  "NewBridgeController S K height networkIDs st =
     (case new_trees S K height 0 networkIDs Map.empty [] st of
        (Inl e, st1) \<Rightarrow> (Inl e, st1)
      | (Inr (exitTrees, merkleTreeIDs), st1) \<Rightarrow>
          (case NewMerkleTree S K height rollupsTreeID st1 of
             (Inl e, st2) \<Rightarrow> (Inl e, st2)
           | (Inr rollupsTree, st2) \<Rightarrow>
               (Inr \<lparr>bc_exitTrees = exitTrees, bc_rollupsTree = rollupsTree,
                     bc_merkleTreeIDs = merkleTreeIDs\<rparr>, st2)))"

definition GetMerkleTreeID :: "BridgeController \<Rightarrow> u32 \<Rightarrow> u32 result" where
  "GetMerkleTreeID bt networkID =
     (case bc_merkleTreeIDs bt networkID of None \<Rightarrow> Inl ErrNetworkNotRegister | Some tID \<Rightarrow> Inr tID)"

text \<open>The exit tree of a network, \<^verbatim>\<open>bt.exitTrees[tID]\<close>, and a method called on it: the tree is a
  pointer, so the method's changes stay.\<close>

definition exit_tree :: "BridgeController \<Rightarrow> u32 \<Rightarrow> (nat \<times> MerkleTree) result" where
  "exit_tree bt networkID =
     (case GetMerkleTreeID bt networkID of
        Inl e \<Rightarrow> Inl e
      | Inr tID \<Rightarrow>
          (case idx (bc_exitTrees bt) (unat tID) of Inl e \<Rightarrow> Inl e | Inr mt \<Rightarrow> Inr (unat tID, mt)))"

definition on_exit_tree :: "BridgeController \<Rightarrow> u32 \<Rightarrow> (MerkleTree \<Rightarrow> 'st \<Rightarrow> unit result \<times> MerkleTree \<times> 'st) \<Rightarrow> 'st
    \<Rightarrow> unit result \<times> BridgeController \<times> 'st" where
  "on_exit_tree bt networkID f st =
     (case exit_tree bt networkID of
        Inl e \<Rightarrow> (Inl e, bt, st)
      | Inr (i, mt) \<Rightarrow>
          (case f mt st of (r, mt', st') \<Rightarrow>
             (r, bt\<lparr>bc_exitTrees := (bc_exitTrees bt)[i := mt']\<rparr>, st')))"

definition bc_AddDeposit :: "'st merkleTreeStore \<Rightarrow> keccak \<Rightarrow> BridgeController \<Rightarrow> Deposit \<Rightarrow> dbTx \<Rightarrow> 'st
    \<Rightarrow> unit result \<times> BridgeController \<times> 'st" where
  "bc_AddDeposit S K bt deposit tx st =
     (case HashDeposit K deposit of
        Inl e \<Rightarrow> (Inl e, bt, st)
      | Inr leaf \<Rightarrow>
          on_exit_tree bt (dep_NetworkID deposit)
            (\<lambda>mt. addLeaf S K mt (dep_Id deposit) leaf (dep_DepositCount deposit) tx) st)"

definition ReorgMT :: "'st merkleTreeStore \<Rightarrow> keccak \<Rightarrow> BridgeController \<Rightarrow> u32 \<Rightarrow> u32 \<Rightarrow> dbTx \<Rightarrow> 'st
    \<Rightarrow> unit result \<times> BridgeController \<times> 'st" where
  "ReorgMT S K bt depositCount networkID tx st =
     on_exit_tree bt networkID (\<lambda>mt. resetLeaf S K mt depositCount tx) st"

definition RollbackMT :: "'st merkleTreeStore \<Rightarrow> keccak \<Rightarrow> BridgeController \<Rightarrow> u32 \<Rightarrow> dbTx \<Rightarrow> 'st
    \<Rightarrow> unit result \<times> BridgeController \<times> 'st" where
  "RollbackMT S K bt networkID tx st =
     on_exit_tree bt networkID (\<lambda>mt. rollbackMT S K mt networkID tx) st"

definition GetExitRoot :: "'st merkleTreeStore \<Rightarrow> keccak \<Rightarrow> BridgeController \<Rightarrow> u32 \<Rightarrow> dbTx \<Rightarrow> 'st
    \<Rightarrow> h256 result \<times> 'st" where
  "GetExitRoot S K bt networkID tx st =
     (case exit_tree bt networkID of
        Inl e \<Rightarrow> (Inl e, st)
      | Inr (i, mt) \<Rightarrow> getRoot S K mt tx st)"

definition AddRollupExitLeaf :: "'st merkleTreeStore \<Rightarrow> keccak \<Rightarrow> BridgeController \<Rightarrow> RollupExitLeaf \<Rightarrow> dbTx \<Rightarrow> 'st
    \<Rightarrow> unit result \<times> 'st" where
  "AddRollupExitLeaf S K bt rollupLeaf tx st =
     addRollupExitLeaf S K (bc_rollupsTree bt) rollupLeaf tx st"

section \<open>The rows of a network\<close>

text \<open>The deposits of a network, in the order they were stored.\<close>

definition net_deposits :: "u32 \<Rightarrow> db \<Rightarrow> deposit_row list" where
  "net_deposits net d = filter (\<lambda>p. dep_NetworkID p = net) (t_deposit d)"

text \<open>Deposit \<open>i\<close> has count \<open>i\<close> and leaf \<open>ls ! i\<close>, its root is stored and so is its path.\<close>

definition deposit_stored :: "keccak \<Rightarrow> nat \<Rightarrow> u32 \<Rightarrow> db \<Rightarrow> h256 list \<Rightarrow> nat \<Rightarrow> deposit_row \<Rightarrow> bool" where
  "deposit_stored K H net d ls i p \<longleftrightarrow>
     dep_DepositCount p = of_nat i \<and> HashDeposit K (Deposit.truncate p) = Inr (ls ! i) \<and>
     \<lparr>rt_root = tree_root K H (take (Suc i) ls), rt_deposit_id = dep_Id p, rt_network = net\<rparr> \<in> set (t_root d) \<and>
     (\<forall>(k, v)\<in>set (path_rows K H (take (Suc i) ls) i). (k, v, dep_Id p) \<in> set (t_rht d))"

definition net_tree :: "keccak \<Rightarrow> nat \<Rightarrow> u32 \<Rightarrow> db \<Rightarrow> h256 list \<Rightarrow> bool" where
  "net_tree K H net d ls \<longleftrightarrow>
     length (net_deposits net d) = length ls \<and>
     (\<forall>i<length ls. deposit_stored K H net d ls i (net_deposits net d ! i)) \<and>
     (\<forall>r\<in>set (t_root d). rt_network r = net \<longrightarrow> rt_deposit_id r \<in> dep_Id ` set (net_deposits net d))"

lemma distinct_dep_Id: "db_ok d \<Longrightarrow> distinct (map dep_Id (t_deposit d))"
  by (simp add: db_ok_def deposits_ok_def strict_sorted_iff)

lemma net_deposits_sorted: "db_ok d \<Longrightarrow> sorted_wrt (<) (map dep_Id (net_deposits net d))"
  by (simp add: db_ok_def deposits_ok_def net_deposits_def sorted_map_filter)

lemma net_deposits_in: "p \<in> set (net_deposits net d) \<longleftrightarrow> p \<in> set (t_deposit d) \<and> dep_NetworkID p = net"
  by (auto simp: net_deposits_def)

lemma dep_Id_inj: "db_ok d \<Longrightarrow> p \<in> set (t_deposit d) \<Longrightarrow> p' \<in> set (t_deposit d) \<Longrightarrow> dep_Id p = dep_Id p' \<Longrightarrow> p = p'"
  using distinct_dep_Id by (metis distinct_map inj_onD)

lemma root_joinD: "(r, p) \<in> set (root_join d) \<Longrightarrow> r \<in> set (t_root d) \<and> p \<in> set (t_deposit d) \<and> dep_Id p = rt_deposit_id r"
  by (auto simp: root_join_def)

lemma root_joinI: "r \<in> set (t_root d) \<Longrightarrow> p \<in> set (t_deposit d) \<Longrightarrow> dep_Id p = rt_deposit_id r \<Longrightarrow> (r, p) \<in> set (root_join d)"
  by (auto simp: root_join_def)

text \<open>A root row of the network belongs to one of its deposits.\<close>

lemma net_tree_root_row:
  assumes "db_ok d" and "net_tree K H net d ls" and "(r, p) \<in> set (root_join d)" and "rt_network r = net"
  obtains i where "i < length ls" and "p = net_deposits net d ! i" and "dep_DepositCount p = of_nat i"
    and "rt_root r = tree_root K H (take (Suc i) ls)"
proof -
  note rp = root_joinD [OF assms(3)]
  have "rt_deposit_id r \<in> dep_Id ` set (net_deposits net d)" using assms(2,4) rp by (simp add: net_tree_def)
  then obtain p' where p': "p' \<in> set (net_deposits net d)" "dep_Id p' = rt_deposit_id r" by auto
  hence "p = p'" using dep_Id_inj [OF assms(1)] rp net_deposits_in by metis
  then obtain i where i: "i < length ls" "p = net_deposits net d ! i"
    using p' assms(2) by (auto simp: net_tree_def in_set_conv_nth)
  hence st: "deposit_stored K H net d ls i p" using assms(2) by (simp add: net_tree_def)
  let ?r = "\<lparr>rt_root = tree_root K H (take (Suc i) ls), rt_deposit_id = dep_Id p, rt_network = net\<rparr>"
  have inj: "inj_on rt_deposit_id (set (t_root d))"
    using assms(1) by (simp add: db_ok_def trees_ok_def distinct_map)
  have "r = ?r" by (rule inj_onD [OF inj]) (use st rp in \<open>simp_all add: deposit_stored_def\<close>)
  hence "rt_root r = tree_root K H (take (Suc i) ls)" by (cases r) simp
  thus thesis using that i st by (simp add: deposit_stored_def)
qed

text \<open>The rows of a network are what the exit tree needs.\<close>

lemma net_tree_ok:
  assumes "db_ok d" and "net_tree K H net d ls" and "raw_view tx st = Some d" and "length ls < 2 ^ 32"
  shows "tree_ok K H net ls (pg_nodes tx st) (pg_roots tx st)" and "one_root net (pg_roots tx st)"
proof -
  show "tree_ok K H net ls (pg_nodes tx st) (pg_roots tx st)"
    unfolding tree_ok_def
  proof (intro allI impI conjI)
    fix i assume i: "i < length ls"
    let ?p = "net_deposits net d ! i"
    have st: "deposit_stored K H net d ls i ?p" using assms(2) i by (simp add: net_tree_def)
    have "?p \<in> set (net_deposits net d)" using assms(2) i by (simp add: net_tree_def)
    hence p: "?p \<in> set (t_deposit d)" by (simp add: net_deposits_in)
    show "set (path_rows K H (take (Suc i) ls) i) \<subseteq> pg_nodes tx st"
      using st assms(3) by (force simp: deposit_stored_def pg_nodes_def image_iff)
    show "(net, of_nat i, tree_root K H (take (Suc i) ls)) \<in> pg_roots tx st"
      using st root_joinI [OF _ p] assms(3) by (force simp: deposit_stored_def pg_roots_def)
  qed
  show "one_root net (pg_roots tx st)"
    unfolding one_root_def
  proof (intro allI impI)
    fix c x x' assume "(net, c, x) \<in> pg_roots tx st" "(net, c, x') \<in> pg_roots tx st"
    then obtain r p r' p' where rp: "(r, p) \<in> set (root_join d)" "rt_network r = net" "dep_DepositCount p = c" "x = rt_root r"
      and rp': "(r', p') \<in> set (root_join d)" "rt_network r' = net" "dep_DepositCount p' = c" "x' = rt_root r'"
      using assms(3) by (auto simp: pg_roots_def)
    obtain i where i: "i < length ls" "dep_DepositCount p = of_nat i" "rt_root r = tree_root K H (take (Suc i) ls)"
      using net_tree_root_row [OF assms(1,2) rp(1,2)] by metis
    obtain j where j: "j < length ls" "dep_DepositCount p' = of_nat j" "rt_root r' = tree_root K H (take (Suc j) ls)"
      using net_tree_root_row [OF assms(1,2) rp'(1,2)] by metis
    have "(of_nat i :: u32) = of_nat j" using i(2) j(2) rp(3) rp'(3) by simp
    hence "i = j" using i(1) j(1) assms(4) by (simp add: word_unat_eq_iff unat_of_nat)
    thus "x = x'" using i(3) j(3) rp(4) rp'(4) by simp
  qed
qed

text \<open>The last deposit count the store reports.\<close>

lemma fold_max_u64: "fold max (xs :: u64 list) 0 = (if xs = [] then 0 else Max (set xs))"
proof -
  have "fold max xs 0 = Max (insert 0 (set xs))" by (metis Max.set_eq_fold list.simps(15))
  also have "\<dots> = (if xs = [] then 0 else Max (set xs))" by (auto simp: max_def)
  finally show ?thesis .
qed

lemma filter_key_unique: "distinct (map f xs) \<Longrightarrow> x \<in> set xs \<Longrightarrow> filter (\<lambda>y. f y = f x) xs = [x]"
  by (induction xs) (auto simp: filter_empty_conv image_iff)

lemma Max_sorted: "sorted xs \<Longrightarrow> xs \<noteq> [] \<Longrightarrow> Max (set xs) = last xs"
  by (induction xs rule: rev_induct) (auto simp: sorted_append intro!: Max_insert2)

lemma net_tree_last_count:
  assumes "db_ok d" and "net_tree K H net d ls" and "pg_ready NoTx st" and "pg_committed st = d"
    and "length ls < 2 ^ 32"
  shows "\<exists>st'. GetLastDepositCount net NoTx st =
    (if ls = [] then Inl ErrStorageNotFound else Inr (of_nat (length ls - 1)), st') \<and> pg_ready NoTx st'"
proof -
  let ?ids = "map rt_deposit_id (filter (\<lambda>r. rt_network r = net) (t_root d))" and ?ps = "net_deposits net d"
  have len: "length ?ps = length ls" using assms(2) by (simp add: net_tree_def)
  have ids: "set ?ids = dep_Id ` set ?ps"
  proof
    show "set ?ids \<subseteq> dep_Id ` set ?ps" using assms(2) by (auto simp: net_tree_def)
    show "dep_Id ` set ?ps \<subseteq> set ?ids"
    proof
      fix x assume "x \<in> dep_Id ` set ?ps"
      then obtain i where i: "i < length ls" "x = dep_Id (?ps ! i)" using len by (auto simp: in_set_conv_nth)
      hence "\<lparr>rt_root = tree_root K H (take (Suc i) ls), rt_deposit_id = x, rt_network = net\<rparr> \<in> set (t_root d)"
        using assms(2) by (simp add: net_tree_def deposit_stored_def)
      thus "x \<in> set ?ids" by (auto intro: rev_image_eqI)
    qed
  qed
  let ?cnt = "if ?ids = [] then - 1 else max_count (map dep_DepositCount (filter (\<lambda>p. dep_Id p = fold max ?ids 0) (t_deposit d)))"
  have cnt: "?cnt = int (length ls) - 1"
  proof (cases "ls = []")
    case True
    hence "?ids = []" using ids len by (metis image_empty length_0_conv set_empty)
    thus ?thesis using True by simp
  next
    case False
    hence ne: "?ps \<noteq> []" using len by auto
    hence idne: "?ids \<noteq> []" using ids by (metis image_is_empty set_empty)
    have "Max (set (map dep_Id ?ps)) = last (map dep_Id ?ps)"
      by (rule Max_sorted) (use net_deposits_sorted [OF assms(1), of net] ne in \<open>simp_all add: strict_sorted_iff\<close>)
    hence "Max (set ?ids) = dep_Id (last ?ps)" unfolding ids using ne by (simp add: last_map)
    hence mx: "fold max ?ids 0 = dep_Id (last ?ps)" using idne by (simp only: fold_max_u64 if_False)
    have lst: "last ?ps \<in> set (t_deposit d)" using ne last_in_set net_deposits_in by metis
    have "filter (\<lambda>p. dep_Id p = dep_Id (last ?ps)) (t_deposit d) = [last ?ps]"
      by (rule filter_key_unique [OF distinct_dep_Id [OF assms(1)] lst])
    moreover have "last ?ps = ?ps ! (length ls - 1)" using ne len by (simp add: last_conv_nth)
    hence "dep_DepositCount (last ?ps) = of_nat (length ls - 1)"
      using assms(2) False by (simp add: net_tree_def deposit_stored_def)
    moreover have "uint (of_nat (length ls - 1) :: u32) = int (length ls - 1)"
      using assms(5) by (simp add: uint_nat unat_of_nat)
    ultimately show ?thesis using idne mx False by (simp add: max_count_def Suc_le_eq of_nat_diff)
  qed
  let ?f = "\<lambda>d. let ids = map rt_deposit_id (filter (\<lambda>r. rt_network r = net) (t_root d)) in
      Inr (if ids = [] then - 1
           else max_count (map dep_DepositCount (filter (\<lambda>p. dep_Id p = fold max ids 0) (t_deposit d))))
      :: int result"
  have "raw_view NoTx st = Some d" using assms(4) by (simp add: raw_view_def)
  then obtain st' where "pg_query NoTx ?f st = (?f d, st')" "pg_ready NoTx st'"
    using pg_query_ready [OF assms(3), of ?f] by auto
  moreover have "?f d = Inr (int (length ls) - 1)" using cnt by (simp only: Let_def)
  ultimately show ?thesis
    by (cases ls) (auto simp: GetLastDepositCount_def)
qed

section \<open>Storing a deposit\<close>

lemma deposit_stored_mono:
  assumes "deposit_stored K H net d ls i p" and "i < length ls"
    and "set (t_root d) \<subseteq> set (t_root d')" and "set (t_rht d) \<subseteq> set (t_rht d')"
    and "take (Suc i) ls' = take (Suc i) ls"
  shows "deposit_stored K H net d' ls' i p"
proof -
  have "ls' ! i = ls ! i" using assms(5) by (metis nth_take lessI)
  thus ?thesis using assms unfolding deposit_stored_def by (auto simp: subset_iff)
qed

lemma new_deposit_row_simps [simp]:
  "dep_Id (new_deposit_row i p) = i" "dep_NetworkID (new_deposit_row i p) = dep_NetworkID p"
  "dep_DepositCount (new_deposit_row i p) = dep_DepositCount p"
  by (simp_all add: new_deposit_row_def Deposit.defs)

lemma truncate_new_deposit_row:
  "Deposit.truncate (new_deposit_row i p) = p\<lparr>dep_Id := i, dep_BlockNumber := 0, dep_ReadyForClaim := False\<rparr>"
  by (cases p) (simp add: new_deposit_row_def Deposit.defs)

lemma HashDeposit_new_row [simp]:
  "HashDeposit K (Deposit.truncate (new_deposit_row i p)) = HashDeposit K p"
  unfolding truncate_new_deposit_row HashDeposit_def deposit_preimage_def
  by (simp cong: sum.case_cong)

text \<open>The database after a deposit, its root and its path were inserted.\<close>

definition deposit_added :: "keccak \<Rightarrow> nat \<Rightarrow> Deposit \<Rightarrow> u64 \<Rightarrow> u64 \<Rightarrow> h256 list \<Rightarrow> db \<Rightarrow> db" where
  "deposit_added K H p i s ls d =
     d\<lparr>t_deposit := t_deposit d @ [new_deposit_row i p], seq_deposit := s,
       t_root := t_root d @ [\<lparr>rt_root = tree_root K H ls, rt_deposit_id = i, rt_network = dep_NetworkID p\<rparr>],
       t_rht := t_rht d @ path_inserts K H ls (length ls - 1) i\<rparr>"

lemma net_tree_added:
  assumes "net_tree K H net d ls" and "dep_NetworkID p = net" and "HashDeposit K p = Inr leaf"
    and "dep_DepositCount p = of_nat (length ls)"
  shows "net_tree K H net (deposit_added K H p i s (ls @ [leaf]) d) (ls @ [leaf])"
proof -
  let ?d = "deposit_added K H p i s (ls @ [leaf]) d" and ?row = "new_deposit_row i p"
  have nd: "net_deposits net ?d = net_deposits net d @ [?row]"
    using assms(2) by (simp add: net_deposits_def deposit_added_def)
  have len: "length (net_deposits net d) = length ls" using assms(1) by (simp add: net_tree_def)
  have old: "deposit_stored K H net ?d (ls @ [leaf]) j (net_deposits net d ! j)" if "j < length ls" for j
    by (rule deposit_stored_mono [of K H net d ls]) (use assms(1) that in \<open>simp_all add: net_tree_def deposit_added_def subset_insertI\<close>)
  have new: "deposit_stored K H net ?d (ls @ [leaf]) (length ls) ?row"
    using assms(2-4) by (force simp: deposit_stored_def deposit_added_def path_inserts_def)
  have "deposit_stored K H net ?d (ls @ [leaf]) j (net_deposits net ?d ! j)" if "j < length (ls @ [leaf])" for j
  proof (cases "j < length ls")
    case False
    hence "j = length ls" using that by simp
    thus ?thesis using new by (simp add: nd nth_append len)
  qed (simp add: old len nd nth_append)
  moreover have "\<forall>r\<in>set (t_root ?d). rt_network r = net \<longrightarrow> rt_deposit_id r \<in> dep_Id ` set (net_deposits net ?d)"
    using assms(1,2) unfolding nd by (auto simp: net_tree_def deposit_added_def)
  ultimately show ?thesis using len unfolding net_tree_def by (simp add: nd)
qed

lemma net_tree_added_other:
  assumes "net_tree K H net d ls" and "dep_NetworkID p \<noteq> net"
  shows "net_tree K H net (deposit_added K H' p i s ls' d) ls"
proof -
  let ?d = "deposit_added K H' p i s ls' d"
  have nd: "net_deposits net ?d = net_deposits net d"
    using assms(2) by (simp add: net_deposits_def deposit_added_def)
  have "deposit_stored K H net ?d ls j (net_deposits net d ! j)" if "j < length ls" for j
    by (rule deposit_stored_mono [of K H net d ls]) (use assms(1) that in \<open>simp_all add: net_tree_def deposit_added_def subset_insertI\<close>)
  moreover have "\<forall>r\<in>set (t_root ?d). rt_network r = net \<longrightarrow> rt_deposit_id r \<in> dep_Id ` set (net_deposits net d)"
    using assms by (auto simp: net_tree_def deposit_added_def)
  ultimately show ?thesis using assms(1) by (simp add: net_tree_def nd)
qed

section \<open>Deleting deposits\<close>

text \<open>A deletion that keeps a prefix of the deposits of a network keeps the tree of that prefix.\<close>

lemma net_tree_deleted:
  assumes ok: "db_ok d" and tree: "net_tree K H net d ls"
    and keep: "filter (\<lambda>p. \<not> P p) (net_deposits net d) = take m (net_deposits net d)"
  shows "net_tree K H net (delete_deposits P d) (take m ls)"
proof -
  let ?d = "delete_deposits P d" and ?ps = "net_deposits net d"
  have len: "length ?ps = length ls" using tree by (simp add: net_tree_def)
  have nd: "net_deposits net ?d = take m ?ps"
    unfolding keep [symmetric] by (simp add: net_deposits_def delete_deposits_def Let_def conj_commute)
  have kept: "dep_Id (?ps ! j) \<in> dep_Id ` {p \<in> set (t_deposit d). \<not> P p}" if "j < m" "j < length ls" for j
  proof -
    have "take m ?ps ! j \<in> set (take m ?ps)" by (rule nth_mem) (use that len in simp)
    hence "?ps ! j \<in> set (take m ?ps)" using that by simp
    hence "?ps ! j \<in> set (filter (\<lambda>p. \<not> P p) ?ps)" by (simp only: keep)
    thus ?thesis by (auto simp: net_deposits_in)
  qed
  have "deposit_stored K H net ?d (take m ls) j (?ps ! j)" if "j < m" "j < length ls" for j
  proof -
    have "deposit_stored K H net d ls j (?ps ! j)" using tree that by (simp add: net_tree_def)
    moreover have "take (Suc j) (take m ls) = take (Suc j) ls" using that by (simp add: min_def)
    ultimately show ?thesis
      using kept [OF that] that by (auto simp: deposit_stored_def delete_deposits_def Let_def)
  qed
  moreover have "rt_deposit_id r \<in> dep_Id ` set (take m ?ps)"
    if r: "r \<in> set (t_root ?d)" "rt_network r = net" for r
  proof -
    from r(1) obtain p where p: "p \<in> set (t_deposit d)" "\<not> P p" "dep_Id p = rt_deposit_id r" and rd: "r \<in> set (t_root d)"
      by (auto simp: delete_deposits_def Let_def)
    obtain p' where p': "p' \<in> set ?ps" "dep_Id p' = rt_deposit_id r" using tree rd r(2) by (force simp: net_tree_def)
    hence "p' = p" using dep_Id_inj [OF ok] p net_deposits_in by metis
    hence "p \<in> set (take m ?ps)" using p' p(2) by (simp add: keep [symmetric])
    thus ?thesis using p(3) by (metis imageI)
  qed
  ultimately show ?thesis using len unfolding net_tree_def by (simp add: nd)
qed

text \<open>Deleting from a deposit count on keeps the deposits below it.\<close>

lemma filter_count_prefix:
  assumes "\<forall>i<length ps. dep_DepositCount (ps ! i) = of_nat i" and "length ps < 2 ^ 32"
  shows "filter (\<lambda>p. \<not> c \<le> dep_DepositCount p) ps = take (unat c) ps"
proof -
  have "\<And>i. i < length ps \<Longrightarrow> (\<not> c \<le> dep_DepositCount (ps ! i)) = (i < unat c)"
    using assms by (simp add: word_le_nat_alt unat_of_nat not_le)
  thus ?thesis
  proof (induction ps rule: rev_induct)
    case (snoc p ps)
    have "filter (\<lambda>p. \<not> c \<le> dep_DepositCount p) ps = take (unat c) ps"
      by (rule snoc.IH) (use snoc.prems in \<open>fastforce simp: nth_append split: if_splits\<close>)
    moreover have "(\<not> c \<le> dep_DepositCount p) = (length ps < unat c)" using snoc.prems [of "length ps"] by simp
    ultimately show ?case by simp
  qed simp
qed

lemma net_tree_ResetDeposits:
  assumes "db_ok d" and "net_tree K H net d ls" and "length ls < 2 ^ 32"
  shows "net_tree K H net (delete_deposits (\<lambda>r. c \<le> dep_DepositCount r \<and> dep_NetworkID r = net) d) (take (unat c) ls)"
proof (rule net_tree_deleted [OF assms(1,2)])
  have "filter (\<lambda>p. \<not> (c \<le> dep_DepositCount p \<and> dep_NetworkID p = net)) (net_deposits net d) =
        filter (\<lambda>p. \<not> c \<le> dep_DepositCount p) (net_deposits net d)"
    by (rule filter_cong) (auto simp: net_deposits_def)
  also have "\<dots> = take (unat c) (net_deposits net d)"
    by (rule filter_count_prefix) (use assms in \<open>auto simp: net_tree_def deposit_stored_def\<close>)
  finally show "filter (\<lambda>p. \<not> (c \<le> dep_DepositCount p \<and> dep_NetworkID p = net)) (net_deposits net d) =
        take (unat c) (net_deposits net d)" .
qed

section \<open>The tree in memory\<close>

text \<open>The tree in memory is the one of the deposits the database holds for its network.\<close>

definition mirrors :: "keccak \<Rightarrow> db \<Rightarrow> MerkleTree \<Rightarrow> h256 list \<Rightarrow> bool" where
  "mirrors K d mt ls \<longleftrightarrow>
     (let H = unat (mt_height mt) in
      0 < H \<and> H \<le> 64 \<and> length ls < 2 ^ 32 \<and> length ls \<le> 2 ^ H \<and>
      net_tree K H (mt_networkID mt) d ls \<and>
      mt_count mt = of_nat (length ls) \<and> sib_ok K H ls (mt_siblings mt))"

lemma mirrorsI:
  assumes "net_tree K H (mt_networkID mt) d ls" and "H = unat (mt_height mt)" and "0 < H" and "H \<le> 64"
    and "length ls < 2 ^ 32" and "length ls \<le> 2 ^ H" and "mt_count mt = of_nat (length ls)"
    and "sib_ok K H ls (mt_siblings mt)"
  shows "mirrors K d mt ls"
  using assms by (simp add: mirrors_def Let_def)

lemma mirrorsD:
  assumes "mirrors K d mt ls" and "H = unat (mt_height mt)"
  shows "net_tree K H (mt_networkID mt) d ls" and "0 < H" and "H \<le> 64" and "length ls < 2 ^ 32"
    and "length ls \<le> 2 ^ H" and "mt_count mt = of_nat (length ls)" and "sib_ok K H ls (mt_siblings mt)"
  using assms by (simp_all add: mirrors_def Let_def)

lemma AddDeposit_InrD:
  assumes "AddDeposit p tx st = (Inr i, st')" and "raw_view tx st = Some d"
  obtains s where "i = seq_deposit d"
    and "raw_view tx st' = Some (d\<lparr>t_deposit := t_deposit d @ [new_deposit_row i p], seq_deposit := s\<rparr>)"
    and "\<And>t. t \<noteq> tx \<Longrightarrow> raw_view t st' = raw_view t st"
proof -
  note run = pg_exec_InrE [OF assms(1) [unfolded AddDeposit_def] assms(2)]
  show thesis
  proof (rule run)
    fix d' assume f: "(case nextval 1 (seq_deposit d) of Inl e \<Rightarrow> Inl e
        | Inr s \<Rightarrow>
            if \<not> block_ref d (dep_BlockID p) then Inl ErrForeignKey
            else Inr (seq_deposit d, d\<lparr>t_deposit := t_deposit d @ [new_deposit_row (seq_deposit d) p], seq_deposit := s\<rparr>))
      = Inr (i, d')" and v: "raw_view tx st' = Some d'" and o: "\<And>t. t \<noteq> tx \<Longrightarrow> raw_view t st' = raw_view t st"
    from f obtain s where s: "nextval 1 (seq_deposit d) = Inr s" by (auto split: sum.splits)
    from f have "i = seq_deposit d" "d' = d\<lparr>t_deposit := t_deposit d @ [new_deposit_row i p], seq_deposit := s\<rparr>"
      unfolding s by (auto split: if_splits)
    thus thesis using v o by (intro that [of s]) simp_all
  qed
qed

lemma addLeaf_stored:
  assumes m: "mirrors K d mt ls" and H: "H = unat (mt_height mt)"
    and len: "length ls < 2 ^ H" "Suc (length ls) < 2 ^ 32"
    and view: "raw_view tx st = Some (d\<lparr>t_deposit := t_deposit d @ [new_deposit_row i p], seq_deposit := s\<rparr>)"
    and net: "dep_NetworkID p = mt_networkID mt"
    and run: "addLeaf pg_merkleTreeStore K mt i leaf index tx st = (Inr u, mt', st')"
  shows "index = of_nat (length ls)" and "mt' = grown_tree K (ls @ [leaf]) (length ls) mt"
    and "raw_view tx st' = Some (deposit_added K H p i s (ls @ [leaf]) d)"
    and "\<And>t. t \<noteq> tx \<Longrightarrow> raw_view t st' = raw_view t st"
proof -
  let ?S = "pg_merkleTreeStore"
  note md = mirrorsD [OF m H]
  have ix: "index = mt_count mt" using run by (auto simp: addLeaf_def split: if_splits)
  thus "index = of_nat (length ls)" using md(6) by simp
  obtain st1 where s1: "SetRoot (tree_root K H (ls @ [leaf])) i (mt_networkID mt) tx st = (Inr (), st1)"
    and s2: "BulkSet (path_inserts K H (ls @ [leaf]) (length ls) i) tx st1 = (Inr (), st')"
    and "mt' = grown_tree K (ls @ [leaf]) (length ls) mt"
    using run addLeaf_eq [OF H md(3,7,6) len(1) md(4), of ?S i leaf tx st] ix
    by (auto simp: Let_def pg_merkleTreeStore_def split: prod.splits sum.splits)
  thus "mt' = grown_tree K (ls @ [leaf]) (length ls) mt" by simp
  note r1 = pg_exec_InrD [OF s1 [unfolded SetRoot_def]] and r2 = pg_exec_InrD [OF s2 [unfolded BulkSet_def]]
  show "raw_view tx st' = Some (deposit_added K H p i s (ls @ [leaf]) d)"
    using r1 r2 view net by (auto simp: deposit_added_def split: if_splits)
  show "\<And>t. t \<noteq> tx \<Longrightarrow> raw_view t st' = raw_view t st" using r1 r2 by fastforce
qed

lemma grown_tree_simps [simp]:
  "mt_networkID (grown_tree K ls n mt) = mt_networkID mt" "mt_height (grown_tree K ls n mt) = mt_height mt"
  "mt_count (grown_tree K ls n mt) = mt_count mt + 1"
  "mt_siblings (grown_tree K ls n mt) = new_sibs K ls n 0 (mt_siblings mt)"
  by (simp_all add: grown_tree_def)

text \<open>Storing a deposit and adding its leaf keeps database and tree in step, and so it does for the
  trees of the other networks.\<close>

lemma mirrors_added:
  assumes m: "mirrors K d mt ls" and H: "H = unat (mt_height mt)"
    and len: "length ls < 2 ^ H" "Suc (length ls) < 2 ^ 32" and net: "dep_NetworkID p = mt_networkID mt"
    and leaf: "HashDeposit K p = Inr leaf" and cnt: "dep_DepositCount p = of_nat (length ls)"
  shows "mirrors K (deposit_added K H p i s (ls @ [leaf]) d) (grown_tree K (ls @ [leaf]) (length ls) mt) (ls @ [leaf])"
proof (rule mirrorsI [where H = H])
  note md = mirrorsD [OF m H]
  show "net_tree K H (mt_networkID (grown_tree K (ls @ [leaf]) (length ls) mt))
      (deposit_added K H p i s (ls @ [leaf]) d) (ls @ [leaf])"
    using net_tree_added [OF md(1) net leaf cnt] by simp
  show "sib_ok K H (ls @ [leaf]) (mt_siblings (grown_tree K (ls @ [leaf]) (length ls) mt))"
    using new_sibs_ok [OF md(7)] by simp
qed (use len H mirrorsD(2,3,6) [OF m H] in \<open>simp_all add: Suc_le_eq\<close>)

lemma mirrors_added_other:
  assumes "mirrors K d mt ls" and "dep_NetworkID p \<noteq> mt_networkID mt"
  shows "mirrors K (deposit_added K H' p i s ls' d) mt ls"
  using assms net_tree_added_other by (simp add: mirrors_def Let_def)

section \<open>Rebuilding the tree from the database\<close>

lemma no_clash_view: "raw_view tx st = Some d \<Longrightarrow> pg_nodes tx st = (\<lambda>(k, v, i). (k, v)) ` set (t_rht d)"
  by (simp add: pg_nodes_def)

text \<open>Rows of the tree with the same key hold the same children.\<close>

definition rht_ok :: "db \<Rightarrow> bool" where
  "rht_ok d \<longleftrightarrow> no_clash ((\<lambda>(k, v, i). (k, v)) ` set (t_rht d))"

lemma rht_ok_mono: "rht_ok d \<Longrightarrow> set (t_rht d') \<subseteq> set (t_rht d) \<Longrightarrow> rht_ok d'"
  unfolding rht_ok_def no_clash_def by (meson image_mono subsetD)

lemma rht_ok_delete: "rht_ok d \<Longrightarrow> rht_ok (delete_deposits P d)"
  by (erule rht_ok_mono) (auto simp: delete_deposits_def Let_def)

lemma setSiblings_mirrors:
  assumes ok: "db_ok d" "rht_ok d" "raw_view tx st = Some d"
    and tree: "net_tree K H (mt_networkID mt) d ls" and H: "H = unat (mt_height mt)" "0 < H" "H \<le> 64"
    and len: "length ls < 2 ^ 32" "length ls \<le> 2 ^ H" and cnt: "mt_count mt = of_nat (length ls)"
  shows "setSiblings pg_merkleTreeStore K mt tx st = (Inr u, mt', st') \<Longrightarrow>
           mirrors K d mt' ls \<and> mt_networkID mt' = mt_networkID mt \<and> mt_height mt' = mt_height mt"
    and "pg_ready tx st \<Longrightarrow>
           \<exists>mt' st'. setSiblings pg_merkleTreeStore K mt tx st = (Inr (), mt', st') \<and> pg_ready tx st'"
proof -
  have clash: "no_clash (pg_nodes tx st)" using ok(2,3) by (simp add: rht_ok_def no_clash_view)
  note t = net_tree_ok [OF ok(1) tree ok(3) len(1)]
  note corr = pgm.initSiblings_correct [OF t clash cnt order.refl len(1,2) H]
  show "setSiblings pg_merkleTreeStore K mt tx st = (Inr u, mt', st') \<Longrightarrow>
      mirrors K d mt' ls \<and> mt_networkID mt' = mt_networkID mt \<and> mt_height mt' = mt_height mt"
  proof -
    assume run: "setSiblings pg_merkleTreeStore K mt tx st = (Inr u, mt', st')"
    then obtain sibs where i: "initSiblings pg_merkleTreeStore K mt tx st = (Inr sibs, st')"
      and mt': "mt' = mt\<lparr>mt_siblings := sibs\<rparr>"
      by (auto simp: setSiblings_def split: prod.splits sum.splits)
    have "sib_ok K H ls sibs" using corr(2) [OF i] by simp
    thus ?thesis using mirrorsI [of K H mt' d ls] tree H len cnt mt' by simp
  qed
  show "\<exists>mt' st'. setSiblings pg_merkleTreeStore K mt tx st = (Inr (), mt', st') \<and> pg_ready tx st'"
    if rdy: "pg_ready tx st"
  proof -
    obtain x st1 where i: "initSiblings pg_merkleTreeStore K mt tx st = (x, st1)" by fastforce
    then obtain sibs where "x = Inr sibs" "pg_ready tx st1" using corr(3) [OF i rdy] by auto
    thus ?thesis using i by (auto simp: setSiblings_def)
  qed
qed

lemma views_frame:
  "pg_query tx f st = (x, st') \<Longrightarrow> raw_view t st' = raw_view t st"
  "GetRoot c net tx st = (y, st') \<Longrightarrow> raw_view t st' = raw_view t st"
  "GetNode k tx st = (z, st') \<Longrightarrow> raw_view t st' = raw_view t st"
  by (auto simp: GetRoot_def GetNode_def dest: pg_query_frame)

lemma left_walk_views:
  "left_walk pg_merkleTreeStore tx index hs cur acc st = (x, st') \<Longrightarrow> raw_view t st' = raw_view t st"
proof (induction hs arbitrary: cur acc st)
  case (Cons h hs)
  obtain y st1 where g: "GetNode cur tx st = (y, st1)" by fastforce
  show ?case
  proof (cases y)
    case (Inr v)
    then obtain l r where v: "y = Inr (l, r)" by (cases v) auto
    have "raw_view t st' = raw_view t st1"
      using Cons.prems g v Cons.IH by (auto simp: pg_merkleTreeStore_def split: if_splits)
    thus ?thesis using views_frame(3) [OF g] by simp
  qed (use Cons.prems g views_frame(3) [OF g] in \<open>auto simp: pg_merkleTreeStore_def\<close>)
qed simp

lemma initSiblings_views:
  assumes "initSiblings pg_merkleTreeStore K mt tx st = (x, st')"
  shows "raw_view t st' = raw_view t st"
proof (cases "mt_count mt = 0")
  case False
  obtain y st1 where g: "getRoot pg_merkleTreeStore K mt tx st = (y, st1)" by fastforce
  have v1: "raw_view t st1 = raw_view t st"
    by (rule views_frame(2)) (use False g in \<open>simp add: getRoot_def pg_merkleTreeStore_def\<close>)
  show ?thesis
  proof (cases y)
    case (Inr root)
    obtain z st2 where w: "left_walk pg_merkleTreeStore tx (mt_count mt - 1) (levels_down (mt_height mt)) root [] st1 = (z, st2)"
      by fastforce
    show ?thesis using assms False g Inr w left_walk_views [OF w, of t] v1
      by (cases z) (simp_all add: initSiblings_def)
  qed (use assms False g v1 in \<open>simp add: initSiblings_def\<close>)
qed (use assms in \<open>simp add: initSiblings_def\<close>)

lemma setSiblings_views:
  assumes "setSiblings pg_merkleTreeStore K mt tx st = (x, mt', st')"
  shows "raw_view t st' = raw_view t st"
proof -
  obtain y st1 where i: "initSiblings pg_merkleTreeStore K mt tx st = (y, st1)" by fastforce
  show ?thesis using assms i initSiblings_views [OF i, of t] by (cases y) (simp_all add: setSiblings_def)
qed

lemma resetLeaf_mirrors:
  assumes ok: "db_ok d" "rht_ok d" "raw_view tx st = Some d"
    and tree: "net_tree K H (mt_networkID mt) d ls" and H: "H = unat (mt_height mt)" "0 < H" "H \<le> 64"
    and len: "length ls < 2 ^ 32" "length ls \<le> 2 ^ H"
  shows "resetLeaf pg_merkleTreeStore K mt (of_nat (length ls)) tx st = (Inr u, mt', st') \<Longrightarrow>
           mirrors K d mt' ls \<and> mt_networkID mt' = mt_networkID mt \<and> mt_height mt' = mt_height mt"
    and "pg_ready tx st \<Longrightarrow>
           \<exists>mt' st'. resetLeaf pg_merkleTreeStore K mt (of_nat (length ls)) tx st = (Inr (), mt', st') \<and> pg_ready tx st'"
proof -
  let ?mt = "mt\<lparr>mt_count := of_nat (length ls)\<rparr>"
  have t: "net_tree K H (mt_networkID ?mt) d ls" "H = unat (mt_height ?mt)" "mt_count ?mt = of_nat (length ls)"
    using tree H(1) by simp_all
  note s = setSiblings_mirrors [OF ok t(1,2) H(2,3) len t(3)]
  show "mirrors K d mt' ls \<and> mt_networkID mt' = mt_networkID mt \<and> mt_height mt' = mt_height mt"
    if r: "resetLeaf pg_merkleTreeStore K mt (of_nat (length ls)) tx st = (Inr u, mt', st')"
    using s(1) [OF r [unfolded resetLeaf_def]] by simp
  show "\<exists>mt' st'. resetLeaf pg_merkleTreeStore K mt (of_nat (length ls)) tx st = (Inr (), mt', st') \<and> pg_ready tx st'"
    if r: "pg_ready tx st"
    using s(2) [OF r] by (simp only: resetLeaf_def)
qed

text \<open>The count the store reports, and the two ways a tree is rebuilt from it: a new tree, and the
  rollback of an existing one.\<close>

lemma stored_count_ready:
  assumes "db_ok d" and "net_tree K H net d ls" and "pg_ready NoTx st" and "pg_committed st = d"
    and "length ls < 2 ^ 32"
  obtains st' where "stored_count pg_merkleTreeStore net st = (Inr (of_nat (length ls)), st')"
    and "pg_ready NoTx st'" and "\<And>t. raw_view t st' = raw_view t st"
proof -
  obtain st' where c: "GetLastDepositCount net NoTx st =
      (if ls = [] then Inl ErrStorageNotFound else Inr (of_nat (length ls - 1)), st')" and r: "pg_ready NoTx st'"
    using net_tree_last_count [OF assms] by blast
  have v: "raw_view t st' = raw_view t st" for t
    using c pg_query_frame [of NoTx _ st _ st' t] by (auto simp: GetLastDepositCount_def split: prod.splits sum.splits if_splits)
  have n: "(of_nat (length ls - 1) :: u32) + 1 = of_nat (length ls)" if "ls \<noteq> []"
    using that by (cases ls) (simp_all add: add.commute)
  have "stored_count pg_merkleTreeStore net st = (Inr (of_nat (length ls)), st')"
    using c n by (simp add: stored_count_def pg_merkleTreeStore_def split: if_splits)
  thus thesis using r v that by blast
qed

lemma NewMerkleTree_mirrors:
  assumes ok: "db_ok d" "rht_ok d" "pg_ready NoTx st" "pg_committed st = d"
    and tree: "net_tree K H net d ls" and H: "H = unat height" "0 < H" "H \<le> 64"
    and len: "length ls < 2 ^ 32" "length ls \<le> 2 ^ H"
  obtains mt st' where "NewMerkleTree pg_merkleTreeStore K height net st = (Inr mt, st')"
    and "mirrors K d mt ls" and "mt_networkID mt = net" and "mt_height mt = height"
    and "pg_ready NoTx st'" and "\<And>t. raw_view t st' = raw_view t st"
proof -
  let ?mt = "\<lparr>mt_networkID = net, mt_height = height, mt_count = of_nat (length ls), mt_siblings = []\<rparr>"
  obtain st1 where c: "stored_count pg_merkleTreeStore net st = (Inr (of_nat (length ls)), st1)"
    and r1: "pg_ready NoTx st1" and v1: "\<And>t. raw_view t st1 = raw_view t st"
    using stored_count_ready [OF ok(1) tree ok(3,4) len(1)] by blast
  have v: "raw_view NoTx st1 = Some d" unfolding v1 using ok(4) by (simp add: raw_view_def)
  have t: "net_tree K H (mt_networkID ?mt) d ls" "H = unat (mt_height ?mt)" "mt_count ?mt = of_nat (length ls)"
    using tree H(1) by simp_all
  note s = setSiblings_mirrors [OF ok(1,2) v t(1,2) H(2,3) len t(3)]
  obtain mt st' where m: "setSiblings pg_merkleTreeStore K ?mt NoTx st1 = (Inr (), mt, st')" and r: "pg_ready NoTx st'"
    using s(2) [OF r1] by blast
  have "NewMerkleTree pg_merkleTreeStore K height net st = (Inr mt, st')"
    using c m by (simp add: NewMerkleTree_def)
  moreover have "raw_view t st' = raw_view t st" for t using setSiblings_views [OF m] v1 by metis
  ultimately show thesis using that s(1) [OF m] r by simp
qed

lemma rollbackMT_mirrors:
  assumes ok: "db_ok d" "rht_ok d" "pg_ready NoTx st" "pg_committed st = d"
    and tree: "net_tree K H (mt_networkID mt) d ls" and H: "H = unat (mt_height mt)" "0 < H" "H \<le> 64"
    and len: "length ls < 2 ^ 32" "length ls \<le> 2 ^ H"
  obtains mt' st' where "rollbackMT pg_merkleTreeStore K mt (mt_networkID mt) NoTx st = (Inr (), mt', st')"
    and "mirrors K d mt' ls" and "mt_networkID mt' = mt_networkID mt" and "mt_height mt' = mt_height mt"
    and "pg_ready NoTx st'" and "\<And>t. raw_view t st' = raw_view t st"
proof -
  let ?mt = "mt\<lparr>mt_count := of_nat (length ls)\<rparr>"
  obtain st1 where c: "stored_count pg_merkleTreeStore (mt_networkID mt) st = (Inr (of_nat (length ls)), st1)"
    and r1: "pg_ready NoTx st1" and v1: "\<And>t. raw_view t st1 = raw_view t st"
    using stored_count_ready [OF ok(1) tree ok(3,4) len(1)] by blast
  have v: "raw_view NoTx st1 = Some d" unfolding v1 using ok(4) by (simp add: raw_view_def)
  have t: "net_tree K H (mt_networkID ?mt) d ls" "H = unat (mt_height ?mt)" "mt_count ?mt = of_nat (length ls)"
    using tree H(1) by simp_all
  note s = setSiblings_mirrors [OF ok(1,2) v t(1,2) H(2,3) len t(3)]
  obtain mt' st' where m: "setSiblings pg_merkleTreeStore K ?mt NoTx st1 = (Inr (), mt', st')" and r: "pg_ready NoTx st'"
    using s(2) [OF r1] by blast
  have "rollbackMT pg_merkleTreeStore K mt (mt_networkID mt) NoTx st = (Inr (), mt', st')"
    using c m by (simp add: rollbackMT_def)
  moreover have "raw_view t st' = raw_view t st" for t using setSiblings_views [OF m] v1 by metis
  ultimately show thesis using that s(1) [OF m] r by simp
qed

lemma rollbackMT_views:
  assumes "rollbackMT pg_merkleTreeStore K mt net tx st = (x, mt', st')"
  shows "raw_view t st' = raw_view t st" and "mt_networkID mt' = mt_networkID mt" and "mt_height mt' = mt_height mt"
proof -
  obtain y st1 where c: "stored_count pg_merkleTreeStore net st = (y, st1)" by fastforce
  obtain z st2 where g: "GetLastDepositCount net NoTx st = (z, st2)" by fastforce
  have "raw_view t st2 = raw_view t st"
    using g pg_query_frame [of NoTx _ st _ st2 t] by (auto simp: GetLastDepositCount_def split: prod.splits sum.splits if_splits)
  hence v1: "raw_view t st1 = raw_view t st"
    using c g by (cases z) (auto simp: stored_count_def pg_merkleTreeStore_def)
  show "raw_view t st' = raw_view t st"
    using assms c v1 setSiblings_views by (cases y) (auto simp: rollbackMT_def)
  show "mt_networkID mt' = mt_networkID mt" "mt_height mt' = mt_height mt"
    using assms c by (auto simp: rollbackMT_def setSiblings_def split: sum.splits prod.splits)
qed

section \<open>The controller\<close>

text \<open>Every registered network has its tree, which mirrors the leaves \<open>L net\<close> of its deposits.\<close>

definition ctrl_ok :: "keccak \<Rightarrow> db \<Rightarrow> BridgeController \<Rightarrow> (u32 \<Rightarrow> h256 list) \<Rightarrow> bool" where
  "ctrl_ok K d bt L \<longleftrightarrow>
     (\<forall>net tID. bc_merkleTreeIDs bt net = Some tID \<longrightarrow>
        unat tID < length (bc_exitTrees bt) \<and> mt_networkID (bc_exitTrees bt ! unat tID) = net \<and>
        mirrors K d (bc_exitTrees bt ! unat tID) (L net))"

lemma ctrl_okD:
  assumes "ctrl_ok K d bt L" and "bc_merkleTreeIDs bt net = Some tID"
  shows "unat tID < length (bc_exitTrees bt)" and "mt_networkID (bc_exitTrees bt ! unat tID) = net"
    and "mirrors K d (bc_exitTrees bt ! unat tID) (L net)"
  using assms by (simp_all add: ctrl_ok_def)

lemma exit_tree_InrD:
  assumes "exit_tree bt net = Inr (i, mt)"
  obtains tID where "bc_merkleTreeIDs bt net = Some tID" and "i = unat tID" and "i < length (bc_exitTrees bt)"
    and "mt = bc_exitTrees bt ! i"
  using assms by (auto simp: exit_tree_def GetMerkleTreeID_def idx_def split: option.splits sum.splits if_splits)

lemma on_exit_tree_InrD:
  assumes "on_exit_tree bt net f st = (Inr u, bt', st')"
  obtains tID mt' where "bc_merkleTreeIDs bt net = Some tID" and "unat tID < length (bc_exitTrees bt)"
    and "f (bc_exitTrees bt ! unat tID) st = (Inr u, mt', st')"
    and "bt' = bt\<lparr>bc_exitTrees := (bc_exitTrees bt)[unat tID := mt']\<rparr>"
proof (cases "exit_tree bt net")
  case (Inr p)
  then obtain i mt where e: "exit_tree bt net = Inr (i, mt)" by (cases p) simp
  obtain y mt' st1 where f: "f mt st = (y, mt', st1)" by (metis prod_cases3)
  show thesis
    by (rule exit_tree_InrD [OF e], rule that) (use assms e f in \<open>auto simp: on_exit_tree_def\<close>)
qed (use assms in \<open>simp add: on_exit_tree_def\<close>)

text \<open>Replacing the tree of one network.\<close>

lemma ctrl_ok_update:
  assumes ok: "ctrl_ok K d bt L" and id: "bc_merkleTreeIDs bt net = Some tID"
    and new: "mirrors K d' mt' ls" "mt_networkID mt' = net"
    and others: "\<And>mt n. mirrors K d mt (L n) \<Longrightarrow> mt_networkID mt = n \<Longrightarrow> n \<noteq> net \<Longrightarrow> mirrors K d' mt (L n)"
  shows "ctrl_ok K d' (bt\<lparr>bc_exitTrees := (bc_exitTrees bt)[unat tID := mt']\<rparr>) (L(net := ls))"
  unfolding ctrl_ok_def
proof (intro allI impI)
  fix n t assume n: "bc_merkleTreeIDs (bt\<lparr>bc_exitTrees := (bc_exitTrees bt)[unat tID := mt']\<rparr>) n = Some t"
  hence o: "bc_merkleTreeIDs bt n = Some t" by simp
  note c = ctrl_okD [OF ok o] and ci = ctrl_okD [OF ok id]
  have same: "t = tID" if "n = net" using o id that by simp
  have diff: "unat t \<noteq> unat tID" if "n \<noteq> net" using c(2) ci(2) that by metis
  show "unat t < length (bc_exitTrees (bt\<lparr>bc_exitTrees := (bc_exitTrees bt)[unat tID := mt']\<rparr>)) \<and>
      mt_networkID (bc_exitTrees (bt\<lparr>bc_exitTrees := (bc_exitTrees bt)[unat tID := mt']\<rparr>) ! unat t) = n \<and>
      mirrors K d' (bc_exitTrees (bt\<lparr>bc_exitTrees := (bc_exitTrees bt)[unat tID := mt']\<rparr>) ! unat t) ((L(net := ls)) n)"
  proof (cases "n = net")
    case True
    thus ?thesis using same [OF True] ci(1) new by simp
  next
    case False
    have "mirrors K d' (bc_exitTrees bt ! unat t) (L n)" by (rule others [OF c(3,2) False])
    thus ?thesis using diff [OF False] False c(1,2) by simp
  qed
qed

lemma HashDeposit_Id [simp]: "HashDeposit K (p\<lparr>dep_Id := i\<rparr>) = HashDeposit K p"
  unfolding HashDeposit_def deposit_preimage_def by (simp cong: sum.case_cong)

text \<open>There is room for one more leaf in the tree of the network.\<close>

definition has_room :: "BridgeController \<Rightarrow> u32 \<Rightarrow> h256 list \<Rightarrow> bool" where
  "has_room bt net ls \<longleftrightarrow> Suc (length ls) < 2 ^ 32 \<and>
     (case exit_tree bt net of Inl e \<Rightarrow> True | Inr (i, mt) \<Rightarrow> length ls < 2 ^ unat (mt_height mt))"

lemma exit_tree_eq:
  "bc_merkleTreeIDs bt net = Some tID \<Longrightarrow> unat tID < length (bc_exitTrees bt) \<Longrightarrow>
   exit_tree bt net = Inr (unat tID, bc_exitTrees bt ! unat tID)"
  by (simp add: exit_tree_def GetMerkleTreeID_def idx_def)

lemma ctrl_AddDeposit:
  assumes view: "raw_view tx st = Some d" and ok: "ctrl_ok K d bt L" and room: "has_room bt (dep_NetworkID p) (L (dep_NetworkID p))"
    and add: "AddDeposit p tx st = (Inr i, st1)"
    and run: "bc_AddDeposit pg_merkleTreeStore K bt (p\<lparr>dep_Id := i\<rparr>) tx st1 = (Inr u, bt', st2)"
  obtains leaf d2 where "HashDeposit K p = Inr leaf" and "dep_DepositCount p = of_nat (length (L (dep_NetworkID p)))"
    and "raw_view tx st2 = Some d2"
    and "ctrl_ok K d2 bt' (L(dep_NetworkID p := L (dep_NetworkID p) @ [leaf]))"
    and "\<And>t. t \<noteq> tx \<Longrightarrow> raw_view t st2 = raw_view t st"
proof -
  let ?net = "dep_NetworkID p"
  let ?ls = "L ?net"
  obtain s where v1: "raw_view tx st1 = Some (d\<lparr>t_deposit := t_deposit d @ [new_deposit_row i p], seq_deposit := s\<rparr>)"
    and o1: "\<And>t. t \<noteq> tx \<Longrightarrow> raw_view t st1 = raw_view t st"
    using AddDeposit_InrD [OF add view] by metis
  obtain leaf where leaf: "HashDeposit K p = Inr leaf"
    using run by (cases "HashDeposit K p") (simp_all add: bc_AddDeposit_def)
  have run': "on_exit_tree bt ?net (\<lambda>mt. addLeaf pg_merkleTreeStore K mt i leaf (dep_DepositCount p) tx) st1 = (Inr u, bt', st2)"
    using run leaf by (simp add: bc_AddDeposit_def)
  show thesis
  proof (rule on_exit_tree_InrD [OF run'])
    fix tID :: u32 and mt' :: MerkleTree
    let ?mt = "bc_exitTrees bt ! unat tID"
    assume id: "bc_merkleTreeIDs bt ?net = Some tID" and lt: "unat tID < length (bc_exitTrees bt)"
      and leafrun: "addLeaf pg_merkleTreeStore K ?mt i leaf (dep_DepositCount p) tx st1 = (Inr u, mt', st2)"
      and bt': "bt' = bt\<lparr>bc_exitTrees := (bc_exitTrees bt)[unat tID := mt']\<rparr>"
    define H where "H = unat (mt_height ?mt)"
    have len: "length ?ls < 2 ^ H" "Suc (length ?ls) < 2 ^ 32"
      using room exit_tree_eq [OF id lt] by (simp_all add: has_room_def H_def)
    note c = ctrl_okD [OF ok id]
    note a = addLeaf_stored [OF c(3) H_def len v1 c(2) [symmetric] leafrun]
    let ?d2 = "deposit_added K H p i s (?ls @ [leaf]) d"
    have m: "mirrors K ?d2 mt' (?ls @ [leaf])"
      unfolding a(2) by (rule mirrors_added [OF c(3) H_def len c(2) [symmetric] leaf a(1)])
    have "ctrl_ok K ?d2 bt' (L(?net := ?ls @ [leaf]))"
      unfolding bt'
    proof (rule ctrl_ok_update [OF ok id m])
      show "mt_networkID mt' = ?net" unfolding a(2) using c(2) by simp
    qed (rule mirrors_added_other; simp)
    thus thesis using that [OF leaf a(1,3)] a(4) o1 by simp
  qed
qed

text \<open>A controller that differs from another one at most in the tree of one network.\<close>

definition forks :: "u32 \<Rightarrow> BridgeController \<Rightarrow> BridgeController \<Rightarrow> bool" where
  "forks net bt0 bt \<longleftrightarrow>
     bc_merkleTreeIDs bt = bc_merkleTreeIDs bt0 \<and> length (bc_exitTrees bt) = length (bc_exitTrees bt0) \<and>
     (\<forall>i<length (bc_exitTrees bt0).
        mt_networkID (bc_exitTrees bt ! i) = mt_networkID (bc_exitTrees bt0 ! i) \<and>
        mt_height (bc_exitTrees bt ! i) = mt_height (bc_exitTrees bt0 ! i) \<and>
        (mt_networkID (bc_exitTrees bt0 ! i) \<noteq> net \<longrightarrow> bc_exitTrees bt ! i = bc_exitTrees bt0 ! i))"

lemma forks_refl [simp]: "forks net bt bt"
  by (simp add: forks_def)

lemma forks_trans: "forks net a b \<Longrightarrow> forks net b c \<Longrightarrow> forks net a c"
  by (simp add: forks_def)

lemma forks_update:
  assumes "i < length (bc_exitTrees bt)" and "mt_networkID (bc_exitTrees bt ! i) = net"
    and "mt_networkID mt' = net" and "mt_height mt' = mt_height (bc_exitTrees bt ! i)"
  shows "forks net bt (bt\<lparr>bc_exitTrees := (bc_exitTrees bt)[i := mt']\<rparr>)"
  using assms by (simp add: forks_def nth_list_update)

text \<open>The registered trees carry the identifier of their network.\<close>

definition ids_ok :: "BridgeController \<Rightarrow> bool" where
  "ids_ok bt \<longleftrightarrow> (\<forall>net tID. bc_merkleTreeIDs bt net = Some tID \<longrightarrow>
     unat tID < length (bc_exitTrees bt) \<longrightarrow> mt_networkID (bc_exitTrees bt ! unat tID) = net)"

lemma ctrl_ok_ids: "ctrl_ok K d bt L \<Longrightarrow> ids_ok bt"
  by (simp add: ctrl_ok_def ids_ok_def)

lemma ids_ok_forks: "ids_ok bt \<Longrightarrow> forks net bt bt' \<Longrightarrow> ids_ok bt'"
  by (simp add: ids_ok_def forks_def)

lemma on_exit_tree_forks:
  assumes "on_exit_tree bt net f st = (x, bt', st')" and "ids_ok bt"
    and keeps: "\<And>mt y mt' st1. f mt st = (y, mt', st1) \<Longrightarrow> mt_networkID mt' = mt_networkID mt \<and> mt_height mt' = mt_height mt"
  shows "forks net bt bt'"
proof (cases "exit_tree bt net")
  case (Inr p)
  then obtain i mt where e: "exit_tree bt net = Inr (i, mt)" by (cases p) simp
  obtain y mt' st1 where f: "f mt st = (y, mt', st1)" by (metis prod_cases3)
  show ?thesis
  proof (rule exit_tree_InrD [OF e])
    fix tID :: u32
    assume t: "bc_merkleTreeIDs bt net = Some tID" "i = unat tID" "i < length (bc_exitTrees bt)" "mt = bc_exitTrees bt ! i"
    hence "mt_networkID (bc_exitTrees bt ! i) = net" using assms(2) by (simp add: ids_ok_def)
    moreover have "bt' = bt\<lparr>bc_exitTrees := (bc_exitTrees bt)[i := mt']\<rparr>" using assms(1) e f by (simp add: on_exit_tree_def)
    ultimately show ?thesis using forks_update [of i bt net mt'] keeps [OF f] t by simp
  qed
qed (use assms in \<open>simp add: on_exit_tree_def\<close>)

lemma setSiblings_keeps:
  "setSiblings S K mt tx st = (x, mt', st') \<Longrightarrow> mt_networkID mt' = mt_networkID mt \<and> mt_height mt' = mt_height mt"
  by (auto simp: setSiblings_def split: prod.splits sum.splits)

lemma rollbackMT_keeps:
  "rollbackMT S K mt net tx st = (x, mt', st') \<Longrightarrow> mt_networkID mt' = mt_networkID mt \<and> mt_height mt' = mt_height mt"
  by (auto simp: rollbackMT_def dest: setSiblings_keeps split: prod.splits sum.splits)

lemma resetLeaf_keeps:
  "resetLeaf S K mt c tx st = (x, mt', st') \<Longrightarrow> mt_networkID mt' = mt_networkID mt \<and> mt_height mt' = mt_height mt"
  by (auto simp: resetLeaf_def dest: setSiblings_keeps)

lemma addLeaf_keeps:
  "addLeaf S K mt i leaf c tx st = (x, mt', st') \<Longrightarrow> mt_networkID mt' = mt_networkID mt \<and> mt_height mt' = mt_height mt"
  by (auto simp: addLeaf_def Let_def split: if_splits prod.splits sum.splits)

lemma RollbackMT_forks: "RollbackMT S K bt net tx st = (x, bt', st') \<Longrightarrow> ids_ok bt \<Longrightarrow> forks net bt bt'"
  unfolding RollbackMT_def by (rule on_exit_tree_forks) (auto dest: rollbackMT_keeps)

lemma ReorgMT_forks: "ReorgMT S K bt c net tx st = (x, bt', st') \<Longrightarrow> ids_ok bt \<Longrightarrow> forks net bt bt'"
  unfolding ReorgMT_def by (rule on_exit_tree_forks) (auto dest: resetLeaf_keeps)

lemma bc_AddDeposit_forks:
  assumes "bc_AddDeposit S K bt p tx st = (x, bt', st')" and "ids_ok bt"
  shows "forks (dep_NetworkID p) bt bt'"
proof (cases "HashDeposit K p")
  case (Inr leaf)
  show ?thesis
    by (rule on_exit_tree_forks [where f = "\<lambda>mt. addLeaf S K mt (dep_Id p) leaf (dep_DepositCount p) tx"])
      (use assms Inr in \<open>auto simp: bc_AddDeposit_def dest: addLeaf_keeps\<close>)
qed (use assms in \<open>simp add: bc_AddDeposit_def\<close>)

text \<open>Rolling back the tree of a network after its tree was changed within a transaction.\<close>

lemma ctrl_ok_forks:
  assumes ok: "ctrl_ok K d bt0 L" and f: "forks net bt0 bt" and id: "bc_merkleTreeIDs bt0 net = Some tID"
    and m: "mirrors K d mt' (L net)" "mt_networkID mt' = net"
  shows "ctrl_ok K d (bt\<lparr>bc_exitTrees := (bc_exitTrees bt)[unat tID := mt']\<rparr>) L"
  unfolding ctrl_ok_def
proof (intro allI impI)
  fix n t assume "bc_merkleTreeIDs (bt\<lparr>bc_exitTrees := (bc_exitTrees bt)[unat tID := mt']\<rparr>) n = Some t"
  hence o: "bc_merkleTreeIDs bt0 n = Some t" using f by (simp add: forks_def)
  note c = ctrl_okD [OF ok o] and ci = ctrl_okD [OF ok id]
  have diff: "unat t \<noteq> unat tID" if "n \<noteq> net" using c(2) ci(2) that by metis
  show "unat t < length (bc_exitTrees (bt\<lparr>bc_exitTrees := (bc_exitTrees bt)[unat tID := mt']\<rparr>)) \<and>
      mt_networkID (bc_exitTrees (bt\<lparr>bc_exitTrees := (bc_exitTrees bt)[unat tID := mt']\<rparr>) ! unat t) = n \<and>
      mirrors K d (bc_exitTrees (bt\<lparr>bc_exitTrees := (bc_exitTrees bt)[unat tID := mt']\<rparr>) ! unat t) (L n)"
  proof (cases "n = net")
    case True
    hence "t = tID" using o id by simp
    thus ?thesis using True ci(1) m f by (simp add: forks_def)
  next
    case False
    hence "bc_exitTrees bt ! unat t = bc_exitTrees bt0 ! unat t" using f c(1,2) by (simp add: forks_def)
    thus ?thesis using diff [OF False] c f by (simp add: forks_def)
  qed
qed

lemma RollbackMT_ctrl:
  assumes ok: "db_ok d" "rht_ok d" "pg_ready NoTx st" "pg_committed st = d"
    and ctrl: "ctrl_ok K d bt0 L" and f: "forks net bt0 bt" and id: "bc_merkleTreeIDs bt0 net = Some tID"
  obtains bt' st' where "RollbackMT pg_merkleTreeStore K bt net NoTx st = (Inr (), bt', st')" and "ctrl_ok K d bt' L"
    and "forks net bt0 bt'" and "pg_ready NoTx st'" and "\<And>t. raw_view t st' = raw_view t st"
proof -
  let ?old = "bc_exitTrees bt0 ! unat tID" and ?mt = "bc_exitTrees bt ! unat tID"
  note c = ctrl_okD [OF ctrl id]
  have same: "mt_networkID ?mt = net" "mt_height ?mt = mt_height ?old" "bc_merkleTreeIDs bt net = Some tID"
    "unat tID < length (bc_exitTrees bt)"
    using f c id by (simp_all add: forks_def)
  define H where "H = unat (mt_height ?mt)"
  have H0: "H = unat (mt_height ?old)" using same(2) by (simp add: H_def)
  note md = mirrorsD [OF c(3) H0]
  have tree: "net_tree K H (mt_networkID ?mt) d (L net)" using md(1) c(2) same(1) by simp
  show thesis
  proof (rule rollbackMT_mirrors [OF ok tree H_def md(2-5)])
    fix mt' st'
    assume r: "rollbackMT pg_merkleTreeStore K ?mt (mt_networkID ?mt) NoTx st = (Inr (), mt', st')"
      and m: "mirrors K d mt' (L net)" "mt_networkID mt' = mt_networkID ?mt" "mt_height mt' = mt_height ?mt"
      and p: "pg_ready NoTx st'" "\<And>t. raw_view t st' = raw_view t st"
    let ?bt' = "bt\<lparr>bc_exitTrees := (bc_exitTrees bt)[unat tID := mt']\<rparr>"
    have "RollbackMT pg_merkleTreeStore K bt net NoTx st = (Inr (), ?bt', st')"
      using r same by (simp add: RollbackMT_def on_exit_tree_def exit_tree_eq)
    moreover have "ctrl_ok K d ?bt' L"
      by (rule ctrl_ok_forks [OF ctrl f id m(1)]) (use m(2) same(1) in simp)
    moreover have "forks net bt0 ?bt'"
      by (rule forks_trans [OF f], rule forks_update) (use same m in simp_all)
    ultimately show thesis using that p by blast
  qed
qed

lemma GetExitRoot_ctrl:
  assumes ctrl: "ctrl_ok K d bt L" and id: "bc_merkleTreeIDs bt net = Some tID"
    and ok: "db_ok d" "raw_view tx st = Some d" and H: "H = unat (mt_height (bc_exitTrees bt ! unat tID))"
    and run: "GetExitRoot pg_merkleTreeStore K bt net tx st = (x, st')"
  shows "x = Inr r \<Longrightarrow> r = tree_root K H (L net)" and "pg_ready tx st \<Longrightarrow> x = Inr (tree_root K H (L net))"
proof -
  let ?mt = "bc_exitTrees bt ! unat tID"
  note c = ctrl_okD [OF ctrl id]
  note md = mirrorsD [OF c(3) H]
  have g: "getRoot pg_merkleTreeStore K ?mt tx st = (x, st')"
    using run exit_tree_eq [OF id c(1)] by (simp add: GetExitRoot_def)
  note corr = pgm.getRoot_correct [OF net_tree_ok [OF ok(1) md(1) ok(2) md(4)] md(6) order.refl md(4) H md(3) g]
  show 1: "x = Inr r \<Longrightarrow> r = tree_root K H (L net)" for r using corr(2) by simp
  show "pg_ready tx st \<Longrightarrow> x = Inr (tree_root K H (L net))" using corr(3) 1 by auto
qed

text \<open>Deleting the deposits of a network from a count on, and resetting its tree.\<close>

lemma net_tree_deleted_other:
  assumes ok: "db_ok d" and tree: "net_tree K H net d ls" and none: "\<forall>p\<in>set (net_deposits net d). \<not> P p"
  shows "net_tree K H net (delete_deposits P d) ls"
proof -
  have "filter (\<lambda>p. \<not> P p) (net_deposits net d) = take (length ls) (net_deposits net d)"
    using tree none by (simp add: filter_id_conv net_tree_def)
  from net_tree_deleted [OF ok tree this] show ?thesis by simp
qed

lemma mirrors_deleted_other:
  assumes "db_ok d" and "mirrors K d mt ls" and "\<forall>p\<in>set (net_deposits (mt_networkID mt) d). \<not> P p"
  shows "mirrors K (delete_deposits P d) mt ls"
  using assms net_tree_deleted_other by (simp add: mirrors_def Let_def)

lemma ReorgMT_ctrl:
  assumes ctrl: "ctrl_ok K d bt L" and id: "bc_merkleTreeIDs bt net = Some tID"
    and ok: "db_ok d'" "rht_ok d'" "raw_view tx st = Some d'"
    and tree: "\<And>H. net_tree K H net d (L net) \<Longrightarrow> net_tree K H net d' (take m (L net))" and m: "m \<le> length (L net)"
    and others: "\<And>mt n. mirrors K d mt (L n) \<Longrightarrow> mt_networkID mt = n \<Longrightarrow> n \<noteq> net \<Longrightarrow> mirrors K d' mt (L n)"
  shows "ReorgMT pg_merkleTreeStore K bt (of_nat m) net tx st = (Inr u, bt', st') \<Longrightarrow>
           ctrl_ok K d' bt' (L(net := take m (L net)))"
    and "pg_ready tx st \<Longrightarrow> \<exists>bt' st'. ReorgMT pg_merkleTreeStore K bt (of_nat m) net tx st = (Inr (), bt', st') \<and> pg_ready tx st'"
proof -
  let ?mt = "bc_exitTrees bt ! unat tID"
  note c = ctrl_okD [OF ctrl id]
  define H where "H = unat (mt_height ?mt)"
  note md = mirrorsD [OF c(3) H_def]
  have t: "net_tree K H (mt_networkID ?mt) d' (take m (L net))" using tree md(1) c(2) by simp
  have len: "length (take m (L net)) < 2 ^ 32" "length (take m (L net)) \<le> 2 ^ H" using md(4,5) by simp_all
  have lm: "length (take m (L net)) = m" using m by simp
  note r = resetLeaf_mirrors [OF ok t H_def md(2,3) len, unfolded lm]
  have run: "ReorgMT pg_merkleTreeStore K bt (of_nat m) net tx st =
      (case resetLeaf pg_merkleTreeStore K ?mt (of_nat m) tx st of
         (x, mt', st') \<Rightarrow> (x, bt\<lparr>bc_exitTrees := (bc_exitTrees bt)[unat tID := mt']\<rparr>, st'))"
    by (simp add: ReorgMT_def on_exit_tree_def exit_tree_eq [OF id c(1)])
  show "ctrl_ok K d' bt' (L(net := take m (L net)))"
    if reorg: "ReorgMT pg_merkleTreeStore K bt (of_nat m) net tx st = (Inr u, bt', st')"
  proof -
    obtain mt' where a: "resetLeaf pg_merkleTreeStore K ?mt (of_nat m) tx st = (Inr u, mt', st')"
      and b: "bt' = bt\<lparr>bc_exitTrees := (bc_exitTrees bt)[unat tID := mt']\<rparr>"
      using reorg run by (cases "resetLeaf pg_merkleTreeStore K ?mt (of_nat m) tx st") auto
    show ?thesis unfolding b by (rule ctrl_ok_update [OF ctrl id _ _ others]) (use r(1) [OF a] c(2) in simp_all)
  qed
  show "\<exists>bt' st'. ReorgMT pg_merkleTreeStore K bt (of_nat m) net tx st = (Inr (), bt', st') \<and> pg_ready tx st'"
    if "pg_ready tx st"
    using r(2) [OF that] run by auto
qed

text \<open>The trees built at start-up.\<close>

lemma ctrl_ok_append:
  assumes ok: "ctrl_ok K d \<lparr>bc_exitTrees = trees, bc_rollupsTree = rt, bc_merkleTreeIDs = ids\<rparr> L"
    and mt: "mirrors K d mt (L net)" "mt_networkID mt = net" and small: "length trees < 2 ^ 32"
  shows "ctrl_ok K d \<lparr>bc_exitTrees = trees @ [mt], bc_rollupsTree = rt',
           bc_merkleTreeIDs = ids(net \<mapsto> of_nat (length trees))\<rparr> L"
  unfolding ctrl_ok_def
proof (intro allI impI, goal_cases)
  case (1 n t)
  show ?case
  proof (cases "n = net")
    case True
    hence "unat t = length trees" using 1 small by (auto simp: unat_of_nat)
    thus ?thesis using True mt by simp
  next
    case False
    hence "ids n = Some t" using 1 by simp
    hence "unat t < length trees \<and> mt_networkID (trees ! unat t) = n \<and> mirrors K d (trees ! unat t) (L n)"
      using ok by (simp add: ctrl_ok_def)
    thus ?thesis by (simp add: nth_append)
  qed
qed

lemma new_trees_ok:
  assumes ok: "db_ok d" "rht_ok d" and H: "H = unat height" "0 < H" "H \<le> 64"
  shows "pg_ready NoTx st \<Longrightarrow> pg_committed st = d \<Longrightarrow>
    \<forall>net\<in>set nets. net_tree K H net d (L net) \<and> length (L net) < 2 ^ 32 \<and> length (L net) \<le> 2 ^ H \<Longrightarrow>
    ctrl_ok K d \<lparr>bc_exitTrees = trees, bc_rollupsTree = rt, bc_merkleTreeIDs = ids\<rparr> L \<Longrightarrow>
    length trees + length nets < 2 ^ 32 \<Longrightarrow>
    \<exists>trees' ids' st'. new_trees pg_merkleTreeStore K height (length trees) nets ids trees st = (Inr (trees', ids'), st') \<and>
      ctrl_ok K d \<lparr>bc_exitTrees = trees', bc_rollupsTree = rt', bc_merkleTreeIDs = ids'\<rparr> L \<and>
      dom ids' = dom ids \<union> set nets \<and> pg_ready NoTx st' \<and> pg_committed st' = d"
proof (induction nets arbitrary: trees ids st)
  case Nil
  thus ?case by (simp add: ctrl_ok_def)
next
  case (Cons net nets)
  show ?case
  proof (rule NewMerkleTree_mirrors [OF ok Cons.prems(1,2) _ H, of K net "L net"], goal_cases)
    case (4 mt st1)
    have com: "pg_committed st1 = d" using 4(6) [of NoTx] Cons.prems(2) by (simp add: raw_view_def)
    have c: "ctrl_ok K d \<lparr>bc_exitTrees = trees @ [mt], bc_rollupsTree = rt,
        bc_merkleTreeIDs = ids(net \<mapsto> of_nat (length trees))\<rparr> L"
      by (rule ctrl_ok_append [OF Cons.prems(4) 4(2,3)]) (use Cons.prems(5) in simp)
    have "\<exists>trees' ids' st'. new_trees pg_merkleTreeStore K height (length (trees @ [mt])) nets
        (ids(net \<mapsto> of_nat (length trees))) (trees @ [mt]) st1 = (Inr (trees', ids'), st') \<and>
      ctrl_ok K d \<lparr>bc_exitTrees = trees', bc_rollupsTree = rt', bc_merkleTreeIDs = ids'\<rparr> L \<and>
      dom ids' = dom (ids(net \<mapsto> of_nat (length trees))) \<union> set nets \<and> pg_ready NoTx st' \<and> pg_committed st' = d"
      by (rule Cons.IH [OF 4(5) com _ c]) (use Cons.prems(3,5) in simp_all)
    thus ?case using 4(1) by (auto simp del: fun_upd_apply)
  qed (use Cons.prems in simp_all)
qed

lemma NewBridgeController_ok:
  assumes ok: "db_ok d" "rht_ok d" and H: "H = unat height" "0 < H" "H \<le> 64"
    and st: "pg_ready NoTx st" "pg_committed st = d"
    and nets: "\<forall>net\<in>set nets. net_tree K H net d (L net) \<and> length (L net) < 2 ^ 32 \<and> length (L net) \<le> 2 ^ H"
    and rollups: "net_tree K H rollupsTreeID d []" and small: "length nets < 2 ^ 32"
  shows "\<exists>bt st'. NewBridgeController pg_merkleTreeStore K height nets st = (Inr bt, st') \<and>
    ctrl_ok K d bt L \<and> dom (bc_merkleTreeIDs bt) = set nets"
proof -
  let ?any = "\<lparr>mt_networkID = 0, mt_height = 0, mt_count = 0, mt_siblings = []\<rparr>"
  have "ctrl_ok K d \<lparr>bc_exitTrees = [], bc_rollupsTree = ?any, bc_merkleTreeIDs = Map.empty\<rparr> L" by (simp add: ctrl_ok_def)
  from new_trees_ok [OF ok H st nets this, of ?any] small
  obtain trees ids st1 where n: "new_trees pg_merkleTreeStore K height 0 nets Map.empty [] st = (Inr (trees, ids), st1)"
    and c: "ctrl_ok K d \<lparr>bc_exitTrees = trees, bc_rollupsTree = ?any, bc_merkleTreeIDs = ids\<rparr> L"
    and dm: "dom ids = set nets" and s: "pg_ready NoTx st1" "pg_committed st1 = d" by auto
  show ?thesis
  proof (rule NewMerkleTree_mirrors [OF ok s rollups H], goal_cases)
    case (3 mt st')
    thus ?case using n c dm by (simp add: NewBridgeController_def ctrl_ok_def)
  qed simp_all
qed

section \<open>Properties\<close>

text \<open>C1. Storing a deposit keeps the database and the trees of the controller in step: when the controller
  mirrors the database and storing the deposit and adding its leaf both succeed, the deposit's count was the
  number of leaves of its network, afterwards the tree of that network has exactly one more leaf, the leaf
  hash of the deposit, and the controller mirrors the new database for every network.\<close>

theorem deposit_keeps_trees:
  assumes "raw_view tx st = Some d" and "ctrl_ok K d bt L"
    and "has_room bt (dep_NetworkID p) (L (dep_NetworkID p))"
    and "AddDeposit p tx st = (Inr i, st1)"
    and "bc_AddDeposit pg_merkleTreeStore K bt (p\<lparr>dep_Id := i\<rparr>) tx st1 = (Inr u, bt', st2)"
  shows "\<exists>leaf d2. HashDeposit K p = Inr leaf \<and> dep_DepositCount p = of_nat (length (L (dep_NetworkID p))) \<and>
    raw_view tx st2 = Some d2 \<and> ctrl_ok K d2 bt' (L(dep_NetworkID p := L (dep_NetworkID p) @ [leaf]))"
  by (rule ctrl_AddDeposit [OF assms]) blast

definition sample_ctrl :: BridgeController where
  "sample_ctrl = \<lparr>bc_exitTrees = [\<lparr>mt_networkID = 0, mt_height = 1, mt_count = 0, mt_siblings = [0]\<rparr>],
     bc_rollupsTree = \<lparr>mt_networkID = rollupsTreeID, mt_height = 1, mt_count = 0, mt_siblings = [0]\<rparr>,
     bc_merkleTreeIDs = [0 \<mapsto> 0]\<rparr>"

lemma net_tree_empty: "net_tree K H net empty_db []"
  by (simp add: net_tree_def net_deposits_def empty_db_def)

lemma sample_ctrl_ok: "ctrl_ok K empty_db sample_ctrl (\<lambda>_. [])"
  by (simp add: ctrl_ok_def sample_ctrl_def mirrors_def Let_def net_tree_empty sib_ok_def)

definition sample_added :: "unit result \<times> BridgeController \<times> pg" where
  "sample_added =
     (case AddDeposit (sample_deposit\<lparr>dep_BlockID := 0\<rparr>) NoTx pg_init of
        (Inl e, st) \<Rightarrow> (Inl e, sample_ctrl, st)
      | (Inr i, st) \<Rightarrow>
          bc_AddDeposit pg_merkleTreeStore (\<lambda>_. 9) sample_ctrl (sample_deposit\<lparr>dep_BlockID := 0, dep_Id := i\<rparr>) NoTx st)"

lemmas tree_run = addLeaf_def levels_up_def bit_at_def upd_def idx_def Hash_def Let_def
  pg_merkleTreeStore_def SetRoot_def BulkSet_def rht_key_def deposit_ref_def HashDeposit_def deposit_preimage_def FillBytes32_def

lemmas ctrl_run = bc_AddDeposit_def on_exit_tree_def exit_tree_def GetMerkleTreeID_def

lemma nth_zeroHashes_0: "zeroHashes K ! 0 = 0"
  using idx_zeroHashes [of K 0] by (simp add: idx_def HashZero_def)

lemma sample_added_ok: "fst sample_added = Inr ()"
  by (simp add: sample_added_def AddDeposit_def block_ref_def sample_deposit_def sample_ctrl_def nth_zeroHashes_0
      new_deposit_row_def Deposit.defs pg_run tree_run ctrl_run)

theorem deposit_keeps_trees_witness:
  "\<exists>i st1 bt' st2. AddDeposit (sample_deposit\<lparr>dep_BlockID := 0\<rparr>) NoTx pg_init = (Inr i, st1) \<and>
     bc_AddDeposit pg_merkleTreeStore (\<lambda>_. 9) sample_ctrl (sample_deposit\<lparr>dep_BlockID := 0, dep_Id := i\<rparr>) NoTx st1 = (Inr (), bt', st2) \<and>
     (\<exists>leaf d2. HashDeposit (\<lambda>_. 9) (sample_deposit\<lparr>dep_BlockID := 0\<rparr>) = Inr leaf \<and> dep_DepositCount sample_deposit = of_nat 0 \<and>
        raw_view NoTx st2 = Some d2 \<and> ctrl_ok (\<lambda>_. 9) d2 bt' ((\<lambda>_. [])(0 := [] @ [leaf])))"
proof -
  let ?p = "sample_deposit\<lparr>dep_BlockID := 0\<rparr>"
  obtain r st1 where a: "AddDeposit ?p NoTx pg_init = (r, st1)" by fastforce
  then obtain i where i: "AddDeposit ?p NoTx pg_init = (Inr i, st1)"
    using sample_added_ok by (cases r) (simp_all add: sample_added_def)
  obtain x bt' st2 where b: "bc_AddDeposit pg_merkleTreeStore (\<lambda>_. 9) sample_ctrl (?p\<lparr>dep_Id := i\<rparr>) NoTx st1 = (x, bt', st2)"
    by (metis prod_cases3)
  hence x: "x = Inr ()" using sample_added_ok i by (simp add: sample_added_def)
  have v: "raw_view NoTx pg_init = Some empty_db" by (simp add: raw_view_def pg_init_def)
  have room: "has_room sample_ctrl (dep_NetworkID ?p) []"
    by (simp add: has_room_def ctrl_run sample_ctrl_def sample_deposit_def idx_def)
  show ?thesis
    using i b x deposit_keeps_trees [OF v sample_ctrl_ok room i b [unfolded x]]
    by (auto simp: sample_deposit_def)
qed

text \<open>C3. Start-up: when the database holds, for every configured network, the rows of the tree of its
  deposits, and answers, \<^verbatim>\<open>NewBridgeController\<close> succeeds and the new controller registers exactly the
  configured networks and mirrors the database for each of them.\<close>

theorem NewBridgeController_mirrors:
  assumes "db_ok d" and "rht_ok d" and "0 < unat height" and "unat height \<le> 64"
    and "pg_ready NoTx st" and "pg_committed st = d"
    and "\<forall>net\<in>set nets. net_tree K (unat height) net d (L net) \<and> length (L net) < 2 ^ 32 \<and> length (L net) \<le> 2 ^ unat height"
    and "net_tree K (unat height) rollupsTreeID d []" and "length nets < 2 ^ 32"
  shows "\<exists>bt st'. NewBridgeController pg_merkleTreeStore K height nets st = (Inr bt, st') \<and>
    ctrl_ok K d bt L \<and> dom (bc_merkleTreeIDs bt) = set nets"
  by (rule NewBridgeController_ok [OF assms(1,2) refl assms(3-9)])

lemma rht_ok_empty: "rht_ok empty_db"
  by (simp add: rht_ok_def no_clash_def empty_db_def)

lemma pg_ready_init: "pg_ready NoTx pg_init" and committed_init: "pg_committed pg_init = empty_db"
  by (simp_all add: pg_ready_def pg_init_def pg_view_def)

theorem NewBridgeController_mirrors_witness:
  "\<exists>bt st'. NewBridgeController pg_merkleTreeStore (\<lambda>_. 9) 32 [0, 1] pg_init = (Inr bt, st') \<and>
    ctrl_ok (\<lambda>_. 9) empty_db bt (\<lambda>_. []) \<and> dom (bc_merkleTreeIDs bt) = set [0, 1]"
  by (rule NewBridgeController_mirrors [OF db_ok_empty rht_ok_empty _ _ pg_ready_init committed_init])
    (simp_all add: net_tree_empty)

text \<open>C2. After a failed transaction the tree is the one of the committed deposits again: whatever the
  transaction did to the tree of the network, \<^verbatim>\<open>RollbackMT\<close> without a transaction succeeds when the database
  answers, leaves the database as it is, and the controller mirrors the committed database.\<close>

theorem RollbackMT_restores:
  assumes "pg_ok st" and "rht_ok (pg_committed st)" and "pg_ready NoTx st"
    and "ctrl_ok K (pg_committed st) bt0 L" and "forks net bt0 bt" and "net \<in> dom (bc_merkleTreeIDs bt0)"
  shows "\<exists>bt' st'. RollbackMT pg_merkleTreeStore K bt net NoTx st = (Inr (), bt', st') \<and>
    ctrl_ok K (pg_committed st) bt' L \<and> (\<forall>t. raw_view t st' = raw_view t st)"
proof -
  obtain tID where "bc_merkleTreeIDs bt0 net = Some tID" using assms(6) by auto
  moreover have "db_ok (pg_committed st)" using assms(1) by (simp add: pg_ok_alt)
  ultimately show ?thesis using RollbackMT_ctrl [OF _ assms(2,3) refl assms(4,5)] by metis
qed

theorem RollbackMT_restores_witness:
  "forks 0 sample_ctrl (sample_ctrl\<lparr>bc_exitTrees := [\<lparr>mt_networkID = 0, mt_height = 1, mt_count = 7, mt_siblings = [5]\<rparr>]\<rparr>) \<and>
   (\<exists>bt' st'. RollbackMT pg_merkleTreeStore (\<lambda>_. 9)
       (sample_ctrl\<lparr>bc_exitTrees := [\<lparr>mt_networkID = 0, mt_height = 1, mt_count = 7, mt_siblings = [5]\<rparr>]\<rparr>) 0 NoTx pg_init = (Inr (), bt', st') \<and>
     ctrl_ok (\<lambda>_. 9) (pg_committed pg_init) bt' (\<lambda>_. []) \<and> (\<forall>t. raw_view t st' = raw_view t pg_init))"
proof -
  let ?bt = "sample_ctrl\<lparr>bc_exitTrees := [\<lparr>mt_networkID = 0, mt_height = 1, mt_count = 7, mt_siblings = [5]\<rparr>]\<rparr>"
  have f: "forks 0 sample_ctrl ?bt" by (simp add: forks_def sample_ctrl_def)
  have c: "ctrl_ok (\<lambda>_. 9) (pg_committed pg_init) sample_ctrl (\<lambda>_. [])" by (simp add: committed_init sample_ctrl_ok)
  show ?thesis
    using f RollbackMT_restores [OF pg_ok_init _ pg_ready_init c f] by (simp add: committed_init rht_ok_empty sample_ctrl_def)
qed

text \<open>C5. \<^verbatim>\<open>GetExitRoot\<close> returns the root of the tree of all deposits of the network, and it does return it
  when the database answers.\<close>

theorem GetExitRoot_spec:
  assumes "ctrl_ok K d bt L" and "db_ok d" and "raw_view tx st = Some d" and "exit_tree bt net = Inr (i, mt)"
    and "GetExitRoot pg_merkleTreeStore K bt net tx st = (x, st')"
  shows "(\<forall>r. x = Inr r \<longrightarrow> r = tree_root K (unat (mt_height mt)) (L net)) \<and>
    (pg_ready tx st \<longrightarrow> x = Inr (tree_root K (unat (mt_height mt)) (L net)))"
proof (rule exit_tree_InrD [OF assms(4)])
  fix tID :: u32
  assume id: "bc_merkleTreeIDs bt net = Some tID" and e: "i = unat tID" "mt = bc_exitTrees bt ! i"
  have H: "unat (mt_height mt) = unat (mt_height (bc_exitTrees bt ! unat tID))" using e by simp
  note g = GetExitRoot_ctrl [OF assms(1) id assms(2,3) H assms(5)]
  show ?thesis by (intro conjI allI impI; (rule g(1) | rule g(2)); assumption)
qed

theorem GetExitRoot_spec_witness:
  "GetExitRoot pg_merkleTreeStore (\<lambda>_. 9) sample_ctrl 0 NoTx pg_init = (Inr (tree_root (\<lambda>_. 9) 1 []), pg_init)"
proof -
  obtain x st' where g: "GetExitRoot pg_merkleTreeStore (\<lambda>_. 9) sample_ctrl 0 NoTx pg_init = (x, st')" by fastforce
  have e: "exit_tree sample_ctrl 0 = Inr (0, bc_exitTrees sample_ctrl ! 0)"
    by (simp add: exit_tree_def GetMerkleTreeID_def sample_ctrl_def idx_def)
  have v: "raw_view NoTx pg_init = Some empty_db" by (simp add: raw_view_def committed_init)
  have "x = Inr (tree_root (\<lambda>_. 9) 1 [])"
    using GetExitRoot_spec [OF sample_ctrl_ok db_ok_empty v e g, THEN conjunct2, THEN mp, OF pg_ready_init]
    by (simp add: sample_ctrl_def)
  moreover have "st' = pg_init"
    using g by (simp add: GetExitRoot_def exit_tree_def GetMerkleTreeID_def idx_def getRoot_def sample_ctrl_def)
  ultimately show ?thesis using g by simp
qed

text \<open>C4. Resetting the deposits of a rollup to a count removes exactly the leaves from that count on:
  \<^verbatim>\<open>ResetDeposits\<close> followed by \<^verbatim>\<open>ReorgMT\<close> with the same count leaves the controller mirroring the new
  database, with the tree of the network cut to that many leaves and all other trees as they were.\<close>

theorem ResetDeposits_cuts_tree:
  assumes "pg_ok st" and "raw_view tx st = Some d" and "rht_ok d" and "ctrl_ok K d bt L"
    and "unat c \<le> length (L net)"
    and "ResetDeposits c net tx st = (Inr u, st1)"
    and "ReorgMT pg_merkleTreeStore K bt c net tx st1 = (Inr u', bt', st2)"
  shows "\<exists>d2. raw_view tx st2 = Some d2 \<and> ctrl_ok K d2 bt' (L(net := take (unat c) (L net)))"
proof -
  let ?P = "\<lambda>r. c \<le> dep_DepositCount r \<and> dep_NetworkID r = net"
  let ?d = "delete_deposits ?P d"
  have ok: "db_ok d" using assms(1,2) by (simp add: pg_ok_def)
  have run: "pg_exec tx (\<lambda>d. Inr ((), delete_deposits ?P d)) st = (Inr u, st1)"
    using assms(6) by (simp add: ResetDeposits_def split: if_splits)
  have v1: "raw_view tx st1 = Some ?d" using pg_exec_InrE [OF run assms(2)] by auto
  have ok1: "db_ok ?d" using pg_ok_ResetDeposits [OF assms(1,6)] v1 by (simp add: pg_ok_def)
  have rht: "rht_ok ?d" using assms(3) by (rule rht_ok_delete)
  have reorg: "ReorgMT pg_merkleTreeStore K bt (of_nat (unat c)) net tx st1 = (Inr u', bt', st2)" using assms(7) by simp
  then obtain tID where id: "bc_merkleTreeIDs bt net = Some tID"
    unfolding ReorgMT_def by (rule on_exit_tree_InrD)
  have v2: "raw_view tx st2 = raw_view tx st1"
    by (rule on_exit_tree_InrD [OF reorg [unfolded ReorgMT_def]], unfold resetLeaf_def, rule setSiblings_views)
  have "ctrl_ok K ?d bt' (L(net := take (unat c) (L net)))"
  proof (rule ReorgMT_ctrl(1) [OF assms(4) id ok1 rht v1 _ assms(5) _ reorg])
    show "net_tree K H net ?d (take (unat c) (L net))" if "net_tree K H net d (L net)" for H
      by (rule net_tree_ResetDeposits [OF ok that]) (use mirrorsD(4) [OF ctrl_okD(3) [OF assms(4) id] refl] in simp)
    show "mirrors K ?d mt (L n)" if "mirrors K d mt (L n)" "mt_networkID mt = n" "n \<noteq> net" for mt n
      by (rule mirrors_deleted_other [OF ok that(1)]) (use that in \<open>auto simp: net_deposits_def\<close>)
  qed
  thus ?thesis using v1 v2 by simp
qed

definition sample_db1 :: db where
  "sample_db1 = deposit_added (\<lambda>_. 9) 1 (sample_deposit\<lparr>dep_NetworkID := 1, dep_BlockID := 0\<rparr>) 1 2 [9] empty_db"

definition sample_pg1 :: pg where
  "sample_pg1 = pg_init\<lparr>pg_committed := sample_db1\<rparr>"

definition sample_ctrl1 :: BridgeController where
  "sample_ctrl1 = \<lparr>bc_exitTrees = [\<lparr>mt_networkID = 1, mt_height = 1, mt_count = 1, mt_siblings = [9]\<rparr>],
     bc_rollupsTree = \<lparr>mt_networkID = rollupsTreeID, mt_height = 1, mt_count = 0, mt_siblings = [0]\<rparr>,
     bc_merkleTreeIDs = [1 \<mapsto> 0]\<rparr>"

lemma sample1_tree: "net_tree (\<lambda>_. 9) 1 1 sample_db1 [9]"
  using net_tree_added [OF net_tree_empty, of "sample_deposit\<lparr>dep_NetworkID := 1, dep_BlockID := 0\<rparr>" 1 "\<lambda>_. 9" 9 1 1 2]
  by (simp add: sample_db1_def sample_deposit_def HashDeposit_def deposit_preimage_def FillBytes32_def)

lemma sample1_ctrl_ok: "ctrl_ok (\<lambda>_. 9) sample_db1 sample_ctrl1 (\<lambda>_. [9])"
proof -
  have "node (\<lambda>_. 9) [9] 0 0 = 9" by (simp add: leaf_at_def)
  thus ?thesis using sample1_tree by (simp add: ctrl_ok_def sample_ctrl1_def mirrors_def Let_def sib_ok_def)
qed

lemma sample1_ok: "pg_ok sample_pg1" "rht_ok sample_db1" "raw_view NoTx sample_pg1 = Some sample_db1"
proof -
  have "db_ok sample_db1"
    by (simp add: db_ok_defs sample_db1_def deposit_added_def empty_db_def path_inserts_def path_rows_def row_at_def
        sample_deposit_def rht_key_def block_ref_def deposit_ref_def new_deposit_row_def Deposit.defs)
  thus "pg_ok sample_pg1" by (simp add: pg_ok_alt sample_pg1_def pg_init_def)
  show "rht_ok sample_db1"
    by (simp add: rht_ok_def no_clash_def sample_db1_def deposit_added_def empty_db_def path_inserts_def path_rows_def)
  show "raw_view NoTx sample_pg1 = Some sample_db1" by (simp add: raw_view_def sample_pg1_def)
qed

theorem ResetDeposits_cuts_tree_witness:
  "\<exists>st1 bt' st2. ResetDeposits 0 1 NoTx sample_pg1 = (Inr (), st1) \<and>
     ReorgMT pg_merkleTreeStore (\<lambda>_. 9) sample_ctrl1 0 1 NoTx st1 = (Inr (), bt', st2) \<and>
     (\<exists>d2. raw_view NoTx st2 = Some d2 \<and> ctrl_ok (\<lambda>_. 9) d2 bt' ((\<lambda>_. [9])(1 := take 0 [9])))"
proof -
  obtain st1 where a: "ResetDeposits 0 1 NoTx sample_pg1 = (Inr (), st1)"
    by (simp add: ResetDeposits_def pg_run sample_pg1_def)
  obtain bt' st2 where b: "ReorgMT pg_merkleTreeStore (\<lambda>_. 9) sample_ctrl1 0 1 NoTx st1 = (Inr (), bt', st2)"
    by (simp add: ReorgMT_def ctrl_run sample_ctrl1_def idx_def resetLeaf_def setSiblings_def initSiblings_def
        levels_up_def nth_zeroHashes_0)
  show ?thesis
    using a b ResetDeposits_cuts_tree [OF sample1_ok(1,3,2) sample1_ctrl_ok _ a b] by auto
qed

text \<open>C10. A failed count query is taken for one stored deposit: \<^verbatim>\<open>GetLastDepositCount\<close> answers 0 without an
  error when its query fails, so that \<^verbatim>\<open>rollbackMT\<close> on a network with deposits reports success and leaves the
  tree of the first deposit only, however many deposits are stored.\<close>

theorem rollbackMT_hides_failed_count:
  assumes "pg_ok st" and "rht_ok (pg_committed st)" and "pg_faults st = True # fs" and "True \<notin> set fs"
    and "net_tree K (unat (mt_height mt)) (mt_networkID mt) (pg_committed st) ls" and "ls \<noteq> []" and "length ls < 2 ^ 32"
    and "0 < unat (mt_height mt)" and "unat (mt_height mt) \<le> 64"
  shows "\<exists>mt' st'. rollbackMT pg_merkleTreeStore K mt (mt_networkID mt) NoTx st = (Inr (), mt', st') \<and> mt_count mt' = 1"
proof -
  let ?st = "st\<lparr>pg_faults := fs\<rparr>" and ?mt = "mt\<lparr>mt_count := 1\<rparr>"
  have c: "stored_count pg_merkleTreeStore (mt_networkID mt) st = (Inr 1, ?st)"
    using assms(3) by (simp add: stored_count_def pg_merkleTreeStore_def GetLastDepositCount_def pg_query_def pg_call_def pg_abort_def)
  have ok: "db_ok (pg_committed st)" using assms(1) by (simp add: pg_ok_alt)
  have v: "raw_view NoTx ?st = Some (pg_committed st)" by (simp add: raw_view_def)
  have rdy: "pg_ready NoTx ?st" using assms(4) by (simp add: pg_ready_def pg_view_def)
  have clash: "no_clash (pg_nodes NoTx ?st)" using assms(2) v by (simp add: rht_ok_def no_clash_view)
  have t: "net_tree K (unat (mt_height mt)) (mt_networkID ?mt) (pg_committed st) ls" using assms(5) by simp
  have H: "unat (mt_height mt) = unat (mt_height ?mt)" by simp
  obtain x st' where i: "initSiblings pg_merkleTreeStore K ?mt NoTx ?st = (x, st')" by fastforce
  have m: "mt_count ?mt = of_nat 1" "1 \<le> length ls" "1 < (2::nat) ^ 32" "1 \<le> (2::nat) ^ unat (mt_height mt)"
    using assms(6) by (simp_all add: Suc_le_eq)
  have "\<exists>sibs. x = Inr sibs"
    using pgm.initSiblings_correct(3) [OF net_tree_ok [OF ok t v assms(7)] clash m H assms(8,9) i rdy] by blast
  thus ?thesis using c i by (auto simp: rollbackMT_def setSiblings_def)
qed

theorem rollbackMT_hides_failed_count_witness:
  "\<exists>mt' st'. rollbackMT pg_merkleTreeStore (\<lambda>_. 9) (bc_exitTrees sample_ctrl1 ! 0) 1 NoTx (sample_pg1\<lparr>pg_faults := [True]\<rparr>) =
     (Inr (), mt', st') \<and> mt_count mt' = 1"
proof -
  let ?st = "sample_pg1\<lparr>pg_faults := [True]\<rparr>" and ?mt = "bc_exitTrees sample_ctrl1 ! 0"
  have "pg_ok ?st" "rht_ok (pg_committed ?st)" using sample1_ok by (simp_all add: pg_ok_alt sample_pg1_def)
  moreover have "mt_networkID ?mt = 1" "unat (mt_height ?mt) = 1" by (simp_all add: sample_ctrl1_def)
  moreover have "pg_committed ?st = sample_db1" by (simp add: sample_pg1_def)
  ultimately show ?thesis
    using rollbackMT_hides_failed_count [of ?st "[]" "\<lambda>_. 9" ?mt "[9]"] sample1_tree by simp
qed

end
