(* ===== verification/Pg_Queries.thy ===== *)
theory Pg_Queries
  imports Pg_Integrity "HOL-Library.Multiset"
begin

text \<open>
  \<^verbatim>\<open>db/pgstorage\<close>, the rest of its operations: what the API reads, the \<^verbatim>\<open>ready_for_claim\<close> flag of
  the deposits, and the tables of the claim manager.

  \<^item> A scalar subquery that yields no row is NULL, with which no comparison holds; one that yields
    several rows is an error of the statement.
  \<^item> \<open>FromHex\<close> stands for go-ethereum's \<^verbatim>\<open>common.FromHex\<close>; the addresses of the tables are compared
    with the bytes it returns.  \<open>decode\<close> is the ABI decoder of token metadata.
  \<^item> Clock readings are arguments; a time stamp is stored as it is given.
  \<^item> \<open>storage_step\<close> is one call of the storage by any of its clients, and the integrity of the
    tables is kept along every sequence of them.
\<close>

section \<open>Wrapped tokens\<close>

definition token_row :: "u32 \<Rightarrow> address \<Rightarrow> TokenWrapped \<Rightarrow> bool" where
  "token_row originalNetwork originalTokenAddress t \<longleftrightarrow>
     tok_OriginalNetwork t = originalNetwork \<and> tok_OriginalTokenAddress t = originalTokenAddress"

definition zero_token :: TokenWrapped where
  "zero_token = \<lparr>tok_TokenMetadata = empty_metadata, tok_OriginalNetwork = 0, tok_OriginalTokenAddress = 0,
     tok_WrappedTokenAddress = 0, tok_BlockID = 0, tok_BlockNumber = 0, tok_NetworkID = 0\<rparr>"

definition update_token :: "u32 \<Rightarrow> address \<Rightarrow> TokenMetadata \<Rightarrow> dbTx \<Rightarrow> pg \<Rightarrow> unit result \<times> pg" where
  "update_token originalNetwork originalTokenAddress meta tx =
     pg_exec tx (\<lambda>d. Inr ((), d\<lparr>t_token_wrapped := map (\<lambda>t. if token_row originalNetwork originalTokenAddress t
                                  then t\<lparr>tok_TokenMetadata := meta\<rparr> else t) (t_token_wrapped d)\<rparr>))"

text \<open>When the query fails with another error than a missing row, the code goes on with the zero token
  before it returns that error.\<close>

definition GetTokenWrapped ::
  "(bytes \<Rightarrow> TokenMetadata result) \<Rightarrow> u32 \<Rightarrow> address \<Rightarrow> dbTx \<Rightarrow> pg \<Rightarrow> TokenWrapped result \<times> pg" where
  "GetTokenWrapped decode originalNetwork originalTokenAddress tx st =
     (case pg_query tx (\<lambda>d. first_row (filter (token_row originalNetwork originalTokenAddress)
              (t_token_wrapped d))) st of
        (Inl ErrStorageNotFound, st1) \<Rightarrow> (Inl ErrStorageNotFound, st1)
      | (res, st1) \<Rightarrow>
          let token = (case res of Inl e \<Rightarrow> zero_token | Inr t \<Rightarrow> t\<lparr>tok_BlockNumber := 0\<rparr>) in
          if tm_Symbol (tok_TokenMetadata token) \<noteq> [] then (map_sum id (\<lambda>t. token) res, st1)
          else
            (case GetTokenMetadata (tok_OriginalNetwork token) (tok_NetworkID token)
                    (tok_OriginalTokenAddress token) tx st1 of
               (Inl e, st2) \<Rightarrow> if e \<noteq> ErrNoRows then (Inl e, st2) else (map_sum id (\<lambda>t. token) res, st2)
             | (Inr metadata, st2) \<Rightarrow>
                 (case decode metadata of
                    Inl e \<Rightarrow> (Inl e, st2)
                  | Inr meta \<Rightarrow>
                      (case update_token originalNetwork originalTokenAddress meta tx st2 of
                         (Inl e, st3) \<Rightarrow> (Inl e, st3)
                       | (Inr _, st3) \<Rightarrow> (map_sum id (\<lambda>t. token\<lparr>tok_TokenMetadata := meta\<rparr>) res, st3)))))"

section \<open>Claims and deposits of an address\<close>

definition limit_offset :: "u32 \<Rightarrow> u32 \<Rightarrow> 'a list \<Rightarrow> 'a list" where
  "limit_offset limit offset xs = take (unat limit) (drop (unat offset) xs)"

definition GetClaimCount :: "(string \<Rightarrow> bytes) \<Rightarrow> string \<Rightarrow> dbTx \<Rightarrow> pg \<Rightarrow> u64 result \<times> pg" where
  "GetClaimCount FromHex destAddr tx =
     pg_query tx (\<lambda>d. Inr (of_nat (length (filter (\<lambda>c. be_bytes 20 (clm_DestinationAddress c) = FromHex destAddr)
        (t_claim d)))))"

definition GetClaims :: "(string \<Rightarrow> bytes) \<Rightarrow> string \<Rightarrow> u32 \<Rightarrow> u32 \<Rightarrow> dbTx \<Rightarrow> pg \<Rightarrow> (Claim list) result \<times> pg" where
  "GetClaims FromHex destAddr limit offset tx =
     pg_query tx (\<lambda>d. Inr (limit_offset limit offset (order_desc clm_BlockID
        (filter (\<lambda>c. be_bytes 20 (clm_DestinationAddress c) = FromHex destAddr) (t_claim d)))))"

text \<open>The filters on the networks are there when the pointers are not nil.\<close>

definition deposit_for :: "(string \<Rightarrow> bytes) \<Rightarrow> string \<Rightarrow> u32 option \<Rightarrow> u32 option \<Rightarrow> deposit_row \<Rightarrow> bool" where
  "deposit_for FromHex destAddr networkID destinationNetworkID r \<longleftrightarrow>
     be_bytes 20 (dep_DestinationAddress r) = FromHex destAddr \<and>
     (case networkID of None \<Rightarrow> True | Some n \<Rightarrow> dep_NetworkID r = n) \<and>
     (case destinationNetworkID of None \<Rightarrow> True | Some n \<Rightarrow> dep_DestinationNetwork r = n)"

definition GetDeposits ::
  "(string \<Rightarrow> bytes) \<Rightarrow> string \<Rightarrow> u32 option \<Rightarrow> u32 option \<Rightarrow> u32 \<Rightarrow> u32 \<Rightarrow> dbTx \<Rightarrow> pg \<Rightarrow> (Deposit list) result \<times> pg" where
  "GetDeposits FromHex destAddr networkID destinationNetworkID limit offset tx =
     pg_query tx (\<lambda>d. Inr (limit_offset limit offset
        (rev (sort_key dep_BlockID (sort_key dep_DepositCount (concat (map (join_block d)
           (filter (deposit_for FromHex destAddr networkID destinationNetworkID) (t_deposit d)))))))))"

definition GetDepositCount ::
  "(string \<Rightarrow> bytes) \<Rightarrow> string \<Rightarrow> u32 option \<Rightarrow> u32 option \<Rightarrow> dbTx \<Rightarrow> pg \<Rightarrow> u64 result \<times> pg" where
  "GetDepositCount FromHex destAddr networkID destinationNetworkID tx =
     pg_query tx (\<lambda>d. Inr (of_nat (length
        (filter (deposit_for FromHex destAddr networkID destinationNetworkID) (t_deposit d)))))"

definition GetDepositByDepositID :: "u64 \<Rightarrow> dbTx \<Rightarrow> pg \<Rightarrow> Deposit result \<times> pg" where
  "GetDepositByDepositID depositID tx =
     pg_query tx (\<lambda>d. case concat (map (join_block d) (filter (\<lambda>r. dep_Id r = depositID) (t_deposit d))) of
                        [] \<Rightarrow> Inl ErrNoRows | p # _ \<Rightarrow> Inr p)"

section \<open>Which deposits are ready\<close>

definition scalar :: "'a list \<Rightarrow> 'a option result" where
  "scalar rows =
     (case rows of [] \<Rightarrow> Inr None | [x] \<Rightarrow> Inr (Some x)
      | _ \<Rightarrow> Inl (ErrMsg ''more than one row returned by a subquery used as an expression''))"

text \<open>The deposit counts of a stored root of a network.\<close>

definition counts_of_root :: "h256 \<Rightarrow> u32 \<Rightarrow> db \<Rightarrow> u32 list" where
  "counts_of_root root net d =
     map (\<lambda>(r, p). dep_DepositCount p) (filter (\<lambda>(r, p). rt_root r = root \<and> rt_network r = net) (root_join d))"

definition mark_ready :: "(deposit_row \<Rightarrow> bool) \<Rightarrow> bool \<Rightarrow> db \<Rightarrow> db" where
  "mark_ready P b d = d\<lparr>t_deposit := map (\<lambda>r. if P r then r\<lparr>dep_ReadyForClaim := b\<rparr> else r) (t_deposit d)\<rparr>"

definition UpdateL1DepositsStatus :: "h256 \<Rightarrow> u32 \<Rightarrow> dbTx \<Rightarrow> pg \<Rightarrow> unit result \<times> pg" where
  "UpdateL1DepositsStatus exitRoot destinationNetwork tx =
     pg_exec tx (\<lambda>d.
       case scalar (counts_of_root exitRoot 0 d) of
         Inl e \<Rightarrow> Inl e
       | Inr None \<Rightarrow> Inr ((), d)
       | Inr (Some cnt) \<Rightarrow> Inr ((), mark_ready (\<lambda>r. dep_DepositCount r \<le> cnt \<and> dep_NetworkID r = 0 \<and>
            \<not> dep_ReadyForClaim r \<and> dep_DestinationNetwork r = destinationNetwork) True d))"

definition leaf_of_rollup :: "h256 \<Rightarrow> u32 \<Rightarrow> db \<Rightarrow> h256 list" where
  "leaf_of_rollup root rollupID d =
     map rel_Leaf (filter (\<lambda>r. rel_Root r = root \<and> rel_RollupId r = rollupID) (t_rollup_exit d))"

definition UpdateL2DepositsStatus :: "h256 \<Rightarrow> u32 \<Rightarrow> u32 \<Rightarrow> bool \<Rightarrow> dbTx \<Rightarrow> pg \<Rightarrow> unit result \<times> pg" where
  "UpdateL2DepositsStatus exitRoot rollupID networkID isDestNetL1 tx =
     pg_exec tx (\<lambda>d.
       case scalar (leaf_of_rollup exitRoot rollupID d) of
         Inl e \<Rightarrow> Inl e
       | Inr None \<Rightarrow> Inr ((), d)
       | Inr (Some leaf) \<Rightarrow>
           (case scalar (counts_of_root leaf networkID d) of
              Inl e \<Rightarrow> Inl e
            | Inr None \<Rightarrow> Inr ((), d)
            | Inr (Some cnt) \<Rightarrow> Inr ((), mark_ready (\<lambda>r. dep_DepositCount r \<le> cnt \<and> dep_NetworkID r = networkID \<and>
                 \<not> dep_ReadyForClaim r \<and> (dep_DestinationNetwork r = 0) = isDestNetL1) True d)))"

definition GetDepositsFromOtherL2ToClaim :: "u32 \<Rightarrow> dbTx \<Rightarrow> pg \<Rightarrow> (Deposit list) result \<times> pg" where
  "GetDepositsFromOtherL2ToClaim destinationNetwork tx =
     pg_query tx (\<lambda>d. Inr (map (\<lambda>r. (Deposit.truncate r)\<lparr>dep_BlockNumber := 0\<rparr>) (order_desc dep_Id (filter (\<lambda>r.
        dep_DepositCount r \<notin> set (map clm_Index (filter (\<lambda>c. clm_NetworkID c = destinationNetwork) (t_claim d))) \<and>
        dep_NetworkID r \<noteq> 0 \<and> \<not> dr_ignore r \<and> dep_DestinationNetwork r = destinationNetwork \<and>
        dep_ReadyForClaim r) (t_deposit d)))))"

text \<open>The newest trusted global exit root of the destination whose rollup exit root was computed with
  the tree of the origin right after the deposit.\<close>

definition GetLatestTrustedGERByDeposit :: "u32 \<Rightarrow> u32 \<Rightarrow> u32 \<Rightarrow> dbTx \<Rightarrow> pg \<Rightarrow> h256 result \<times> pg" where
  "GetLatestTrustedGERByDeposit depositCnt networkID destinationNetwork tx =
     pg_query tx (\<lambda>d. map_sum id er_ger (first_row (order_desc er_id (filter (\<lambda>e.
        er_allowed e \<and> er_net e = destinationNetwork \<and>
        list_ex (\<lambda>(r, p). dep_DepositCount p = depositCnt \<and> dep_NetworkID p = networkID \<and>
                  dep_DestinationNetwork p = destinationNetwork \<and>
                  list_ex (\<lambda>x. rel_Leaf x = rt_root r \<and> rel_RollupId x = networkID \<and>
                               idx (er_exit_roots e) 1 = Inr (rel_Root x)) (t_rollup_exit d)) (root_join d))
        (t_exit_root d)))))"

text \<open>\<^verbatim>\<open>exit_roots[arrayIndex]\<close>, counted from 1, is NULL for a row without roots.\<close>

definition GetDepositCountByGER :: "h256 \<Rightarrow> u32 \<Rightarrow> bool \<Rightarrow> dbTx \<Rightarrow> pg \<Rightarrow> (u64 \<times> u32) result \<times> pg" where
  "GetDepositCountByGER ger network rollupsTree tx =
     (let (arrayIndex, rootNetwork) = (if rollupsTree then (1, network) else (0, 0)) in
      pg_query tx (\<lambda>d. map_sum id (\<lambda>(r, p). (dep_Id p, dep_DepositCount p)) (first_row (filter (\<lambda>(r, p).
         rt_network r = rootNetwork \<and>
         list_ex (\<lambda>e. er_ger e = ger \<and> er_net e = network \<and> idx (er_exit_roots e) arrayIndex = Inr (rt_root r))
           (t_exit_root d)) (root_join d)))))"

definition IgnoreDeposit :: "u64 \<Rightarrow> dbTx \<Rightarrow> pg \<Rightarrow> unit result \<times> pg" where
  "IgnoreDeposit depositID tx =
     pg_exec tx (\<lambda>d. Inr ((), d\<lparr>t_deposit := map (\<lambda>r. if dep_Id r = depositID then r\<lparr>dr_ignore := True\<rparr> else r)
                                  (t_deposit d)\<rparr>))"

definition GetLastComputedRoot :: "u32 \<Rightarrow> dbTx \<Rightarrow> pg \<Rightarrow> h256 result \<times> pg" where
  "GetLastComputedRoot networkID tx st =
     (case pg_query tx (\<lambda>d. map_sum id rt_root (first_row
              (order_desc rt_deposit_id (filter (\<lambda>r. rt_network r = networkID) (t_root d))))) st of
        (Inl e, st1) \<Rightarrow> (Inl (ErrMsg ''error getting the root from db''), st1)
      | (Inr root, st1) \<Rightarrow> (Inr root, st1))"

section \<open>Removed global exit roots\<close>

definition insert_removed :: "GlobalExitRoot \<Rightarrow> dbTx \<Rightarrow> pg \<Rightarrow> unit result \<times> pg" where
  "insert_removed g tx =
     pg_exec tx (\<lambda>d. if \<not> block_ref d (ger_BlockID g) then Inl ErrForeignKey
                     else Inr ((), d\<lparr>t_remove_exit_root := t_remove_exit_root d @
                            [(ger_BlockID g, ger_GlobalExitRoot g, ger_NetworkID g)]\<rparr>))"

text \<open>\<^verbatim>\<open>UPDATE ... RETURNING id\<close>: all rows are updated, the first one's identifier is read.\<close>

definition disallow_ger :: "GlobalExitRoot \<Rightarrow> dbTx \<Rightarrow> pg \<Rightarrow> (u64 option) result \<times> pg" where
  "disallow_ger g tx =
     pg_exec tx (\<lambda>d.
       let hit = (\<lambda>r. er_ger r = ger_GlobalExitRoot g \<and> er_net r = ger_NetworkID g) in
       Inr (map_option er_id (find hit (t_exit_root d)),
            d\<lparr>t_exit_root := map (\<lambda>r. if hit r then r\<lparr>er_allowed := False\<rparr> else r) (t_exit_root d)\<rparr>))"

definition previous_ger :: "u32 \<Rightarrow> u64 \<Rightarrow> dbTx \<Rightarrow> pg \<Rightarrow> h256 result \<times> pg" where
  "previous_ger net gerID tx =
     pg_query tx (\<lambda>d. case order_desc er_id (filter (\<lambda>r. er_net r = net \<and> er_id r < gerID) (t_exit_root d)) of
                        [] \<Rightarrow> Inl ErrNoRows | r # _ \<Rightarrow> Inr (er_ger r))"

definition unready_between :: "u64 \<Rightarrow> u64 \<Rightarrow> u32 \<Rightarrow> dbTx \<Rightarrow> pg \<Rightarrow> unit result \<times> pg" where
  "unready_between prevDepositID CurrentDepositID net tx =
     pg_exec tx (\<lambda>d. Inr ((), mark_ready (\<lambda>r. prevDepositID < dep_Id r \<and> dep_Id r \<le> CurrentDepositID \<and>
        dep_NetworkID r = 0 \<and> dep_DestinationNetwork r = net) False d))"

text \<open>The deposit of a global exit root, or the given value when there is none.\<close>

definition deposit_of_ger :: "u64 \<Rightarrow> h256 \<Rightarrow> u32 \<Rightarrow> dbTx \<Rightarrow> pg \<Rightarrow> u64 result \<times> pg" where
  "deposit_of_ger none ger net tx st =
     (case GetDepositCountByGER ger net False tx st of
        (Inl e, st1) \<Rightarrow> (if e = ErrStorageNotFound then (Inr none, st1) else (Inl e, st1))
      | (Inr (i, cnt), st1) \<Rightarrow> (Inr i, st1))"

definition AddRemoveL2GER :: "GlobalExitRoot \<Rightarrow> dbTx \<Rightarrow> pg \<Rightarrow> unit result \<times> pg" where
  "AddRemoveL2GER g tx st =
     (case insert_removed g tx st of
        (Inl e, st1) \<Rightarrow> (Inl e, st1)
      | (Inr _, st1) \<Rightarrow>
     (case disallow_ger g tx st1 of
        (Inl e, st2) \<Rightarrow> (Inl e, st2)
      | (Inr None, st2) \<Rightarrow> (Inl ErrNoRows, st2)
      | (Inr (Some gerID), st2) \<Rightarrow>
     (case previous_ger (ger_NetworkID g) gerID tx st2 of
        (Inl e, st3) \<Rightarrow> (Inl e, st3)
      | (Inr prevGer, st3) \<Rightarrow>
     (case deposit_of_ger 0 prevGer (ger_NetworkID g) tx st3 of
        (Inl e, st4) \<Rightarrow> (Inl e, st4)
      | (Inr prevDepositID, st4) \<Rightarrow>
     (case deposit_of_ger (- 1) (ger_GlobalExitRoot g) (ger_NetworkID g) tx st4 of
        (Inl e, st5) \<Rightarrow> (Inl e, st5)
      | (Inr CurrentDepositID, st5) \<Rightarrow>
          unready_between prevDepositID CurrentDepositID (ger_NetworkID g) tx st5)))))"

section \<open>The claim manager's tables\<close>

definition AddClaimTx :: "int \<Rightarrow> int \<Rightarrow> MonitoredTx \<Rightarrow> dbTx \<Rightarrow> pg \<Rightarrow> unit result \<times> pg" where
  "AddClaimTx created updated mTx tx =
     pg_exec tx (\<lambda>d.
       if mtx_DepositID mTx \<in> mtx_DepositID ` set (t_monitored_txs d) then Inr ((), d)
       else Inr ((), d\<lparr>t_monitored_txs := t_monitored_txs d @
              [mTx\<lparr>mtx_GasPrice := None, mtx_CreatedAt := created, mtx_UpdatedAt := updated\<rparr>]\<rparr>))"

definition UpdateClaimTx :: "int \<Rightarrow> MonitoredTx \<Rightarrow> dbTx \<Rightarrow> pg \<Rightarrow> unit result \<times> pg" where
  "UpdateClaimTx updated mTx tx =
     pg_exec tx (\<lambda>d. Inr ((), d\<lparr>t_monitored_txs := map (\<lambda>r. if mtx_DepositID r = mtx_DepositID mTx
        then r\<lparr>mtx_From := mtx_From mTx, mtx_To := mtx_To mTx, mtx_Nonce := mtx_Nonce mTx,
               mtx_Value := mtx_Value mTx, mtx_Data := mtx_Data mTx, mtx_Gas := mtx_Gas mTx,
               mtx_Status := mtx_Status mTx, mtx_History := mtx_History mTx, mtx_UpdatedAt := updated,
               mtx_GroupID := mtx_GroupID mTx\<rparr>
        else r) (t_monitored_txs d)\<rparr>))"

definition GetClaimTxsByStatus :: "MonitoredTxStatus list \<Rightarrow> u32 \<Rightarrow> dbTx \<Rightarrow> pg \<Rightarrow> (MonitoredTx list) result \<times> pg" where
  "GetClaimTxsByStatus statuses rollupID tx =
     pg_query tx (\<lambda>d. Inr (sort_key mtx_CreatedAt (concat (map (\<lambda>m.
        map (\<lambda>p. m) (filter (\<lambda>p. dep_Id p = mtx_DepositID m \<and> dep_DestinationNetwork p = rollupID) (t_deposit d)))
        (filter (\<lambda>m. mtx_Status m \<in> set statuses) (t_monitored_txs d))))))"

text \<open>A deposit waits for its claim; the filter on the address depends on the kind of leaf.\<close>

definition pending_deposit :: "address \<Rightarrow> u32 \<Rightarrow> u32 \<Rightarrow> 8 word \<Rightarrow> db \<Rightarrow> deposit_row \<Rightarrow> bool" where
  "pending_deposit addressFilter destNetwork leafType fromNetwork d r \<longleftrightarrow>
     dep_DestinationNetwork r = destNetwork \<and> dep_ReadyForClaim r \<and>
     (if sint fromNetwork < 0 then True
      else if sint fromNetwork = 0 then dep_NetworkID r = 0
      else if sint fromNetwork = 1 then dep_NetworkID r \<noteq> 0 else True) \<and>
     ucast (dep_LeafType r) = leafType \<and>
     (if addressFilter \<noteq> 0 \<and> leafType = 0 then dep_DestinationAddress r = addressFilter
      else if addressFilter \<noteq> 0 \<and> leafType = 1 then dep_OriginalAddress r = addressFilter else True) \<and>
     \<not> dr_ignore r \<and>
     \<not> list_ex (\<lambda>c. clm_NetworkID c = destNetwork \<and> clm_Index c = dep_DepositCount r) (t_claim d) \<and>
     \<not> list_ex (\<lambda>m. mtx_DepositID m = dep_Id r) (t_monitored_txs d)"

text \<open>The listing joins the blocks on the identifier alone.\<close>

definition join_block_id :: "db \<Rightarrow> deposit_row \<Rightarrow> Deposit list" where
  "join_block_id d r =
     map (\<lambda>b. (Deposit.truncate r)\<lparr>dep_BlockNumber := br_num b\<rparr>) (filter (\<lambda>b. br_id b = dep_BlockID r) (t_block d))"

definition pending_rows :: "address \<Rightarrow> u32 \<Rightarrow> u32 \<Rightarrow> 8 word \<Rightarrow> db \<Rightarrow> Deposit list" where
  "pending_rows addressFilter destNetwork leafType fromNetwork d =
     sort_key dep_DepositCount (concat (map (join_block_id d)
       (filter (pending_deposit addressFilter destNetwork leafType fromNetwork d) (t_deposit d))))"

definition GetPendingDepositsToClaim ::
  "address \<Rightarrow> u32 \<Rightarrow> u32 \<Rightarrow> u32 \<Rightarrow> u32 \<Rightarrow> 8 word \<Rightarrow> dbTx \<Rightarrow> pg \<Rightarrow> (Deposit list \<times> u64) result \<times> pg" where
  "GetPendingDepositsToClaim addressFilter destNetwork leafType limit offset fromNetwork tx st =
     (case pg_query tx (\<lambda>d. Inr (of_nat (length (filter
              (pending_deposit addressFilter destNetwork leafType fromNetwork d) (t_deposit d))))) st of
        (Inl e, st1) \<Rightarrow> (Inl e, st1)
      | (Inr totalCount, st1) \<Rightarrow>
          (case pg_query tx (\<lambda>d.
               let rows = pending_rows addressFilter destNetwork leafType fromNetwork d in
               Inr (if 0 < limit then limit_offset limit offset rows else rows)) st1 of
             (Inl e, st2) \<Rightarrow> (Inl e, st2)
           | (Inr deposits, st2) \<Rightarrow> (Inr (deposits, totalCount), st2)))"

definition GetLatestMonitoredTxGroupID :: "dbTx \<Rightarrow> pg \<Rightarrow> u64 result \<times> pg" where
  "GetLatestMonitoredTxGroupID tx =
     pg_query tx (\<lambda>d. case order_desc id (map grp_GroupID (t_monitored_txs_group d)) of
                        [] \<Rightarrow> Inr 0 | i # _ \<Rightarrow> Inr i)"

definition AddMonitoredTxsGroup :: "MonitoredTxGroupDBEntry option \<Rightarrow> dbTx \<Rightarrow> pg \<Rightarrow> unit result \<times> pg" where
  "AddMonitoredTxsGroup mTxGroup tx st =
     (case mTxGroup of
        None \<Rightarrow> (Inl (ErrMsg ''nil monitored tx group''), st)
      | Some g \<Rightarrow>
          pg_exec tx (\<lambda>d.
            if grp_GroupID g \<in> grp_GroupID ` set (t_monitored_txs_group d) then Inl ErrUnique
            else Inr ((), d\<lparr>t_monitored_txs_group := t_monitored_txs_group d @ [g\<lparr>grp_LastLog := []\<rparr>]\<rparr>)) st)"

definition UpdateMonitoredTxsGroup :: "MonitoredTxGroupDBEntry option \<Rightarrow> dbTx \<Rightarrow> pg \<Rightarrow> unit result \<times> pg" where
  "UpdateMonitoredTxsGroup mTxGroup tx st =
     (case mTxGroup of
        None \<Rightarrow> (Inl (ErrMsg ''nil monitored tx group''), st)
      | Some g \<Rightarrow>
          pg_exec tx (\<lambda>d. Inr ((), d\<lparr>t_monitored_txs_group := map (\<lambda>r. if grp_GroupID r = grp_GroupID g
             then r\<lparr>grp_NumRetries := grp_NumRetries g, grp_CompressedTxData := grp_CompressedTxData g,
                    grp_ClaimTxHistory := grp_ClaimTxHistory g, grp_UpdatedAt := grp_UpdatedAt g,
                    grp_Status := grp_Status g, grp_LastLog := grp_LastLog g\<rparr>
             else r) (t_monitored_txs_group d)\<rparr>)) st)"

text \<open>The listing reads neither the deposits of a group nor its log.\<close>

definition GetMonitoredTxsGroups ::
  "u64 list \<Rightarrow> dbTx \<Rightarrow> pg \<Rightarrow> (u64 \<rightharpoonup> MonitoredTxGroupDBEntry) result \<times> pg" where
  "GetMonitoredTxsGroups groupIds tx =
     pg_query tx (\<lambda>d. Inr (map_of (map (\<lambda>g. (grp_GroupID g, g\<lparr>grp_DepositIDs := [], grp_LastLog := []\<rparr>))
        (filter (\<lambda>g. grp_GroupID g \<in> set groupIds) (t_monitored_txs_group d)))))"

section \<open>Calls of the storage\<close>

text \<open>One call by any client, or a change of the outcomes of the next calls to the server.  What a
  query does to the state does not depend on its result.\<close>

inductive storage_step :: "pg \<Rightarrow> pg \<Rightarrow> bool" where
  faults: "storage_step st (st\<lparr>pg_faults := fs\<rparr>)"
| begin_tx: "BeginDBTransaction st = (x, st') \<Longrightarrow> storage_step st st'"
| rollback_tx: "Rollback tx st = (x, st') \<Longrightarrow> storage_step st st'"
| commit_tx: "Commit tx st = (x, st') \<Longrightarrow> storage_step st st'"
| query: "pg_query tx (f :: db \<Rightarrow> unit result) st = (x, st') \<Longrightarrow> storage_step st st'"
| add_block: "AddBlock b tx st = (x, st') \<Longrightarrow> storage_step st st'"
| reset: "Reset n net tx st = (x, st') \<Longrightarrow> storage_step st st'"
| add_ger: "AddGlobalExitRoot g tx st = (x, st') \<Longrightarrow> storage_step st st'"
| add_trusted_ger: "AddTrustedGlobalExitRoot g tx st = (x, st') \<Longrightarrow> storage_step st st'"
| update_l2_ger: "UpdateL2GER g tx st = (x, st') \<Longrightarrow> storage_step st st'"
| remove_l2_ger: "AddRemoveL2GER g tx st = (x, st') \<Longrightarrow> storage_step st st'"
| add_deposit: "AddDeposit p tx st = (x, st') \<Longrightarrow> storage_step st st'"
| reset_deposits: "ResetDeposits n net tx st = (x, st') \<Longrightarrow> storage_step st st'"
| l1_status: "UpdateL1DepositsStatus root net tx st = (x, st') \<Longrightarrow> storage_step st st'"
| l2_status: "UpdateL2DepositsStatus root rid net b tx st = (x, st') \<Longrightarrow> storage_step st st'"
| ignore: "IgnoreDeposit i tx st = (x, st') \<Longrightarrow> storage_step st st'"
| add_claim: "AddClaim c tx st = (x, st') \<Longrightarrow> storage_step st st'"
| delete_claim: "DeleteClaimByGlobalIndex gi net tx st = (x, st') \<Longrightarrow> storage_step st st'"
| add_token: "AddTokenWrapped decode t tx st = (x, st') \<Longrightarrow> storage_step st st'"
| get_token: "GetTokenWrapped decode net a tx st = (x, st') \<Longrightarrow> storage_step st st'"
| set_root: "SetRoot root i net tx st = (x, st') \<Longrightarrow> storage_step st st'"
| bulk_set: "BulkSet rows tx st = (x, st') \<Longrightarrow> storage_step st st'"
| add_leaves: "AddRollupExitLeaves leaves tx st = (x, st') \<Longrightarrow> storage_step st st'"
| add_backward: "AddBackwardLET bl tx st = (x, st') \<Longrightarrow> storage_step st st'"
| add_forward: "AddForwardLET fl tx st = (x, st') \<Longrightarrow> storage_step st st'"
| add_set_claim: "AddSetClaim s tx st = (x, st') \<Longrightarrow> storage_step st st'"
| add_unset_claim: "AddUnsetClaim u tx st = (x, st') \<Longrightarrow> storage_step st st'"
| add_status: "AddSyncStatus ss tx st = (x, st') \<Longrightarrow> storage_step st st'"
| add_claim_tx: "AddClaimTx t1 t2 m tx st = (x, st') \<Longrightarrow> storage_step st st'"
| update_claim_tx: "UpdateClaimTx t m tx st = (x, st') \<Longrightarrow> storage_step st st'"
| add_group: "AddMonitoredTxsGroup grp tx st = (x, st') \<Longrightarrow> storage_step st st'"
| update_group: "UpdateMonitoredTxsGroup grp tx st = (x, st') \<Longrightarrow> storage_step st st'"

section \<open>The remaining statements keep the invariant\<close>

lemma map_keep_field:
  "(\<And>r. f (g r) = f r) \<Longrightarrow> map f (map (\<lambda>r. if P r then g r else r) xs) = map f xs"
  by (induction xs) auto

lemma set_keep_field:
  "(\<And>r. f (g r) = f r) \<Longrightarrow> f ` set (map (\<lambda>r. if P r then g r else r) xs) = f ` set xs"
  by (induction xs) auto

text \<open>An update of the deposits that keeps their identifiers and blocks.\<close>

lemma db_ok_update_deposits:
  assumes "db_ok d" and "\<And>r. dep_Id (g r) = dep_Id r" and "\<And>r. dep_BlockID (g r) = dep_BlockID r"
  shows "db_ok (d\<lparr>t_deposit := map (\<lambda>r. if P r then g r else r) (t_deposit d)\<rparr>)" (is "db_ok ?d")
proof -
  have ids: "map dep_Id (t_deposit ?d) = map dep_Id (t_deposit d)"
    using map_keep_field [of dep_Id g P "t_deposit d", OF assms(2)] by (simp del: map_map)
  have "deposit_ref ?d = deposit_ref d"
    using set_keep_field [of dep_Id g P "t_deposit d", OF assms(2)] by (auto simp: deposit_ref_def fun_eq_iff)
  moreover have "deposits_ok ?d"
    using assms ids by (auto simp: db_ok_def deposits_ok_def simp del: map_map)
  ultimately show ?thesis using assms(1) by (simp add: db_ok_def trees_ok_def)
qed

lemma db_ok_mark_ready: "db_ok d \<Longrightarrow> db_ok (mark_ready P b d)"
  unfolding mark_ready_def by (rule db_ok_update_deposits) simp_all

lemma pg_ok_deposit_flags:
  "pg_ok st \<Longrightarrow> UpdateL1DepositsStatus root net tx st = (x, st') \<Longrightarrow> pg_ok st'"
  "pg_ok st \<Longrightarrow> UpdateL2DepositsStatus root rid net b tx st = (x, st') \<Longrightarrow> pg_ok st'"
  "pg_ok st \<Longrightarrow> IgnoreDeposit i tx st = (x, st') \<Longrightarrow> pg_ok st'"
  "pg_ok st \<Longrightarrow> unready_between i j net tx st = (x, st') \<Longrightarrow> pg_ok st'"
  unfolding UpdateL1DepositsStatus_def UpdateL2DepositsStatus_def IgnoreDeposit_def unready_between_def
  by (erule pg_ok_exec, assumption,
      auto intro: db_ok_mark_ready db_ok_update_deposits split: sum.splits option.splits)+

lemma pg_ok_update_token: "pg_ok st \<Longrightarrow> update_token net a m tx st = (x, st') \<Longrightarrow> pg_ok st'"
  unfolding update_token_def
proof (erule pg_ok_exec, assumption)
  fix d y d'
  let ?upd = "\<lambda>t. if token_row net a t then t\<lparr>tok_TokenMetadata := m\<rparr> else t"
  assume ok: "db_ok d" and run: "Inr ((), d\<lparr>t_token_wrapped := map ?upd (t_token_wrapped d)\<rparr>) = Inr (y, d')"
  have "map token_key (map ?upd ts) = map token_key ts" for ts by (rule map_keep_field) simp
  thus "db_ok d'" using ok run by (auto simp: db_ok_def tokens_ok_def simp del: map_map)
qed

lemma pg_ok_GetTokenWrapped:
  assumes "pg_ok st" and "GetTokenWrapped decode net a tx st = (x, st')"
  shows "pg_ok st'"
proof -
  obtain res st1 where q: "pg_query tx (\<lambda>d. first_row (filter (token_row net a) (t_token_wrapped d))) st = (res, st1)"
    by fastforce
  have ok1: "pg_ok st1" by (rule pg_ok_query [OF assms(1) q])
  have meta: "pg_ok st2" if "GetTokenMetadata n n' a' tx st1 = (y, st2)" for n n' a' y st2
    using that ok1 unfolding GetTokenMetadata_def by (rule pg_ok_query [rotated])
  show ?thesis
    using assms(2) ok1 unfolding GetTokenWrapped_def q
    by (auto simp: Let_def split: sum.splits error.splits if_splits prod.splits
        dest: meta pg_ok_update_token)
qed

lemma pg_ok_insert_removed: "pg_ok st \<Longrightarrow> insert_removed g tx st = (x, st') \<Longrightarrow> pg_ok st'"
  unfolding insert_removed_def
  by (erule pg_ok_exec, assumption) (auto simp: db_ok_def events_ok_def split: if_splits)

lemma pg_ok_disallow_ger: "pg_ok st \<Longrightarrow> disallow_ger g tx st = (x, st') \<Longrightarrow> pg_ok st'"
  unfolding disallow_ger_def
proof (erule pg_ok_exec, assumption)
  fix d y d'
  let ?upd = "\<lambda>r. if er_ger r = ger_GlobalExitRoot g \<and> er_net r = ger_NetworkID g then r\<lparr>er_allowed := False\<rparr> else r"
  assume ok: "db_ok d"
    and run: "(let hit = (\<lambda>r. er_ger r = ger_GlobalExitRoot g \<and> er_net r = ger_NetworkID g) in
       Inr (map_option er_id (find hit (t_exit_root d)),
            d\<lparr>t_exit_root := map (\<lambda>r. if hit r then r\<lparr>er_allowed := False\<rparr> else r) (t_exit_root d)\<rparr>)) = Inr (y, d')"
  have "map er_id (map ?upd rs) = map er_id rs" "map exit_root_key (map ?upd rs) = map exit_root_key rs" for rs
    by (rule map_keep_field, simp add: exit_root_key_def)+
  thus "db_ok d'" using ok run by (auto simp: Let_def db_ok_def exit_roots_ok_def simp del: map_map)
qed

lemma pg_ok_deposit_of_ger: "pg_ok st \<Longrightarrow> deposit_of_ger i ger net tx st = (x, st') \<Longrightarrow> pg_ok st'"
  unfolding deposit_of_ger_def GetDepositCountByGER_def
  by (auto split: prod.splits sum.splits if_splits dest: pg_ok_query)

lemma pg_ok_previous_ger: "pg_ok st \<Longrightarrow> previous_ger net i tx st = (x, st') \<Longrightarrow> pg_ok st'"
  unfolding previous_ger_def by (rule pg_ok_query)

lemma pg_ok_AddRemoveL2GER: "pg_ok st \<Longrightarrow> AddRemoveL2GER g tx st = (x, st') \<Longrightarrow> pg_ok st'"
  unfolding AddRemoveL2GER_def
  by (auto split: prod.splits sum.splits option.splits)
     (metis pg_ok_insert_removed pg_ok_disallow_ger pg_ok_previous_ger pg_ok_deposit_of_ger
        pg_ok_deposit_flags(4))+

lemma pg_ok_claim_txs:
  "pg_ok st \<Longrightarrow> AddClaimTx t1 t2 m tx st = (x, st') \<Longrightarrow> pg_ok st'"
  "pg_ok st \<Longrightarrow> UpdateClaimTx t m tx st = (x, st') \<Longrightarrow> pg_ok st'"
proof -
  show "pg_ok st'" if "pg_ok st" "AddClaimTx t1 t2 m tx st = (x, st')"
    using that unfolding AddClaimTx_def
    by (rule pg_ok_exec) (auto simp: db_ok_def monitors_ok_def split: if_splits)
  show "pg_ok st'" if "pg_ok st" "UpdateClaimTx t m tx st = (x, st')"
    using that unfolding UpdateClaimTx_def
    by (rule pg_ok_exec) (auto simp: db_ok_def monitors_ok_def map_keep_field simp del: map_map)
qed

lemma pg_ok_groups:
  "pg_ok st \<Longrightarrow> AddMonitoredTxsGroup grp tx st = (x, st') \<Longrightarrow> pg_ok st'"
  "pg_ok st \<Longrightarrow> UpdateMonitoredTxsGroup grp tx st = (x, st') \<Longrightarrow> pg_ok st'"
proof -
  show "pg_ok st'" if "pg_ok st" "AddMonitoredTxsGroup grp tx st = (x, st')"
  proof (cases grp)
    case (Some g)
    show ?thesis by (rule pg_ok_exec [OF that(1) that(2) [unfolded AddMonitoredTxsGroup_def Some option.case]])
        (auto simp: db_ok_def monitors_ok_def split: if_splits)
  qed (use that in \<open>simp add: AddMonitoredTxsGroup_def\<close>)
  show "pg_ok st'" if "pg_ok st" "UpdateMonitoredTxsGroup grp tx st = (x, st')"
  proof (cases grp)
    case (Some g)
    show ?thesis by (rule pg_ok_exec [OF that(1) that(2) [unfolded UpdateMonitoredTxsGroup_def Some option.case]])
        (auto simp: db_ok_def monitors_ok_def map_keep_field simp del: map_map)
  qed (use that in \<open>simp add: UpdateMonitoredTxsGroup_def\<close>)
qed

lemmas pg_ok_calls = pg_ok_BeginDBTransaction pg_ok_Rollback pg_ok_Commit pg_ok_query pg_ok_AddBlock
  pg_ok_Reset pg_ok_AddGlobalExitRoot pg_ok_AddTrustedGlobalExitRoot pg_ok_UpdateL2GER
  pg_ok_AddRemoveL2GER pg_ok_AddDeposit pg_ok_ResetDeposits pg_ok_deposit_flags(1-3) pg_ok_AddClaim
  pg_ok_DeleteClaimByGlobalIndex pg_ok_AddTokenWrapped pg_ok_GetTokenWrapped pg_ok_SetRoot pg_ok_BulkSet
  pg_ok_AddRollupExitLeaves pg_ok_events pg_ok_AddSyncStatus pg_ok_claim_txs pg_ok_groups

lemma pg_ok_storage_step: "storage_step st st' \<Longrightarrow> pg_ok st \<Longrightarrow> pg_ok st'"
  by (induction rule: storage_step.induct)
     (simp add: pg_ok_alt, (erule pg_ok_calls [rotated], assumption)+)

section \<open>What a listing of pending deposits holds\<close>

lemma dep_join_block_id [simp]:
  "p \<in> set (join_block_id d r) \<Longrightarrow> dep_Id p = dep_Id r \<and> dep_DepositCount p = dep_DepositCount r"
  by (auto simp: join_block_id_def Deposit.truncate_def Deposit.defs)

lemma filter_unique: "distinct (map f xs) \<Longrightarrow> x \<in> set xs \<Longrightarrow> filter (\<lambda>y. f y = f x) xs = [x]"
proof (induction xs)
  case (Cons a xs)
  show ?case
  proof (cases "x = a")
    case True
    hence "f y \<noteq> f x" if "y \<in> set xs" for y using Cons.prems(1) that by (auto simp: image_iff)
    thus ?thesis using True by (simp add: filter_empty_conv)
  qed (use Cons in auto)
qed simp

lemma join_block_id_single:
  assumes "db_ok d" and "r \<in> set (t_deposit d)" and "dep_BlockID r \<noteq> 0"
  shows "map dep_Id (join_block_id d r) = [dep_Id r]"
proof -
  have "block_ref d (dep_BlockID r)" and ids: "distinct (map br_id (t_block d))"
    using assms by (auto simp: db_ok_defs)
  then obtain b where b: "b \<in> set (t_block d)" "br_id b = dep_BlockID r" using assms(3) by (auto simp: block_ref_def)
  have "filter (\<lambda>b'. br_id b' = dep_BlockID r) (t_block d) = [b]"
    using filter_unique [OF ids b(1)] b(2) by simp
  thus ?thesis by (simp add: join_block_id_def Deposit.truncate_def Deposit.defs)
qed

lemma map_concat_single:
  "(\<And>r. r \<in> set rs \<Longrightarrow> map f (g r) = [h r]) \<Longrightarrow> map f (concat (map g rs)) = map h rs"
  by (induction rs) auto

lemma pending_rows_in:
  "p \<in> set (pending_rows a dn lt fn d) \<Longrightarrow>
     \<exists>r\<in>set (t_deposit d). pending_deposit a dn lt fn d r \<and> p \<in> set (join_block_id d r)"
  by (auto simp: pending_rows_def)

lemma pending_rows_ids:
  assumes "db_ok d" and "\<forall>r\<in>set (t_deposit d). dep_BlockID r \<noteq> 0"
  shows "mset (map dep_Id (pending_rows a dn lt fn d)) =
           mset (map dep_Id (filter (pending_deposit a dn lt fn d) (t_deposit d)))"
proof -
  let ?pend = "filter (pending_deposit a dn lt fn d) (t_deposit d)"
  have "map dep_Id (concat (map (join_block_id d) ?pend)) = map dep_Id ?pend"
    by (rule map_concat_single) (use assms in \<open>simp add: join_block_id_single\<close>)
  thus ?thesis by (metis mset_map mset_sort pending_rows_def)
qed

text \<open>Both queries of the listing, on a state they see.\<close>

lemma GetPendingDepositsToClaim_InrD:
  assumes "GetPendingDepositsToClaim a dn lt limit offset fn tx st = (Inr (ps, n), st')"
  shows "\<exists>d. raw_view tx st = Some d \<and> set ps \<subseteq> set (pending_rows a dn lt fn d)"
proof -
  obtain x st1 where q1: "pg_query tx (\<lambda>d. Inr (of_nat (length (filter (pending_deposit a dn lt fn d) (t_deposit d))) :: u64)) st
      = (x, st1)" by fastforce
  with assms obtain m where x: "x = Inr m" by (cases x) (auto simp: GetPendingDepositsToClaim_def)
  obtain y st2 where q2: "pg_query tx (\<lambda>d. let rows = pending_rows a dn lt fn d in
       Inr (if 0 < limit then limit_offset limit offset rows else rows)) st1 = (y, st2)" by fastforce
  with assms q1 x have y: "y = Inr ps" by (cases y) (auto simp: GetPendingDepositsToClaim_def)
  obtain d where d: "raw_view tx st1 = Some d" "(let rows = pending_rows a dn lt fn d in
       (Inr (if 0 < limit then limit_offset limit offset rows else rows) :: (Deposit list) result)) = Inr ps"
    using pg_query_InrD [OF q2 [unfolded y]] by blast
  hence "set ps \<subseteq> set (pending_rows a dn lt fn d)"
    by (auto simp: Let_def limit_offset_def split: if_splits dest!: in_set_takeD in_set_dropD)
  thus ?thesis using d(1) pg_query_frame [OF q1] by auto
qed

lemma GetPendingDepositsToClaim_ready:
  assumes "pg_ready tx st" and "raw_view tx st = Some d"
  shows "fst (GetPendingDepositsToClaim a dn lt limit offset fn tx st) =
           Inr (if 0 < limit then limit_offset limit offset (pending_rows a dn lt fn d) else pending_rows a dn lt fn d,
                of_nat (length (filter (pending_deposit a dn lt fn d) (t_deposit d))))"
proof -
  let ?n = "\<lambda>d. of_nat (length (filter (pending_deposit a dn lt fn d) (t_deposit d))) :: u64"
  obtain d1 st1 where q1: "raw_view tx st = Some d1" "pg_query tx (\<lambda>d. Inr (?n d)) st = (Inr (?n d1), st1)"
    "pg_ready tx st1" using pg_query_ready [OF assms(1), of "\<lambda>d. Inr (?n d)"] by auto
  have v1: "raw_view tx st1 = Some d" using pg_query_frame [OF q1(2)] assms(2) by simp
  obtain d2 st2 where q2: "raw_view tx st1 = Some d2"
    "pg_query tx (\<lambda>d. let rows = pending_rows a dn lt fn d in
       Inr (if 0 < limit then limit_offset limit offset rows else rows)) st1 =
     (let rows = pending_rows a dn lt fn d2 in Inr (if 0 < limit then limit_offset limit offset rows else rows), st2)"
    using pg_query_ready [OF q1(3), of "\<lambda>d. let rows = pending_rows a dn lt fn d in
       Inr (if 0 < limit then limit_offset limit offset rows else rows)"] by (elim exE conjE)
  show ?thesis using q1 q2 v1 assms(2) by (simp add: GetPendingDepositsToClaim_def Let_def)
qed

section \<open>Properties\<close>


definition sample_block :: Block where
  "sample_block = mk_block 0 7 3 0"


text \<open>C14. A deposit for which a claim transaction was stored is not listed among the pending deposits
  any more, whatever the filters and the page: the claim manager does not take it up a second time.\<close>

theorem AddClaimTx_not_pending:
  assumes "AddClaimTx t1 t2 m tx st = (Inr (), st1)"
    and "GetPendingDepositsToClaim a dn lt limit offset fn tx st1 = (Inr (ps, n), st2)"
  shows "mtx_DepositID m \<notin> dep_Id ` set ps"
proof -
  obtain d where d: "raw_view tx st1 = Some d" "set ps \<subseteq> set (pending_rows a dn lt fn d)"
    using GetPendingDepositsToClaim_InrD [OF assms(2)] by blast
  obtain d0 d' where e: "(if mtx_DepositID m \<in> mtx_DepositID ` set (t_monitored_txs d0) then Inr ((), d0)
       else Inr ((), d0\<lparr>t_monitored_txs := t_monitored_txs d0 @
              [m\<lparr>mtx_GasPrice := None, mtx_CreatedAt := t1, mtx_UpdatedAt := t2\<rparr>]\<rparr>)) = (Inr ((), d') :: (unit \<times> db) result)"
    "raw_view tx st1 = Some d'" using pg_exec_InrD [OF assms(1) [unfolded AddClaimTx_def]] by (elim exE conjE)
  hence "mtx_DepositID m \<in> mtx_DepositID ` set (t_monitored_txs d)" using d(1) by (auto split: if_splits)
  hence "dep_Id p \<noteq> mtx_DepositID m" if "p \<in> set (pending_rows a dn lt fn d)" for p
    using pending_rows_in [OF that] by (auto simp: pending_deposit_def list_ex_iff)
  thus ?thesis using d(2) unfolding image_iff by (metis subsetD)
qed

definition sample_mtx :: MonitoredTx where
  "sample_mtx = \<lparr>mtx_DepositID = 1, mtx_From = 2, mtx_To = None, mtx_Nonce = 0, mtx_Value = None, mtx_Data = [],
     mtx_Gas = 0, mtx_GasPrice = None, mtx_Status = MonitoredTxStatusCreated, mtx_History = [], mtx_CreatedAt = 0,
     mtx_UpdatedAt = 0, mtx_GroupID = None, mtx_GlobalExitRoot = 0\<rparr>"

text \<open>Two deposits to network 1, made in block 7, that are ready to be claimed.\<close>

definition sample_ready_db :: db where
  "sample_ready_db =
     empty_db\<lparr>t_block := [\<lparr>br_id = 1, br_num = 7, br_hash = 3, br_net = 0\<rparr>], seq_block := 2,
       t_deposit := map (\<lambda>i. (new_deposit_row i (sample_deposit\<lparr>dep_DepositCount := ucast i\<rparr>))\<lparr>dep_ReadyForClaim := True\<rparr>)
         [1, 2], seq_deposit := 3\<rparr>"

definition sample_ready_pg :: pg where
  "sample_ready_pg = pg_init\<lparr>pg_committed := sample_ready_db\<rparr>"

lemmas pending_run = GetPendingDepositsToClaim_def pending_rows_def pending_deposit_def join_block_id_def limit_offset_def
  sample_ready_pg_def sample_ready_db_def new_deposit_row_def Deposit.defs deposit_row.defs sample_deposit_def pg_run

lemma sample_ready_ok: "db_ok sample_ready_db"
  by (simp add: db_ok_defs sample_ready_db_def new_deposit_row_def Deposit.defs deposit_row.defs sample_deposit_def
      empty_db_def block_ref_def)

theorem AddClaimTx_not_pending_witness:
  "\<exists>st1 ps st2. AddClaimTx 5 5 sample_mtx NoTx sample_ready_pg = (Inr (), st1) \<and>
     GetPendingDepositsToClaim 0 1 0 0 0 (- 1) NoTx st1 = (Inr (ps, 1), st2) \<and>
     map dep_Id ps = [2] \<and> mtx_DepositID sample_mtx \<notin> dep_Id ` set ps"
proof -
  let ?st1 = "snd (AddClaimTx 5 5 sample_mtx NoTx sample_ready_pg)"
  have a: "AddClaimTx 5 5 sample_mtx NoTx sample_ready_pg = (Inr (), ?st1)"
    by (simp add: AddClaimTx_def pg_run sample_ready_pg_def sample_ready_db_def)
  obtain ps st2 where b: "GetPendingDepositsToClaim 0 1 0 0 0 (- 1) NoTx ?st1 = (Inr (ps, 1), st2)" "map dep_Id ps = [2]"
    by (simp add: AddClaimTx_def sample_mtx_def pending_run Let_def)
  show ?thesis using AddClaimTx_not_pending [OF a b(1)] by (intro exI conjI) (rule a b | assumption)+
qed



text \<open>C16. The listing takes every claim on the destination network with the deposit's index for the
  deposit's own claim, from whatever origin network it is: a deposit that is ready and that \<open>GetClaim\<close>
  knows no claim of is left out as soon as a deposit of another network with the same index was claimed.\<close>

theorem pending_hidden_by_other_origin:
  assumes "raw_view tx st = Some d" and "c \<in> set (t_claim d)"
    and "clm_NetworkID c = dn" and "clm_Index c = dep_DepositCount r"
    and "distinct (map dep_Id (t_deposit d))" and "r \<in> set (t_deposit d)"
    and "GetPendingDepositsToClaim a dn lt limit offset fn tx st = (Inr (ps, n), st')"
  shows "dep_Id r \<notin> dep_Id ` set ps"
proof
  assume "dep_Id r \<in> dep_Id ` set ps"
  then obtain p where p: "p \<in> set ps" "dep_Id p = dep_Id r" by auto
  have "p \<in> set (pending_rows a dn lt fn d)"
    using GetPendingDepositsToClaim_InrD [OF assms(7)] assms(1) p(1) by auto
  then obtain r' where r': "r' \<in> set (t_deposit d)" "pending_deposit a dn lt fn d r'" "dep_Id r' = dep_Id r"
    using pending_rows_in p(2) by fastforce
  have "r' = r" using assms(5,6) r'(1,3) by (auto simp: distinct_map inj_on_def)
  thus False using r'(2) assms(2-4) by (auto simp: pending_deposit_def list_ex_iff)
qed

text \<open>The deposit with index 1 of the mainnet and a claim of the deposit with index 1 of network 2.\<close>

definition sample_claim :: Claim where
  "sample_claim = \<lparr>clm_MainnetFlag = False, clm_RollupIndex = 1, clm_Index = 1, clm_OriginalNetwork = 0,
     clm_OriginalAddress = 5, clm_Amount = 10, clm_DestinationAddress = 6, clm_BlockID = 1, clm_BlockNumber = 0,
     clm_NetworkID = 1, clm_TxHash = 0, clm_GlobalIndex = Some 4294967297\<rparr>"

definition sample_claimed_db :: db where
  "sample_claimed_db = sample_ready_db\<lparr>t_claim := [sample_claim]\<rparr>"

definition sample_claimed_pg :: pg where
  "sample_claimed_pg = pg_init\<lparr>pg_committed := sample_claimed_db\<rparr>"

theorem pending_hidden_by_other_origin_witness:
  "fst (GetClaim 1 0 1 NoTx sample_claimed_pg) = Inl ErrStorageNotFound \<and>
   dep_ReadyForClaim (t_deposit sample_claimed_db ! 0) \<and> dep_DepositCount (t_deposit sample_claimed_db ! 0) = 1 \<and>
   (\<exists>ps st'. GetPendingDepositsToClaim 0 1 0 0 0 (- 1) NoTx sample_claimed_pg = (Inr (ps, 1), st') \<and>
      dep_Id (t_deposit sample_claimed_db ! 0) \<notin> dep_Id ` set ps)"
proof -
  have v: "raw_view NoTx sample_claimed_pg = Some sample_claimed_db" by (simp add: raw_view_def sample_claimed_pg_def)
  obtain ps st' where l: "GetPendingDepositsToClaim 0 1 0 0 0 (- 1) NoTx sample_claimed_pg = (Inr (ps, 1), st')"
    by (simp add: sample_claimed_pg_def sample_claimed_db_def sample_claim_def pending_run Let_def)
  have "dep_Id (t_deposit sample_claimed_db ! 0) \<notin> dep_Id ` set ps"
    by (rule pending_hidden_by_other_origin [OF v _ _ _ _ _ l, of sample_claim])
       (simp_all add: sample_claimed_db_def sample_claim_def pending_run)
  thus ?thesis using l
    by (auto simp: GetClaim_def first_row_def sample_claimed_pg_def sample_claimed_db_def sample_claim_def
        new_deposit_row_def Deposit.defs deposit_row.defs sample_deposit_def sample_ready_db_def pg_run)
qed

text \<open>Removing the first global exit root a network has fails, although the root is stored and the
  server answers: the code looks for a root before it and returns the error of the empty result.\<close>

theorem AddRemoveL2GER_first_fails:
  assumes "pg_ready tx st" and "raw_view tx st = Some d" and "block_ref d (ger_BlockID g)"
    and "find (\<lambda>r. er_ger r = ger_GlobalExitRoot g \<and> er_net r = ger_NetworkID g) (t_exit_root d) = Some r"
    and "\<forall>r'\<in>set (t_exit_root d). er_net r' = ger_NetworkID g \<longrightarrow> er_id r \<le> er_id r'"
  shows "fst (AddRemoveL2GER g tx st) = Inl ErrNoRows"
proof -
  obtain u st1 where s1: "insert_removed g tx st = (Inr u, st1)" "pg_ready tx st1"
    using pg_exec_ready [OF assms(1), of "\<lambda>d. if \<not> block_ref d (ger_BlockID g) then Inl ErrForeignKey
      else Inr ((), d\<lparr>t_remove_exit_root := t_remove_exit_root d @
             [(ger_BlockID g, ger_GlobalExitRoot g, ger_NetworkID g)]\<rparr>)"] assms(2,3)
    by (auto simp: insert_removed_def)
  obtain d1 where d1: "raw_view tx st1 = Some d1" "t_exit_root d1 = t_exit_root d"
    by (rule pg_exec_InrE [OF s1(1) [unfolded insert_removed_def] assms(2)]) (use assms(3) in auto)
  let ?hit = "\<lambda>r. er_ger r = ger_GlobalExitRoot g \<and> er_net r = ger_NetworkID g"
  obtain i st2 where s2: "disallow_ger g tx st1 = (Inr i, st2)" "pg_ready tx st2"
    using pg_exec_ready [OF s1(2), of "\<lambda>d. let hit = ?hit in Inr (map_option er_id (find hit (t_exit_root d)),
      d\<lparr>t_exit_root := map (\<lambda>r. if hit r then r\<lparr>er_allowed := False\<rparr> else r) (t_exit_root d)\<rparr>)"]
    by (auto simp: disallow_ger_def Let_def)
  obtain d2 where d2: "raw_view tx st2 = Some d2" "i = Some (er_id r)"
    "t_exit_root d2 = map (\<lambda>r. if ?hit r then r\<lparr>er_allowed := False\<rparr> else r) (t_exit_root d)"
    by (rule pg_exec_InrE [OF s2(1) [unfolded disallow_ger_def] d1(1)]) (use d1(2) assms(4) in \<open>auto simp: Let_def\<close>)
  have none: "filter (\<lambda>r'. er_net r' = ger_NetworkID g \<and> er_id r' < er_id r) (t_exit_root d2) = []"
    using assms(5) unfolding d2(3) filter_empty_conv by (auto simp: linorder_not_less)
  obtain st3 where "previous_ger (ger_NetworkID g) (er_id r) tx st2 = (Inl ErrNoRows, st3)"
    using pg_query_ready [OF s2(2), of "\<lambda>d. case order_desc er_id (filter (\<lambda>r'. er_net r' = ger_NetworkID g \<and>
      er_id r' < er_id r) (t_exit_root d)) of [] \<Rightarrow> Inl ErrNoRows | r # _ \<Rightarrow> Inr (er_ger r)"] d2(1) none
    by (auto simp: previous_ger_def order_desc_def)
  thus ?thesis using s1(1) s2(1) d2(2) by (simp add: AddRemoveL2GER_def)
qed

definition sample_ger_pg :: pg where
  "sample_ger_pg = pg_init\<lparr>pg_committed := empty_db\<lparr>t_exit_root := [\<lparr>er_id = 1, er_block_id = 0, er_ger = 4,
     er_exit_roots = [], er_net = 1, er_allowed = True\<rparr>], seq_exit_root := 2\<rparr>\<rparr>"

theorem AddRemoveL2GER_first_fails_witness:
  "fst (AddRemoveL2GER (mk_ger 0 [] 4 1 0) NoTx sample_ger_pg) = Inl ErrNoRows"
  by (rule AddRemoveL2GER_first_fails [of NoTx sample_ger_pg "pg_committed sample_ger_pg" "mk_ger 0 [] 4 1 0"
        "t_exit_root (pg_committed sample_ger_pg) ! 0"])
     (simp_all add: sample_ger_pg_def pg_init_def pg_ready_def pg_view_def raw_view_def mk_ger_def)

end
