(* ===== verification/Etherman.thy ===== *)
theory Etherman
  imports Hashing
begin

text \<open>
  \<^verbatim>\<open>etherman/etherman.go\<close>: the logs of the bridge, exit root and rollup manager contracts are read
  into blocks of decoded events and, per block hash, the order in which the events were emitted.  The
  decoding of a log by the generated contract bindings is a parameter, the record \<open>Bindings\<close>; the node
  that serves the logs is the argument \<open>FilterLogs\<close>.  \<open>blocksOrder\<close> is the function that reads the map of the source:
  a hash without an entry has the empty order.
\<close>

section \<open>Definitions\<close>

subsection \<open>Global indices\<close>

definition DecodeGlobalIndex :: "int \<Rightarrow> (bool \<times> u32 \<times> u32) result" where
  "DecodeGlobalIndex globalIndex =
     (case FillBytes32 globalIndex of
        Inl e \<Rightarrow> Inl e
      | Inr gIBytes \<Rightarrow>
          if length gIBytes \<noteq> 32 then Inl (ErrMsg ''invalid globaIndex length'')
          else
            let mainnetFlag = (be_value [gIBytes ! 23] = 1);
                rollupIndex = be_value (take 4 (drop 24 gIBytes));
                localRootIndex = be_value (take 4 (drop 28 gIBytes)) in
            if 2 ^ 32 - 1 < rollupIndex then Inl (ErrMsg ''invalid rollupIndex length'')
            else if 2 ^ 32 - 1 < localRootIndex then Inl (ErrMsg ''invalid localRootIndex length'')
            else Inr (mainnetFlag, of_nat rollupIndex, of_nat localRootIndex))"

definition GenerateGlobalIndex :: "bool \<Rightarrow> u32 \<Rightarrow> u32 \<Rightarrow> int" where
  "GenerateGlobalIndex mainnetFlag rollupIndex localExitRootIndex =
     (let globalIndexBytes = (if mainnetFlag then [1] @ be_bytes 4 (0 :: u32) else be_bytes 4 rollupIndex)
      in int (be_value (globalIndexBytes @ be_bytes 4 localExitRootIndex)))"

subsection \<open>Logs, orders and the blocks read so far\<close>

record Log =
  log_Address :: address
  log_Topics :: "h256 list"
  log_Data :: bytes
  log_BlockNumber :: u64
  log_BlockHash :: h256
  log_TxHash :: h256

datatype EventOrder =
    GlobalExitRootsOrder
  | RemoveL2GEROrder
  | DepositsOrder
  | ClaimsOrder
  | TokensOrder
  | VerifyBatchOrder
  | UnsetClaimOrder
  | BackwardLETOrder
  | ForwardLETOrder
  | SetClaimOrder

record Order =
  ord_Name :: EventOrder
  ord_Pos :: nat

type_synonym blocksOrder = "h256 \<Rightarrow> Order list"

definition empty_block :: Block where
  "empty_block = \<lparr>blk_ID = 0, blk_BlockNumber = 0, blk_BlockHash = 0, blk_NetworkID = 0, blk_GlobalExitRoots = [],
     blk_RemoveL2GER = [], blk_Deposits = [], blk_Claims = [], blk_Tokens = [], blk_VerifiedBatches = [],
     blk_UnsetClaims = [], blk_SetClaims = [], blk_BackwardLETs = [], blk_ForwardLETs = []\<rparr>"

text \<open>The step all event handlers end with: the event goes into a new block when the last block read is
  another one, and to the end of the last block otherwise; its position is entered under the block's hash.\<close>

definition store_event :: "Log \<Rightarrow> (Block \<Rightarrow> Block) \<Rightarrow> (Block \<Rightarrow> nat) \<Rightarrow> EventOrder \<Rightarrow> Block list \<Rightarrow> blocksOrder
    \<Rightarrow> Block list \<times> blocksOrder" where
  "store_event vLog add len name blocks order =
     (let blocks' =
            (if blocks = [] \<or> blk_BlockHash (last blocks) \<noteq> log_BlockHash vLog \<or>
                 blk_BlockNumber (last blocks) \<noteq> log_BlockNumber vLog
             then blocks @ [add (empty_block\<lparr>blk_BlockNumber := log_BlockNumber vLog, blk_BlockHash := log_BlockHash vLog\<rparr>)]
             else butlast blocks @ [add (last blocks)]);
          h = blk_BlockHash (last blocks')
      in (blocks', order(h := order h @ [\<lparr>ord_Name = name, ord_Pos = len (last blocks') - 1\<rparr>])))"

subsection \<open>The generated bindings\<close>

record BridgeEvent =
  be_LeafType :: u8
  be_OriginNetwork :: u32
  be_OriginAddress :: address
  be_DestinationNetwork :: u32
  be_DestinationAddress :: address
  be_Amount :: int
  be_Metadata :: bytes
  be_DepositCount :: u32

record OldClaimEvent =
  oce_Index :: u32
  oce_OriginNetwork :: u32
  oce_OriginAddress :: address
  oce_DestinationAddress :: address
  oce_Amount :: int

record ClaimEvent =
  ce_GlobalIndex :: int
  ce_OriginNetwork :: u32
  ce_OriginAddress :: address
  ce_DestinationAddress :: address
  ce_Amount :: int

record WrappedTokenEvent =
  wte_OriginNetwork :: u32
  wte_OriginTokenAddress :: address
  wte_WrappedTokenAddress :: address

record VerifyBatchesEvent =
  vbe_RollupID :: u32
  vbe_NumBatch :: u64
  vbe_StateRoot :: h256
  vbe_ExitRoot :: h256
  vbe_Aggregator :: address

record BackwardLETEvent =
  ble_PreviousDepositCount :: int
  ble_PreviousRoot :: h256
  ble_NewDepositCount :: int
  ble_NewRoot :: h256

record ForwardLETEvent =
  fle_PreviousDepositCount :: int
  fle_PreviousRoot :: h256
  fle_NewDepositCount :: int
  fle_NewRoot :: h256
  fle_NewLeaves :: bytes

record Bindings =
  ParseUpdateRemovalHashChainValue :: "Log \<Rightarrow> h256 result"
  ParseUpdateHashChainValue :: "Log \<Rightarrow> h256 result"
  ParseUpdateL1InfoTree :: "Log \<Rightarrow> (h256 \<times> h256) result"
  ParseBridgeEvent :: "Log \<Rightarrow> BridgeEvent result"
  ParseOldClaimEvent :: "Log \<Rightarrow> OldClaimEvent result"
  ParseClaimEvent :: "Log \<Rightarrow> ClaimEvent result"
  ParseNewWrappedToken :: "Log \<Rightarrow> WrappedTokenEvent result"
  ParseVerifyBatchesTrustedAggregator :: "Log \<Rightarrow> VerifyBatchesEvent result"
  ParseVerifyBatches :: "Log \<Rightarrow> VerifyBatchesEvent result"
  ParseUpdatedUnsetGlobalIndexHashChain :: "Log \<Rightarrow> h256 result"
  ParseSetClaim :: "Log \<Rightarrow> h256 result"
  ParseBackwardLET :: "Log \<Rightarrow> BackwardLETEvent result"
  ParseForwardLET :: "Log \<Rightarrow> ForwardLETEvent result"
  UnpackLeaves :: "bytes \<Rightarrow> (LeafData list list) result"

subsection \<open>The handlers\<close>

definition empty_ger :: GlobalExitRoot where
  "empty_ger = \<lparr>ger_BlockID = 0, ger_BlockNumber = 0, ger_ExitRoots = [], ger_GlobalExitRoot = 0, ger_NetworkID = 0, ger_ID = 0\<rparr>"

definition removeL2GER :: "h256 \<Rightarrow> Log \<Rightarrow> Block list \<Rightarrow> blocksOrder \<Rightarrow> (Block list \<times> blocksOrder) result" where
  "removeL2GER removedGlobalExitRoot vLog blocks order =
     (let gExitRoot = empty_ger\<lparr>ger_GlobalExitRoot := removedGlobalExitRoot, ger_BlockNumber := log_BlockNumber vLog\<rparr> in
      Inr (store_event vLog (\<lambda>b. b\<lparr>blk_RemoveL2GER := blk_RemoveL2GER b @ [gExitRoot]\<rparr>)
             (\<lambda>b. length (blk_RemoveL2GER b)) RemoveL2GEROrder blocks order))"

definition updateRemovalHashSovereignChainValue :: "Bindings \<Rightarrow> Log \<Rightarrow> Block list \<Rightarrow> blocksOrder
    \<Rightarrow> (Block list \<times> blocksOrder) result" where
  "updateRemovalHashSovereignChainValue P vLog blocks order =
     (case ParseUpdateRemovalHashChainValue P vLog of
        Inl e \<Rightarrow> Inl e
      | Inr ger \<Rightarrow> removeL2GER ger vLog blocks order)"

definition addSovereignChainL2GER :: "h256 \<Rightarrow> Log \<Rightarrow> Block list \<Rightarrow> blocksOrder \<Rightarrow> (Block list \<times> blocksOrder) result" where
  "addSovereignChainL2GER newGlobalExitRoot vLog blocks order =
     (let gExitRoot = empty_ger\<lparr>ger_GlobalExitRoot := newGlobalExitRoot, ger_BlockNumber := log_BlockNumber vLog\<rparr> in
      Inr (store_event vLog (\<lambda>b. b\<lparr>blk_GlobalExitRoots := blk_GlobalExitRoots b @ [gExitRoot]\<rparr>)
             (\<lambda>b. length (blk_GlobalExitRoots b)) GlobalExitRootsOrder blocks order))"

definition updateHashSovereignChainValue :: "Bindings \<Rightarrow> Log \<Rightarrow> Block list \<Rightarrow> blocksOrder
    \<Rightarrow> (Block list \<times> blocksOrder) result" where
  "updateHashSovereignChainValue P vLog blocks order =
     (case ParseUpdateHashChainValue P vLog of
        Inl e \<Rightarrow> Inl e
      | Inr ger \<Rightarrow> addSovereignChainL2GER ger vLog blocks order)"

definition processUpdateGlobalExitRootEvent :: "keccak \<Rightarrow> h256 \<Rightarrow> h256 \<Rightarrow> Log \<Rightarrow> Block list \<Rightarrow> blocksOrder
    \<Rightarrow> (Block list \<times> blocksOrder) result" where
  "processUpdateGlobalExitRootEvent K mainnetExitRoot rollupExitRoot vLog blocks order =
     (let gExitRoot = empty_ger\<lparr>ger_ExitRoots := [mainnetExitRoot, rollupExitRoot],
            ger_GlobalExitRoot := Hash K [mainnetExitRoot, rollupExitRoot], ger_BlockNumber := log_BlockNumber vLog\<rparr> in
      Inr (store_event vLog (\<lambda>b. b\<lparr>blk_GlobalExitRoots := blk_GlobalExitRoots b @ [gExitRoot]\<rparr>)
             (\<lambda>b. length (blk_GlobalExitRoots b)) GlobalExitRootsOrder blocks order))"

definition updateGlobalExitRootEvent :: "keccak \<Rightarrow> Log \<Rightarrow> Block list \<Rightarrow> blocksOrder
    \<Rightarrow> (Block list \<times> blocksOrder) result" where
  "updateGlobalExitRootEvent K vLog blocks order =
     (case (idx (log_Topics vLog) 1, idx (log_Topics vLog) 2) of
        (Inr mainnetExitRoot, Inr rollupExitRoot) \<Rightarrow>
          processUpdateGlobalExitRootEvent K mainnetExitRoot rollupExitRoot vLog blocks order
      | (Inl e, _) \<Rightarrow> Inl e
      | (_, Inl e) \<Rightarrow> Inl e)"

definition updateL1InfoTreeEvent :: "Bindings \<Rightarrow> keccak \<Rightarrow> Log \<Rightarrow> Block list \<Rightarrow> blocksOrder
    \<Rightarrow> (Block list \<times> blocksOrder) result" where
  "updateL1InfoTreeEvent P K vLog blocks order =
     (case ParseUpdateL1InfoTree P vLog of
        Inl e \<Rightarrow> Inl e
      | Inr (mainnetExitRoot, rollupExitRoot) \<Rightarrow>
          processUpdateGlobalExitRootEvent K mainnetExitRoot rollupExitRoot vLog blocks order)"

definition depositEvent :: "Bindings \<Rightarrow> Log \<Rightarrow> Block list \<Rightarrow> blocksOrder \<Rightarrow> (Block list \<times> blocksOrder) result" where
  "depositEvent P vLog blocks order =
     (case ParseBridgeEvent P vLog of
        Inl e \<Rightarrow> Inl e
      | Inr d \<Rightarrow>
          let deposit = \<lparr>dep_Id = 0, dep_LeafType = be_LeafType d, dep_OriginalNetwork = be_OriginNetwork d,
                dep_OriginalAddress = be_OriginAddress d, dep_Amount = be_Amount d,
                dep_DestinationNetwork = be_DestinationNetwork d, dep_DestinationAddress = be_DestinationAddress d,
                dep_DepositCount = be_DepositCount d, dep_BlockID = 0, dep_BlockNumber = log_BlockNumber vLog,
                dep_NetworkID = 0, dep_TxHash = log_TxHash vLog, dep_Metadata = be_Metadata d,
                dep_ReadyForClaim = False\<rparr> in
          Inr (store_event vLog (\<lambda>b. b\<lparr>blk_Deposits := blk_Deposits b @ [deposit]\<rparr>)
                 (\<lambda>b. length (blk_Deposits b)) DepositsOrder blocks order))"

definition claimEvent :: "Log \<Rightarrow> Block list \<Rightarrow> blocksOrder \<Rightarrow> int \<Rightarrow> address \<Rightarrow> address \<Rightarrow> u32 \<Rightarrow> u32 \<Rightarrow> u32 \<Rightarrow> bool
    \<Rightarrow> int option \<Rightarrow> (Block list \<times> blocksOrder) result" where
  "claimEvent vLog blocks order amount destinationAddress originAddress Index originNetwork rollupIndex mainnetFlag globalIndex =
     (let claim = \<lparr>clm_MainnetFlag = mainnetFlag, clm_RollupIndex = rollupIndex, clm_Index = Index,
            clm_OriginalNetwork = originNetwork, clm_OriginalAddress = originAddress, clm_Amount = amount,
            clm_DestinationAddress = destinationAddress, clm_BlockID = 0, clm_BlockNumber = log_BlockNumber vLog,
            clm_NetworkID = 0, clm_TxHash = log_TxHash vLog, clm_GlobalIndex = globalIndex\<rparr> in
      Inr (store_event vLog (\<lambda>b. b\<lparr>blk_Claims := blk_Claims b @ [claim]\<rparr>)
             (\<lambda>b. length (blk_Claims b)) ClaimsOrder blocks order))"

definition oldClaimEvent :: "Bindings \<Rightarrow> Log \<Rightarrow> Block list \<Rightarrow> blocksOrder \<Rightarrow> (Block list \<times> blocksOrder) result" where
  "oldClaimEvent P vLog blocks order =
     (case ParseOldClaimEvent P vLog of
        Inl e \<Rightarrow> Inl e
      | Inr c \<Rightarrow> claimEvent vLog blocks order (oce_Amount c) (oce_DestinationAddress c) (oce_OriginAddress c)
                   (oce_Index c) (oce_OriginNetwork c) 0 False None)"

definition newClaimEvent :: "Bindings \<Rightarrow> Log \<Rightarrow> Block list \<Rightarrow> blocksOrder \<Rightarrow> (Block list \<times> blocksOrder) result" where
  "newClaimEvent P vLog blocks order =
     (case ParseClaimEvent P vLog of
        Inl e \<Rightarrow> Inl e
      | Inr c \<Rightarrow>
          (case DecodeGlobalIndex (ce_GlobalIndex c) of
             Inl e \<Rightarrow> Inl e
           | Inr (mainnetFlag, rollupIndex, localExitRootIndex) \<Rightarrow>
               claimEvent vLog blocks order (ce_Amount c) (ce_DestinationAddress c) (ce_OriginAddress c)
                 localExitRootIndex (ce_OriginNetwork c) rollupIndex mainnetFlag (Some (ce_GlobalIndex c))))"

definition tokenWrappedEvent :: "Bindings \<Rightarrow> Log \<Rightarrow> Block list \<Rightarrow> blocksOrder \<Rightarrow> (Block list \<times> blocksOrder) result" where
  "tokenWrappedEvent P vLog blocks order =
     (case ParseNewWrappedToken P vLog of
        Inl e \<Rightarrow> Inl e
      | Inr tw \<Rightarrow>
          let tokenWrapped = \<lparr>tok_TokenMetadata = \<lparr>tm_Name = '''', tm_Symbol = '''', tm_Decimals = 0\<rparr>,
                tok_OriginalNetwork = wte_OriginNetwork tw, tok_OriginalTokenAddress = wte_OriginTokenAddress tw,
                tok_WrappedTokenAddress = wte_WrappedTokenAddress tw, tok_BlockID = 0,
                tok_BlockNumber = log_BlockNumber vLog, tok_NetworkID = 0\<rparr> in
          Inr (store_event vLog (\<lambda>b. b\<lparr>blk_Tokens := blk_Tokens b @ [tokenWrapped]\<rparr>)
                 (\<lambda>b. length (blk_Tokens b)) TokensOrder blocks order))"

definition verifyBatches :: "Log \<Rightarrow> Block list \<Rightarrow> blocksOrder \<Rightarrow> u32 \<Rightarrow> u64 \<Rightarrow> h256 \<Rightarrow> h256 \<Rightarrow> address
    \<Rightarrow> (Block list \<times> blocksOrder) result" where
  "verifyBatches vLog blocks order rollupID batchNum stateRoot localExitRoot aggregator =
     (let verifyBatch = \<lparr>vb_BlockNumber = log_BlockNumber vLog, vb_BatchNumber = batchNum, vb_RollupID = rollupID,
            vb_LocalExitRoot = localExitRoot, vb_TxHash = log_TxHash vLog, vb_StateRoot = stateRoot,
            vb_Aggregator = aggregator\<rparr> in
      Inr (store_event vLog (\<lambda>b. b\<lparr>blk_VerifiedBatches := blk_VerifiedBatches b @ [verifyBatch]\<rparr>)
             (\<lambda>b. length (blk_VerifiedBatches b)) VerifyBatchOrder blocks order))"

definition verifyBatchesTrustedAggregatorEvent :: "Bindings \<Rightarrow> Log \<Rightarrow> Block list \<Rightarrow> blocksOrder
    \<Rightarrow> (Block list \<times> blocksOrder) result" where
  "verifyBatchesTrustedAggregatorEvent P vLog blocks order =
     (case ParseVerifyBatchesTrustedAggregator P vLog of
        Inl e \<Rightarrow> Inl e
      | Inr vb \<Rightarrow> verifyBatches vLog blocks order (vbe_RollupID vb) (vbe_NumBatch vb) (vbe_StateRoot vb)
                    (vbe_ExitRoot vb) (vbe_Aggregator vb))"

definition verifyBatchesEvent :: "Bindings \<Rightarrow> Log \<Rightarrow> Block list \<Rightarrow> blocksOrder \<Rightarrow> (Block list \<times> blocksOrder) result" where
  "verifyBatchesEvent P vLog blocks order =
     (case ParseVerifyBatches P vLog of
        Inl e \<Rightarrow> Inl e
      | Inr vb \<Rightarrow> verifyBatches vLog blocks order (vbe_RollupID vb) (vbe_NumBatch vb) (vbe_StateRoot vb)
                    (vbe_ExitRoot vb) (vbe_Aggregator vb))"

definition unsetClaimSovereignEvent :: "Bindings \<Rightarrow> Log \<Rightarrow> Block list \<Rightarrow> blocksOrder
    \<Rightarrow> (Block list \<times> blocksOrder) result" where
  "unsetClaimSovereignEvent P vLog blocks order =
     (case ParseUpdatedUnsetGlobalIndexHashChain P vLog of
        Inl e \<Rightarrow> Inl e
      | Inr g \<Rightarrow>
          (case DecodeGlobalIndex (uint g) of
             Inl e \<Rightarrow> Inl e
           | Inr (mainnetFlag, rollupIndex, localRootIndex) \<Rightarrow>
               let unsetClaimData = \<lparr>uc_BlockID = 0, uc_MainnetFlag = mainnetFlag, uc_RollupIndex = rollupIndex,
                     uc_Index = localRootIndex, uc_GlobalIndex = uint g\<rparr> in
               Inr (store_event vLog (\<lambda>b. b\<lparr>blk_UnsetClaims := blk_UnsetClaims b @ [unsetClaimData]\<rparr>)
                      (\<lambda>b. length (blk_UnsetClaims b)) UnsetClaimOrder blocks order)))"

definition setClaimSovereignEvent :: "Bindings \<Rightarrow> Log \<Rightarrow> Block list \<Rightarrow> blocksOrder
    \<Rightarrow> (Block list \<times> blocksOrder) result" where
  "setClaimSovereignEvent P vLog blocks order =
     (case ParseSetClaim P vLog of
        Inl e \<Rightarrow> Inl e
      | Inr g \<Rightarrow>
          (case DecodeGlobalIndex (uint g) of
             Inl e \<Rightarrow> Inl e
           | Inr (mainnetFlag, rollupIndex, localRootIndex) \<Rightarrow>
               let setClaimData = \<lparr>sc_BlockID = 0, sc_MainnetFlag = mainnetFlag, sc_RollupIndex = rollupIndex,
                     sc_Index = localRootIndex, sc_GlobalIndex = uint g, sc_TxHash = log_TxHash vLog\<rparr> in
               Inr (store_event vLog (\<lambda>b. b\<lparr>blk_SetClaims := blk_SetClaims b @ [setClaimData]\<rparr>)
                      (\<lambda>b. length (blk_SetClaims b)) SetClaimOrder blocks order)))"

definition backwardLETSovereignEvent :: "Bindings \<Rightarrow> Log \<Rightarrow> Block list \<Rightarrow> blocksOrder
    \<Rightarrow> (Block list \<times> blocksOrder) result" where
  "backwardLETSovereignEvent P vLog blocks order =
     (case ParseBackwardLET P vLog of
        Inl e \<Rightarrow> Inl e
      | Inr l \<Rightarrow>
          let LET = \<lparr>bl_BlockID = 0, bl_PreviousDepositCount = of_int (ble_PreviousDepositCount l),
                bl_PreviousRoot = ble_PreviousRoot l, bl_NewDepositCount = of_int (ble_NewDepositCount l),
                bl_NewRoot = ble_NewRoot l\<rparr> in
          Inr (store_event vLog (\<lambda>b. b\<lparr>blk_BackwardLETs := blk_BackwardLETs b @ [LET]\<rparr>)
                 (\<lambda>b. length (blk_BackwardLETs b)) BackwardLETOrder blocks order))"

definition decodeForwardLETLeaves :: "Bindings \<Rightarrow> bytes \<Rightarrow> (LeafData list) result" where
  "decodeForwardLETLeaves P rawLeaves =
     (case UnpackLeaves P rawLeaves of
        Inl e \<Rightarrow> Inl e
      | Inr decoded \<Rightarrow>
          (case decoded of [leaves] \<Rightarrow> Inr leaves | _ \<Rightarrow> Inl (ErrMsg ''esperado 1 valor top-level'')))"

definition forwardLETSovereignEvent :: "Bindings \<Rightarrow> Log \<Rightarrow> Block list \<Rightarrow> blocksOrder
    \<Rightarrow> (Block list \<times> blocksOrder) result" where
  "forwardLETSovereignEvent P vLog blocks order =
     (case ParseForwardLET P vLog of
        Inl e \<Rightarrow> Inl e
      | Inr l \<Rightarrow>
          (case decodeForwardLETLeaves P (fle_NewLeaves l) of
             Inl e \<Rightarrow> Inl e
           | Inr newLeaves \<Rightarrow>
               let LET = \<lparr>fl_BlockID = 0, fl_PreviousDepositCount = of_int (fle_PreviousDepositCount l),
                     fl_PreviousRoot = fle_PreviousRoot l, fl_NewDepositCount = of_int (fle_NewDepositCount l),
                     fl_NewRoot = fle_NewRoot l, fl_NewRawLeaves = fle_NewLeaves l, fl_NewLeaves = newLeaves,
                     fl_TxHash = log_TxHash vLog\<rparr> in
               Inr (store_event vLog (\<lambda>b. b\<lparr>blk_ForwardLETs := blk_ForwardLETs b @ [LET]\<rparr>)
                      (\<lambda>b. length (blk_ForwardLETs b)) ForwardLETOrder blocks order)))"

subsection \<open>The dispatch on the event signature\<close>

text \<open>What the switch of \<^verbatim>\<open>processEvent\<close> does for a signature: one of the handlers, or nothing.\<close>

datatype handler =
    HIgnore
  | HUpdateGlobalExitRoot
  | HUpdateL1InfoTree
  | HDeposit
  | HNewClaim
  | HOldClaim
  | HTokenWrapped
  | HVerifyBatchesTrustedAggregator
  | HVerifyBatches
  | HUpdateHashChain
  | HUpdateRemovalHashChain
  | HBackwardLET
  | HForwardLET
  | HSetClaim
  | HUnsetClaim

text \<open>The signatures in the order of the switch: the first part with the bridge, exit root and rollup
  manager events, the second with the older rollup events and the sovereign chain events.\<close>

definition switch_1 :: "(string \<times> handler) list" where
  "switch_1 =
    [(''UpdateGlobalExitRoot(bytes32,bytes32)'', HUpdateGlobalExitRoot),
     (''UpdateL1InfoTree(bytes32,bytes32)'', HUpdateL1InfoTree),
     (''BridgeEvent(uint8,uint32,address,uint32,address,uint256,bytes,uint32)'', HDeposit),
     (''ClaimEvent(uint256,uint32,address,address,uint256)'', HNewClaim),
     (''ClaimEvent(uint32,uint32,address,address,uint256)'', HOldClaim),
     (''NewWrappedToken(uint32,address,address,bytes)'', HTokenWrapped),
     (''Initialized(uint8)'', HIgnore),
     (''AdminChanged(address,address)'', HIgnore),
     (''BeaconUpgraded(address)'', HIgnore),
     (''Upgraded(address)'', HIgnore),
     (''OwnershipTransferred(address,address)'', HIgnore),
     (''SetBatchFee(uint256)'', HIgnore),
     (''SetTrustedAggregator(address)'', HIgnore),
     (''SetVerifyBatchTimeTarget(uint64)'', HIgnore),
     (''SetMultiplierBatchFee(uint16)'', HIgnore),
     (''SetPendingStateTimeout(uint64)'', HIgnore),
     (''SetTrustedAggregatorTimeout(uint64)'', HIgnore),
     (''OverridePendingState(uint32,uint64,bytes32,bytes32,address)'', HIgnore),
     (''ProveNonDeterministicPendingState(bytes32,bytes32)'', HIgnore),
     (''ConsolidatePendingState(uint32,uint64,bytes32,bytes32,uint64)'', HIgnore),
     (''VerifyBatchesTrustedAggregator(uint32,uint64,bytes32,bytes32,address)'', HVerifyBatchesTrustedAggregator),
     (''VerifyBatches(uint32,uint64,bytes32,bytes32,address)'', HVerifyBatches),
     (''OnSequenceBatches(uint32,uint64)'', HIgnore),
     (''UpdateRollup(uint32,uint32,uint64)'', HIgnore),
     (''AddExistingRollup(uint32,uint64,address,uint64,uint8,uint64)'', HIgnore),
     (''CreateNewRollup(uint32,uint32,address,uint64,address)'', HIgnore),
     (''ObsoleteRollupType(uint32)'', HIgnore),
     (''AddNewRollupType(uint32,address,address,uint64,uint8,bytes32,string)'', HIgnore),
     (''Initialized(uint64)'', HIgnore),
     (''RoleAdminChanged(bytes32,bytes32,bytes32)'', HIgnore),
     (''RoleGranted(bytes32,address,address)'', HIgnore),
     (''RoleRevoked(bytes32,address,address)'', HIgnore),
     (''EmergencyStateActivated()'', HIgnore),
     (''EmergencyStateDeactivated()'', HIgnore),
     (''VerifyBatchesTrustedAggregator(uint64,bytes32,address)'', HIgnore),
     (''UpdateZkEVMVersion(uint64,uint64,string)'', HIgnore),
     (''ConsolidatePendingState(uint64,bytes32,uint64)'', HIgnore),
     (''OverridePendingState(uint64,bytes32,address)'', HIgnore),
     (''SequenceBatches(uint64)'', HIgnore),
     (''SetForceBatchTimeout(uint64)'', HIgnore)]"

definition switch_2 :: "(string \<times> handler) list" where
  "switch_2 =
    [(''SetTrustedSequencerURL(string)'', HIgnore),
     (''SetTrustedSequencer(address)'', HIgnore),
     (''VerifyBatches(uint64,bytes32,address)'', HIgnore),
     (''SequenceForceBatches(uint64)'', HIgnore),
     (''ForceBatch(uint64,bytes32,address,bytes)'', HIgnore),
     (''SequenceBatches(uint64,bytes32)'', HIgnore),
     (''AcceptAdminRole(address)'', HIgnore),
     (''TransferAdminRole(address)'', HIgnore),
     (''UpdateHashChainValue(bytes32,bytes32)'', HUpdateHashChain),
     (''UpdateRemovalHashChainValue(bytes32,bytes32)'', HUpdateRemovalHashChain),
     (''SetBridgeManager(address)'', HIgnore),
     (''SetSovereignTokenAddress(uint32,address,address,bool)'', HIgnore),
     (''MigrateLegacyToken(address,address,address,uint256)'', HIgnore),
     (''RemoveLegacySovereignTokenAddress(address)'', HIgnore),
     (''SetSovereignWETHAddress(address,bool)'', HIgnore),
     (''AcceptGlobalExitRootUpdater(address,address)'', HIgnore),
     (''AcceptGlobalExitRootRemover(address,address)'', HIgnore),
     (''TransferGlobalExitRootRemover(address,address)'', HIgnore),
     (''TransferGlobalExitRootUpdater(address,address)'', HIgnore),
     (''AcceptEmergencyBridgePauserRole(address,address)'', HIgnore),
     (''AcceptEmergencyBridgeUnpauserRole(address,address)'', HIgnore),
     (''BackwardLET(uint256,bytes32,uint256,bytes32)'', HBackwardLET),
     (''DetailedClaimEventDetailedClaimEvent(bytes32[32],bytes32[32],uint256,bytes32,bytes32,uint8,uint32,address,uint32,address,uint256,bytes)'', HIgnore),
     (''ForwardLET(uint256,bytes32,uint256,bytes32,bytes)'', HForwardLET),
     (''SetClaim(bytes32)'', HSetClaim),
     (''SetLocalBalanceTree(uint32,address,uint256)'', HIgnore),
     (''TransferEmergencyBridgePauserRole(address,address)'', HIgnore),
     (''TransferEmergencyBridgeUnpauserRole(address,address)'', HIgnore),
     (''UpdatedClaimedGlobalIndexHashChain(bytes32,bytes32)'', HIgnore),
     (''UpdatedUnsetGlobalIndexHashChain(bytes32,bytes32)'', HUnsetClaim),
     (''AcceptProxiedTokensManagerRole(address,address)'', HIgnore),
     (''TransferProxiedTokensManagerRole(address,address)'', HIgnore),
     (''SetGlobalExitRootRemover(address)'', HIgnore),
     (''SetGlobalExitRootUpdater(address)'', HIgnore),
     (''UnsetClaim(uint32,uint32)'', HIgnore)]"

definition SignatureHash :: "keccak \<Rightarrow> string \<Rightarrow> h256" where
  "SignatureHash K signature = K (map of_char signature)"

definition handle :: "handler \<Rightarrow> Bindings \<Rightarrow> keccak \<Rightarrow> Log \<Rightarrow> Block list \<Rightarrow> blocksOrder
    \<Rightarrow> (Block list \<times> blocksOrder) result" where
  "handle h P K vLog blocks order =
     (case h of
        HIgnore \<Rightarrow> Inr (blocks, order)
      | HUpdateGlobalExitRoot \<Rightarrow> updateGlobalExitRootEvent K vLog blocks order
      | HUpdateL1InfoTree \<Rightarrow> updateL1InfoTreeEvent P K vLog blocks order
      | HDeposit \<Rightarrow> depositEvent P vLog blocks order
      | HNewClaim \<Rightarrow> newClaimEvent P vLog blocks order
      | HOldClaim \<Rightarrow> oldClaimEvent P vLog blocks order
      | HTokenWrapped \<Rightarrow> tokenWrappedEvent P vLog blocks order
      | HVerifyBatchesTrustedAggregator \<Rightarrow> verifyBatchesTrustedAggregatorEvent P vLog blocks order
      | HVerifyBatches \<Rightarrow> verifyBatchesEvent P vLog blocks order
      | HUpdateHashChain \<Rightarrow> updateHashSovereignChainValue P vLog blocks order
      | HUpdateRemovalHashChain \<Rightarrow> updateRemovalHashSovereignChainValue P vLog blocks order
      | HBackwardLET \<Rightarrow> backwardLETSovereignEvent P vLog blocks order
      | HForwardLET \<Rightarrow> forwardLETSovereignEvent P vLog blocks order
      | HSetClaim \<Rightarrow> setClaimSovereignEvent P vLog blocks order
      | HUnsetClaim \<Rightarrow> unsetClaimSovereignEvent P vLog blocks order)"

definition dispatch :: "keccak \<Rightarrow> h256 \<Rightarrow> handler" where
  "dispatch K topic =
     (case find (\<lambda>(signature, h). SignatureHash K signature = topic) (switch_1 @ switch_2) of
        None \<Rightarrow> HIgnore | Some (signature, h) \<Rightarrow> h)"

definition processEvent :: "Bindings \<Rightarrow> keccak \<Rightarrow> Log \<Rightarrow> Block list \<Rightarrow> blocksOrder \<Rightarrow> (Block list \<times> blocksOrder) result" where
  "processEvent P K vLog blocks order =
     (case idx (log_Topics vLog) 0 of
        Inl e \<Rightarrow> Inl e
      | Inr topic \<Rightarrow> handle (dispatch K topic) P K vLog blocks order)"

fun process_logs :: "Bindings \<Rightarrow> keccak \<Rightarrow> Log list \<Rightarrow> Block list \<Rightarrow> blocksOrder \<Rightarrow> (Block list \<times> blocksOrder) result" where
  "process_logs P K [] blocks order = Inr (blocks, order)"
| "process_logs P K (vLog # logs) blocks order =
     (case processEvent P K vLog blocks order of
        Inl e \<Rightarrow> Inl e
      | Inr (blocks', order') \<Rightarrow> process_logs P K logs blocks' order')"

record FilterQuery =
  fq_FromBlock :: u64
  fq_ToBlock :: "u64 option"
  fq_Addresses :: "address list"
  fq_Topics :: "h256 list"

definition readEvents :: "(FilterQuery \<Rightarrow> (Log list) result) \<Rightarrow> Bindings \<Rightarrow> keccak \<Rightarrow> FilterQuery
    \<Rightarrow> (Block list \<times> blocksOrder) result" where
  "readEvents FilterLogs P K query =
     (case FilterLogs query of Inl e \<Rightarrow> Inl e | Inr logs \<Rightarrow> process_logs P K logs [] (\<lambda>_. []))"

definition GetRollupInfoByBlockRange :: "(FilterQuery \<Rightarrow> (Log list) result) \<Rightarrow> Bindings \<Rightarrow> keccak \<Rightarrow> address list
    \<Rightarrow> u64 \<Rightarrow> u64 option \<Rightarrow> (Block list \<times> blocksOrder) result" where
  "GetRollupInfoByBlockRange FilterLogs P K SCAddresses fromBlock toBlock =
     readEvents FilterLogs P K
       \<lparr>fq_FromBlock = fromBlock, fq_ToBlock = toBlock, fq_Addresses = SCAddresses,
        fq_Topics = map (SignatureHash K)
          [''UpdateGlobalExitRoot(bytes32,bytes32)'', ''UpdateL1InfoTree(bytes32,bytes32)'',
           ''BridgeEvent(uint8,uint32,address,uint32,address,uint256,bytes,uint32)'',
           ''ClaimEvent(uint256,uint32,address,address,uint256)'', ''ClaimEvent(uint32,uint32,address,address,uint256)'',
           ''NewWrappedToken(uint32,address,address,bytes)'',
           ''VerifyBatchesTrustedAggregator(uint32,uint64,bytes32,bytes32,address)'',
           ''VerifyBatches(uint32,uint64,bytes32,bytes32,address)'', ''UpdateHashChainValue(bytes32,bytes32)'',
           ''UpdateRemovalHashChainValue(bytes32,bytes32)'', ''BackwardLET(uint256,bytes32,uint256,bytes32)'',
           ''ForwardLET(uint256,bytes32,uint256,bytes32,bytes)'', ''SetClaim(bytes32)'',
           ''UpdatedUnsetGlobalIndexHashChain(bytes32,bytes32)'']\<rparr>"

section \<open>The events of a block, in order\<close>

text \<open>An event of a block, whichever list holds it, and the event a position of the order refers to.\<close>

datatype event =
    EvGER GlobalExitRoot
  | EvRemove GlobalExitRoot
  | EvDeposit Deposit
  | EvClaim Claim
  | EvToken TokenWrapped
  | EvBatch VerifiedBatch
  | EvUnset UnsetClaim
  | EvBackward BackwardLET
  | EvForward ForwardLET
  | EvSet SetClaim

definition event_at :: "Block \<Rightarrow> Order \<Rightarrow> event result" where
  "event_at b ord =
     (case ord_Name ord of
        GlobalExitRootsOrder \<Rightarrow> map_sum id EvGER (idx (blk_GlobalExitRoots b) (ord_Pos ord))
      | RemoveL2GEROrder \<Rightarrow> map_sum id EvRemove (idx (blk_RemoveL2GER b) (ord_Pos ord))
      | DepositsOrder \<Rightarrow> map_sum id EvDeposit (idx (blk_Deposits b) (ord_Pos ord))
      | ClaimsOrder \<Rightarrow> map_sum id EvClaim (idx (blk_Claims b) (ord_Pos ord))
      | TokensOrder \<Rightarrow> map_sum id EvToken (idx (blk_Tokens b) (ord_Pos ord))
      | VerifyBatchOrder \<Rightarrow> map_sum id EvBatch (idx (blk_VerifiedBatches b) (ord_Pos ord))
      | UnsetClaimOrder \<Rightarrow> map_sum id EvUnset (idx (blk_UnsetClaims b) (ord_Pos ord))
      | BackwardLETOrder \<Rightarrow> map_sum id EvBackward (idx (blk_BackwardLETs b) (ord_Pos ord))
      | ForwardLETOrder \<Rightarrow> map_sum id EvForward (idx (blk_ForwardLETs b) (ord_Pos ord))
      | SetClaimOrder \<Rightarrow> map_sum id EvSet (idx (blk_SetClaims b) (ord_Pos ord)))"

fun kind :: "event \<Rightarrow> EventOrder" where
  "kind (EvGER _) = GlobalExitRootsOrder"
| "kind (EvRemove _) = RemoveL2GEROrder"
| "kind (EvDeposit _) = DepositsOrder"
| "kind (EvClaim _) = ClaimsOrder"
| "kind (EvToken _) = TokensOrder"
| "kind (EvBatch _) = VerifyBatchOrder"
| "kind (EvUnset _) = UnsetClaimOrder"
| "kind (EvBackward _) = BackwardLETOrder"
| "kind (EvForward _) = ForwardLETOrder"
| "kind (EvSet _) = SetClaimOrder"

fun put :: "event \<Rightarrow> Block \<Rightarrow> Block" where
  "put (EvGER x) = (\<lambda>b. b\<lparr>blk_GlobalExitRoots := blk_GlobalExitRoots b @ [x]\<rparr>)"
| "put (EvRemove x) = (\<lambda>b. b\<lparr>blk_RemoveL2GER := blk_RemoveL2GER b @ [x]\<rparr>)"
| "put (EvDeposit x) = (\<lambda>b. b\<lparr>blk_Deposits := blk_Deposits b @ [x]\<rparr>)"
| "put (EvClaim x) = (\<lambda>b. b\<lparr>blk_Claims := blk_Claims b @ [x]\<rparr>)"
| "put (EvToken x) = (\<lambda>b. b\<lparr>blk_Tokens := blk_Tokens b @ [x]\<rparr>)"
| "put (EvBatch x) = (\<lambda>b. b\<lparr>blk_VerifiedBatches := blk_VerifiedBatches b @ [x]\<rparr>)"
| "put (EvUnset x) = (\<lambda>b. b\<lparr>blk_UnsetClaims := blk_UnsetClaims b @ [x]\<rparr>)"
| "put (EvBackward x) = (\<lambda>b. b\<lparr>blk_BackwardLETs := blk_BackwardLETs b @ [x]\<rparr>)"
| "put (EvForward x) = (\<lambda>b. b\<lparr>blk_ForwardLETs := blk_ForwardLETs b @ [x]\<rparr>)"
| "put (EvSet x) = (\<lambda>b. b\<lparr>blk_SetClaims := blk_SetClaims b @ [x]\<rparr>)"

fun slot_len :: "EventOrder \<Rightarrow> Block \<Rightarrow> nat" where
  "slot_len GlobalExitRootsOrder = (\<lambda>b. length (blk_GlobalExitRoots b))"
| "slot_len RemoveL2GEROrder = (\<lambda>b. length (blk_RemoveL2GER b))"
| "slot_len DepositsOrder = (\<lambda>b. length (blk_Deposits b))"
| "slot_len ClaimsOrder = (\<lambda>b. length (blk_Claims b))"
| "slot_len TokensOrder = (\<lambda>b. length (blk_Tokens b))"
| "slot_len VerifyBatchOrder = (\<lambda>b. length (blk_VerifiedBatches b))"
| "slot_len UnsetClaimOrder = (\<lambda>b. length (blk_UnsetClaims b))"
| "slot_len BackwardLETOrder = (\<lambda>b. length (blk_BackwardLETs b))"
| "slot_len ForwardLETOrder = (\<lambda>b. length (blk_ForwardLETs b))"
| "slot_len SetClaimOrder = (\<lambda>b. length (blk_SetClaims b))"

lemma put_keeps [simp]: "blk_BlockHash (put ev b) = blk_BlockHash b" "blk_BlockNumber (put ev b) = blk_BlockNumber b"
  by (cases ev; simp)+

lemma idx_append: "idx xs i = Inr x \<Longrightarrow> idx (xs @ ys) i = Inr x"
  by (auto simp: idx_def nth_append split: if_splits)

lemma event_at_put: "event_at b ord = Inr x \<Longrightarrow> event_at (put ev b) ord = Inr x"
  by (cases ev; cases "ord_Name ord") (auto simp: event_at_def map_sum_def idx_append split: sum.splits)

lemma event_at_new: "event_at (put ev b) \<lparr>ord_Name = kind ev, ord_Pos = slot_len (kind ev) (put ev b) - Suc 0\<rparr> = Inr ev"
  by (cases ev) (simp_all add: event_at_def idx_def)

text \<open>A log fails, has no effect, or stores one event, whatever was read before it.\<close>

abbreviation stores :: "Log \<Rightarrow> event \<Rightarrow> Block list \<Rightarrow> blocksOrder \<Rightarrow> Block list \<times> blocksOrder" where
  "stores v ev \<equiv> store_event v (put ev) (slot_len (kind ev)) (kind ev)"

lemmas handler_defs = removeL2GER_def updateRemovalHashSovereignChainValue_def addSovereignChainL2GER_def
  updateHashSovereignChainValue_def processUpdateGlobalExitRootEvent_def updateGlobalExitRootEvent_def
  updateL1InfoTreeEvent_def depositEvent_def claimEvent_def oldClaimEvent_def newClaimEvent_def tokenWrappedEvent_def
  verifyBatches_def verifyBatchesTrustedAggregatorEvent_def verifyBatchesEvent_def unsetClaimSovereignEvent_def
  setClaimSovereignEvent_def backwardLETSovereignEvent_def forwardLETSovereignEvent_def Let_def

definition one_event :: "(Block list \<Rightarrow> blocksOrder \<Rightarrow> (Block list \<times> blocksOrder) result) \<Rightarrow> Log \<Rightarrow> bool" where
  "one_event f v \<longleftrightarrow> (\<exists>e. \<forall>bs ord. f bs ord = Inl e) \<or> (\<forall>bs ord. f bs ord = Inr (bs, ord)) \<or>
     (\<exists>ev. \<forall>bs ord. f bs ord = Inr (stores v ev bs ord))"

lemma one_event_Inl: "(\<And>bs ord. f bs ord = Inl e) \<Longrightarrow> one_event f v"
  by (auto simp: one_event_def)

lemma one_event_stores: "(\<And>bs ord. f bs ord = Inr (stores v ev bs ord)) \<Longrightarrow> one_event f v"
  by (auto simp: one_event_def)

lemma one_event_handlers:
  "one_event (updateGlobalExitRootEvent K v) v" "one_event (updateL1InfoTreeEvent P K v) v"
  "one_event (depositEvent P v) v" "one_event (newClaimEvent P v) v" "one_event (oldClaimEvent P v) v"
  "one_event (tokenWrappedEvent P v) v" "one_event (verifyBatchesTrustedAggregatorEvent P v) v"
  "one_event (verifyBatchesEvent P v) v" "one_event (updateHashSovereignChainValue P v) v"
  "one_event (updateRemovalHashSovereignChainValue P v) v" "one_event (backwardLETSovereignEvent P v) v"
  "one_event (forwardLETSovereignEvent P v) v" "one_event (setClaimSovereignEvent P v) v"
  "one_event (unsetClaimSovereignEvent P v) v"
proof -
  show "one_event (updateGlobalExitRootEvent K v) v"
    by (cases "idx (log_Topics v) 1"; cases "idx (log_Topics v) 2")
      (auto simp: handler_defs intro: one_event_Inl one_event_stores [where ev = "EvGER _"])
  show "one_event (updateL1InfoTreeEvent P K v) v"
    by (cases "ParseUpdateL1InfoTree P v")
      (auto simp: handler_defs split: prod.splits intro: one_event_Inl one_event_stores [where ev = "EvGER _"])
  show "one_event (depositEvent P v) v"
    by (cases "ParseBridgeEvent P v") (auto simp: handler_defs intro: one_event_Inl one_event_stores [where ev = "EvDeposit _"])
  show "one_event (newClaimEvent P v) v"
  proof (cases "ParseClaimEvent P v")
    case (Inr c)
    thus ?thesis by (cases "DecodeGlobalIndex (ce_GlobalIndex c)")
      (auto simp: handler_defs split: prod.splits intro: one_event_Inl one_event_stores [where ev = "EvClaim _"])
  qed (auto simp: handler_defs intro: one_event_Inl)
  show "one_event (oldClaimEvent P v) v"
    by (cases "ParseOldClaimEvent P v") (auto simp: handler_defs intro: one_event_Inl one_event_stores [where ev = "EvClaim _"])
  show "one_event (tokenWrappedEvent P v) v"
    by (cases "ParseNewWrappedToken P v") (auto simp: handler_defs intro: one_event_Inl one_event_stores [where ev = "EvToken _"])
  show "one_event (verifyBatchesTrustedAggregatorEvent P v) v"
    by (cases "ParseVerifyBatchesTrustedAggregator P v")
      (auto simp: handler_defs intro: one_event_Inl one_event_stores [where ev = "EvBatch _"])
  show "one_event (verifyBatchesEvent P v) v"
    by (cases "ParseVerifyBatches P v") (auto simp: handler_defs intro: one_event_Inl one_event_stores [where ev = "EvBatch _"])
  show "one_event (updateHashSovereignChainValue P v) v"
    by (cases "ParseUpdateHashChainValue P v") (auto simp: handler_defs intro: one_event_Inl one_event_stores [where ev = "EvGER _"])
  show "one_event (updateRemovalHashSovereignChainValue P v) v"
    by (cases "ParseUpdateRemovalHashChainValue P v")
      (auto simp: handler_defs intro: one_event_Inl one_event_stores [where ev = "EvRemove _"])
  show "one_event (backwardLETSovereignEvent P v) v"
    by (cases "ParseBackwardLET P v") (auto simp: handler_defs intro: one_event_Inl one_event_stores [where ev = "EvBackward _"])
  show "one_event (forwardLETSovereignEvent P v) v"
  proof (cases "ParseForwardLET P v")
    case (Inr l)
    thus ?thesis by (cases "decodeForwardLETLeaves P (fle_NewLeaves l)")
      (auto simp: handler_defs intro: one_event_Inl one_event_stores [where ev = "EvForward _"])
  qed (auto simp: handler_defs intro: one_event_Inl)
  show "one_event (setClaimSovereignEvent P v) v"
  proof (cases "ParseSetClaim P v")
    case (Inr g)
    thus ?thesis by (cases "DecodeGlobalIndex (uint g)")
      (auto simp: handler_defs split: prod.splits intro: one_event_Inl one_event_stores [where ev = "EvSet _"])
  qed (auto simp: handler_defs intro: one_event_Inl)
  show "one_event (unsetClaimSovereignEvent P v) v"
  proof (cases "ParseUpdatedUnsetGlobalIndexHashChain P v")
    case (Inr g)
    thus ?thesis by (cases "DecodeGlobalIndex (uint g)")
      (auto simp: handler_defs split: prod.splits intro: one_event_Inl one_event_stores [where ev = "EvUnset _"])
  qed (auto simp: handler_defs intro: one_event_Inl)
qed

lemma one_event_processEvent: "one_event (processEvent P K v) v"
proof (cases "idx (log_Topics v) 0")
  case (Inr topic)
  hence eq: "processEvent P K v = handle (dispatch K topic) P K v" by (intro ext) (simp add: processEvent_def)
  have ig: "one_event (\<lambda>bs ord. Inr (bs, ord)) v" by (simp add: one_event_def)
  show ?thesis
    unfolding eq by (cases "dispatch K topic") (simp_all add: handle_def [abs_def] one_event_handlers ig)
qed (auto simp: processEvent_def intro: one_event_Inl)

section \<open>Reading a sequence of logs\<close>

text \<open>The event a log stands for: what reading it alone gives.\<close>

definition log_event :: "Bindings \<Rightarrow> keccak \<Rightarrow> Log \<Rightarrow> event option" where
  "log_event P K v =
     (case processEvent P K v [] (\<lambda>_. []) of
        Inr (b # bs, ord) \<Rightarrow>
          (case event_at b (hd (ord (log_BlockHash v))) of Inr ev \<Rightarrow> Some ev | Inl e \<Rightarrow> None)
      | _ \<Rightarrow> None)"

definition log_events :: "Bindings \<Rightarrow> keccak \<Rightarrow> Log list \<Rightarrow> (h256 \<times> u64 \<times> event) list" where
  "log_events P K logs = concat (map (\<lambda>v.
     case log_event P K v of None \<Rightarrow> [] | Some ev \<Rightarrow> [(log_BlockHash v, log_BlockNumber v, ev)]) logs)"

text \<open>The events of the blocks read, following the order of each block.\<close>

definition ordered_events :: "Block list \<Rightarrow> blocksOrder \<Rightarrow> (h256 \<times> u64 \<times> event result) list" where
  "ordered_events bs ord = concat (map (\<lambda>b.
     map (\<lambda>o1. (blk_BlockHash b, blk_BlockNumber b, event_at b o1)) (ord (blk_BlockHash b))) bs)"

text \<open>Logs come block by block: once another block has started, its hash is new.\<close>

fun grouped :: "h256 list \<Rightarrow> (h256 \<times> u64) option \<Rightarrow> Log list \<Rightarrow> bool" where
  "grouped seen cur [] = True"
| "grouped seen cur (v # vs) =
     (let b = (log_BlockHash v, log_BlockNumber v) in
      if cur = Some b then grouped seen cur vs
      else fst b \<notin> set seen \<and> grouped (fst b # seen) (Some b) vs)"

lemma processEvent_cases:
  obtains (fails) e where "\<And>bs ord. processEvent P K v bs ord = Inl e" and "log_event P K v = None"
  | (ignored) "\<And>bs ord. processEvent P K v bs ord = Inr (bs, ord)" and "log_event P K v = None"
  | (stored) ev where "\<And>bs ord. processEvent P K v bs ord = Inr (stores v ev bs ord)" and "log_event P K v = Some ev"
proof -
  consider (a) e where "\<And>bs ord. processEvent P K v bs ord = Inl e" | (b) "\<And>bs ord. processEvent P K v bs ord = Inr (bs, ord)"
    | (c) ev where "\<And>bs ord. processEvent P K v bs ord = Inr (stores v ev bs ord)"
    using one_event_processEvent [of P K v] unfolding one_event_def by metis
  thus thesis
  proof cases
    case (c ev)
    have "log_event P K v = Some ev"
      by (simp add: log_event_def c store_event_def Let_def event_at_new empty_block_def)
    thus thesis using c stored by blast
  qed (auto simp: log_event_def intro: fails ignored)
qed

text \<open>What holds of the blocks read so far: different hashes, no order for other hashes, and the current block of
  the logs is the last one if it was read at all.\<close>

definition read_ok :: "h256 list \<Rightarrow> (h256 \<times> u64) option \<Rightarrow> Block list \<Rightarrow> blocksOrder \<Rightarrow> bool" where
  "read_ok seen cur bs ord \<longleftrightarrow>
     distinct (map blk_BlockHash bs) \<and> blk_BlockHash ` set bs \<subseteq> set seen \<and>
     (\<forall>h. h \<notin> blk_BlockHash ` set bs \<longrightarrow> ord h = []) \<and>
     (\<forall>b\<in>set bs. \<forall>o1\<in>set (ord (blk_BlockHash b)). is_ok (event_at b o1)) \<and>
     (\<forall>h n. cur = Some (h, n) \<longrightarrow> h \<in> set seen \<and> (h \<in> blk_BlockHash ` set bs \<longrightarrow>
        blk_BlockHash (last bs) = h \<and> blk_BlockNumber (last bs) = n))"

lemma is_ok_iff: "is_ok x \<longleftrightarrow> (\<exists>y. x = Inr y)"
  by (cases x) auto

lemma ordered_events_cong:
  "(\<And>b. b \<in> set bs \<Longrightarrow> ord (blk_BlockHash b) = ord' (blk_BlockHash b)) \<Longrightarrow> ordered_events bs ord = ordered_events bs ord'"
  unfolding ordered_events_def by (auto intro!: arg_cong [of _ _ concat] map_cong)

lemma store_new_block:
  assumes ok: "read_ok seen cur bs ord" and new: "log_BlockHash v \<notin> blk_BlockHash ` set bs"
    and seen: "set seen \<subseteq> set seen'" "log_BlockHash v \<in> set seen'" and st: "stores v ev bs ord = (bs', ord')"
  shows "read_ok seen' (Some (log_BlockHash v, log_BlockNumber v)) bs' ord'"
    and "ordered_events bs' ord' = ordered_events bs ord @ [(log_BlockHash v, log_BlockNumber v, Inr ev)]"
proof -
  let ?b = "put ev (empty_block\<lparr>blk_BlockNumber := log_BlockNumber v, blk_BlockHash := log_BlockHash v\<rparr>)"
  let ?o = "\<lparr>ord_Name = kind ev, ord_Pos = slot_len (kind ev) ?b - 1\<rparr>"
  have nl: "bs = [] \<or> blk_BlockHash (last bs) \<noteq> log_BlockHash v" using new by (metis image_eqI last_in_set)
  have none: "ord (log_BlockHash v) = []" using ok new by (simp add: read_ok_def)
  have bs': "bs' = bs @ [?b]" and ord': "ord' = ord(log_BlockHash v := [?o])"
    using st nl none by (auto simp: store_event_def Let_def empty_block_def)
  have same: "ord' (blk_BlockHash b) = ord (blk_BlockHash b)" if "b \<in> set bs" for b
    using new that unfolding ord' by (metis fun_upd_other imageI)
  have hb: "blk_BlockHash ?b = log_BlockHash v" "blk_BlockNumber ?b = log_BlockNumber v" by (simp_all add: empty_block_def)
  show "read_ok seen' (Some (log_BlockHash v, log_BlockNumber v)) bs' ord'"
    using ok new seen hb same unfolding read_ok_def bs' by (auto simp: ord' event_at_new)
  have "ordered_events bs ord' = ordered_events bs ord" by (rule ordered_events_cong) (rule same)
  thus "ordered_events bs' ord' = ordered_events bs ord @ [(log_BlockHash v, log_BlockNumber v, Inr ev)]"
    unfolding bs' using hb by (simp add: ordered_events_def ord' event_at_new)
qed

lemma store_last_block:
  assumes ok: "read_ok seen cur bs ord" and ne: "bs \<noteq> []" and last: "blk_BlockHash (last bs) = log_BlockHash v"
    "blk_BlockNumber (last bs) = log_BlockNumber v"
    and seen: "set seen \<subseteq> set seen'" and st: "stores v ev bs ord = (bs', ord')"
  shows "read_ok seen' (Some (log_BlockHash v, log_BlockNumber v)) bs' ord'"
    and "ordered_events bs' ord' = ordered_events bs ord @ [(log_BlockHash v, log_BlockNumber v, Inr ev)]"
proof -
  obtain cs b where bs: "bs = cs @ [b]" using ne by (metis append_butlast_last_id)
  let ?b = "put ev b" and ?h = "log_BlockHash v"
  let ?o = "\<lparr>ord_Name = kind ev, ord_Pos = slot_len (kind ev) ?b - 1\<rparr>"
  have hb: "blk_BlockHash b = ?h" "blk_BlockNumber b = log_BlockNumber v" using last bs by simp_all
  have bs': "bs' = cs @ [?b]" and ord': "ord' = ord(?h := ord ?h @ [?o])"
    using st hb by (auto simp: store_event_def Let_def bs)
  have other: "blk_BlockHash c \<noteq> ?h" if "c \<in> set cs" for c
  proof -
    have "?h \<notin> blk_BlockHash ` set cs" using ok hb by (simp add: read_ok_def bs)
    thus ?thesis using that by (metis imageI)
  qed
  have same: "ord' (blk_BlockHash c) = ord (blk_BlockHash c)" if "c \<in> set cs" for c
    using other [OF that] unfolding ord' by (rule fun_upd_other)
  have old: "\<exists>x. event_at b o1 = Inr x" if "o1 \<in> set (ord ?h)" for o1
    using ok that hb by (auto simp: read_ok_def bs is_ok_iff)
  have keep: "event_at ?b o1 = event_at b o1" if "o1 \<in> set (ord ?h)" for o1
    using old [OF that] event_at_put by metis
  have "is_ok (event_at ?b o1)" if "o1 \<in> set (ord' ?h)" for o1
    using that keep old by (auto simp: ord' is_ok_iff event_at_new)
  moreover have "is_ok (event_at c o1)" if "c \<in> set cs" "o1 \<in> set (ord (blk_BlockHash c))" for c o1
    using ok that by (auto simp: read_ok_def bs)
  ultimately show "read_ok seen' (Some (?h, log_BlockNumber v)) bs' ord'"
    using ok hb seen same other unfolding read_ok_def bs' bs by (auto simp: ord')
  have m: "map (\<lambda>o1. (?h, log_BlockNumber v, event_at ?b o1)) (ord ?h) = map (\<lambda>o1. (?h, log_BlockNumber v, event_at b o1)) (ord ?h)"
    by (rule map_cong) (simp_all add: keep)
  have "ordered_events cs ord' = ordered_events cs ord" by (rule ordered_events_cong) (rule same)
  thus "ordered_events bs' ord' = ordered_events bs ord @ [(?h, log_BlockNumber v, Inr ev)]"
    unfolding bs' bs using hb m by (simp add: ordered_events_def ord' event_at_new)
qed

lemma process_logs_ok:
  "process_logs P K logs bs ord = Inr (bs', ord') \<Longrightarrow> grouped seen cur logs \<Longrightarrow> read_ok seen cur bs ord \<Longrightarrow>
   distinct (map blk_BlockHash bs') \<and>
   ordered_events bs' ord' = ordered_events bs ord @ map (\<lambda>(h, n, ev). (h, n, Inr ev)) (log_events P K logs)"
proof (induction logs arbitrary: bs ord seen cur)
  case Nil
  thus ?case by (simp add: read_ok_def log_events_def)
next
  case (Cons v logs)
  let ?h = "log_BlockHash v" and ?n = "log_BlockNumber v"
  define seen' where "seen' = (if cur = Some (?h, ?n) then seen else ?h # seen)"
  have g: "grouped seen' (Some (?h, ?n)) logs" and fresh: "cur \<noteq> Some (?h, ?n) \<Longrightarrow> ?h \<notin> set seen"
    and sub: "set seen \<subseteq> set seen'"
    using Cons.prems(2) by (auto simp: seen'_def Let_def split: if_splits)
  have lev: "log_events P K (v # logs) =
      (case log_event P K v of None \<Rightarrow> [] | Some ev \<Rightarrow> [(?h, ?n, ev)]) @ log_events P K logs"
    by (simp add: log_events_def)
  show ?case
  proof (cases P K v rule: processEvent_cases)
    case (fails e)
    thus ?thesis using Cons.prems(1) by simp
  next
    case ignored
    have "read_ok seen' (Some (?h, ?n)) bs ord"
      using Cons.prems(3) fresh sub unfolding read_ok_def seen'_def by (auto split: if_splits)
    thus ?thesis using Cons.IH [of bs ord seen' "Some (?h, ?n)"] Cons.prems(1) g ignored lev by simp
  next
    case (stored ev)
    obtain bs1 ord1 where st: "stores v ev bs ord = (bs1, ord1)" by fastforce
    have "read_ok seen' (Some (?h, ?n)) bs1 ord1 \<and> ordered_events bs1 ord1 = ordered_events bs ord @ [(?h, ?n, Inr ev)]"
    proof (cases "?h \<in> blk_BlockHash ` set bs")
      case True
      hence c: "cur = Some (?h, ?n)" using fresh Cons.prems(3) by (auto simp: read_ok_def)
      have "bs \<noteq> []" using True by auto
      moreover have "blk_BlockHash (last bs) = ?h" "blk_BlockNumber (last bs) = ?n"
        using Cons.prems(3) c True by (simp_all add: read_ok_def)
      ultimately show ?thesis using store_last_block [OF Cons.prems(3) _ _ _ sub st] by blast
    next
      case False
      have "?h \<in> set seen'" using Cons.prems(3) by (auto simp: seen'_def read_ok_def)
      thus ?thesis using store_new_block [OF Cons.prems(3) False sub _ st] by blast
    qed
    thus ?thesis using Cons.IH [of bs1 ord1 seen' "Some (?h, ?n)"] Cons.prems(1) g stored st lev by simp
  qed
qed

section \<open>Global indices\<close>

lemma be_bytes_add: "be_bytes (m + n) (w :: 'a::len word) = be_bytes m (drop_bit (8 * n) w) @ be_bytes n w"
  by (induction n arbitrary: w) (simp_all add: drop_bit_drop_bit add.commute)

lemma be_value_append: "be_value (xs @ ys) = be_value xs * 256 ^ length ys + be_value ys"
  by (induction ys rule: rev_induct) (simp_all add: append_assoc [symmetric] algebra_simps del: append_assoc)

lemma be_value_u32: "be_value (be_bytes 4 (w :: u32)) = unat w"
  using unat_less [of w] by (simp add: be_value_be_bytes)

lemma GenerateGlobalIndex_eq:
  "GenerateGlobalIndex f r i = int ((if f then 2 ^ 32 else unat r) * 2 ^ 32 + unat i)"
proof -
  have one: "be_value (1 # be_bytes 4 (0 :: u32)) = 2 ^ 32"
    using be_value_append [of "[1]" "be_bytes 4 (0 :: u32)"] by (simp add: be_value_u32 be_value_def [of "[1]"])
  show ?thesis by (simp add: GenerateGlobalIndex_def be_value_append be_value_u32 one)
qed

lemma global_index_slices:
  fixes w :: h256
  shows "take 4 (drop 24 (be_bytes 32 w)) = be_bytes 4 (drop_bit 32 w)"
    and "take 4 (drop 28 (be_bytes 32 w)) = be_bytes 4 w"
    and "be_bytes 32 w ! 23 = ucast (drop_bit 64 w)"
proof -
  have a: "be_bytes 32 w = be_bytes 24 (drop_bit 64 w) @ be_bytes 4 (drop_bit 32 w) @ be_bytes 4 w"
    using be_bytes_add [of 24 8 w] be_bytes_add [of 4 4 w] by simp
  show "take 4 (drop 24 (be_bytes 32 w)) = be_bytes 4 (drop_bit 32 w)" "take 4 (drop 28 (be_bytes 32 w)) = be_bytes 4 w"
    unfolding a by simp_all
  have "be_bytes 24 (drop_bit 64 w) = be_bytes 23 (drop_bit 8 (drop_bit 64 w)) @ [ucast (drop_bit 64 w)]"
    using be_bytes.simps(2) [of 23 "drop_bit 64 w"] by simp
  thus "be_bytes 32 w ! 23 = ucast (drop_bit 64 w)" unfolding a by (simp add: nth_append)
qed

text \<open>Decoding reads bits 64 to 71 as the flag, bits 32 to 63 as the rollup index and bits 0 to 31 as the leaf index.\<close>

lemma DecodeGlobalIndex_eq:
  assumes "0 \<le> x" and "x < 2 ^ 256"
  shows "DecodeGlobalIndex x = Inr (nat x div 2 ^ 64 mod 256 = 1, of_nat (nat x div 2 ^ 32), of_nat (nat x))"
proof -
  let ?w = "of_int x :: h256"
  have u: "unat ?w = nat x" using assms by (simp add: unat_eq_nat_uint uint_word_of_int_eq take_bit_int_eq_self)
  have d: "unat (drop_bit k ?w) = nat x div 2 ^ k" for k unfolding unat_drop_bit_eq u by (simp add: drop_bit_eq_div)
  have f: "FillBytes32 x = Inr (be_bytes 32 ?w)" using assms by (simp add: FillBytes32_def)
  have flag: "be_value [be_bytes 32 ?w ! 23] = nat x div 2 ^ 64 mod 256"
    unfolding global_index_slices by (simp add: be_value_def unsigned_ucast_eq d take_bit_eq_mod)
  have r: "be_value (take 4 (drop 24 (be_bytes 32 ?w))) = nat x div 2 ^ 32 mod 2 ^ 32"
    unfolding global_index_slices be_value_be_bytes d by simp
  have i: "be_value (take 4 (drop 28 (be_bytes 32 ?w))) = nat x mod 2 ^ 32"
    unfolding global_index_slices be_value_be_bytes u by simp
  have le: "\<not> 2 ^ 32 - 1 < (n :: nat) mod 2 ^ 32" for n by (simp add: not_less less_Suc_eq_le [symmetric])
  have w: "(of_nat (n mod 2 ^ 32) :: u32) = of_nat n" for n by (simp add: word_unat_eq_iff unat_of_nat)
  show ?thesis
    unfolding DecodeGlobalIndex_def f sum.case Let_def flag r i
    by (simp only: length_be_bytes not_True_eq_False if_False le w simp_thms)
qed

section \<open>Properties\<close>

text \<open>C11. The events of the blocks read, taken in the recorded order block by block, are exactly the events of the
  logs in the order of the logs, each with the hash and number of its block: no recorded position is out of range,
  nothing is lost, added or reordered, and every block hash occurs once.  The logs come block by block, as a node
  serves them.\<close>

theorem readEvents_in_order:
  assumes "FilterLogs query = Inr logs" and "grouped [] None logs"
    and "readEvents FilterLogs P K query = Inr (blocks, order)"
  shows "distinct (map blk_BlockHash blocks) \<and>
    ordered_events blocks order = map (\<lambda>(h, n, ev). (h, n, Inr ev)) (log_events P K logs)"
  using assms process_logs_ok [of P K logs "[]" "\<lambda>_. []" blocks order "[]" None]
  by (simp add: readEvents_def read_ok_def ordered_events_def)

definition sample_bindings :: Bindings where
  "sample_bindings = \<lparr>ParseUpdateRemovalHashChainValue = (\<lambda>v. Inr 1), ParseUpdateHashChainValue = (\<lambda>v. Inr 1),
     ParseUpdateL1InfoTree = (\<lambda>v. Inr (1, 2)), ParseBridgeEvent = (\<lambda>v. Inl ErrIO), ParseOldClaimEvent = (\<lambda>v. Inl ErrIO),
     ParseClaimEvent = (\<lambda>v. Inl ErrIO), ParseNewWrappedToken = (\<lambda>v. Inl ErrIO),
     ParseVerifyBatchesTrustedAggregator = (\<lambda>v. Inl ErrIO), ParseVerifyBatches = (\<lambda>v. Inl ErrIO),
     ParseUpdatedUnsetGlobalIndexHashChain = (\<lambda>v. Inl ErrIO), ParseSetClaim = (\<lambda>v. Inl ErrIO),
     ParseBackwardLET = (\<lambda>v. Inl ErrIO), ParseForwardLET = (\<lambda>v. Inl ErrIO), UnpackLeaves = (\<lambda>b. Inl ErrIO)\<rparr>"

text \<open>A hash function under which the first signature of the switch is recognised.\<close>

definition sample_K :: keccak where
  "sample_K bs = of_nat (length bs)"

definition sample_logs :: "Log list" where
  "sample_logs = map (\<lambda>(n, a, b). \<lparr>log_Address = 0, log_Topics = [37, a, b], log_Data = [], log_BlockNumber = n,
     log_BlockHash = ucast n, log_TxHash = 0\<rparr>) [(5, 1, 2), (5, 3, 4), (6, 5, 6)]"

lemma sample_dispatch: "dispatch sample_K 37 = HUpdateGlobalExitRoot"
  by (simp add: dispatch_def switch_1_def SignatureHash_def sample_K_def)

lemma sample_logs_read: "is_ok (process_logs sample_bindings sample_K sample_logs [] (\<lambda>_. []))"
  by (simp add: sample_logs_def processEvent_def idx_def sample_dispatch handle_def handler_defs store_event_def)

theorem readEvents_in_order_witness:
  "\<exists>blocks order. readEvents (\<lambda>_. Inr sample_logs) sample_bindings sample_K
     \<lparr>fq_FromBlock = 0, fq_ToBlock = None, fq_Addresses = [], fq_Topics = []\<rparr> = Inr (blocks, order) \<and>
   distinct (map blk_BlockHash blocks) \<and>
   ordered_events blocks order = map (\<lambda>(h, n, ev). (h, n, Inr ev)) (log_events sample_bindings sample_K sample_logs)"
proof -
  let ?q = "\<lparr>fq_FromBlock = 0, fq_ToBlock = None, fq_Addresses = [], fq_Topics = []\<rparr>"
  obtain r where "process_logs sample_bindings sample_K sample_logs [] (\<lambda>_. []) = Inr r"
    using sample_logs_read by (auto simp: is_ok_iff)
  then obtain blocks order where r: "readEvents (\<lambda>_. Inr sample_logs) sample_bindings sample_K ?q = Inr (blocks, order)"
    by (cases r) (simp add: readEvents_def)
  have g: "grouped [] None sample_logs" by (simp add: sample_logs_def)
  show ?thesis using r readEvents_in_order [OF _ g r] by blast
qed

text \<open>C12. The global index of a leaf can be read back: decoding a generated index gives the flag, the rollup index
  (0 when the flag is set) and the leaf index it was generated from.\<close>

theorem DecodeGlobalIndex_Generate:
  "DecodeGlobalIndex (GenerateGlobalIndex mainnetFlag rollupIndex index) =
     Inr (mainnetFlag, if mainnetFlag then 0 else rollupIndex, index)"
proof -
  let ?a = "if mainnetFlag then 2 ^ 32 else unat rollupIndex"
  let ?n = "?a * 2 ^ 32 + unat index"
  have r: "unat rollupIndex < 2 ^ 32" and i: "unat index < 2 ^ 32"
    using unat_less [of rollupIndex] unat_less [of index] by simp_all
  have d32: "?n div 2 ^ 32 = ?a" and m32: "?n mod 2 ^ 32 = unat index" using i by (simp_all del: mult_numeral_left)
  have "?n div 2 ^ 64 = ?n div 2 ^ 32 div 2 ^ 32" by (simp only: div_mult2_eq [symmetric] power_add [symmetric]; simp)
  hence d64: "?n div 2 ^ 64 = of_bool mainnetFlag" unfolding d32 using r by simp
  have word: "(of_nat n :: u32) = w \<longleftrightarrow> n mod 2 ^ 32 = unat w" for n w by (simp add: word_unat_eq_iff unat_of_nat)
  have "?a * 2 ^ 32 \<le> 2 ^ 32 * 2 ^ 32" by (rule mult_le_mono1) (use r in simp)
  hence nb: "?n < 2 ^ 256" using i by simp
  have "int ?n < int (2 ^ 256)" using nb by (simp only: of_nat_less_iff)
  hence b: "0 \<le> int ?n" "int ?n < 2 ^ 256" by (simp_all only: of_nat_power of_nat_numeral of_nat_0_le_iff)
  have "(of_nat (?n div 2 ^ 32) :: u32) = (if mainnetFlag then 0 else rollupIndex)" unfolding word d32 using r by simp
  moreover have "(of_nat ?n :: u32) = index" unfolding word m32 ..
  moreover have "(?n div 2 ^ 64 mod 256 = 1) = mainnetFlag" unfolding d64 by simp
  ultimately show ?thesis
    unfolding GenerateGlobalIndex_eq DecodeGlobalIndex_eq [OF b] nat_int by (simp only:)
qed

end
