(* ===== verification/Synchronizer.thy ===== *)
theory Synchronizer
  imports Bridge_Ctrl Pg_Queries Etherman
begin

text \<open>
  \<^verbatim>\<open>synchronizer/synchronizer.go\<close>: one synchronizer per network reads the blocks of its network and
  stores their events, each block in one transaction, with the exit tree of the network kept in step.

  \<^item> \<open>ClientSynchronizer\<close> is the struct.  The controller and the storage it works on are fields; the
    channels are the lists of what was sent, the channel that a synchronizer of L1 does not have is
    \<open>None\<close> (a send on it does not return).  Metrics and logs are left out.
  \<^item> The node and the sequencer's client are code outside of the repository: the record \<open>Node\<close> of
    functions over a state of type \<open>'n\<close>, so that answers may change from call to call.  A block
    header is its number and its hash.
  \<^item> \<open>guard\<close> is the test that follows a call: an error rolls the trees and the transaction back and is
    returned.  A panic is not an error value and passes.
  \<^item> A call that does not return has the result \<open>ErrNoReturn\<close>: the retry loop of \<open>rollback\<close> when an
    attempt failed without any call to the server having failed, so that the next attempt is the
    same; the loops of \<open>checkReorg\<close> and \<open>syncBlocks\<close> when their fuel is used up.
\<close>

section \<open>State\<close>

record ClientSynchronizer =
  cs_bridgeCtrl :: BridgeController
  cs_storage :: pg
  cs_genBlockNumber :: u64
  cs_SyncInterval :: int
  cs_SyncChunkSize :: u64
  cs_networkID :: u32
  cs_chExitRootEventL2 :: "(GlobalExitRoot list) option"
  cs_chsExitRootEvent :: "GlobalExitRoot list list"
  cs_chSynced :: "u32 list"
  cs_synced :: bool
  cs_l1RollupExitRoot :: h256
  cs_allNetworkIDs :: "u32 list"
  cs_sovereignChain :: bool
  cs_forceSyncChunk :: bool
  cs_waitDuration :: int
  cs_initialRemainingBlocks :: int

record 'n Node =
  HeaderByNumber :: "u64 option \<Rightarrow> 'n \<Rightarrow> (u64 \<times> h256) result \<times> 'n"
  RollupInfo :: "u64 \<Rightarrow> u64 \<Rightarrow> 'n \<Rightarrow> (Block list \<times> blocksOrder) result \<times> 'n"
  GetLatestGlobalExitRoot :: "'n \<Rightarrow> h256 result \<times> 'n"
  ExitRootsByGER :: "h256 \<Rightarrow> 'n \<Rightarrow> ((h256 \<times> h256) option) result \<times> 'n"

definition zero_block :: Block where
  "zero_block = mk_block 0 0 0 0"

text \<open>A call of the storage, and a call of the controller.\<close>

definition store :: "(pg \<Rightarrow> 'a \<times> pg) \<Rightarrow> ClientSynchronizer \<Rightarrow> 'a \<times> ClientSynchronizer" where
  "store f s = (case f (cs_storage s) of (x, st) \<Rightarrow> (x, s\<lparr>cs_storage := st\<rparr>))"

definition ctrl :: "(BridgeController \<Rightarrow> pg \<Rightarrow> 'a \<times> BridgeController \<times> pg) \<Rightarrow> ClientSynchronizer
    \<Rightarrow> 'a \<times> ClientSynchronizer" where
  "ctrl f s = (case f (cs_bridgeCtrl s) (cs_storage s) of
     (x, bt, st) \<Rightarrow> (x, s\<lparr>cs_bridgeCtrl := bt, cs_storage := st\<rparr>))"

definition exit_root :: "keccak \<Rightarrow> dbTx \<Rightarrow> ClientSynchronizer \<Rightarrow> h256 result \<times> ClientSynchronizer" where
  "exit_root K tx s = store (GetExitRoot pg_merkleTreeStore K (cs_bridgeCtrl s) (cs_networkID s) tx) s"

definition NewSynchronizer :: "pg \<Rightarrow> BridgeController \<Rightarrow> u32 \<Rightarrow> u64 \<Rightarrow> nat \<Rightarrow> int \<Rightarrow> u64 \<Rightarrow> bool \<Rightarrow> bool \<Rightarrow> u32 list \<Rightarrow> bool
    \<Rightarrow> ClientSynchronizer result" where
  "NewSynchronizer st bridge networkID genBlockNumber channels interval chunk forceL1 forceL2 allNetworkIDs sovereignChain =
     (case (case GetLatestL1SyncedExitRoot NoTx st of
              (Inr ger, st1) \<Rightarrow> (Inr (ger_ExitRoots ger), st1)
            | (Inl e, st1) \<Rightarrow> (if e = ErrStorageNotFound then Inr [0, 0] else Inl e, st1)) of
        (Inl e, st1) \<Rightarrow> Inl e
      | (Inr roots, st1) \<Rightarrow>
          let s = \<lparr>cs_bridgeCtrl = bridge, cs_storage = st1, cs_genBlockNumber = genBlockNumber,
                   cs_SyncInterval = interval, cs_SyncChunkSize = chunk, cs_networkID = networkID,
                   cs_chExitRootEventL2 = None, cs_chsExitRootEvent = [], cs_chSynced = [], cs_synced = False,
                   cs_l1RollupExitRoot = 0, cs_allNetworkIDs = [], cs_sovereignChain = False,
                   cs_forceSyncChunk = False, cs_waitDuration = 0, cs_initialRemainingBlocks = 0\<rparr> in
          if networkID = 0 then
            (case idx roots 1 of
               Inl e \<Rightarrow> Inl e
             | Inr r \<Rightarrow> Inr (s\<lparr>cs_chsExitRootEvent := replicate channels [], cs_l1RollupExitRoot := r,
                             cs_allNetworkIDs := allNetworkIDs, cs_forceSyncChunk := forceL1\<rparr>))
          else Inr (s\<lparr>cs_chExitRootEventL2 := Some [], cs_sovereignChain := sovereignChain,
                      cs_forceSyncChunk := forceL2\<rparr>))"

section \<open>Rolling back\<close>

function rollback_trees :: "keccak \<Rightarrow> u32 \<Rightarrow> BridgeController \<Rightarrow> pg \<Rightarrow> unit result \<times> BridgeController \<times> pg" where
  "rollback_trees K networkID bt st =
     (case RollbackMT pg_merkleTreeStore K bt networkID NoTx st of
        (Inr _, bt', st') \<Rightarrow> (Inr (), bt', st')
      | (Inl e, bt', st') \<Rightarrow>
          (if e = GoPanic then (Inl e, bt', st')
           else if length (pg_faults st') < length (pg_faults st) then rollback_trees K networkID bt' st'
           else (Inl ErrNoReturn, bt', st')))"
  by pat_completeness auto
termination
  by (relation "measure (\<lambda>(K, net, bt, st). length (pg_faults st))") auto

definition rollback :: "keccak \<Rightarrow> error \<Rightarrow> dbTx \<Rightarrow> ClientSynchronizer \<Rightarrow> 'a result \<times> ClientSynchronizer" where
  "rollback K err tx s =
     (case ctrl (rollback_trees K (cs_networkID s)) s of
        (Inl e, s1) \<Rightarrow> (Inl e, s1)
      | (Inr _, s1) \<Rightarrow>
          (case store (Rollback tx) s1 of
             (Inl rollbackErr, s2) \<Rightarrow> (Inl rollbackErr, s2)
           | (Inr _, s2) \<Rightarrow> (Inl err, s2)))"

definition guard :: "keccak \<Rightarrow> dbTx \<Rightarrow> 'a result \<times> ClientSynchronizer \<Rightarrow> ('a \<Rightarrow> ClientSynchronizer \<Rightarrow> 'b result \<times> ClientSynchronizer)
    \<Rightarrow> 'b result \<times> ClientSynchronizer" where
  "guard K tx m f =
     (case m of
        (Inr x, s) \<Rightarrow> f x s
      | (Inl e, s) \<Rightarrow> (if e = GoPanic then (Inl e, s) else rollback K e tx s))"

section \<open>Events\<close>

definition processDeposit :: "keccak \<Rightarrow> Deposit \<Rightarrow> u64 \<Rightarrow> dbTx \<Rightarrow> ClientSynchronizer \<Rightarrow> unit result \<times> ClientSynchronizer" where
  "processDeposit K deposit blockID tx s =
     (let deposit' = deposit\<lparr>dep_BlockID := blockID, dep_NetworkID := cs_networkID s\<rparr> in
      guard K tx (store (AddDeposit deposit' tx) s) (\<lambda>depositID s1.
      guard K tx (ctrl (\<lambda>bt. bc_AddDeposit pg_merkleTreeStore K bt (deposit'\<lparr>dep_Id := depositID\<rparr>) tx) s1) (\<lambda>_ s2.
      (Inr (), s2))))"

definition processClaim :: "keccak \<Rightarrow> Claim \<Rightarrow> u64 \<Rightarrow> dbTx \<Rightarrow> ClientSynchronizer \<Rightarrow> unit result \<times> ClientSynchronizer" where
  "processClaim K claim blockID tx s =
     guard K tx (store (AddClaim (claim\<lparr>clm_BlockID := blockID, clm_NetworkID := cs_networkID s\<rparr>) tx) s)
       (\<lambda>_ s1. (Inr (), s1))"

definition processTokenWrapped :: "keccak \<Rightarrow> (bytes \<Rightarrow> TokenMetadata result) \<Rightarrow> TokenWrapped \<Rightarrow> u64 \<Rightarrow> dbTx \<Rightarrow> ClientSynchronizer
    \<Rightarrow> unit result \<times> ClientSynchronizer" where
  "processTokenWrapped K decode tokenWrapped blockID tx s =
     guard K tx (store (AddTokenWrapped decode
         (tokenWrapped\<lparr>tok_BlockID := blockID, tok_NetworkID := cs_networkID s\<rparr>) tx) s) (\<lambda>_ s1. (Inr (), s1))"

definition processRemoveL2GlobalExitRoot :: "keccak \<Rightarrow> GlobalExitRoot \<Rightarrow> u64 \<Rightarrow> dbTx \<Rightarrow> ClientSynchronizer
    \<Rightarrow> unit result \<times> ClientSynchronizer" where
  "processRemoveL2GlobalExitRoot K ger blockID tx s =
     guard K tx (store (AddRemoveL2GER (ger\<lparr>ger_BlockID := blockID, ger_NetworkID := cs_networkID s\<rparr>) tx) s)
       (\<lambda>_ s1. (Inr (), s1))"

definition processVerifyBatch :: "keccak \<Rightarrow> VerifiedBatch \<Rightarrow> u64 \<Rightarrow> dbTx \<Rightarrow> ClientSynchronizer
    \<Rightarrow> unit result \<times> ClientSynchronizer" where
  "processVerifyBatch K verifyBatch blockID tx s =
     (if vb_LocalExitRoot verifyBatch = 0 then (Inr (), s)
      else
        let add = (\<lambda>s1. guard K tx (store (AddRollupExitLeaf pg_merkleTreeStore K (cs_bridgeCtrl s1)
                      \<lparr>rel_ID = 0, rel_BlockID = blockID, rel_Leaf = vb_LocalExitRoot verifyBatch,
                       rel_RollupId = vb_RollupID verifyBatch, rel_Root = 0\<rparr> tx) s1) (\<lambda>_ s2. (Inr (), s2))) in
        if vb_RollupID verifyBatch \<in> set (cs_allNetworkIDs s) then
          guard K tx (store (CheckIfRootExists (vb_LocalExitRoot verifyBatch) (vb_RollupID verifyBatch) tx) s) (\<lambda>ok s1.
          if \<not> ok then rollback K (ErrMsg ''root does not exist'') tx s1 else add s1)
        else add s)"

fun update_gers :: "keccak \<Rightarrow> GlobalExitRoot list \<Rightarrow> h256 list \<Rightarrow> dbTx \<Rightarrow> ClientSynchronizer \<Rightarrow> unit result \<times> ClientSynchronizer" where
  "update_gers K [] roots tx s = (Inr (), s)"
| "update_gers K (ger # gers) roots tx s =
     guard K tx (store (UpdateL2GER (ger\<lparr>ger_ExitRoots := roots\<rparr>) tx) s) (\<lambda>_ s1. update_gers K gers roots tx s1)"

text \<open>The roots known of the other side are read outside of the transaction.  After an error in the loop
  the rollback has been done in \<open>update_gers\<close>; a wrong number of roots is returned without rollback.\<close>

definition processGlobalExitRoot :: "keccak \<Rightarrow> GlobalExitRoot \<Rightarrow> u64 \<Rightarrow> dbTx \<Rightarrow> ClientSynchronizer
    \<Rightarrow> unit result \<times> ClientSynchronizer" where
  "processGlobalExitRoot K globalExitRoot blockID tx s =
     (let g = globalExitRoot\<lparr>ger_BlockID := blockID, ger_NetworkID := cs_networkID s\<rparr> in
      if length (ger_ExitRoots g) = 2 then
        guard K tx (case store (GetL2ExitRootsByGER (ger_GlobalExitRoot g) NoTx) s of
                      (Inl e, s1) \<Rightarrow> (if e = ErrStorageNotFound then Inr [] else Inl e, s1)
                    | (Inr gers, s1) \<Rightarrow> (Inr gers, s1)) (\<lambda>gers s1.
        (case update_gers K gers (ger_ExitRoots g) tx s1 of
           (Inl e, s2) \<Rightarrow> (Inl e, s2)
         | (Inr _, s2) \<Rightarrow> guard K tx (store (AddGlobalExitRoot g tx) s2) (\<lambda>_ s3. (Inr (), s3))))
      else if length (ger_ExitRoots g) = 0 then
        guard K tx (case store (GetL1ExitRootByGER (ger_GlobalExitRoot g) NoTx) s of
                      (Inl e, s1) \<Rightarrow> (if e = ErrStorageNotFound then Inr [] else Inl e, s1)
                    | (Inr ger, s1) \<Rightarrow> (Inr (ger_ExitRoots ger), s1)) (\<lambda>roots s1.
        guard K tx (store (AddGlobalExitRoot (g\<lparr>ger_ExitRoots := roots\<rparr>) tx) s1) (\<lambda>_ s2. (Inr (), s2)))
      else (Inl (ErrMsg ''exitRoots have a wrong length''), s))"

text \<open>The state of the tree: the number of deposits up to the block, and the root.\<close>

definition check_state :: "keccak \<Rightarrow> h256 \<Rightarrow> u32 \<Rightarrow> u64 \<Rightarrow> dbTx \<Rightarrow> ClientSynchronizer
    \<Rightarrow> (ClientSynchronizer \<Rightarrow> unit result \<times> ClientSynchronizer) \<Rightarrow> unit result \<times> ClientSynchronizer" where
  "check_state K root cnt blockNumber tx s f =
     guard K tx (store (GetNumberDeposits (cs_networkID s) blockNumber tx) s) (\<lambda>depositCnt s1.
     guard K tx (exit_root K tx s1) (\<lambda>localExitTreeRoot s2.
     if localExitTreeRoot \<noteq> root \<or> depositCnt \<noteq> cnt
     then rollback K (ErrMsg ''root or deposit count do not match with the current state'') tx s2
     else f s2))"

definition processBackwardLETSovereign :: "keccak \<Rightarrow> BackwardLET \<Rightarrow> u64 \<Rightarrow> u64 \<Rightarrow> dbTx \<Rightarrow> ClientSynchronizer
    \<Rightarrow> unit result \<times> ClientSynchronizer" where
  "processBackwardLETSovereign K backwardLET blockID blockNumber tx s =
     check_state K (bl_PreviousRoot backwardLET) (bl_PreviousDepositCount backwardLET) blockNumber tx s (\<lambda>s1.
     guard K tx (store (ResetDeposits (bl_NewDepositCount backwardLET) (cs_networkID s1) tx) s1) (\<lambda>_ s2.
     guard K tx (ctrl (\<lambda>bt. ReorgMT pg_merkleTreeStore K bt (bl_NewDepositCount backwardLET) (cs_networkID s2) tx) s2) (\<lambda>_ s3.
     check_state K (bl_NewRoot backwardLET) (bl_NewDepositCount backwardLET) blockNumber tx s3 (\<lambda>s4.
     guard K tx (store (AddBackwardLET (backwardLET\<lparr>bl_BlockID := blockID\<rparr>) tx) s4) (\<lambda>_ s5. (Inr (), s5))))))"

definition leaf_deposit :: "LeafData \<Rightarrow> u32 \<Rightarrow> u64 \<Rightarrow> u64 \<Rightarrow> u32 \<Rightarrow> h256 \<Rightarrow> Deposit" where
  "leaf_deposit l cnt blockID blockNumber net txHash =
     \<lparr>dep_Id = 0, dep_LeafType = ld_LeafType l, dep_OriginalNetwork = ld_OriginNetwork l,
      dep_OriginalAddress = ld_OriginAddress l, dep_Amount = ld_Amount l,
      dep_DestinationNetwork = ld_DestinationNetwork l, dep_DestinationAddress = ld_DestinationAddress l,
      dep_DepositCount = cnt, dep_BlockID = blockID, dep_BlockNumber = blockNumber, dep_NetworkID = net,
      dep_TxHash = txHash, dep_Metadata = ld_Metadata l, dep_ReadyForClaim = False\<rparr>"

fun add_leaves :: "keccak \<Rightarrow> LeafData list \<Rightarrow> u32 \<Rightarrow> u64 \<Rightarrow> u64 \<Rightarrow> h256 \<Rightarrow> dbTx \<Rightarrow> ClientSynchronizer
    \<Rightarrow> unit result \<times> ClientSynchronizer" where
  "add_leaves K [] cnt blockID blockNumber txHash tx s = (Inr (), s)"
| "add_leaves K (l # ls) cnt blockID blockNumber txHash tx s =
     (let deposit = leaf_deposit l cnt blockID blockNumber (cs_networkID s) txHash in
      guard K tx (store (AddDeposit deposit tx) s) (\<lambda>depositID s1.
      guard K tx (ctrl (\<lambda>bt. bc_AddDeposit pg_merkleTreeStore K bt (deposit\<lparr>dep_Id := depositID\<rparr>) tx) s1) (\<lambda>_ s2.
      add_leaves K ls (cnt + 1) blockID blockNumber txHash tx s2)))"

definition processForwardLETSovereign :: "keccak \<Rightarrow> ForwardLET \<Rightarrow> u64 \<Rightarrow> u64 \<Rightarrow> dbTx \<Rightarrow> ClientSynchronizer
    \<Rightarrow> unit result \<times> ClientSynchronizer" where
  "processForwardLETSovereign K forwardLET blockID blockNumber tx s =
     check_state K (fl_PreviousRoot forwardLET) (fl_PreviousDepositCount forwardLET) blockNumber tx s (\<lambda>s1.
     guard K tx (store (GetNumberDeposits (cs_networkID s1) blockNumber tx) s1) (\<lambda>initialDepositCount s2.
     (case add_leaves K (fl_NewLeaves forwardLET) initialDepositCount blockID blockNumber (fl_TxHash forwardLET) tx s2 of
        (Inl e, s3) \<Rightarrow> (Inl e, s3)
      | (Inr _, s3) \<Rightarrow>
          check_state K (fl_NewRoot forwardLET) (fl_NewDepositCount forwardLET) blockNumber tx s3 (\<lambda>s4.
          guard K tx (store (AddForwardLET (forwardLET\<lparr>fl_BlockID := blockID\<rparr>) tx) s4) (\<lambda>_ s5. (Inr (), s5))))))"

definition processUnsetClaimSovereign :: "keccak \<Rightarrow> UnsetClaim \<Rightarrow> u64 \<Rightarrow> dbTx \<Rightarrow> ClientSynchronizer
    \<Rightarrow> unit result \<times> ClientSynchronizer" where
  "processUnsetClaimSovereign K unsetClaim blockID tx s =
     guard K tx (store (AddUnsetClaim (unsetClaim\<lparr>uc_BlockID := blockID\<rparr>) tx) s) (\<lambda>_ s1.
     guard K tx (store (DeleteClaimByGlobalIndex (uc_GlobalIndex unsetClaim) (cs_networkID s1) tx) s1) (\<lambda>_ s2.
     (Inr (), s2)))"

definition processSetClaimSovereign :: "keccak \<Rightarrow> SetClaim \<Rightarrow> u64 \<Rightarrow> u64 \<Rightarrow> dbTx \<Rightarrow> ClientSynchronizer
    \<Rightarrow> unit result \<times> ClientSynchronizer" where
  "processSetClaimSovereign K setClaim blockID blockNumber tx s =
     guard K tx (store (AddSetClaim (setClaim\<lparr>sc_BlockID := blockID\<rparr>) tx) s) (\<lambda>_ s1.
     guard K tx (store (GetDeposit (sc_Index setClaim)
                   (if sc_MainnetFlag setClaim then 0 else sc_RollupIndex setClaim + 1) tx) s1) (\<lambda>deposit s2.
     if cs_networkID s2 \<noteq> dep_DestinationNetwork deposit
     then rollback K (ErrMsg ''deposit destination network does not match'') tx s2
     else
       guard K tx (store (AddClaim
         \<lparr>clm_MainnetFlag = sc_MainnetFlag setClaim, clm_RollupIndex = sc_RollupIndex setClaim,
          clm_Index = sc_Index setClaim, clm_OriginalNetwork = dep_OriginalNetwork deposit,
          clm_OriginalAddress = dep_OriginalAddress deposit, clm_Amount = dep_Amount deposit,
          clm_DestinationAddress = dep_DestinationAddress deposit, clm_BlockID = blockID,
          clm_BlockNumber = blockNumber, clm_NetworkID = cs_networkID s2, clm_TxHash = sc_TxHash setClaim,
          clm_GlobalIndex = Some (sc_GlobalIndex setClaim)\<rparr> tx) s2) (\<lambda>_ s3. (Inr (), s3))))"

section \<open>Blocks\<close>

definition process_event :: "keccak \<Rightarrow> (bytes \<Rightarrow> TokenMetadata result) \<Rightarrow> u64 \<Rightarrow> u64 \<Rightarrow> dbTx \<Rightarrow> event \<Rightarrow> ClientSynchronizer
    \<Rightarrow> unit result \<times> ClientSynchronizer" where
  "process_event K decode blockID blockNumber tx ev s =
     (case ev of
        EvGER g \<Rightarrow> processGlobalExitRoot K g blockID tx s
      | EvRemove g \<Rightarrow> processRemoveL2GlobalExitRoot K g blockID tx s
      | EvDeposit p \<Rightarrow> processDeposit K p blockID tx s
      | EvClaim c \<Rightarrow> processClaim K c blockID tx s
      | EvToken t \<Rightarrow> processTokenWrapped K decode t blockID tx s
      | EvBatch v \<Rightarrow> processVerifyBatch K v blockID tx s
      | EvUnset u \<Rightarrow> processUnsetClaimSovereign K u blockID tx s
      | EvBackward b \<Rightarrow> processBackwardLETSovereign K b blockID blockNumber tx s
      | EvForward f \<Rightarrow> processForwardLETSovereign K f blockID blockNumber tx s
      | EvSet c \<Rightarrow> processSetClaimSovereign K c blockID blockNumber tx s)"

text \<open>The flags \<^verbatim>\<open>isNewL1Ger\<close> and \<^verbatim>\<open>isNewL2Ger\<close>.\<close>

definition ger_flags :: "event \<Rightarrow> bool \<times> bool \<Rightarrow> bool \<times> bool" where
  "ger_flags ev flags =
     (case ev of
        EvGER g \<Rightarrow> (if length (ger_ExitRoots g) = 2 then (True, snd flags)
                    else if length (ger_ExitRoots g) = 0 then (fst flags, True) else flags)
      | _ \<Rightarrow> flags)"

fun process_elements :: "keccak \<Rightarrow> (bytes \<Rightarrow> TokenMetadata result) \<Rightarrow> Block \<Rightarrow> u64 \<Rightarrow> dbTx \<Rightarrow> Order list \<Rightarrow> bool \<times> bool
    \<Rightarrow> ClientSynchronizer \<Rightarrow> (bool \<times> bool) result \<times> ClientSynchronizer" where
  "process_elements K decode b blockID tx [] flags s = (Inr flags, s)"
| "process_elements K decode b blockID tx (element # els) flags s =
     (case event_at b element of
        Inl e \<Rightarrow> (Inl (ErrMsg ''messy events were received from the RPC''), s)
      | Inr ev \<Rightarrow>
          (case process_event K decode blockID (blk_BlockNumber b) tx ev s of
             (Inl e, s1) \<Rightarrow> (Inl e, s1)
           | (Inr _, s1) \<Rightarrow> process_elements K decode b blockID tx els (ger_flags ev flags) s1))"

definition process_block :: "keccak \<Rightarrow> (bytes \<Rightarrow> TokenMetadata result) \<Rightarrow> blocksOrder \<Rightarrow> Block \<Rightarrow> bool \<times> bool \<Rightarrow> ClientSynchronizer
    \<Rightarrow> (bool \<times> bool) result \<times> ClientSynchronizer" where
  "process_block K decode order block flags s =
     (case store BeginDBTransaction s of
        (Inl e, s1) \<Rightarrow> (Inl e, s1)
      | (Inr tx, s1) \<Rightarrow>
          guard K tx (store (AddBlock (block\<lparr>blk_NetworkID := cs_networkID s1\<rparr>) tx) s1) (\<lambda>blockID s2.
          (case process_elements K decode block blockID tx (order (blk_BlockHash block)) flags s2 of
             (Inl e, s3) \<Rightarrow> (Inl e, s3)
           | (Inr flags', s3) \<Rightarrow> guard K tx (store (Commit tx) s3) (\<lambda>_ s4. (Inr flags', s4)))))"

fun process_blocks :: "keccak \<Rightarrow> (bytes \<Rightarrow> TokenMetadata result) \<Rightarrow> blocksOrder \<Rightarrow> Block list \<Rightarrow> bool \<times> bool \<Rightarrow> ClientSynchronizer
    \<Rightarrow> (bool \<times> bool) result \<times> ClientSynchronizer" where
  "process_blocks K decode order [] flags s = (Inr flags, s)"
| "process_blocks K decode order (b # bs) flags s =
     (case process_block K decode order b flags s of
        (Inl e, s1) \<Rightarrow> (Inl e, s1)
      | (Inr flags', s1) \<Rightarrow> process_blocks K decode order bs flags' s1)"

text \<open>What is sent to the claim managers when a global exit root came with the blocks.\<close>

definition send_l1_ger :: "ClientSynchronizer \<Rightarrow> unit result \<times> ClientSynchronizer" where
  "send_l1_ger s =
     (case store (GetLatestL1SyncedExitRoot NoTx) s of
        (Inl e, s1) \<Rightarrow> (Inl e, s1)
      | (Inr ger, s1) \<Rightarrow>
          (case idx (ger_ExitRoots ger) 1 of
             Inl e \<Rightarrow> (Inl e, s1)
           | Inr r \<Rightarrow>
               if cs_l1RollupExitRoot s1 \<noteq> r
               then (Inr (), s1\<lparr>cs_l1RollupExitRoot := r, cs_chsExitRootEvent := map (\<lambda>ch. ch @ [ger]) (cs_chsExitRootEvent s1)\<rparr>)
               else (Inr (), s1)))"

definition send_l2 :: "GlobalExitRoot \<Rightarrow> ClientSynchronizer \<Rightarrow> unit result \<times> ClientSynchronizer" where
  "send_l2 ger s =
     (case cs_chExitRootEventL2 s of
        None \<Rightarrow> (Inl ErrNoReturn, s)
      | Some sent \<Rightarrow> (Inr (), s\<lparr>cs_chExitRootEventL2 := Some (sent @ [ger])\<rparr>))"

definition send_l2_ger :: "ClientSynchronizer \<Rightarrow> unit result \<times> ClientSynchronizer" where
  "send_l2_ger s =
     (case store (GetLatestTrustedExitRoot (cs_networkID s) NoTx) s of
        (Inl e, s1) \<Rightarrow> (if e = ErrL1GERNotFound then (Inr (), s1) else (Inl e, s1))
      | (Inr ger, s1) \<Rightarrow> send_l2 ger s1)"

definition processBlockRange :: "keccak \<Rightarrow> (bytes \<Rightarrow> TokenMetadata result) \<Rightarrow> Block list \<Rightarrow> blocksOrder \<Rightarrow> ClientSynchronizer
    \<Rightarrow> unit result \<times> ClientSynchronizer" where
  "processBlockRange K decode blocks order s =
     (case process_blocks K decode order blocks (False, False) s of
        (Inl e, s1) \<Rightarrow> (Inl e, s1)
      | (Inr (isNewL1Ger, isNewL2Ger), s1) \<Rightarrow>
          (case (if isNewL1Ger then send_l1_ger s1 else (Inr (), s1)) of
             (Inl e, s2) \<Rightarrow> (Inl e, s2)
           | (Inr _, s2) \<Rightarrow> if isNewL2Ger then send_l2_ger s2 else (Inr (), s2)))"

section \<open>Reorganisations\<close>

definition resetState :: "keccak \<Rightarrow> u64 \<Rightarrow> ClientSynchronizer \<Rightarrow> unit result \<times> ClientSynchronizer" where
  "resetState K blockNumber s =
     (case store BeginDBTransaction s of
        (Inl e, s1) \<Rightarrow> (Inl e, s1)
      | (Inr tx, s1) \<Rightarrow>
          guard K tx (store (Reset blockNumber (cs_networkID s1) tx) s1) (\<lambda>_ s2.
          guard K tx (store (GetNumberDeposits (cs_networkID s2) blockNumber tx) s2) (\<lambda>depositCnt s3.
          guard K tx (ctrl (\<lambda>bt. ReorgMT pg_merkleTreeStore K bt depositCnt (cs_networkID s3) tx) s3) (\<lambda>_ s4.
          guard K tx (store (Commit tx) s4) (\<lambda>_ s5. (Inr (), s5))))))"

text \<open>The block the node has at the number of \<open>b\<close>.\<close>

definition node_block :: "'n Node \<Rightarrow> Block \<Rightarrow> 'n \<Rightarrow> Block result \<times> 'n" where
  "node_block N b n =
     (case HeaderByNumber N (Some (blk_BlockNumber b)) n of
        (Inl e, n1) \<Rightarrow> (Inl e, n1)
      | (Inr (num, hash), n1) \<Rightarrow>
          if num \<noteq> blk_BlockNumber b then (Inl (ErrMsg ''wrong ethereum block retrieved from blockchain''), n1)
          else (Inr (zero_block\<lparr>blk_BlockNumber := num, blk_BlockHash := hash\<rparr>), n1))"

text \<open>The loop walks down the stored blocks until one is on the chain of the node or at the genesis
  block; \<open>block\<close> is the block to compare with, asked from the node when it is \<open>None\<close>.  The result
  is the block it stopped at, and whether it was the first of the stored ones.\<close>

fun checkReorg_loop :: "nat \<Rightarrow> 'n Node \<Rightarrow> Block \<Rightarrow> Block option \<Rightarrow> u64 \<Rightarrow> ClientSynchronizer \<Rightarrow> 'n
    \<Rightarrow> (Block + Block) result \<times> ClientSynchronizer \<times> 'n" where
  "checkReorg_loop 0 N reorgedBlock block depth s n = (Inl ErrNoReturn, s, n)"
| "checkReorg_loop (Suc fuel) N reorgedBlock block depth s n =
     (case (case block of Some b \<Rightarrow> (Inr b, n) | None \<Rightarrow> node_block N reorgedBlock n) of
        (Inl e, n1) \<Rightarrow> (Inl e, s, n1)
      | (Inr b, n1) \<Rightarrow>
          if blk_BlockHash b \<noteq> blk_BlockHash reorgedBlock \<and> cs_genBlockNumber s < blk_BlockNumber reorgedBlock then
            (case store (GetPreviousBlock (cs_networkID s) (depth + 1) NoTx) s of
               (Inl e, s1) \<Rightarrow>
                 if e = ErrStorageNotFound
                 then (Inr (Inl (zero_block\<lparr>blk_BlockNumber := cs_genBlockNumber s1\<rparr>)), s1, n1)
                 else (Inl e, s1, n1)
             | (Inr lb, s1) \<Rightarrow> checkReorg_loop fuel N lb None (depth + 1) s1 n1)
          else (Inr (Inr reorgedBlock), s, n1))"

definition checkReorg :: "'n Node \<Rightarrow> Block \<Rightarrow> Block option \<Rightarrow> ClientSynchronizer \<Rightarrow> 'n
    \<Rightarrow> (Block option) result \<times> ClientSynchronizer \<times> 'n" where
  "checkReorg N latestStoredBlock syncedBlock s n =
     (case checkReorg_loop (Suc (length (t_block (pg_committed (cs_storage s))))) N latestStoredBlock syncedBlock 0 s n of
        (Inl e, s1, n1) \<Rightarrow> (Inl e, s1, n1)
      | (Inr (Inl genesis), s1, n1) \<Rightarrow> (Inr (Some genesis), s1, n1)
      | (Inr (Inr reorgedBlock), s1, n1) \<Rightarrow>
          (Inr (if blk_BlockHash latestStoredBlock \<noteq> blk_BlockHash reorgedBlock then Some reorgedBlock else None), s1, n1))"

section \<open>Synchronising\<close>

definition removeBlockElement :: "Block list \<Rightarrow> nat \<Rightarrow> Block list" where
  "removeBlockElement bs i = take i bs @ drop (i + 1) bs"

text \<open>A failure to store the status is only logged.\<close>

definition put_status :: "SyncStatus \<Rightarrow> ClientSynchronizer \<Rightarrow> ClientSynchronizer" where
  "put_status status s = snd (store (AddSyncStatus status NoTx) s)"

definition set_synced :: "ClientSynchronizer \<Rightarrow> ClientSynchronizer" where
  "set_synced s = s\<lparr>cs_waitDuration := cs_SyncInterval s, cs_synced := True,
                    cs_chSynced := cs_chSynced s @ [cs_networkID s]\<rparr>"

definition announce_synced :: "ClientSynchronizer \<Rightarrow> ClientSynchronizer" where
  "announce_synced s =
     put_status \<lparr>sst_NetworkID = cs_networkID s, sst_Percentage = 100, sst_RemainingBlocks = 0, sst_Synced = True\<rparr>
       (set_synced s)"

text \<open>The head of the loop of \<^verbatim>\<open>syncBlocks\<close>: the range and the last known block.\<close>

definition refresh_head :: "'n Node \<Rightarrow> Block \<Rightarrow> u64 \<Rightarrow> u64 \<Rightarrow> u64 \<Rightarrow> ClientSynchronizer \<Rightarrow> 'n
    \<Rightarrow> (u64 \<times> u64 \<times> u64) result \<times> ClientSynchronizer \<times> 'n" where
  "refresh_head N lastBlockSynced lastKnownBlock fromBlock toBlock s n =
     (if lastKnownBlock < toBlock then
        (case HeaderByNumber N None n of
           (Inl e, n1) \<Rightarrow> (Inl e, s, n1)
         | (Inr (known, _), n1) \<Rightarrow>
             if known < toBlock then
               if \<not> cs_synced s then
                 (Inr (known, if \<not> cs_forceSyncChunk s then blk_BlockNumber lastBlockSynced else fromBlock, known),
                  announce_synced s, n1)
               else (Inr (known, fromBlock, known), s, n1)
             else (Inr (known, fromBlock, toBlock), s, n1))
      else (Inr (lastKnownBlock, fromBlock, toBlock), s, n))"

text \<open>A reorganisation was found: the state goes back to \<open>block\<close>, which is returned.\<close>

definition reset_to :: "keccak \<Rightarrow> Block \<Rightarrow> ClientSynchronizer \<Rightarrow> 'n \<Rightarrow> (Block + 'a) result \<times> ClientSynchronizer \<times> 'n" where
  "reset_to K block s n =
     (case resetState K (blk_BlockNumber block) s of
        (Inl e, s1) \<Rightarrow> (Inl (if e = GoPanic \<or> e = ErrNoReturn then e else ErrMsg ''error resetting the state to a previous block''), s1, n)
      | (Inr _, s1) \<Rightarrow> (Inr (Inl block), s1, n))"

text \<open>The part of the loop that is done only when the network is synced: the first block of the range was
  stored before; it has to be there and unchanged.  \<open>Inl\<close> is the early return with a block, \<open>Inr\<close> the
  blocks that remain.\<close>

definition synced_checks :: "keccak \<Rightarrow> 'n Node \<Rightarrow> Block \<Rightarrow> Block list \<Rightarrow> ClientSynchronizer \<Rightarrow> 'n
    \<Rightarrow> (Block + Block list) result \<times> ClientSynchronizer \<times> 'n" where
  "synced_checks K N lastBlockSynced blocks s n =
     (if blocks = [] \<and> \<not> cs_forceSyncChunk s then
        (case store (GetPreviousBlock (cs_networkID s) 1 NoTx) s of
           (res, s1) \<Rightarrow>
             (case (case res of Inl e \<Rightarrow> if e = ErrStorageNotFound then Inr zero_block else Inl e | Inr b \<Rightarrow> Inr b) of
                Inl e \<Rightarrow> (Inl e, s1, n)
              | Inr prevBlock \<Rightarrow>
                  (case checkReorg N prevBlock None s1 n of
                     (Inl e, s2, n2) \<Rightarrow> (Inl e, s2, n2)
                   | (Inr None, s2, n2) \<Rightarrow> reset_to K prevBlock s2 n2
                   | (Inr (Some b), s2, n2) \<Rightarrow> reset_to K b s2 n2)))
      else
        let (initBlockReceived, rest) =
          (if cs_forceSyncChunk s then (None, blocks) else (Some (hd blocks), removeBlockElement blocks 0)) in
        (case checkReorg N lastBlockSynced initBlockReceived s n of
           (Inl e, s1, n1) \<Rightarrow> (Inl (if e = ErrNoReturn then e else ErrMsg ''error checking reorgs''), s1, n1)
         | (Inr (Some b), s1, n1) \<Rightarrow> reset_to K b s1 n1
         | (Inr None, s1, n1) \<Rightarrow> (Inr (Inr rest), s1, n1)))"

text \<open>One range: read, check and store its blocks.\<close>

definition sync_range :: "keccak \<Rightarrow> (bytes \<Rightarrow> TokenMetadata result) \<Rightarrow> 'n Node \<Rightarrow> Block \<Rightarrow> u64 \<Rightarrow> u64 \<Rightarrow> ClientSynchronizer \<Rightarrow> 'n
    \<Rightarrow> (Block + Block) result \<times> ClientSynchronizer \<times> 'n" where
  "sync_range K decode N lastBlockSynced fromBlock toBlock s n =
     (case RollupInfo N fromBlock toBlock n of
        (Inl e, n1) \<Rightarrow> (Inl e, s, n1)
      | (Inr (blocks0, order), n1) \<Rightarrow>
          if fromBlock < cs_genBlockNumber s
          then (Inl (ErrMsg ''fromBlock is lower than the genesisBlockNumber''), s, n1)
          else
            let blocks1 = (if fromBlock = cs_genBlockNumber s \<and> \<not> cs_forceSyncChunk s \<and>
                              (blocks0 = [] \<or> blk_BlockNumber (hd blocks0) \<noteq> cs_genBlockNumber s)
                           then zero_block # blocks0 else blocks0) in
            (case (if cs_synced s then synced_checks K N lastBlockSynced blocks1 s n1 else (Inr (Inr blocks1), s, n1)) of
               (Inl e, s2, n2) \<Rightarrow> (Inl e, s2, n2)
             | (Inr (Inl b), s2, n2) \<Rightarrow> (Inr (Inl b), s2, n2)
             | (Inr (Inr blocks), s2, n2) \<Rightarrow>
                 (case processBlockRange K decode blocks order s2 of
                    (Inl e, s3) \<Rightarrow> (Inl e, s3, n2)
                  | (Inr _, s3) \<Rightarrow>
                      if blocks \<noteq> [] \<and> \<not> cs_forceSyncChunk s3
                      then (Inr (Inr ((last blocks)\<lparr>blk_NetworkID := cs_networkID s3\<rparr>)), s3, n2)
                      else if cs_forceSyncChunk s3 then
                        (case HeaderByNumber N (Some toBlock) n2 of
                           (Inl e, n3) \<Rightarrow> (Inl e, s3, n3)
                         | (Inr (num, hash), n3) \<Rightarrow>
                             (Inr (Inr (zero_block\<lparr>blk_BlockNumber := num, blk_BlockHash := hash\<rparr>)), s3, n3))
                      else (Inr (Inr lastBlockSynced), s3, n2))))"

text \<open>The next range and the progress that is stored; the division panics when no block was missing at
  the start.  \<^verbatim>\<open>Uint64\<close> of a negative number reads its absolute value.\<close>

definition next_range :: "Block \<Rightarrow> u64 \<Rightarrow> ClientSynchronizer \<Rightarrow> u64 \<times> u64" where
  "next_range lastBlockSynced toBlock s =
     (if \<not> cs_synced s \<or> cs_forceSyncChunk s then (toBlock + 1, toBlock + 1 + cs_SyncChunkSize s)
      else (blk_BlockNumber lastBlockSynced, toBlock + cs_SyncChunkSize s))"

definition put_progress :: "u64 \<Rightarrow> u64 \<Rightarrow> ClientSynchronizer \<Rightarrow> unit result \<times> ClientSynchronizer" where
  "put_progress lastKnownBlock toBlock s =
     (if cs_synced s then (Inr (), s)
      else if cs_initialRemainingBlocks s = 0 then (Inl GoPanic, s)
      else
        let remainingBlocks = uint lastKnownBlock - uint toBlock;
            percentage = (cs_initialRemainingBlocks s - remainingBlocks) * 100 div cs_initialRemainingBlocks s in
        (Inr (), put_status \<lparr>sst_NetworkID = cs_networkID s, sst_Percentage = of_int \<bar>percentage\<bar>,
                   sst_RemainingBlocks = of_int remainingBlocks, sst_Synced = False\<rparr> s))"

fun sync_loop :: "nat \<Rightarrow> keccak \<Rightarrow> (bytes \<Rightarrow> TokenMetadata result) \<Rightarrow> 'n Node \<Rightarrow> Block \<Rightarrow> u64 \<Rightarrow> u64 \<Rightarrow> u64 \<Rightarrow> ClientSynchronizer \<Rightarrow> 'n
    \<Rightarrow> Block result \<times> ClientSynchronizer \<times> 'n" where
  "sync_loop 0 K decode N lastBlockSynced lastKnownBlock fromBlock toBlock s n = (Inl ErrNoReturn, s, n)"
| "sync_loop (Suc fuel) K decode N lastBlockSynced lastKnownBlock fromBlock toBlock s n =
     (case refresh_head N lastBlockSynced lastKnownBlock fromBlock toBlock s n of
        (Inl e, s1, n1) \<Rightarrow> (Inl e, s1, n1)
      | (Inr (known, from, to), s1, n1) \<Rightarrow>
          if to < from then (Inr lastBlockSynced, s1, n1)
          else
            (case sync_range K decode N lastBlockSynced from to s1 n1 of
               (Inl e, s2, n2) \<Rightarrow> (Inl e, s2, n2)
             | (Inr (Inl b), s2, n2) \<Rightarrow> (Inr b, s2, n2)
             | (Inr (Inr lastBlock), s2, n2) \<Rightarrow>
                 if known \<le> to then
                   (Inr lastBlock, if \<not> cs_synced s2 then announce_synced s2 else s2, n2)
                 else
                   (case put_progress known to s2 of
                      (Inl e, s3) \<Rightarrow> (Inl e, s3, n2)
                    | (Inr _, s3) \<Rightarrow>
                        (case next_range lastBlock to s2 of
                           (from', to') \<Rightarrow> sync_loop fuel K decode N lastBlock known from' to' s3 n2))))"

definition syncBlocks :: "nat \<Rightarrow> keccak \<Rightarrow> (bytes \<Rightarrow> TokenMetadata result) \<Rightarrow> 'n Node \<Rightarrow> Block \<Rightarrow> ClientSynchronizer \<Rightarrow> 'n
    \<Rightarrow> Block result \<times> ClientSynchronizer \<times> 'n" where
  "syncBlocks fuel K decode N lastBlockSynced s n =
     (case HeaderByNumber N None n of
        (Inl e, n1) \<Rightarrow> (Inl e, s, n1)
      | (Inr (lastKnownBlock, _), n1) \<Rightarrow>
          (case checkReorg N lastBlockSynced None s n1 of
             (Inl e, s2, n2) \<Rightarrow> (Inl (if e = ErrNoReturn then e else ErrMsg ''error checking reorgs''), s2, n2)
           | (Inr (Some block), s2, n2) \<Rightarrow>
               (case reset_to K block s2 n2 of
                  (Inl e, s3, n3) \<Rightarrow> (Inl e, s3, n3)
                | (Inr (Inl b), s3, n3) \<Rightarrow> (Inr b, s3, n3)
                | (Inr (Inr ()), s3, n3) \<Rightarrow> (Inr block, s3, n3))
           | (Inr None, s2, n2) \<Rightarrow>
               let fromBlock = (if cs_synced s2 \<and> \<not> cs_forceSyncChunk s2 then blk_BlockNumber lastBlockSynced
                                else blk_BlockNumber lastBlockSynced + 1) in
               sync_loop fuel K decode N lastBlockSynced lastKnownBlock fromBlock (fromBlock + cs_SyncChunkSize s2) s2 n2))"

definition syncTrustedState :: "'n Node \<Rightarrow> ClientSynchronizer \<Rightarrow> 'n \<Rightarrow> unit result \<times> ClientSynchronizer \<times> 'n" where
  "syncTrustedState N s n =
     (case GetLatestGlobalExitRoot N n of
        (Inl e, n1) \<Rightarrow> (Inl e, s, n1)
      | (Inr lastGER, n1) \<Rightarrow>
          if lastGER = 0 then (Inr (), s, n1)
          else
            (case ExitRootsByGER N lastGER n1 of
               (Inl e, n2) \<Rightarrow> (Inl e, s, n2)
             | (Inr None, n2) \<Rightarrow> (Inr (), s, n2)
             | (Inr (Some (mainnetExitRoot, rollupExitRoot)), n2) \<Rightarrow>
                 let ger = mk_ger 0 [mainnetExitRoot, rollupExitRoot] lastGER (cs_networkID s) 0 in
                 (case store (AddTrustedGlobalExitRoot ger NoTx) s of
                    (Inl e, s1) \<Rightarrow> (Inl e, s1, n2)
                  | (Inr isUpdated, s1) \<Rightarrow>
                      if isUpdated then (case send_l2 ger s1 of (x, s2) \<Rightarrow> (x, s2, n2)) else (Inr (), s1, n2))))"

text \<open>The latest block of the network, or the genesis block.\<close>

definition last_block :: "ClientSynchronizer \<Rightarrow> Block result \<times> ClientSynchronizer" where
  "last_block s =
     (case store (GetLastBlock (cs_networkID s) NoTx) s of
        (Inl e, s1) \<Rightarrow>
          (if e = ErrStorageNotFound
           then Inr (zero_block\<lparr>blk_BlockNumber := cs_genBlockNumber s1, blk_NetworkID := cs_networkID s1\<rparr>)
           else Inl e, s1)
      | (Inr b, s1) \<Rightarrow> (Inr b, s1))"

text \<open>\<^verbatim>\<open>Sync\<close>: what it does before its loop, and one iteration, which goes on with the block of its result
  or ends the synchroniser with an error.\<close>

definition Sync_init :: "'n Node \<Rightarrow> ClientSynchronizer \<Rightarrow> 'n \<Rightarrow> Block result \<times> ClientSynchronizer \<times> 'n" where
  "Sync_init N s n =
     (case last_block s of
        (Inl e, s1) \<Rightarrow> (Inl e, s1, n)
      | (Inr lastBlockSynced, s1) \<Rightarrow>
          (case HeaderByNumber N None n of
             (Inl e, n2) \<Rightarrow> (Inl e, s1, n2)
           | (Inr (head, _), n2) \<Rightarrow>
               let remainingBlocks = head - blk_BlockNumber lastBlockSynced in
               (case store (AddSyncStatus \<lparr>sst_NetworkID = cs_networkID s1, sst_Percentage = 0,
                       sst_RemainingBlocks = remainingBlocks, sst_Synced = False\<rparr> NoTx) s1 of
                  (Inl e, s2) \<Rightarrow> (Inl e, s2, n2)
                | (Inr _, s2) \<Rightarrow> (Inr lastBlockSynced, s2\<lparr>cs_initialRemainingBlocks := uint remainingBlocks\<rparr>, n2))))"

definition Sync_tail :: "keccak \<Rightarrow> 'n Node \<Rightarrow> Block \<Rightarrow> ClientSynchronizer \<Rightarrow> 'n \<Rightarrow> Block result \<times> ClientSynchronizer \<times> 'n" where
  "Sync_tail K N lastBlockSynced s n =
     (if \<not> cs_synced s then
        (case HeaderByNumber N None n of
           (Inl e, n1) \<Rightarrow> (Inr lastBlockSynced, s, n1)
         | (Inr (lastKnownBlock, _), n1) \<Rightarrow>
             let s1 = (if blk_BlockNumber lastBlockSynced = lastKnownBlock then set_synced s else s) in
             if lastKnownBlock < blk_BlockNumber lastBlockSynced then
               if cs_networkID s1 = 0
               then (Inl (ErrMsg ''latest Synced BlockNumber is higher than the latest Proposed block''), s1, n1)
               else (case resetState K lastKnownBlock s1 of
                       (Inl e, s2) \<Rightarrow> (if e = GoPanic \<or> e = ErrNoReturn then Inl e else Inr lastBlockSynced, s2, n1)
                     | (Inr _, s2) \<Rightarrow> (Inr lastBlockSynced, s2, n1))
             else (Inr lastBlockSynced, s1, n1))
      else if cs_networkID s = 0 \<or> cs_sovereignChain s then (Inr lastBlockSynced, s, n)
      else
        (case syncTrustedState N s n of
           (Inl e, s1, n1) \<Rightarrow> (if e = GoPanic \<or> e = ErrNoReturn then Inl e else Inr lastBlockSynced, s1, n1)
         | (Inr _, s1, n1) \<Rightarrow> (Inr lastBlockSynced, s1, n1)))"

definition Sync_iteration :: "nat \<Rightarrow> keccak \<Rightarrow> (bytes \<Rightarrow> TokenMetadata result) \<Rightarrow> 'n Node \<Rightarrow> Block \<Rightarrow> ClientSynchronizer \<Rightarrow> 'n
    \<Rightarrow> Block result \<times> ClientSynchronizer \<times> 'n" where
  "Sync_iteration fuel K decode N lastBlockSynced s n =
     (case syncBlocks fuel K decode N lastBlockSynced s n of
        (Inr b, s1, n1) \<Rightarrow> Sync_tail K N b s1 n1
      | (Inl e, s1, n1) \<Rightarrow>
          if e = GoPanic \<or> e = ErrNoReturn then (Inl e, s1, n1)
          else
            (case last_block s1 of
               (Inl e', s2) \<Rightarrow> (Inl e', s2, n1)
             | (Inr b, s2) \<Rightarrow> Sync_tail K N b s2 n1))"

section \<open>Calls inside a transaction\<close>

text \<open>What a call inside the transaction of a block leaves alone: the committed database, the open
  transaction, a server that answers, the integrity of the tables.\<close>

definition tx_step :: "pg \<Rightarrow> pg \<Rightarrow> bool" where
  "tx_step st st' \<longleftrightarrow> pg_committed st' = pg_committed st \<and> (pg_open st \<noteq> None \<longrightarrow> pg_open st' \<noteq> None) \<and>
     (True \<notin> set (pg_faults st) \<longrightarrow> True \<notin> set (pg_faults st')) \<and> (pg_ok st \<longrightarrow> pg_ok st') \<and>
     length (pg_faults st') \<le> length (pg_faults st)"

text \<open>The rows the exit trees hang on.\<close>

definition tree_row :: "deposit_row \<Rightarrow> u64 \<times> u32 \<times> u32 \<times> u8 \<times> u32 \<times> address \<times> u32 \<times> address \<times> int \<times> bytes" where
  "tree_row r = (dep_Id r, dep_NetworkID r, dep_DepositCount r, leaf_fields (Deposit.truncate r))"

definition tree_eq :: "db \<Rightarrow> db \<Rightarrow> bool" where
  "tree_eq d d' \<longleftrightarrow> t_root d' = t_root d \<and> t_rht d' = t_rht d \<and>
     map tree_row (t_deposit d') = map tree_row (t_deposit d)"

definition tx_quiet :: "pg \<Rightarrow> pg \<Rightarrow> bool" where
  "tx_quiet st st' \<longleftrightarrow> tx_step st st' \<and>
     (\<forall>d. raw_view Tx st = Some d \<longrightarrow> (\<exists>d'. raw_view Tx st' = Some d' \<and> tree_eq d d'))"

lemma tx_step_refl [simp]: "tx_step st st"
  by (simp add: tx_step_def)

lemma tx_step_trans: "tx_step a b \<Longrightarrow> tx_step b c \<Longrightarrow> tx_step a c"
  by (auto simp: tx_step_def)

lemma tree_eq_refl [simp]: "tree_eq d d"
  by (simp add: tree_eq_def)

lemma tree_eq_trans: "tree_eq a b \<Longrightarrow> tree_eq b c \<Longrightarrow> tree_eq a c"
  by (simp add: tree_eq_def)

lemma tx_quiet_step: "tx_quiet a b \<Longrightarrow> tx_step a b"
  by (simp add: tx_quiet_def)

lemma tx_quiet_refl [simp]: "tx_quiet st st"
  by (simp add: tx_quiet_def)

lemma tx_quiet_trans: "tx_quiet a b \<Longrightarrow> tx_quiet b c \<Longrightarrow> tx_quiet a c"
  unfolding tx_quiet_def by (meson tree_eq_trans tx_step_trans)

lemma pg_call_facts:
  assumes "pg_call st = (b, st')"
  shows "pg_committed st' = pg_committed st" and "pg_open st' = pg_open st"
    and "True \<notin> set (pg_faults st) \<Longrightarrow> \<not> b \<and> True \<notin> set (pg_faults st')"
    and "length (pg_faults st') \<le> length (pg_faults st)"
  using assms by (auto simp: pg_call_def split: list.splits)

lemma tx_step_call: "pg_call st = (b, st') \<Longrightarrow> tx_step st st'"
  using pg_ok_call by (auto simp: tx_step_def pg_call_facts)

lemma tx_step_abort: "tx_step st (pg_abort tx st)"
  by (cases tx) (auto simp: tx_step_def pg_abort_def pg_ok_alt)

lemma tx_quiet_query:
  assumes "pg_query tx f st = (x, st')"
  shows "tx_quiet st st'"
proof -
  obtain b st1 where call: "pg_call st = (b, st1)" by fastforce
  have "tx_step st st1" by (rule tx_step_call [OF call])
  hence "tx_step st st'" using assms call tx_step_abort [of st1 tx]
    by (cases b) (auto simp: pg_query_def intro: tx_step_trans split: sum.splits)
  thus ?thesis using pg_query_frame [OF assms] by (simp add: tx_quiet_def)
qed

lemma tx_step_exec:
  assumes "pg_exec Tx f st = (x, st')" and ok: "pg_ok st \<Longrightarrow> pg_ok st'"
  shows "tx_step st st'"
proof -
  obtain b st1 where call: "pg_call st = (b, st1)" by fastforce
  have 1: "tx_step st st1" by (rule tx_step_call [OF call])
  have 2: "pg_committed st' = pg_committed st1 \<and> (pg_open st1 \<noteq> None \<longrightarrow> pg_open st' \<noteq> None) \<and> pg_faults st' = pg_faults st1"
    using assms(1) call by (cases b) (auto simp: pg_exec_def pg_abort_def pg_store_def split: sum.splits prod.splits)
  show ?thesis using 1 2 ok by (auto simp: tx_step_def)
qed

lemma tx_quiet_exec:
  assumes "pg_exec Tx f st = (x, st')" and ok: "pg_ok st \<Longrightarrow> pg_ok st'"
    and eq: "\<And>d y d'. f d = Inr (y, d') \<Longrightarrow> tree_eq d d'"
  shows "tx_quiet st st'"
proof (cases x)
  case (Inl e)
  thus ?thesis using tx_step_exec [OF assms(1,2)] pg_exec_InlD [OF assms(1) [unfolded Inl]] by (simp add: tx_quiet_def)
next
  case (Inr y)
  have "\<exists>d'. raw_view Tx st' = Some d' \<and> tree_eq d d'" if "raw_view Tx st = Some d" for d
    by (rule pg_exec_InrE [OF assms(1) [unfolded Inr] that]) (use eq in blast)
  thus ?thesis using tx_step_exec [OF assms(1,2)] by (simp add: tx_quiet_def)
qed

text \<open>An operation of the storage that may run inside the transaction of a block.\<close>

locale block_call =
  fixes f :: "pg \<Rightarrow> 'a result \<times> pg"
  assumes quiet: "f st = (x, st') \<Longrightarrow> tx_quiet st st'"
begin

lemma quiet_store: "store f s = (x, s') \<Longrightarrow> tx_quiet (cs_storage s) (cs_storage s') \<and>
    cs_bridgeCtrl s' = cs_bridgeCtrl s \<and> cs_networkID s' = cs_networkID s"
  using quiet by (auto simp: store_def split: prod.splits)

end

interpretation query_call: block_call "pg_query tx f" for tx and f :: "db \<Rightarrow> 'a result"
  by unfold_locales (rule tx_quiet_query)

lemma tree_eq_fields [simp]:
  "tree_eq d (d\<lparr>t_exit_root := x1\<rparr>)" "tree_eq d (d\<lparr>t_remove_exit_root := x2\<rparr>)" "tree_eq d (d\<lparr>t_claim := x3\<rparr>)"
  "tree_eq d (d\<lparr>t_token_wrapped := x4\<rparr>)" "tree_eq d (d\<lparr>t_rollup_exit := x5, seq_rollup_exit := s5\<rparr>)"
  "tree_eq d (d\<lparr>t_backward_let := x6\<rparr>)" "tree_eq d (d\<lparr>t_forward_let := x7\<rparr>)"
  "tree_eq d (d\<lparr>t_set_unset_claim := x8\<rparr>)" "tree_eq d (d\<lparr>t_block := x9, seq_block := s9\<rparr>)"
  "tree_eq d (d\<lparr>seq_block := s10\<rparr>)" "tree_eq d (d\<lparr>t_exit_root := x11, seq_exit_root := s11\<rparr>)"
  by (simp_all add: tree_eq_def)

lemma tree_eq_mark_ready [simp]: "tree_eq d (mark_ready P b d)"
  by (auto simp: tree_eq_def mark_ready_def tree_row_def leaf_fields_def Deposit.truncate_def Deposit.defs)

lemma block_call_exec:
  assumes "\<And>st. g st = pg_exec Tx f st" and "\<And>st x st'. pg_ok st \<Longrightarrow> g st = (x, st') \<Longrightarrow> pg_ok st'"
    and "\<And>d y d'. f d = Inr (y, d') \<Longrightarrow> tree_eq d d'"
  shows "block_call g"
proof
  fix st x st'
  assume "g st = (x, st')"
  thus "tx_quiet st st'" using assms by (metis tx_quiet_exec)
qed

interpretation add_block: block_call "AddBlock b Tx" for b
  by (rule block_call_exec [OF fun_cong [OF AddBlock_def] pg_ok_AddBlock]) (auto split: sum.splits list.splits)

interpretation add_claim: block_call "AddClaim c Tx" for c
  by (rule block_call_exec [OF fun_cong [OF AddClaim_def] pg_ok_AddClaim]) (auto split: if_splits)

interpretation delete_claim: block_call "DeleteClaimByGlobalIndex gi net Tx" for gi net
  by (rule block_call_exec [OF fun_cong [OF DeleteClaimByGlobalIndex_def] pg_ok_DeleteClaimByGlobalIndex]) auto

interpretation insert_token: block_call "insert_token t m Tx" for t m
  by (rule block_call_exec [OF fun_cong [OF insert_token_def] pg_ok_insert_token]) (auto split: if_splits)

interpretation backward_let: block_call "AddBackwardLET b Tx" for b
  by (rule block_call_exec [OF fun_cong [OF AddBackwardLET_def] pg_ok_events(1)]) (auto split: if_splits)

interpretation forward_let: block_call "AddForwardLET f Tx" for f
  by (rule block_call_exec [OF fun_cong [OF AddForwardLET_def] pg_ok_events(2)]) (auto split: if_splits)

lemma pg_ok_addSetUnsetClaim: "pg_ok st \<Longrightarrow> addSetUnsetClaim ty i m r x g tx st = (y, st') \<Longrightarrow> pg_ok st'"
  unfolding addSetUnsetClaim_def by (erule pg_ok_exec, assumption) (force simp: db_ok_def events_ok_def split: if_splits)

interpretation set_unset: block_call "addSetUnsetClaim ty i m r x g Tx" for ty i m r x g
  by (rule block_call_exec [OF fun_cong [OF addSetUnsetClaim_def] pg_ok_addSetUnsetClaim]) (auto split: if_splits)

interpretation set_claim: block_call "AddSetClaim c Tx" for c
  by unfold_locales (auto simp: AddSetClaim_def dest: set_unset.quiet)

interpretation unset_claim: block_call "AddUnsetClaim u Tx" for u
  by unfold_locales (auto simp: AddUnsetClaim_def dest: set_unset.quiet)

interpretation rollup_leaves: block_call "AddRollupExitLeaves rows Tx" for rows
  by (rule block_call_exec [OF fun_cong [OF AddRollupExitLeaves_def] pg_ok_AddRollupExitLeaves])
     (auto split: sum.splits if_splits)

interpretation insert_removed: block_call "insert_removed g Tx" for g
  by (rule block_call_exec [OF fun_cong [OF insert_removed_def] pg_ok_insert_removed]) (auto split: if_splits)

interpretation disallow_ger: block_call "disallow_ger g Tx" for g
  by (rule block_call_exec [OF fun_cong [OF disallow_ger_def] pg_ok_disallow_ger]) (auto simp: Let_def)

interpretation unready: block_call "unready_between i j net Tx" for i j net
  by (rule block_call_exec [OF fun_cong [OF unready_between_def] pg_ok_deposit_flags(4)]) auto

interpretation add_ger: block_call "AddGlobalExitRoot g Tx" for g
proof
  fix st x st'
  assume run: "AddGlobalExitRoot g Tx st = (x, st')"
  show "tx_quiet st st'"
  proof (cases "if length (ger_ExitRoots g) \<noteq> 0 then two_roots (ger_ExitRoots g) else Inr []")
    case (Inl e)
    thus ?thesis using run unfolding AddGlobalExitRoot_def Inl by simp
  next
    case (Inr roots)
    show ?thesis
      by (rule tx_quiet_exec [OF run [unfolded AddGlobalExitRoot_def Inr sum.case]])
         (use run pg_ok_AddGlobalExitRoot in \<open>auto simp: insert_exit_root_def split: sum.splits if_splits\<close>)
  qed
qed

interpretation update_ger: block_call "UpdateL2GER g Tx" for g
proof
  fix st x st'
  assume run: "UpdateL2GER g Tx st = (x, st')"
  show "tx_quiet st st'"
  proof (cases "two_roots (ger_ExitRoots g)")
    case (Inl e)
    thus ?thesis using run by (simp add: UpdateL2GER_def)
  next
    case (Inr roots)
    show ?thesis by (rule tx_quiet_exec [OF run [unfolded UpdateL2GER_def Inr sum.case]])
        (use run pg_ok_UpdateL2GER in auto)
  qed
qed

interpretation add_token: block_call "AddTokenWrapped decode t Tx" for decode t
  by unfold_locales
     (auto simp: AddTokenWrapped_def GetTokenMetadata_def split: prod.splits sum.splits if_splits
        dest!: query_call.quiet insert_token.quiet intro: tx_quiet_trans)

interpretation remove_ger: block_call "AddRemoveL2GER g Tx" for g
proof
  fix st x st'
  have quiet: "previous_ger net i Tx a = (y, b) \<Longrightarrow> tx_quiet a b" "deposit_of_ger j ger net Tx a = (z, b) \<Longrightarrow> tx_quiet a b"
    for net i a b j ger y z
    by (auto simp: previous_ger_def deposit_of_ger_def GetDepositCountByGER_def split: prod.splits sum.splits if_splits
        dest: query_call.quiet)
  assume "AddRemoveL2GER g Tx st = (x, st')"
  thus "tx_quiet st st'" unfolding AddRemoveL2GER_def
    by (auto split: prod.splits sum.splits option.splits dest!: quiet insert_removed.quiet disallow_ger.quiet unready.quiet)
       (meson tx_quiet_trans)+
qed

section \<open>The trees inside a transaction\<close>

lemma HashDeposit_fields: "leaf_fields p = leaf_fields q \<Longrightarrow> HashDeposit K p = HashDeposit K q"
  by (simp add: HashDeposit_def deposit_preimage_def leaf_fields_def FillBytes32_def)

lemma net_deposits_rows:
  "map tree_row (net_deposits net d) = filter (\<lambda>r. fst (snd r) = net) (map tree_row (t_deposit d))"
  by (simp add: net_deposits_def filter_map comp_def tree_row_def)

lemma net_tree_tree_eq:
  assumes "tree_eq d d'" and "net_tree K H net d ls"
  shows "net_tree K H net d' ls"
proof -
  have rows: "map tree_row (net_deposits net d') = map tree_row (net_deposits net d)"
    using assms(1) by (simp only: net_deposits_rows tree_eq_def)
  have len: "length (net_deposits net d') = length (net_deposits net d)" by (rule map_eq_imp_length_eq [OF rows])
  have row: "tree_row (net_deposits net d' ! i) = tree_row (net_deposits net d ! i)" if "i < length ls" for i
  proof -
    have "i < length (net_deposits net d)" using that assms(2) by (simp add: net_tree_def)
    thus ?thesis using arg_cong [OF rows, of "\<lambda>xs. xs ! i"] by (simp add: len)
  qed
  have stored: "deposit_stored K H net d' ls i (net_deposits net d' ! i)" if "i < length ls" for i
  proof -
    have "deposit_stored K H net d ls i (net_deposits net d ! i)" using that assms(2) by (simp add: net_tree_def)
    moreover have "HashDeposit K (Deposit.truncate (net_deposits net d' ! i)) = HashDeposit K (Deposit.truncate (net_deposits net d ! i))"
      by (rule HashDeposit_fields) (use row [OF that] in \<open>simp add: tree_row_def\<close>)
    ultimately show ?thesis using row [OF that] assms(1) by (simp add: deposit_stored_def tree_row_def tree_eq_def)
  qed
  have "dep_Id ` set (net_deposits net d') = dep_Id ` set (net_deposits net d)"
    using arg_cong [OF rows, of "\<lambda>xs. set (map fst xs)"] by (simp add: tree_row_def image_image)
  thus ?thesis using assms stored len by (simp add: net_tree_def tree_eq_def)
qed

lemma ctrl_ok_tree_eq:
  assumes "tree_eq d d'" and "ctrl_ok K d bt L"
  shows "ctrl_ok K d' bt L"
proof -
  have "mirrors K d mt ls \<Longrightarrow> mirrors K d' mt ls" for mt ls
    using net_tree_tree_eq [OF assms(1)] by (simp add: mirrors_def Let_def)
  thus ?thesis using assms(2) by (simp add: ctrl_ok_def)
qed

lemma tree_eq_keep_seqs [simp]: "tree_eq d (keep_seqs v d)"
  by (simp add: tree_eq_def keep_seqs_def)

text \<open>What the trees read.\<close>

lemma tree_quiet:
  "GetRoot c net tx st = (x, st') \<Longrightarrow> tx_quiet st st'"
  "GetNode k tx st = (y, st') \<Longrightarrow> tx_quiet st st'"
  "GetLastDepositCount net tx st = (x', st') \<Longrightarrow> tx_quiet st st'"
  by (auto simp: GetRoot_def GetNode_def GetLastDepositCount_def split: prod.splits sum.splits if_splits
      dest: tx_quiet_query)

lemma getRoot_quiet: "getRoot pg_merkleTreeStore K mt tx st = (x, st') \<Longrightarrow> tx_quiet st st'"
  by (auto simp: getRoot_def pg_merkleTreeStore_def split: if_splits dest: tree_quiet)

lemma left_walk_quiet: "left_walk pg_merkleTreeStore tx i hs cur acc st = (x, st') \<Longrightarrow> tx_quiet st st'"
proof (induction hs arbitrary: cur acc st)
  case (Cons h hs)
  obtain y st1 where g: "GetNode cur tx st = (y, st1)" by fastforce
  note q = tree_quiet(2) [OF g]
  show ?case
  proof (cases y)
    case (Inr lr)
    thus ?thesis using Cons g q by (cases lr) (auto simp: pg_merkleTreeStore_def intro: tx_quiet_trans)
  qed (use Cons.prems g q in \<open>simp add: pg_merkleTreeStore_def\<close>)
qed simp

lemma setSiblings_quiet:
  assumes "setSiblings pg_merkleTreeStore K mt tx st = (x, mt', st')"
  shows "tx_quiet st st'"
proof -
  obtain y st1 where i: "initSiblings pg_merkleTreeStore K mt tx st = (y, st1)" by fastforce
  have "tx_quiet st st1"
    using i by (auto simp: initSiblings_def split: if_splits prod.splits sum.splits
        dest!: getRoot_quiet left_walk_quiet elim: tx_quiet_trans)
  thus ?thesis using assms i by (cases y) (auto simp: setSiblings_def)
qed

lemma rollbackMT_quiet:
  assumes "rollbackMT pg_merkleTreeStore K mt net tx st = (x, mt', st')"
  shows "tx_quiet st st'"
proof -
  obtain y st1 where c: "stored_count pg_merkleTreeStore net st = (y, st1)" by fastforce
  have "tx_quiet st st1"
    using c by (auto simp: stored_count_def pg_merkleTreeStore_def split: prod.splits sum.splits dest: tree_quiet)
  thus ?thesis using assms c by (cases y) (auto simp: rollbackMT_def dest: setSiblings_quiet intro: tx_quiet_trans)
qed

lemma on_exit_tree_rel:
  assumes "on_exit_tree bt net f st = (x, bt', st')" and "\<And>mt y mt' st1. f mt st = (y, mt', st1) \<Longrightarrow> R st st1" and "R st st"
  shows "R st st'"
  using assms by (auto simp: on_exit_tree_def split: sum.splits prod.splits)

lemma ReorgMT_quiet: "ReorgMT pg_merkleTreeStore K bt c net tx st = (x, bt', st') \<Longrightarrow> tx_quiet st st'"
  unfolding ReorgMT_def by (erule on_exit_tree_rel) (auto simp: resetLeaf_def dest: setSiblings_quiet)

lemma RollbackMT_quiet: "RollbackMT pg_merkleTreeStore K bt net tx st = (x, bt', st') \<Longrightarrow> tx_quiet st st'"
  unfolding RollbackMT_def by (erule on_exit_tree_rel) (auto dest: rollbackMT_quiet)

interpretation exit_root_call: block_call "GetExitRoot pg_merkleTreeStore K bt net tx" for K bt net tx
  by unfold_locales (auto simp: GetExitRoot_def split: sum.splits dest: getRoot_quiet)

lemma tx_step_AddDeposit:
  assumes run: "AddDeposit p Tx st = (x, st')"
  shows "tx_step st st'"
  by (rule tx_step_exec [OF run [unfolded AddDeposit_def] pg_ok_AddDeposit [OF _ run]])

lemma tx_step_SetRoot:
  assumes run: "SetRoot r i net Tx st = (x, st')"
  shows "tx_step st st'"
  by (rule tx_step_exec [OF run [unfolded SetRoot_def] pg_ok_SetRoot [OF _ run]])

lemma tx_step_BulkSet:
  assumes run: "BulkSet rows Tx st = (x, st')"
  shows "tx_step st st'"
  by (rule tx_step_exec [OF run [unfolded BulkSet_def] pg_ok_BulkSet [OF _ run]])

lemma tx_step_ResetDeposits:
  assumes run: "ResetDeposits c net Tx st = (x, st')"
  shows "tx_step st st'"
proof (cases "net = 0")
  case False
  show ?thesis
    by (rule tx_step_exec [OF run [unfolded ResetDeposits_def if_not_P [OF False]] pg_ok_ResetDeposits [OF _ run]])
qed (use run in \<open>simp add: ResetDeposits_def\<close>)

lemma tx_step_addLeaf:
  assumes "addLeaf pg_merkleTreeStore K mt i leaf c Tx st = (x, mt', st')"
  shows "tx_step st st'"
  using assms by (auto simp: addLeaf_def pg_merkleTreeStore_def Let_def split: if_splits sum.splits prod.splits
      dest!: tx_step_SetRoot tx_step_BulkSet intro: tx_step_trans)

lemma tx_step_bc_AddDeposit: "bc_AddDeposit pg_merkleTreeStore K bt p Tx st = (x, bt', st') \<Longrightarrow> tx_step st st'"
  by (auto simp: bc_AddDeposit_def split: sum.splits dest!: on_exit_tree_rel [where R = tx_step] tx_step_addLeaf)

interpretation rollup_leaf: block_call "AddRollupExitLeaf pg_merkleTreeStore K bt leaf Tx" for K bt leaf
  by unfold_locales
     (auto simp: AddRollupExitLeaf_def addRollupExitLeaf_def storeLeaves_def pg_merkleTreeStore_def
        GetLatestRollupExitLeaves_def IsRollupExitRoot_def split: prod.splits sum.splits if_splits
        dest!: query_call.quiet rollup_leaves.quiet intro: tx_quiet_trans)

section \<open>A block fails or goes on\<close>

text \<open>The state inside the transaction of a block of network \<open>net\<close> that began at the database \<open>d0\<close> and
  the controller \<open>bt0\<close>, with a server that answers.\<close>

definition in_tx :: "u32 \<Rightarrow> db \<Rightarrow> BridgeController \<Rightarrow> ClientSynchronizer \<Rightarrow> bool" where
  "in_tx net d0 bt0 s \<longleftrightarrow> cs_networkID s = net \<and> pg_committed (cs_storage s) = d0 \<and> pg_open (cs_storage s) \<noteq> None \<and>
     True \<notin> set (pg_faults (cs_storage s)) \<and> pg_ok (cs_storage s) \<and> forks net bt0 (cs_bridgeCtrl s)"

text \<open>The state between blocks: no transaction, the controller in step with the committed database.\<close>

definition at_rest :: "keccak \<Rightarrow> (u32 \<Rightarrow> h256 list) \<Rightarrow> u32 \<Rightarrow> ClientSynchronizer \<Rightarrow> bool" where
  "at_rest K L net s \<longleftrightarrow> cs_networkID s = net \<and> pg_open (cs_storage s) = None \<and> True \<notin> set (pg_faults (cs_storage s)) \<and>
     pg_ok (cs_storage s) \<and> ctrl_ok K (pg_committed (cs_storage s)) (cs_bridgeCtrl s) L \<and>
     net \<in> dom (bc_merkleTreeIDs (cs_bridgeCtrl s))"

definition restored :: "keccak \<Rightarrow> (u32 \<Rightarrow> h256 list) \<Rightarrow> u32 \<Rightarrow> db \<Rightarrow> ClientSynchronizer \<Rightarrow> bool" where
  "restored K L net d0 s \<longleftrightarrow> at_rest K L net s \<and> (\<exists>v. pg_committed (cs_storage s) = keep_seqs v d0)"

definition start_ok :: "keccak \<Rightarrow> (u32 \<Rightarrow> h256 list) \<Rightarrow> u32 \<Rightarrow> db \<Rightarrow> BridgeController \<Rightarrow> bool" where
  "start_ok K L net d0 bt0 \<longleftrightarrow> db_ok d0 \<and> rht_ok d0 \<and> ctrl_ok K d0 bt0 L \<and> net \<in> dom (bc_merkleTreeIDs bt0)"

definition outcome :: "keccak \<Rightarrow> (u32 \<Rightarrow> h256 list) \<Rightarrow> u32 \<Rightarrow> db \<Rightarrow> BridgeController \<Rightarrow> 'a result \<times> ClientSynchronizer \<Rightarrow> bool" where
  "outcome K L net d0 bt0 r \<longleftrightarrow>
     (case r of (Inr _, s) \<Rightarrow> in_tx net d0 bt0 s | (Inl e, s) \<Rightarrow> e = GoPanic \<or> restored K L net d0 s)"

lemma outcome_Inr [simp]: "outcome K L net d0 bt0 (Inr x, s) = in_tx net d0 bt0 s"
  by (simp add: outcome_def)

lemma outcome_Inl [simp]: "outcome K L net d0 bt0 (Inl e, s) = (e = GoPanic \<or> restored K L net d0 s)"
  by (simp add: outcome_def)

lemma in_tx_step:
  assumes "in_tx net d0 bt0 s" and "tx_step (cs_storage s) st'" and "forks net (cs_bridgeCtrl s) bt'"
  shows "in_tx net d0 bt0 (s\<lparr>cs_bridgeCtrl := bt', cs_storage := st'\<rparr>)"
  using assms forks_trans by (auto simp: in_tx_def tx_step_def)

context block_call
begin

lemma in_tx_store: "store f s = (x, s') \<Longrightarrow> in_tx net d0 bt0 s \<Longrightarrow> in_tx net d0 bt0 s'"
  by (drule quiet_store) (simp add: in_tx_def tx_quiet_def tx_step_def)

end

lemma in_tx_ctrl:
  assumes "ctrl f s = (x, s')" and "in_tx net d0 bt0 s"
    and "\<And>bt' st'. f (cs_bridgeCtrl s) (cs_storage s) = (x, bt', st') \<Longrightarrow> tx_step (cs_storage s) st' \<and> forks net (cs_bridgeCtrl s) bt'"
  shows "in_tx net d0 bt0 s'"
  using assms in_tx_step by (auto simp: ctrl_def split: prod.splits)

lemma in_tx_ids: "start_ok K L net d0 bt0 \<Longrightarrow> in_tx net d0 bt0 s \<Longrightarrow> ids_ok (cs_bridgeCtrl s)"
  unfolding start_ok_def in_tx_def by (blast intro: ids_ok_forks ctrl_ok_ids)

text \<open>With a server that answers, the rollback brings the trees and the database back.\<close>

lemma rollback_trees_ok:
  assumes "start_ok K L net d bt0" and "forks net bt0 bt" and "pg_committed st = d" and "True \<notin> set (pg_faults st)"
  obtains bt' st' where "rollback_trees K net bt st = (Inr (), bt', st')" and "ctrl_ok K d bt' L" and "forks net bt0 bt'"
    and "tx_step st st'" and "\<And>t. raw_view t st' = raw_view t st"
proof -
  obtain tID where id: "bc_merkleTreeIDs bt0 net = Some tID" using assms(1) by (auto simp: start_ok_def)
  have rd: "pg_ready NoTx st" using assms(4) by (simp add: pg_ready_def pg_view_def)
  obtain bt' st' where r: "RollbackMT pg_merkleTreeStore K bt net NoTx st = (Inr (), bt', st')"
    "ctrl_ok K d bt' L" "forks net bt0 bt'" "\<And>t. raw_view t st' = raw_view t st"
    by (rule RollbackMT_ctrl [of d st K bt0 L net bt tID]) (use assms rd id in \<open>simp_all add: start_ok_def\<close>)
  show thesis
    by (rule that [OF _ r(2,3) tx_quiet_step [OF RollbackMT_quiet [OF r(1)]] r(4)]) (simp add: r(1))
qed

lemma rollback_restores:
  assumes "start_ok K L net d0 bt0" and "in_tx net d0 bt0 s"
  shows "\<exists>s'. (rollback K e Tx s :: 'a result \<times> ClientSynchronizer) = (Inl e, s') \<and> restored K L net d0 s'"
proof -
  obtain bt' st1 where r: "rollback_trees K net (cs_bridgeCtrl s) (cs_storage s) = (Inr (), bt', st1)"
    "ctrl_ok K d0 bt' L" "forks net bt0 bt'" "tx_step (cs_storage s) st1"
    by (rule rollback_trees_ok [OF assms(1), of "cs_bridgeCtrl s" "cs_storage s"]) (use assms(2) in \<open>simp_all add: in_tx_def\<close>)
  obtain t where t: "pg_open st1 = Some t" using r(4) assms(2) by (auto simp: tx_step_def in_tx_def)
  obtain b st2 where call: "pg_call st1 = (b, st2)" by fastforce
  have st1: "True \<notin> set (pg_faults st1)" "pg_committed st1 = d0" "pg_ok st1"
    using r(4) assms(2) by (auto simp: tx_step_def in_tx_def)
  hence "\<not> b" using pg_call_facts(3) [OF call] by simp
  hence rb: "Rollback Tx st1 = (Inr (), pg_discard t st2)" using t call by (simp add: Rollback_def)
  let ?s' = "s\<lparr>cs_bridgeCtrl := bt', cs_storage := pg_discard t st2\<rparr>"
  have eq: "(rollback K e Tx s :: 'a result \<times> ClientSynchronizer) = (Inl e, ?s')"
    using assms(2) r(1) rb by (simp add: rollback_def ctrl_def store_def in_tx_def del: rollback_trees.simps)
  have comm: "pg_committed (pg_discard t st2) = keep_seqs (tx_view t) d0"
    using st1(2) pg_call_facts(1) [OF call] by (simp add: pg_discard_def)
  have fl: "True \<notin> set (pg_faults (pg_discard t st2))"
    using pg_call_facts(3) [OF call] st1(1) by (simp add: pg_discard_def)
  have "at_rest K L net ?s'"
    using assms comm fl pg_ok_discard [OF pg_ok_call [OF st1(3) call], of t] ctrl_ok_tree_eq [OF tree_eq_keep_seqs r(2)] r(3)
    by (simp add: at_rest_def in_tx_def start_ok_def pg_discard_def forks_def)
  thus ?thesis using eq comm by (auto simp: restored_def)
qed

lemma start_ok_keep_seqs: "start_ok K L net d bt0 \<Longrightarrow> start_ok K L net (keep_seqs v d) bt0"
  using ctrl_ok_tree_eq [OF tree_eq_keep_seqs]
  by (auto simp: start_ok_def rht_ok_def keep_seqs_def db_ok_keep_seqs [unfolded keep_seqs_def])

text \<open>When the transaction is already gone, as after a commit that failed, the error of the second
  rollback is returned.\<close>

lemma rollback_closed:
  assumes "start_ok K L net d0 bt0" and "cs_networkID s = net" and "forks net bt0 (cs_bridgeCtrl s)"
    and "pg_open (cs_storage s) = None" and "pg_committed (cs_storage s) = keep_seqs v d0"
    and "True \<notin> set (pg_faults (cs_storage s))" and "pg_ok (cs_storage s)"
  shows "\<exists>s'. (rollback K e Tx s :: 'a result \<times> ClientSynchronizer) = (Inl ErrTxClosed, s') \<and> restored K L net d0 s'"
proof -
  obtain bt' st1 where r: "rollback_trees K net (cs_bridgeCtrl s) (cs_storage s) = (Inr (), bt', st1)"
    "ctrl_ok K (keep_seqs v d0) bt' L" "forks net bt0 bt'" "tx_step (cs_storage s) st1"
    "\<And>t. raw_view t st1 = raw_view t (cs_storage s)"
    by (rule rollback_trees_ok [OF start_ok_keep_seqs [OF assms(1)] assms(3,5,6)]) simp
  have open1: "pg_open st1 = None" using r(5) [of Tx] assms(4) by (simp add: raw_view_def)
  let ?s' = "s\<lparr>cs_bridgeCtrl := bt', cs_storage := st1\<rparr>"
  have eq: "(rollback K e Tx s :: 'a result \<times> ClientSynchronizer) = (Inl ErrTxClosed, ?s')"
    using assms(2) r(1) open1 by (simp add: rollback_def ctrl_def store_def Rollback_def del: rollback_trees.simps)
  have "restored K L net d0 ?s'"
    using assms r(2-4) open1 by (auto simp: restored_def at_rest_def tx_step_def start_ok_def forks_def)
  thus ?thesis using eq by blast
qed

lemma rollback_outcome:
  assumes "start_ok K L net d0 bt0" and "in_tx net d0 bt0 s"
  shows "outcome K L net d0 bt0 (rollback K e Tx s :: 'a result \<times> ClientSynchronizer)"
proof -
  obtain s' where "(rollback K e Tx s :: 'a result \<times> ClientSynchronizer) = (Inl e, s')" "restored K L net d0 s'"
    using rollback_restores [OF assms] by blast
  thus ?thesis by simp
qed

lemma guard_outcome:
  assumes "start_ok K L net d0 bt0" and "m = (x, s)" and "in_tx net d0 bt0 s"
    and "\<And>y. m = (Inr y, s) \<Longrightarrow> outcome K L net d0 bt0 (f y s)"
  shows "outcome K L net d0 bt0 (guard K Tx m f)"
proof (cases x)
  case (Inl e)
  show ?thesis unfolding assms(2) Inl guard_def prod.case sum.case
    using rollback_outcome [OF assms(1,3)] by (cases "e = GoPanic") simp_all
qed (use assms in \<open>simp add: guard_def\<close>)

context block_call
begin

lemma guard_store:
  assumes "start_ok K L net d0 bt0" and "in_tx net d0 bt0 s"
    and "\<And>y s1. in_tx net d0 bt0 s1 \<Longrightarrow> outcome K L net d0 bt0 (g y s1)"
  shows "outcome K L net d0 bt0 (guard K Tx (store f s) g)"
proof -
  obtain x s1 where m: "store f s = (x, s1)" by fastforce
  have in1: "in_tx net d0 bt0 s1" by (rule in_tx_store [OF m assms(2)])
  show ?thesis by (rule guard_outcome [OF assms(1) m in1]) (rule assms(3) [OF in1])
qed

end

interpretation num_deposits: block_call "GetNumberDeposits net b tx" for net b tx
  by unfold_locales (simp add: GetNumberDeposits_def tx_quiet_query)

interpretation root_exists: block_call "CheckIfRootExists root net tx" for root net tx
  by unfold_locales (auto simp: CheckIfRootExists_def split: prod.splits sum.splits dest: tx_quiet_query)

interpretation l2_gers: block_call "GetL2ExitRootsByGER ger tx" for ger tx
  by unfold_locales (simp add: GetL2ExitRootsByGER_def tx_quiet_query)

interpretation l1_ger: block_call "GetL1ExitRootByGER ger tx" for ger tx
  by unfold_locales (simp add: GetL1ExitRootByGER_def tx_quiet_query)

interpretation get_deposit: block_call "GetDeposit c net tx" for c net tx
  by unfold_locales (simp add: GetDeposit_def tx_quiet_query)

lemma guard_store_step:
  assumes "start_ok K L net d0 bt0" and "in_tx net d0 bt0 s" and "\<And>x st'. f (cs_storage s) = (x, st') \<Longrightarrow> tx_step (cs_storage s) st'"
    and "\<And>y s1. in_tx net d0 bt0 s1 \<Longrightarrow> outcome K L net d0 bt0 (g y s1)"
  shows "outcome K L net d0 bt0 (guard K Tx (store f s) g)"
proof -
  obtain x st' where f: "f (cs_storage s) = (x, st')" by fastforce
  have "in_tx net d0 bt0 (s\<lparr>cs_storage := st'\<rparr>)"
    using in_tx_step [OF assms(2) assms(3) [OF f] forks_refl] by simp
  thus ?thesis using assms(1,4) f by (intro guard_outcome) (auto simp: store_def)
qed

lemma guard_ctrl:
  assumes "start_ok K L net d0 bt0" and "in_tx net d0 bt0 s"
    and "\<And>x bt' st'. f (cs_bridgeCtrl s) (cs_storage s) = (x, bt', st') \<Longrightarrow>
           tx_step (cs_storage s) st' \<and> forks net (cs_bridgeCtrl s) bt'"
    and "\<And>y s1. in_tx net d0 bt0 s1 \<Longrightarrow> outcome K L net d0 bt0 (g y s1)"
  shows "outcome K L net d0 bt0 (guard K Tx (ctrl f s) g)"
proof -
  obtain x s1 where m: "ctrl f s = (x, s1)" by fastforce
  have in1: "in_tx net d0 bt0 s1" by (rule in_tx_ctrl [OF m assms(2)]) (rule assms(3))
  show ?thesis by (rule guard_outcome [OF assms(1) m in1]) (rule assms(4) [OF in1])
qed

lemma guard_bc_AddDeposit:
  assumes "start_ok K L net d0 bt0" and "in_tx net d0 bt0 s" and "dep_NetworkID p = net"
    and "\<And>y s1. in_tx net d0 bt0 s1 \<Longrightarrow> outcome K L net d0 bt0 (g y s1)"
  shows "outcome K L net d0 bt0 (guard K Tx (ctrl (\<lambda>bt. bc_AddDeposit pg_merkleTreeStore K bt p Tx) s) g)"
proof (rule guard_ctrl [OF assms(1,2)])
  fix x bt' st'
  assume r: "bc_AddDeposit pg_merkleTreeStore K (cs_bridgeCtrl s) p Tx (cs_storage s) = (x, bt', st')"
  show "tx_step (cs_storage s) st' \<and> forks net (cs_bridgeCtrl s) bt'"
    using tx_step_bc_AddDeposit [OF r] bc_AddDeposit_forks [OF r in_tx_ids [OF assms(1,2)]] assms(3) by simp
qed (rule assms(4))

lemma guard_ReorgMT:
  assumes "start_ok K L net d0 bt0" and "in_tx net d0 bt0 s"
    and "\<And>y s1. in_tx net d0 bt0 s1 \<Longrightarrow> outcome K L net d0 bt0 (g y s1)"
  shows "outcome K L net d0 bt0 (guard K Tx (ctrl (\<lambda>bt. ReorgMT pg_merkleTreeStore K bt c net Tx) s) g)"
proof (rule guard_ctrl [OF assms(1,2)])
  fix x bt' st'
  assume r: "ReorgMT pg_merkleTreeStore K (cs_bridgeCtrl s) c net Tx (cs_storage s) = (x, bt', st')"
  show "tx_step (cs_storage s) st' \<and> forks net (cs_bridgeCtrl s) bt'"
    using tx_quiet_step [OF ReorgMT_quiet [OF r]] ReorgMT_forks [OF r in_tx_ids [OF assms(1,2)]] by simp
qed (rule assms(3))

lemma processDeposit_outcome:
  assumes "start_ok K L net d0 bt0" and "in_tx net d0 bt0 s"
  shows "outcome K L net d0 bt0 (processDeposit K p i Tx s)"
  unfolding processDeposit_def Let_def
  by (rule guard_store_step [OF assms tx_step_AddDeposit], assumption, rule guard_bc_AddDeposit [OF assms(1)])
     (use assms(2) in \<open>auto simp: in_tx_def\<close>)

lemma add_leaves_outcome:
  "start_ok K L net d0 bt0 \<Longrightarrow> in_tx net d0 bt0 s \<Longrightarrow> outcome K L net d0 bt0 (add_leaves K ls c i b h Tx s)"
proof (induction ls arbitrary: c s)
  case (Cons l ls)
  show ?case unfolding add_leaves.simps Let_def
    by (rule guard_store_step [OF Cons.prems tx_step_AddDeposit], assumption, rule guard_bc_AddDeposit [OF Cons.prems(1)])
       (use Cons in \<open>auto simp: in_tx_def leaf_deposit_def\<close>)
qed simp

lemma outcome_if:
  "(b \<Longrightarrow> outcome K L net d0 bt0 x) \<Longrightarrow> (\<not> b \<Longrightarrow> outcome K L net d0 bt0 y) \<Longrightarrow> outcome K L net d0 bt0 (if b then x else y)"
  by simp

lemma check_state_outcome:
  assumes "start_ok K L net d0 bt0" and "in_tx net d0 bt0 s" and "\<And>s1. in_tx net d0 bt0 s1 \<Longrightarrow> outcome K L net d0 bt0 (f s1)"
  shows "outcome K L net d0 bt0 (check_state K root c b Tx s f)"
  unfolding check_state_def exit_root_def
  by (intro num_deposits.guard_store exit_root_call.guard_store outcome_if rollback_outcome assms)

lemma simple_outcomes:
  assumes "start_ok K L net d0 bt0" and "in_tx net d0 bt0 s"
  shows "outcome K L net d0 bt0 (processClaim K c i Tx s)"
    and "outcome K L net d0 bt0 (processTokenWrapped K decode t i Tx s)"
    and "outcome K L net d0 bt0 (processRemoveL2GlobalExitRoot K g i Tx s)"
    and "outcome K L net d0 bt0 (processUnsetClaimSovereign K u i Tx s)"
  unfolding processClaim_def processTokenWrapped_def processRemoveL2GlobalExitRoot_def processUnsetClaimSovereign_def
  by (intro add_claim.guard_store add_token.guard_store remove_ger.guard_store unset_claim.guard_store
      delete_claim.guard_store assms; simp)+

lemma processSetClaim_outcome:
  assumes "start_ok K L net d0 bt0" and "in_tx net d0 bt0 s"
  shows "outcome K L net d0 bt0 (processSetClaimSovereign K c i b Tx s)"
  unfolding processSetClaimSovereign_def
  by (intro set_claim.guard_store get_deposit.guard_store outcome_if rollback_outcome add_claim.guard_store assms) simp_all

lemma processVerifyBatch_outcome:
  assumes "start_ok K L net d0 bt0" and "in_tx net d0 bt0 s"
  shows "outcome K L net d0 bt0 (processVerifyBatch K v i Tx s)"
  unfolding processVerifyBatch_def Let_def
  by (simp add: assms rollup_leaf.guard_store rollback_outcome root_exists.guard_store)

lemma update_gers_outcome:
  "start_ok K L net d0 bt0 \<Longrightarrow> in_tx net d0 bt0 s \<Longrightarrow> outcome K L net d0 bt0 (update_gers K gers roots Tx s)"
  by (induction gers arbitrary: s) (simp_all add: update_ger.guard_store)

lemma processBackwardLET_outcome:
  assumes "start_ok K L net d0 bt0" and "in_tx net d0 bt0 s"
  shows "outcome K L net d0 bt0 (processBackwardLETSovereign K b i n Tx s)"
  unfolding processBackwardLETSovereign_def
proof (rule check_state_outcome [OF assms])
  fix s1 assume s1: "in_tx net d0 bt0 s1"
  show "outcome K L net d0 bt0 (guard K Tx (store (ResetDeposits (bl_NewDepositCount b) (cs_networkID s1) Tx) s1) (\<lambda>_ s2.
     guard K Tx (ctrl (\<lambda>bt. ReorgMT pg_merkleTreeStore K bt (bl_NewDepositCount b) (cs_networkID s2) Tx) s2) (\<lambda>_ s3.
     check_state K (bl_NewRoot b) (bl_NewDepositCount b) n Tx s3 (\<lambda>s4.
     guard K Tx (store (AddBackwardLET (b\<lparr>bl_BlockID := i\<rparr>) Tx) s4) (\<lambda>_ s5. (Inr (), s5))))))"
  proof (rule guard_store_step [OF assms(1) s1 tx_step_ResetDeposits], assumption)
    fix s2 assume s2: "in_tx net d0 bt0 s2"
    have net: "cs_networkID s2 = net" using s2 by (simp add: in_tx_def)
    show "outcome K L net d0 bt0 (guard K Tx (ctrl (\<lambda>bt. ReorgMT pg_merkleTreeStore K bt (bl_NewDepositCount b) (cs_networkID s2) Tx) s2) (\<lambda>_ s3.
     check_state K (bl_NewRoot b) (bl_NewDepositCount b) n Tx s3 (\<lambda>s4.
     guard K Tx (store (AddBackwardLET (b\<lparr>bl_BlockID := i\<rparr>) Tx) s4) (\<lambda>_ s5. (Inr (), s5)))))"
      unfolding net by (rule guard_ReorgMT [OF assms(1) s2])
        (simp add: check_state_outcome assms(1) backward_let.guard_store)
  qed
qed

lemma processForwardLET_outcome:
  assumes "start_ok K L net d0 bt0" and "in_tx net d0 bt0 s"
  shows "outcome K L net d0 bt0 (processForwardLETSovereign K f i n Tx s)"
  unfolding processForwardLETSovereign_def
proof (rule check_state_outcome [OF assms], rule num_deposits.guard_store [OF assms(1)], assumption)
  fix c s2 assume s2: "in_tx net d0 bt0 s2"
  obtain x s3 where l: "add_leaves K (fl_NewLeaves f) c i n (fl_TxHash f) Tx s2 = (x, s3)" by fastforce
  thus "outcome K L net d0 bt0 (case add_leaves K (fl_NewLeaves f) c i n (fl_TxHash f) Tx s2 of
        (Inl e, s3) \<Rightarrow> (Inl e, s3)
      | (Inr _, s3) \<Rightarrow>
          check_state K (fl_NewRoot f) (fl_NewDepositCount f) n Tx s3 (\<lambda>s4.
          guard K Tx (store (AddForwardLET (f\<lparr>fl_BlockID := i\<rparr>) Tx) s4) (\<lambda>_ s5. (Inr (), s5))))"
    using add_leaves_outcome [OF assms(1) s2, of "fl_NewLeaves f" c i n "fl_TxHash f"]
    by (cases x) (simp_all add: check_state_outcome assms(1) forward_let.guard_store)
qed

lemma processGER_outcome:
  assumes "start_ok K L net d0 bt0" and "in_tx net d0 bt0 s" and "length (ger_ExitRoots g) \<in> {0, 2}"
  shows "outcome K L net d0 bt0 (processGlobalExitRoot K g i Tx s)"
proof (cases "length (ger_ExitRoots g) = 2")
  case True
  obtain x s1 where q: "store (GetL2ExitRootsByGER (ger_GlobalExitRoot g) NoTx) s = (x, s1)" by fastforce
  have s1: "in_tx net d0 bt0 s1" by (rule l2_gers.in_tx_store [OF q assms(2)])
  have upd: "outcome K L net d0 bt0 (case update_gers K gers roots Tx s1 of (Inl e, s2) \<Rightarrow> (Inl e, s2)
      | (Inr _, s2) \<Rightarrow> guard K Tx (store (AddGlobalExitRoot g' Tx) s2) (\<lambda>_ s3. (Inr (), s3)))" for gers roots g'
  proof -
    obtain y s2 where u: "update_gers K gers roots Tx s1 = (y, s2)" by fastforce
    show ?thesis using update_gers_outcome [OF assms(1) s1, of gers roots] unfolding u
      by (cases y) (simp_all add: add_ger.guard_store assms(1))
  qed
  have "outcome K L net d0 bt0 (guard K Tx (if b then (Inr [], s1) else (x, s1)) (\<lambda>gers s1.
      case update_gers K gers roots Tx s1 of (Inl e, s2) \<Rightarrow> (Inl e, s2)
      | (Inr _, s2) \<Rightarrow> guard K Tx (store (AddGlobalExitRoot g' Tx) s2) (\<lambda>_ s3. (Inr (), s3))))" for b roots g'
    by (rule guard_outcome [OF assms(1) _ s1, where x = "if b then Inr [] else x"]) (simp, rule upd)
  from this [of "x = Inl ErrStorageNotFound"] show ?thesis
    using True q by (cases x) (auto simp: processGlobalExitRoot_def Let_def split: if_splits)
next
  case False
  obtain x s1 where q: "store (GetL1ExitRootByGER (ger_GlobalExitRoot g) NoTx) s = (x, s1)" by fastforce
  have s1: "in_tx net d0 bt0 s1" by (rule l1_ger.in_tx_store [OF q assms(2)])
  have "outcome K L net d0 bt0 (guard K Tx (y, s1) (\<lambda>roots s1.
      guard K Tx (store (AddGlobalExitRoot (g'\<lparr>ger_ExitRoots := roots\<rparr>) Tx) s1) (\<lambda>_ s2. (Inr (), s2))))" for y g'
    by (rule guard_outcome [OF assms(1) refl s1]) (simp add: add_ger.guard_store assms(1) s1)
  thus ?thesis using False assms(3) q by (cases x) (auto simp: processGlobalExitRoot_def Let_def)
qed

text \<open>What the node has to deliver: every element of the order has its event, and a global exit root comes
  with two roots or none.\<close>

definition ger_event_ok :: "event \<Rightarrow> bool" where
  "ger_event_ok ev = (case ev of EvGER g \<Rightarrow> length (ger_ExitRoots g) \<in> {0, 2} | _ \<Rightarrow> True)"

definition block_events :: "Block \<Rightarrow> blocksOrder \<Rightarrow> event result list" where
  "block_events b order = map (event_at b) (order (blk_BlockHash b))"

definition events_well_formed :: "Block \<Rightarrow> blocksOrder \<Rightarrow> bool" where
  "events_well_formed b order \<longleftrightarrow> list_all (\<lambda>x. case x of Inl _ \<Rightarrow> False | Inr ev \<Rightarrow> ger_event_ok ev) (block_events b order)"

lemma process_event_outcome:
  assumes "start_ok K L net d0 bt0" and "in_tx net d0 bt0 s" and "ger_event_ok ev"
  shows "outcome K L net d0 bt0 (process_event K decode i n Tx ev s)"
  using assms by (cases ev)
    (auto simp: process_event_def ger_event_ok_def processGER_outcome simple_outcomes processDeposit_outcome
      processVerifyBatch_outcome processBackwardLET_outcome processForwardLET_outcome processSetClaim_outcome)

lemma process_elements_outcome:
  assumes "start_ok K L net d0 bt0"
  shows "in_tx net d0 bt0 s \<Longrightarrow> list_all (\<lambda>el. case event_at b el of Inl _ \<Rightarrow> False | Inr ev \<Rightarrow> ger_event_ok ev) els \<Longrightarrow>
    outcome K L net d0 bt0 (process_elements K decode b i Tx els flags s)"
proof (induction els arbitrary: flags s)
  case (Cons el els)
  obtain ev where ev: "event_at b el = Inr ev" "ger_event_ok ev" using Cons.prems(2) by (auto split: sum.splits)
  obtain x s1 where p: "process_event K decode i (blk_BlockNumber b) Tx ev s = (x, s1)" by fastforce
  have "outcome K L net d0 bt0 (x, s1)" using process_event_outcome [OF assms Cons.prems(1) ev(2)] p by metis
  thus ?case using Cons ev(1) p by (cases x) simp_all
qed simp

lemma begin_in_tx:
  assumes "at_rest K L net s" and "rht_ok (pg_committed (cs_storage s))"
  obtains s1 where "store BeginDBTransaction s = (Inr Tx, s1)" and "cs_networkID s1 = net"
    and "in_tx net (pg_committed (cs_storage s)) (cs_bridgeCtrl s) s1"
    and "start_ok K L net (pg_committed (cs_storage s)) (cs_bridgeCtrl s)"
    and "cs_bridgeCtrl s1 = cs_bridgeCtrl s" and "raw_view Tx (cs_storage s1) = Some (pg_committed (cs_storage s))"
proof -
  obtain b st1 where call: "pg_call (cs_storage s) = (b, st1)" by fastforce
  have st1: "\<not> b" "True \<notin> set (pg_faults st1)" "pg_committed st1 = pg_committed (cs_storage s)" "pg_ok st1"
    using pg_call_facts [OF call] pg_ok_call [OF _ call] assms(1) by (auto simp: at_rest_def)
  have ok: "db_ok (pg_committed (cs_storage s))" using assms(1) by (simp add: at_rest_def pg_ok_alt)
  show thesis
    by (rule that [of "snd (store BeginDBTransaction s)"])
       (use assms call st1 ok in \<open>auto simp: store_def BeginDBTransaction_def in_tx_def start_ok_def at_rest_def pg_ok_alt raw_view_def\<close>)
qed

lemma commit_outcome:
  assumes "start_ok K L net d0 bt0" and "in_tx net d0 bt0 s" and "raw_view Tx (cs_storage s) = Some d"
  shows "(\<exists>s'. guard K Tx (store (Commit Tx) s) (\<lambda>_ s4. (Inr y, s4)) = (Inr y, s') \<and>
       pg_committed (cs_storage s') = d \<and> cs_bridgeCtrl s' = cs_bridgeCtrl s \<and> pg_open (cs_storage s') = None \<and>
       True \<notin> set (pg_faults (cs_storage s')) \<and> pg_ok (cs_storage s') \<and> cs_networkID s' = net) \<or>
    (\<exists>e s'. guard K Tx (store (Commit Tx) s) (\<lambda>_ s4. (Inr y, s4)) = (Inl e, s') \<and> restored K L net d0 s')"
proof -
  obtain t where t: "pg_open (cs_storage s) = Some t" "tx_view t = d" using assms(3) by (auto simp: raw_view_def)
  obtain b st1 where call: "pg_call (cs_storage s) = (b, st1)" by fastforce
  have st1: "\<not> b" "True \<notin> set (pg_faults st1)" "pg_committed st1 = d0" "pg_ok st1"
    using pg_call_facts [OF call] pg_ok_call [OF _ call] assms(2) by (auto simp: in_tx_def)
  show ?thesis
  proof (cases "tx_aborted t")
    case True
    let ?s' = "s\<lparr>cs_storage := pg_discard t st1\<rparr>"
    have "store (Commit Tx) s = (Inl ErrTxAborted, ?s')" using True t call st1 by (simp add: store_def Commit_def)
    moreover obtain s' where "(rollback K ErrTxAborted Tx ?s' :: 'a result \<times> ClientSynchronizer) = (Inl ErrTxClosed, s')" "restored K L net d0 s'"
      using rollback_closed [OF assms(1), of ?s' "tx_view t" ErrTxAborted] assms(2) st1 pg_ok_discard [OF st1(4), of t]
      by (auto simp: in_tx_def pg_discard_def)
    ultimately show ?thesis by (intro disjI2) (simp add: guard_def)
  next
    case False
    have "pg_ok (st1\<lparr>pg_open := None, pg_committed := d\<rparr>)"
      using assms(2) t by (simp add: pg_ok_alt in_tx_def)
    thus ?thesis using False t call st1 assms(2) by (intro disjI1) (simp add: guard_def store_def Commit_def in_tx_def)
  qed
qed

section \<open>A block succeeds\<close>

text \<open>The leaves an event adds to the tree of its network.\<close>

definition leaf_of :: "keccak \<Rightarrow> Deposit \<Rightarrow> h256" where
  "leaf_of K p = (case HashDeposit K p of Inl _ \<Rightarrow> 0 | Inr h \<Rightarrow> h)"

definition event_leaves :: "keccak \<Rightarrow> event \<Rightarrow> h256 list" where
  "event_leaves K ev =
     (case ev of EvDeposit p \<Rightarrow> [leaf_of K p]
      | EvForward f \<Rightarrow> map (\<lambda>l. leaf_of K (leaf_deposit l 0 0 0 0 0)) (fl_NewLeaves f)
      | _ \<Rightarrow> [])"

definition in_step :: "keccak \<Rightarrow> (u32 \<Rightarrow> h256 list) \<Rightarrow> ClientSynchronizer \<Rightarrow> bool" where
  "in_step K L s \<longleftrightarrow> (\<exists>d. raw_view Tx (cs_storage s) = Some d \<and> ctrl_ok K d (cs_bridgeCtrl s) L)"

text \<open>The tree of the network has room for \<open>n\<close> leaves.\<close>

definition room :: "BridgeController \<Rightarrow> u32 \<Rightarrow> nat \<Rightarrow> bool" where
  "room bt net n \<longleftrightarrow> n < 2 ^ 32 \<and> (case exit_tree bt net of Inl e \<Rightarrow> True | Inr (i, mt) \<Rightarrow> n \<le> 2 ^ unat (mt_height mt))"

lemma room_forks: "forks net bt bt' \<Longrightarrow> room bt net' n \<Longrightarrow> room bt' net' n"
  by (auto simp: room_def exit_tree_def GetMerkleTreeID_def forks_def idx_def split: option.splits if_splits)

lemma room_has_room: "room bt net n \<Longrightarrow> length ls < n \<Longrightarrow> has_room bt net ls"
  by (auto simp: room_def has_room_def split: sum.splits)

lemma guard_InrD: "guard K tx m f = (Inr y, s') \<Longrightarrow> \<exists>x s1. m = (Inr x, s1) \<and> f x s1 = (Inr y, s')"
  by (auto simp: guard_def rollback_def split: prod.splits sum.splits if_splits)

lemma guard_InrE:
  assumes "guard K tx m f = (Inr y, s')"
  obtains x s1 where "m = (Inr x, s1)" and "f x s1 = (Inr y, s')"
  using guard_InrD [OF assms] by blast

lemma rollback_not_Inr [simp]: "rollback K e tx s \<noteq> (Inr y, s')"
  by (auto simp: rollback_def split: prod.splits sum.splits)

context block_call
begin

lemma in_step_store: "store f s = (x, s') \<Longrightarrow> in_step K L s \<Longrightarrow> in_step K L s'"
  by (drule quiet_store) (auto simp: in_step_def tx_quiet_def intro: ctrl_ok_tree_eq)

lemma guard_in_step:
  assumes "guard K Tx (store f s) g = (Inr y, s')" and "in_step K L s"
  obtains x s1 where "g x s1 = (Inr y, s')" and "in_step K L s1" and "cs_networkID s1 = cs_networkID s"
    and "cs_bridgeCtrl s1 = cs_bridgeCtrl s"
proof (rule guard_InrE [OF assms(1)])
  fix x s1
  assume m: "store f s = (Inr x, s1)" and g: "g x s1 = (Inr y, s')"
  show thesis using that [OF g in_step_store [OF m assms(2)]] quiet_store [OF m] by simp
qed

end

lemma add_deposit_in_step:
  assumes "in_step K L s" and "cs_networkID s = net" and "dep_NetworkID p = net" and "room (cs_bridgeCtrl s) net n"
    and "length (L net) < n" and "ids_ok (cs_bridgeCtrl s)"
    and run: "guard K Tx (store (AddDeposit p Tx) s) (\<lambda>depositID s1.
      guard K Tx (ctrl (\<lambda>bt. bc_AddDeposit pg_merkleTreeStore K bt (p\<lparr>dep_Id := depositID\<rparr>) Tx) s1) g) = (Inr y, s')"
  obtains u s2 where "g u s2 = (Inr y, s')" and "in_step K (L(net := L net @ [leaf_of K p])) s2" and "cs_networkID s2 = net"
    and "room (cs_bridgeCtrl s2) net n" and "ids_ok (cs_bridgeCtrl s2)"
proof -
  obtain i s1 where a: "store (AddDeposit p Tx) s = (Inr i, s1)"
    and g1: "guard K Tx (ctrl (\<lambda>bt. bc_AddDeposit pg_merkleTreeStore K bt (p\<lparr>dep_Id := i\<rparr>) Tx) s1) g = (Inr y, s')"
    by (rule guard_InrE [OF run])
  obtain u s2 where b: "ctrl (\<lambda>bt. bc_AddDeposit pg_merkleTreeStore K bt (p\<lparr>dep_Id := i\<rparr>) Tx) s1 = (Inr u, s2)"
    and g2: "g u s2 = (Inr y, s')" by (rule guard_InrE [OF g1])
  from a obtain st1 where st1: "AddDeposit p Tx (cs_storage s) = (Inr i, st1)" "s1 = s\<lparr>cs_storage := st1\<rparr>"
    by (auto simp: store_def split: prod.splits)
  from b obtain bt2 st2 where st2: "bc_AddDeposit pg_merkleTreeStore K (cs_bridgeCtrl s) (p\<lparr>dep_Id := i\<rparr>) Tx st1 = (Inr u, bt2, st2)"
    "s2 = s1\<lparr>cs_bridgeCtrl := bt2, cs_storage := st2\<rparr>" by (auto simp: ctrl_def st1(2) split: prod.splits)
  obtain d where d: "raw_view Tx (cs_storage s) = Some d" "ctrl_ok K d (cs_bridgeCtrl s) L" using assms(1) by (auto simp: in_step_def)
  have hr: "has_room (cs_bridgeCtrl s) (dep_NetworkID p) (L (dep_NetworkID p))"
    using room_has_room [OF assms(4,5)] assms(3) by simp
  obtain leaf d2 where l: "HashDeposit K p = Inr leaf" "raw_view Tx st2 = Some d2"
    "ctrl_ok K d2 bt2 (L(dep_NetworkID p := L (dep_NetworkID p) @ [leaf]))"
    by (rule ctrl_AddDeposit [OF d hr st1(1) st2(1)])
  have f: "forks net (cs_bridgeCtrl s) bt2" using bc_AddDeposit_forks [OF st2(1) assms(6)] assms(3) by simp
  show thesis
  proof (rule that [OF g2])
    show "in_step K (L(net := L net @ [leaf_of K p])) s2" using l assms(3) by (simp add: in_step_def st2(2) leaf_of_def)
    show "cs_networkID s2 = net" using assms(2) by (simp add: st2(2) st1(2))
    show "room (cs_bridgeCtrl s2) net n" using room_forks [OF f assms(4)] by (simp add: st2(2))
    show "ids_ok (cs_bridgeCtrl s2)" using ids_ok_forks [OF assms(6) f] by (simp add: st2(2))
  qed
qed

text \<open>What an event does to a state in step: the leaves it adds.\<close>

definition adds :: "keccak \<Rightarrow> u32 \<Rightarrow> nat \<Rightarrow> (u32 \<Rightarrow> h256 list) \<Rightarrow> h256 list \<Rightarrow> ClientSynchronizer \<Rightarrow> bool" where
  "adds K net n L ls s \<longleftrightarrow> in_step K (L(net := L net @ ls)) s \<and> cs_networkID s = net \<and>
     room (cs_bridgeCtrl s) net n \<and> ids_ok (cs_bridgeCtrl s)"

lemma leaf_of_fields: "leaf_fields p = leaf_fields q \<Longrightarrow> leaf_of K p = leaf_of K q"
  by (simp add: leaf_of_def HashDeposit_fields [of p q])

lemma adds_deposit:
  assumes "adds K net n L ls s" and "length (L net @ ls) < n" and "dep_NetworkID p = net"
    and "guard K Tx (store (AddDeposit p Tx) s) (\<lambda>depositID s1.
      guard K Tx (ctrl (\<lambda>bt. bc_AddDeposit pg_merkleTreeStore K bt (p\<lparr>dep_Id := depositID\<rparr>) Tx) s1) g) = (Inr y, s')"
  obtains u s2 where "g u s2 = (Inr y, s')" and "adds K net n L (ls @ [leaf_of K p]) s2"
proof -
  have a: "in_step K (L(net := L net @ ls)) s" "cs_networkID s = net" "room (cs_bridgeCtrl s) net n" "ids_ok (cs_bridgeCtrl s)"
    using assms(1) by (simp_all add: adds_def)
  show thesis
    by (rule add_deposit_in_step [OF a(1,2) assms(3) a(3) _ a(4) assms(4)])
       (use assms(2) that in \<open>simp_all add: adds_def\<close>)
qed

lemma processDeposit_adds:
  assumes "adds K net n L ls s" and "length (L net @ ls) < n" and "processDeposit K p i Tx s = (Inr y, s')"
  shows "adds K net n L (ls @ [leaf_of K p]) s'"
proof -
  let ?p = "p\<lparr>dep_BlockID := i, dep_NetworkID := cs_networkID s\<rparr>"
  have "dep_NetworkID ?p = net" using assms(1) by (simp add: adds_def)
  moreover have "leaf_of K ?p = leaf_of K p" by (rule leaf_of_fields) (simp add: leaf_fields_def)
  ultimately show ?thesis
    using adds_deposit [OF assms(1,2) _ assms(3) [unfolded processDeposit_def Let_def]] by (metis prod.inject)
qed

context block_call
begin

lemma adds_guard:
  assumes "guard K Tx (store f s) g = (Inr y, s')" and "adds K net n L ls s"
  obtains x s1 where "g x s1 = (Inr y, s')" and "adds K net n L ls s1"
proof (rule guard_InrE [OF assms(1)])
  fix x s1
  assume m: "store f s = (Inr x, s1)" and g: "g x s1 = (Inr y, s')"
  have "adds K net n L ls s1" using assms(2) in_step_store [OF m] quiet_store [OF m] by (simp add: adds_def)
  thus thesis using that g by blast
qed

lemma adds_last:
  assumes "guard K Tx (store f s) (\<lambda>_ s1. (Inr z, s1)) = (Inr y, s')" and "adds K net n L ls s"
  shows "adds K net n L ls s'"
  by (rule adds_guard [OF assms]) simp

end

lemma adds_check_state:
  assumes "check_state K root c b Tx s f = (Inr y, s')" and "adds K net n L ls s"
  obtains s1 where "f s1 = (Inr y, s')" and "adds K net n L ls s1"
proof -
  obtain c' s2 where 2: "guard K Tx (exit_root K Tx s2) (\<lambda>localExitTreeRoot s2.
      if localExitTreeRoot \<noteq> root \<or> c' \<noteq> c
      then rollback K (ErrMsg ''root or deposit count do not match with the current state'') Tx s2 else f s2) = (Inr y, s')"
    "adds K net n L ls s2"
    by (rule num_deposits.adds_guard [OF assms(1) [unfolded check_state_def] assms(2)])
  obtain r s3 where 3: "(if r \<noteq> root \<or> c' \<noteq> c
      then rollback K (ErrMsg ''root or deposit count do not match with the current state'') Tx s3 else f s3) = (Inr y, s')"
    "adds K net n L ls s3"
    by (rule exit_root_call.adds_guard [OF 2(1) [unfolded exit_root_def] 2(2)])
  show thesis by (rule that [of s3]) (use 3 in \<open>auto split: if_splits\<close>)
qed

lemma add_leaves_adds:
  "add_leaves K lds c i b h Tx s = (Inr y, s') \<Longrightarrow> adds K net n L ls s \<Longrightarrow> length (L net @ ls) + length lds \<le> n \<Longrightarrow>
     adds K net n L (ls @ map (\<lambda>l. leaf_of K (leaf_deposit l 0 0 0 0 0)) lds) s'"
proof (induction lds arbitrary: c s ls)
  case (Cons l lds)
  let ?p = "leaf_deposit l c i b (cs_networkID s) h"
  have net: "dep_NetworkID ?p = net" using Cons.prems(2) by (simp add: adds_def leaf_deposit_def)
  have eq: "leaf_of K ?p = leaf_of K (leaf_deposit l 0 0 0 0 0)"
    by (rule leaf_of_fields) (simp add: leaf_fields_def leaf_deposit_def)
  have len: "length (L net @ ls) < n" using Cons.prems(3) by simp
  obtain u s2 where 2: "add_leaves K lds (c + 1) i b h Tx s2 = (Inr y, s')" "adds K net n L (ls @ [leaf_of K ?p]) s2"
    by (rule adds_deposit [OF Cons.prems(2) len net Cons.prems(1) [unfolded add_leaves.simps Let_def]])
  show ?case using Cons.IH [OF 2] Cons.prems(3) by (simp add: eq)
qed simp

lemma update_gers_adds:
  "update_gers K gers roots Tx s = (Inr y, s') \<Longrightarrow> adds K net n L ls s \<Longrightarrow> adds K net n L ls s'"
proof (induction gers arbitrary: s)
  case (Cons g gers)
  show ?case by (rule update_ger.adds_guard [OF Cons.prems(1) [unfolded update_gers.simps] Cons.prems(2)]) (rule Cons.IH)
qed simp

lemma simple_adds:
  assumes "adds K net n L ls s"
  shows "processClaim K c i Tx s = (Inr y, s') \<Longrightarrow> adds K net n L ls s'"
    and "processTokenWrapped K decode t i Tx s = (Inr y, s') \<Longrightarrow> adds K net n L ls s'"
    and "processRemoveL2GlobalExitRoot K g i Tx s = (Inr y, s') \<Longrightarrow> adds K net n L ls s'"
  unfolding processClaim_def processTokenWrapped_def processRemoveL2GlobalExitRoot_def
  by (rule add_claim.adds_last [OF _ assms], assumption)
     (rule add_token.adds_last [OF _ assms], assumption, rule remove_ger.adds_last [OF _ assms], assumption)

lemma processUnsetClaim_adds:
  assumes "adds K net n L ls s" and "processUnsetClaimSovereign K u i Tx s = (Inr y, s')"
  shows "adds K net n L ls s'"
  by (rule unset_claim.adds_guard [OF assms(2) [unfolded processUnsetClaimSovereign_def] assms(1)])
     (rule delete_claim.adds_last)

lemma processSetClaim_adds:
  assumes "adds K net n L ls s" and "processSetClaimSovereign K c i b Tx s = (Inr y, s')"
  shows "adds K net n L ls s'"
  by (rule set_claim.adds_guard [OF assms(2) [unfolded processSetClaimSovereign_def] assms(1)],
      erule get_deposit.adds_guard, assumption)
     (auto split: if_splits elim: add_claim.adds_last)

lemma processVerifyBatch_adds:
  assumes "adds K net n L ls s" and "processVerifyBatch K v i Tx s = (Inr y, s')"
  shows "adds K net n L ls s'"
proof (cases "vb_LocalExitRoot v = 0")
  case False
  show ?thesis
  proof (cases "vb_RollupID v \<in> set (cs_allNetworkIDs s)")
    case True
    with assms(2) False have "guard K Tx (store (CheckIfRootExists (vb_LocalExitRoot v) (vb_RollupID v) Tx) s) (\<lambda>ok s1.
          if \<not> ok then rollback K (ErrMsg ''root does not exist'') Tx s1
          else guard K Tx (store (AddRollupExitLeaf pg_merkleTreeStore K (cs_bridgeCtrl s1)
                      \<lparr>rel_ID = 0, rel_BlockID = i, rel_Leaf = vb_LocalExitRoot v,
                       rel_RollupId = vb_RollupID v, rel_Root = 0\<rparr> Tx) s1) (\<lambda>_ s2. (Inr (), s2))) = (Inr y, s')"
      by (simp add: processVerifyBatch_def Let_def)
    thus ?thesis
    proof (rule root_exists.adds_guard [OF _ assms(1)])
      fix ok s1
      let ?add = "guard K Tx (store (AddRollupExitLeaf pg_merkleTreeStore K (cs_bridgeCtrl s1)
                      \<lparr>rel_ID = 0, rel_BlockID = i, rel_Leaf = vb_LocalExitRoot v,
                       rel_RollupId = vb_RollupID v, rel_Root = 0\<rparr> Tx) s1) (\<lambda>_ s2. (Inr (), s2))"
      assume a: "(if \<not> ok then rollback K (ErrMsg ''root does not exist'') Tx s1 else ?add) = (Inr y, s')"
        and s1: "adds K net n L ls s1"
      have "?add = (Inr y, s')" using a by (cases ok) simp_all
      thus ?thesis using s1 by (rule rollup_leaf.adds_last)
    qed
  next
    case not: False
    with assms(2) False have "guard K Tx (store (AddRollupExitLeaf pg_merkleTreeStore K (cs_bridgeCtrl s)
                      \<lparr>rel_ID = 0, rel_BlockID = i, rel_Leaf = vb_LocalExitRoot v,
                       rel_RollupId = vb_RollupID v, rel_Root = 0\<rparr> Tx) s) (\<lambda>_ s2. (Inr (), s2)) = (Inr y, s')"
      by (simp add: processVerifyBatch_def Let_def)
    thus ?thesis using assms(1) by (rule rollup_leaf.adds_last)
  qed
qed (use assms in \<open>simp add: processVerifyBatch_def\<close>)

lemma processForwardLET_adds:
  assumes "adds K net n L ls s" and "processForwardLETSovereign K f i b Tx s = (Inr y, s')"
    and "length (L net @ ls) + length (fl_NewLeaves f) \<le> n"
  shows "adds K net n L (ls @ map (\<lambda>l. leaf_of K (leaf_deposit l 0 0 0 0 0)) (fl_NewLeaves f)) s'"
proof -
  let ?rest = "\<lambda>c s2. case add_leaves K (fl_NewLeaves f) c i b (fl_TxHash f) Tx s2 of
        (Inl e, s3) \<Rightarrow> (Inl e, s3)
      | (Inr _, s3) \<Rightarrow> check_state K (fl_NewRoot f) (fl_NewDepositCount f) b Tx s3 (\<lambda>s4.
          guard K Tx (store (AddForwardLET (f\<lparr>fl_BlockID := i\<rparr>) Tx) s4) (\<lambda>_ s5. (Inr (), s5)))"
  obtain s1 where 1: "guard K Tx (store (GetNumberDeposits (cs_networkID s1) b Tx) s1) ?rest = (Inr y, s')" "adds K net n L ls s1"
    by (rule adds_check_state [OF assms(2) [unfolded processForwardLETSovereign_def] assms(1)])
  obtain c s2 where 2: "?rest c s2 = (Inr y, s')" "adds K net n L ls s2" by (rule num_deposits.adds_guard [OF 1])
  obtain z s3 where l: "add_leaves K (fl_NewLeaves f) c i b (fl_TxHash f) Tx s2 = (z, s3)" by fastforce
  then obtain u where z: "z = Inr u" using 2(1) by (cases z) auto
  have 3: "adds K net n L (ls @ map (\<lambda>l. leaf_of K (leaf_deposit l 0 0 0 0 0)) (fl_NewLeaves f)) s3"
    by (rule add_leaves_adds [OF l [unfolded z] 2(2) assms(3)])
  have "check_state K (fl_NewRoot f) (fl_NewDepositCount f) b Tx s3 (\<lambda>s4.
          guard K Tx (store (AddForwardLET (f\<lparr>fl_BlockID := i\<rparr>) Tx) s4) (\<lambda>_ s5. (Inr (), s5))) = (Inr y, s')"
    using 2(1) l z by simp
  from adds_check_state [OF this 3] show ?thesis by (metis forward_let.adds_last)
qed

lemma processGER_adds:
  assumes "adds K net n L ls s" and "processGlobalExitRoot K g i Tx s = (Inr y, s')"
  shows "adds K net n L ls s'"
proof (cases "length (ger_ExitRoots g) = 2")
  case True
  obtain x s1 where q: "store (GetL2ExitRootsByGER (ger_GlobalExitRoot g) NoTx) s = (x, s1)" by fastforce
  have s1: "adds K net n L ls s1"
    using assms(1) l2_gers.in_step_store [OF q] l2_gers.quiet_store [OF q] by (simp add: adds_def)
  let ?add = "\<lambda>s2. guard K Tx (store (AddGlobalExitRoot (g\<lparr>ger_BlockID := i, ger_NetworkID := cs_networkID s\<rparr>) Tx) s2) (\<lambda>_ s3. (Inr (), s3))"
  have "guard K Tx (if x = Inl ErrStorageNotFound then Inr [] else x, s1) (\<lambda>gers s1.
      case update_gers K gers (ger_ExitRoots g) Tx s1 of (Inl e, s2) \<Rightarrow> (Inl e, s2) | (Inr _, s2) \<Rightarrow> ?add s2) = (Inr y, s')"
    using assms(2) True q by (cases x) (auto simp: processGlobalExitRoot_def Let_def)
  then obtain gers where u: "(case update_gers K gers (ger_ExitRoots g) Tx s1 of (Inl e, s2) \<Rightarrow> (Inl e, s2) | (Inr _, s2) \<Rightarrow> ?add s2) = (Inr y, s')"
    by (rule guard_InrE) simp
  obtain z s2 where z: "update_gers K gers (ger_ExitRoots g) Tx s1 = (z, s2)" by fastforce
  then obtain u' where z': "z = Inr u'" using u by (cases z) auto
  have "?add s2 = (Inr y, s')" using u z z' by simp
  thus ?thesis using update_gers_adds [OF z [unfolded z'] s1] by (rule add_ger.adds_last)
next
  case False
  obtain x s1 where q: "store (GetL1ExitRootByGER (ger_GlobalExitRoot g) NoTx) s = (x, s1)" by fastforce
  have s1: "adds K net n L ls s1"
    using assms(1) l1_ger.in_step_store [OF q] l1_ger.quiet_store [OF q] by (simp add: adds_def)
  let ?add = "\<lambda>roots s1. guard K Tx (store (AddGlobalExitRoot (g\<lparr>ger_BlockID := i, ger_NetworkID := cs_networkID s,
      ger_ExitRoots := roots\<rparr>) Tx) s1) (\<lambda>_ s3. (Inr (), s3))"
  have "guard K Tx (if x = Inl ErrStorageNotFound then Inr [] else map_sum id ger_ExitRoots x, s1) ?add = (Inr y, s')"
    using assms(2) False q by (cases x) (auto simp: processGlobalExitRoot_def Let_def split: if_splits)
  then obtain roots where "?add roots s1 = (Inr y, s')" by (rule guard_InrE) simp
  thus ?thesis using s1 by (rule add_ger.adds_last)
qed

lemma process_event_adds:
  assumes "process_event K decode i b Tx ev s = (Inr y, s')" and "adds K net n L ls s"
    and "length (L net @ ls @ event_leaves K ev) \<le> n" and "\<And>x. ev \<noteq> EvBackward x"
  shows "adds K net n L (ls @ event_leaves K ev) s'"
proof (cases ev)
  case (EvGER g)
  thus ?thesis using assms processGER_adds by (auto simp: process_event_def event_leaves_def)
next
  case (EvDeposit p)
  thus ?thesis using assms processDeposit_adds [OF assms(2)] by (auto simp: process_event_def event_leaves_def)
next
  case (EvForward f)
  thus ?thesis using assms processForwardLET_adds [OF assms(2)] by (auto simp: process_event_def event_leaves_def)
next
  case (EvBatch v)
  thus ?thesis using assms processVerifyBatch_adds by (auto simp: process_event_def event_leaves_def)
next
  case (EvSet c)
  thus ?thesis using assms processSetClaim_adds by (auto simp: process_event_def event_leaves_def)
next
  case (EvUnset u)
  thus ?thesis using assms processUnsetClaim_adds by (auto simp: process_event_def event_leaves_def)
qed (use assms simple_adds [OF assms(2)] in \<open>auto simp: process_event_def event_leaves_def\<close>)

lemma process_elements_adds:
  "process_elements K decode b i Tx els flags s = (Inr y, s') \<Longrightarrow> adds K net n L ls s \<Longrightarrow>
     map (event_at b) els = map Inr evs \<Longrightarrow> length (L net @ ls @ concat (map (event_leaves K) evs)) \<le> n \<Longrightarrow>
     \<forall>ev\<in>set evs. \<forall>x. ev \<noteq> EvBackward x \<Longrightarrow> adds K net n L (ls @ concat (map (event_leaves K) evs)) s'"
proof (induction els arbitrary: s flags ls evs)
  case (Cons el els)
  then obtain ev evs' where evs: "evs = ev # evs'" "event_at b el = Inr ev" "map (event_at b) els = map Inr evs'"
    by (cases evs) auto
  obtain z s1 where p: "process_event K decode i (blk_BlockNumber b) Tx ev s = (z, s1)" by fastforce
  then obtain u where z: "z = Inr u" using Cons.prems(1) evs(2) by (cases z) auto
  have "adds K net n L (ls @ event_leaves K ev) s1"
    by (rule process_event_adds [OF p [unfolded z] Cons.prems(2)]) (use Cons.prems(4,5) evs(1) in auto)
  moreover have "process_elements K decode b i Tx els (ger_flags ev flags) s1 = (Inr y, s')"
    using Cons.prems(1) evs(2) p z by simp
  ultimately show ?case using Cons.IH [OF _ _ evs(3), of "ger_flags ev flags" s1 "ls @ event_leaves K ev"] Cons.prems(4,5) evs(1)
    by simp
qed simp

lemma events_well_formed_elements:
  "events_well_formed b order \<Longrightarrow>
     list_all (\<lambda>el. case event_at b el of Inl _ \<Rightarrow> False | Inr ev \<Rightarrow> ger_event_ok ev) (order (blk_BlockHash b))"
  by (simp add: events_well_formed_def block_events_def list.pred_map comp_def)

text \<open>The start of a block, as far as its elements.\<close>

lemma process_block_start:
  assumes "at_rest K L net s" and "rht_ok (pg_committed (cs_storage s))"
  shows "(\<exists>e s'. process_block K decode order b flags s = (Inl e, s') \<and> (e = GoPanic \<or> restored K L net (pg_committed (cs_storage s)) s')) \<or>
    (\<exists>i s2. in_tx net (pg_committed (cs_storage s)) (cs_bridgeCtrl s) s2 \<and> in_step K L s2 \<and> cs_bridgeCtrl s2 = cs_bridgeCtrl s \<and>
       process_block K decode order b flags s =
         (case process_elements K decode b i Tx (order (blk_BlockHash b)) flags s2 of
             (Inl e, s3) \<Rightarrow> (Inl e, s3)
           | (Inr flags', s3) \<Rightarrow> guard K Tx (store (Commit Tx) s3) (\<lambda>_ s4. (Inr flags', s4))))"
proof -
  obtain s1 where s1: "store BeginDBTransaction s = (Inr Tx, s1)" "cs_networkID s1 = net"
    "in_tx net (pg_committed (cs_storage s)) (cs_bridgeCtrl s) s1"
    "start_ok K L net (pg_committed (cs_storage s)) (cs_bridgeCtrl s)"
    "cs_bridgeCtrl s1 = cs_bridgeCtrl s" "raw_view Tx (cs_storage s1) = Some (pg_committed (cs_storage s))"
    by (rule begin_in_tx [OF assms])
  have step1: "in_step K L s1" using s1(5,6) assms(1) by (simp add: in_step_def at_rest_def)
  obtain x s2 where a: "store (AddBlock (b\<lparr>blk_NetworkID := cs_networkID s1\<rparr>) Tx) s1 = (x, s2)" by fastforce
  note in2 = add_block.in_tx_store [OF a s1(3)] and step2 = add_block.in_step_store [OF a step1]
  show ?thesis
  proof (cases x)
    case (Inl e)
    obtain s' where r: "(rollback K e Tx s2 :: (bool \<times> bool) result \<times> ClientSynchronizer) = (Inl e, s')"
      "restored K L net (pg_committed (cs_storage s)) s'" using rollback_restores [OF s1(4) in2] by blast
    have "process_block K decode order b flags s = (if e = GoPanic then (Inl e, s2) else rollback K e Tx s2)"
      using s1(1) a Inl by (simp add: process_block_def guard_def)
    thus ?thesis using r by (intro disjI1) (cases "e = GoPanic"; simp)
  next
    case (Inr i)
    have "process_block K decode order b flags s = (case process_elements K decode b i Tx (order (blk_BlockHash b)) flags s2 of
             (Inl e, s3) \<Rightarrow> (Inl e, s3)
           | (Inr flags', s3) \<Rightarrow> guard K Tx (store (Commit Tx) s3) (\<lambda>_ s4. (Inr flags', s4)))"
      using s1(1) a Inr by (simp add: process_block_def guard_def)
    moreover have "cs_bridgeCtrl s2 = cs_bridgeCtrl s" using add_block.quiet_store [OF a] s1(5) by simp
    ultimately show ?thesis using in2 step2 by blast
  qed
qed

section \<open>Properties\<close>


text \<open>C18. A block that is stored moves the trees on by exactly its deposits.  When a block without removal
  of leaves is stored, the transaction is closed and the controller is in step with the committed
  database again, where the tree of the network has gained the leaves of the deposits and of the forwarded
  leaves of the block, in the order of its events, and no other tree has changed.\<close>

theorem stored_block_adds_leaves:
  assumes "at_rest K L net s" and "rht_ok (pg_committed (cs_storage s))" and "events_well_formed b order"
    and "block_events b order = map Inr evs" and "\<forall>ev\<in>set evs. \<forall>x. ev \<noteq> EvBackward x"
    and "room (cs_bridgeCtrl s) net (length (L net @ concat (map (event_leaves K) evs)))"
    and "process_block K decode order b flags s = (Inr flags', s')"
  shows "at_rest K (L(net := L net @ concat (map (event_leaves K) evs))) net s'"
proof -
  let ?d0 = "pg_committed (cs_storage s)" and ?n = "length (L net @ concat (map (event_leaves K) evs))"
  have start: "start_ok K L net ?d0 (cs_bridgeCtrl s)" by (rule begin_in_tx [OF assms(1,2)])
  obtain i s2 where 2: "in_tx net ?d0 (cs_bridgeCtrl s) s2" "in_step K L s2" "cs_bridgeCtrl s2 = cs_bridgeCtrl s"
    "(case process_elements K decode b i Tx (order (blk_BlockHash b)) flags s2 of (Inl e, s3) \<Rightarrow> (Inl e, s3)
      | (Inr flags', s3) \<Rightarrow> guard K Tx (store (Commit Tx) s3) (\<lambda>_ s4. (Inr flags', s4))) = (Inr flags', s')"
    using process_block_start [OF assms(1,2), of decode order b flags] assms(7) by auto
  obtain x s3 where el: "process_elements K decode b i Tx (order (blk_BlockHash b)) flags s2 = (x, s3)" by fastforce
  then obtain fl where x: "x = Inr fl" using 2(4) by (cases x) auto
  have in3: "in_tx net ?d0 (cs_bridgeCtrl s) s3"
    using process_elements_outcome [OF start 2(1) events_well_formed_elements [OF assms(3)], of decode i flags] el x by simp
  have "adds K net ?n L [] s2"
    using 2 assms(6) in_tx_ids [OF start 2(1)] by (simp add: adds_def in_tx_def)
  from process_elements_adds [OF el [unfolded x] this, of evs] assms(4,5)
  have a3: "adds K net ?n L (concat (map (event_leaves K) evs)) s3" by (simp add: block_events_def)
  then obtain d where d: "raw_view Tx (cs_storage s3) = Some d"
    "ctrl_ok K d (cs_bridgeCtrl s3) (L(net := L net @ concat (map (event_leaves K) evs)))" by (auto simp: adds_def in_step_def)
  have dom: "net \<in> dom (bc_merkleTreeIDs (cs_bridgeCtrl s3))" using in3 start by (simp add: in_tx_def start_ok_def forks_def)
  from commit_outcome [OF start in3 d(1), of fl] d(2) dom show ?thesis using 2(4) el x by (auto simp: at_rest_def)
qed

text \<open>A synchroniser of L1 that has stored nothing yet, and blocks with one deposit.\<close>

definition sample_sync :: ClientSynchronizer where
  "sample_sync = \<lparr>cs_bridgeCtrl = sample_ctrl, cs_storage = pg_init, cs_genBlockNumber = 0, cs_SyncInterval = 1,
     cs_SyncChunkSize = 10, cs_networkID = 0, cs_chExitRootEventL2 = None, cs_chsExitRootEvent = [[]], cs_chSynced = [],
     cs_synced = False, cs_l1RollupExitRoot = 0, cs_allNetworkIDs = [0], cs_sovereignChain = False,
     cs_forceSyncChunk = False, cs_waitDuration = 0, cs_initialRemainingBlocks = 0\<rparr>"

definition deposit_block :: "u32 \<Rightarrow> Block" where
  "deposit_block cnt = (mk_block 0 7 3 0)\<lparr>blk_Deposits := [sample_deposit\<lparr>dep_DepositCount := cnt\<rparr>]\<rparr>"

definition deposit_order :: blocksOrder where
  "deposit_order h = [\<lparr>ord_Name = DepositsOrder, ord_Pos = 0\<rparr>]"

lemma sample_sync_at_rest: "at_rest (\<lambda>_. 9) (\<lambda>_. []) 0 sample_sync"
  using sample_ctrl_ok pg_ok_init by (simp add: at_rest_def sample_sync_def pg_init_def sample_ctrl_def)

lemma sample_sync_rht: "rht_ok (pg_committed (cs_storage sample_sync))"
  using rht_ok_empty by (simp add: sample_sync_def committed_init)

lemma sample_well_formed: "events_well_formed (deposit_block c) deposit_order"
  "block_events (deposit_block c) deposit_order = map Inr [EvDeposit (sample_deposit\<lparr>dep_DepositCount := c\<rparr>)]"
  by (simp_all add: events_well_formed_def block_events_def deposit_block_def deposit_order_def event_at_def idx_def
      mk_block_def ger_event_ok_def)

lemmas block_run = process_block_def store_def BeginDBTransaction_def AddBlock_def guard_def processDeposit_def
  process_event_def ger_flags_def event_at_def mk_block_def AddDeposit_def ctrl_def Commit_def block_ref_def sample_ctrl_def
  nth_zeroHashes_0 new_deposit_row_def Deposit.defs pg_run tree_run ctrl_run

lemma sample_block_stored:
  "fst (process_block (\<lambda>_. 9) decode deposit_order (deposit_block 0) (False, False) sample_sync) = Inr (False, False)"
  by (simp add: sample_sync_def deposit_block_def deposit_order_def sample_deposit_def block_run)

theorem stored_block_adds_leaves_witness:
  "\<exists>s'. process_block (\<lambda>_. 9) (\<lambda>_. Inl ErrIO) deposit_order (deposit_block 0) (False, False) sample_sync = (Inr (False, False), s') \<and>
     at_rest (\<lambda>_. 9) ((\<lambda>_. [])(0 := [9])) 0 s'"
proof -
  obtain s' where run: "process_block (\<lambda>_. 9) (\<lambda>_. Inl ErrIO) deposit_order (deposit_block 0) (False, False) sample_sync = (Inr (False, False), s')"
    using sample_block_stored [of "\<lambda>_. Inl ErrIO"] by (metis prod.collapse)
  have l: "concat (map (event_leaves (\<lambda>_. 9)) [EvDeposit (sample_deposit\<lparr>dep_DepositCount := 0\<rparr>)]) = [9]"
    by (simp add: event_leaves_def leaf_of_def HashDeposit_def deposit_preimage_def FillBytes32_def sample_deposit_def)
  have "room (cs_bridgeCtrl sample_sync) 0 1" by (simp add: room_def sample_sync_def ctrl_run sample_ctrl_def idx_def)
  thus ?thesis
    using run stored_block_adds_leaves [OF sample_sync_at_rest sample_sync_rht sample_well_formed _ _ run] unfolding l by auto
qed

lemma sample_block_fails:
  "fst (process_block (\<lambda>_. 9) decode deposit_order (deposit_block 5) (False, False) sample_sync) =
     Inl (ErrMsg ''mismatched deposit count'')"
  by (simp add: sample_sync_def deposit_block_def deposit_order_def sample_deposit_def rollback_def RollbackMT_def
      rollbackMT_def stored_count_def GetLastDepositCount_def setSiblings_def initSiblings_def Rollback_def block_run)


lemma process_elements_append:
  "process_elements K decode b i tx (els @ els') flags s =
     (case process_elements K decode b i tx els flags s of
        (Inl e, s1) \<Rightarrow> (Inl e, s1) | (Inr flags1, s1) \<Rightarrow> process_elements K decode b i tx els' flags1 s1)"
  by (induction els arbitrary: flags s) (auto split: sum.splits prod.splits)

text \<open>C22. An element of the order whose event is missing ends the block without any rollback: when the
  elements before it would have been stored, the error comes back with the transaction still open, the
  committed database as it was, and the tree in memory ahead of it by the leaves of those elements.\<close>

theorem missing_event_leaves_tree_ahead:
  assumes "at_rest K L net s" and "rht_ok (pg_committed (cs_storage s))"
    and "order (blk_BlockHash b) = els @ el # rest" and "event_at b el = Inl x"
    and "map (event_at b) els = map Inr evs" and "\<forall>ev\<in>set evs. ger_event_ok ev \<and> (\<forall>x. ev \<noteq> EvBackward x)"
    and "room (cs_bridgeCtrl s) net (length (L net @ concat (map (event_leaves K) evs)))"
    and "process_block K decode (\<lambda>_. els) b flags s = (Inr flags', s0)"
  shows "\<exists>s'. process_block K decode order b flags s = (Inl (ErrMsg ''messy events were received from the RPC''), s') \<and>
    pg_open (cs_storage s') \<noteq> None \<and> pg_committed (cs_storage s') = pg_committed (cs_storage s) \<and>
    in_step K (L(net := L net @ concat (map (event_leaves K) evs))) s'"
proof -
  let ?d0 = "pg_committed (cs_storage s)" and ?n = "length (L net @ concat (map (event_leaves K) evs))"
  have start: "start_ok K L net ?d0 (cs_bridgeCtrl s)" by (rule begin_in_tx [OF assms(1,2)])
  obtain s1 where s1: "store BeginDBTransaction s = (Inr Tx, s1)" "in_tx net ?d0 (cs_bridgeCtrl s) s1"
    "cs_bridgeCtrl s1 = cs_bridgeCtrl s" "raw_view Tx (cs_storage s1) = Some ?d0"
    by (rule begin_in_tx [OF assms(1,2)])
  have step1: "in_step K L s1" using s1(3,4) assms(1) by (simp add: in_step_def at_rest_def)
  obtain y s2 where a: "store (AddBlock (b\<lparr>blk_NetworkID := cs_networkID s1\<rparr>) Tx) s1 = (y, s2)" by fastforce
  have "\<exists>i. y = Inr i"
  proof (cases y)
    case (Inl e)
    hence "process_block K decode (\<lambda>_. els) b flags s = (if e = GoPanic then (Inl e, s2) else rollback K e Tx s2)"
      using s1(1) a by (simp add: process_block_def guard_def)
    thus ?thesis using assms(8) rollback_not_Inr by (metis Inl_Inr_False prod.inject)
  qed simp
  then obtain i where y: "y = Inr i" by blast
  note in2 = add_block.in_tx_store [OF a s1(2)] and step2 = add_block.in_step_store [OF a step1]
  obtain z s3 where el: "process_elements K decode b i Tx els flags s2 = (z, s3)" by fastforce
  then obtain fl where z: "z = Inr fl"
    using assms(8) s1(1) a y by (cases z) (auto simp: process_block_def guard_def)
  have wf: "list_all (\<lambda>el. case event_at b el of Inl _ \<Rightarrow> False | Inr ev \<Rightarrow> ger_event_ok ev) els"
    unfolding list_all_iff
  proof
    fix el' assume "el' \<in> set els"
    hence "event_at b el' \<in> Inr ` set evs" using arg_cong [OF assms(5), of set] by auto
    thus "case event_at b el' of Inl _ \<Rightarrow> False | Inr ev \<Rightarrow> ger_event_ok ev" using assms(6) by auto
  qed
  have in3: "in_tx net ?d0 (cs_bridgeCtrl s) s3"
    using process_elements_outcome [OF start in2 wf, of decode i flags] el z by simp
  have "adds K net ?n L [] s2"
    using in2 step2 assms(7) in_tx_ids [OF start in2] add_block.quiet_store [OF a] s1(3) by (simp add: adds_def in_tx_def)
  from process_elements_adds [OF el [unfolded z] this assms(5)] assms(6)
  have "in_step K (L(net := L net @ concat (map (event_leaves K) evs))) s3" by (simp add: adds_def)
  moreover have "process_block K decode order b flags s = (Inl (ErrMsg ''messy events were received from the RPC''), s3)"
    using s1(1) a y el z assms(3,4) by (simp add: process_block_def guard_def process_elements_append)
  ultimately show ?thesis using in3 by (auto simp: in_tx_def)
qed

definition messy_order :: blocksOrder where
  "messy_order h = [\<lparr>ord_Name = DepositsOrder, ord_Pos = 0\<rparr>, \<lparr>ord_Name = DepositsOrder, ord_Pos = 1\<rparr>]"

theorem missing_event_leaves_tree_ahead_witness:
  "\<exists>s'. process_block (\<lambda>_. 9) (\<lambda>_. Inl ErrIO) messy_order (deposit_block 0) (False, False) sample_sync =
      (Inl (ErrMsg ''messy events were received from the RPC''), s') \<and>
    pg_open (cs_storage s') \<noteq> None \<and> pg_committed (cs_storage s') = empty_db \<and> in_step (\<lambda>_. 9) ((\<lambda>_. [])(0 := [9])) s'"
proof -
  let ?el = "\<lparr>ord_Name = DepositsOrder, ord_Pos = 0\<rparr>" and ?p = "sample_deposit\<lparr>dep_DepositCount := 0\<rparr>"
  obtain s' where run: "process_block (\<lambda>_. 9) (\<lambda>_. Inl ErrIO) deposit_order (deposit_block 0) (False, False) sample_sync = (Inr (False, False), s')"
    using sample_block_stored [of "\<lambda>_. Inl ErrIO"] by (metis prod.collapse)
  have order: "deposit_order = (\<lambda>_. [?el])" by (auto simp: deposit_order_def)
  have l: "concat (map (event_leaves (\<lambda>_. 9)) [EvDeposit ?p]) = [9]"
    by (simp add: event_leaves_def leaf_of_def HashDeposit_def deposit_preimage_def FillBytes32_def sample_deposit_def)
  have r: "room (cs_bridgeCtrl sample_sync) 0 (length ([] @ concat (map (event_leaves (\<lambda>_. 9)) [EvDeposit ?p])))"
    unfolding l by (simp add: room_def sample_sync_def ctrl_run sample_ctrl_def idx_def)
  have "\<exists>s'. process_block (\<lambda>_. 9) (\<lambda>_. Inl ErrIO) messy_order (deposit_block 0) (False, False) sample_sync =
      (Inl (ErrMsg ''messy events were received from the RPC''), s') \<and>
    pg_open (cs_storage s') \<noteq> None \<and> pg_committed (cs_storage s') = pg_committed (cs_storage sample_sync) \<and>
    in_step (\<lambda>_. 9) ((\<lambda>_. [])(0 := [] @ concat (map (event_leaves (\<lambda>_. 9)) [EvDeposit ?p]))) s'"
    by (rule missing_event_leaves_tree_ahead [OF sample_sync_at_rest sample_sync_rht _ _ _ _ r run [unfolded order],
          of _ "\<lparr>ord_Name = DepositsOrder, ord_Pos = 1\<rparr>" "[]" GoPanic])
       (simp_all add: messy_order_def deposit_block_def event_at_def mk_block_def idx_def ger_event_ok_def)
  thus ?thesis unfolding l by (simp add: sample_sync_def committed_init)
qed

section \<open>The rollback returns\<close>

text \<open>A retry that found the server in the same state as the attempt before it.\<close>

lemma pg_call_length: "pg_call st = (b, st') \<Longrightarrow> length (pg_faults st') < length (pg_faults st) \<or> pg_faults st = [] \<and> st' = st"
  by (auto simp: pg_call_def split: list.splits)

lemma pg_query_length: "pg_query tx f st = (x, st') \<Longrightarrow> pg_faults st \<noteq> [] \<Longrightarrow> length (pg_faults st') < length (pg_faults st)"
  by (cases "pg_call st")
     (auto simp: pg_query_def pg_abort_def split: bool.splits sum.splits dbTx.splits dest!: pg_call_length)

lemma GetLastDepositCount_length:
  "GetLastDepositCount net tx st = (x, st') \<Longrightarrow> pg_faults st \<noteq> [] \<Longrightarrow> length (pg_faults st') < length (pg_faults st)"
  by (auto simp: GetLastDepositCount_def split: prod.splits sum.splits if_splits dest: pg_query_length)

lemma RollbackMT_length:
  assumes "RollbackMT pg_merkleTreeStore K bt net NoTx st = (x, bt', st')" and "exit_tree bt net = Inr (i, mt)"
    and "pg_faults st \<noteq> []"
  shows "length (pg_faults st') < length (pg_faults st)"
proof -
  obtain mt' where run: "rollbackMT pg_merkleTreeStore K mt net NoTx st = (x, mt', st')"
    using assms(1,2) by (auto simp: RollbackMT_def on_exit_tree_def split: prod.splits)
  obtain y st1 where c: "stored_count pg_merkleTreeStore net st = (y, st1)" by fastforce
  have 1: "length (pg_faults st1) < length (pg_faults st)"
    using c assms(3) by (auto simp: stored_count_def pg_merkleTreeStore_def split: prod.splits sum.splits dest: GetLastDepositCount_length)
  show ?thesis
  proof (cases y)
    case (Inr n)
    hence "setSiblings pg_merkleTreeStore K (mt\<lparr>mt_count := n\<rparr>) NoTx st1 = (x, mt', st')" using run c by (simp add: rollbackMT_def)
    from setSiblings_quiet [OF this] 1 show ?thesis by (simp add: tx_quiet_def tx_step_def)
  qed (use run c 1 in \<open>simp add: rollbackMT_def\<close>)
qed

lemma exit_tree_forks:
  assumes "ctrl_ok K d bt0 L" and "net \<in> dom (bc_merkleTreeIDs bt0)" and "forks net bt0 bt"
  shows "\<exists>i mt. exit_tree bt net = Inr (i, mt)"
proof -
  obtain tID where id: "bc_merkleTreeIDs bt0 net = Some tID" using assms(2) by blast
  show ?thesis using ctrl_okD(1) [OF assms(1) id] id assms(3) by (simp add: exit_tree_def GetMerkleTreeID_def forks_def idx_def)
qed

lemma rollback_trees_returns:
  assumes "start_ok K L net d bt0"
  shows "forks net bt0 bt \<Longrightarrow> pg_committed st = d \<Longrightarrow> fst (rollback_trees K net bt st) \<noteq> Inl ErrNoReturn"
proof (induction "length (pg_faults st)" arbitrary: bt st rule: less_induct)
  case less
  obtain i mt where et: "exit_tree bt net = Inr (i, mt)" using exit_tree_forks less.prems(1) assms by (metis start_ok_def)
  have ids: "ids_ok bt" using assms ids_ok_forks [OF ctrl_ok_ids less.prems(1)] unfolding start_ok_def by blast
  obtain x bt' st' where r: "RollbackMT pg_merkleTreeStore K bt net NoTx st = (x, bt', st')" by (metis prod_cases3)
  show ?case
  proof (cases "pg_faults st = []")
    case True
    hence "True \<notin> set (pg_faults st)" by simp
    then obtain bt2 st2 where "rollback_trees K net bt st = (Inr (), bt2, st2)"
      by (rule rollback_trees_ok [OF assms less.prems]) blast
    thus ?thesis by (simp del: rollback_trees.simps)
  next
    case False
    note len = RollbackMT_length [OF r et False]
    have f: "forks net bt0 bt'" by (rule forks_trans [OF less.prems(1) RollbackMT_forks [OF r ids]])
    have c: "pg_committed st' = d" using tx_quiet_step [OF RollbackMT_quiet [OF r]] less.prems(2) by (simp add: tx_step_def)
    show ?thesis using less.hyps [OF len f c] r len
      by (cases x) (simp_all add: rollback_trees.simps [of K net bt st] del: rollback_trees.simps)
  qed
qed

text \<open>C19. The retry loop of the rollback ends.  Whichever calls to the server fail, and whatever the open
  transaction is in: as long as the committed database holds the rows of the trees and the network is
  registered, rolling back returns.\<close>

theorem rollback_returns:
  assumes "start_ok K L net (pg_committed (cs_storage s)) bt0" and "forks net bt0 (cs_bridgeCtrl s)"
    and "cs_networkID s = net" and "e \<noteq> ErrNoReturn"
  shows "fst (rollback K e tx s :: 'a result \<times> ClientSynchronizer) \<noteq> Inl ErrNoReturn"
proof -
  obtain x bt' st' where r: "rollback_trees K net (cs_bridgeCtrl s) (cs_storage s) = (x, bt', st')" by (metis prod_cases3)
  have x: "x \<noteq> Inl ErrNoReturn" using rollback_trees_returns [OF assms(1,2) refl] r by simp
  have rb: "fst (Rollback tx st') \<noteq> Inl ErrNoReturn"
    by (auto simp: Rollback_def split: dbTx.splits option.splits prod.splits bool.splits)
  show ?thesis using r x rb assms(3,4)
    by (cases x) (auto simp: rollback_def ctrl_def store_def split: prod.splits sum.splits)
qed

theorem rollback_returns_witness:
  "fst (rollback (\<lambda>_. 9) ErrUnique Tx (sample_sync\<lparr>cs_storage := pg_init\<lparr>pg_faults := [True, False, True]\<rparr>\<rparr>) :: unit result \<times> ClientSynchronizer)
     \<noteq> Inl ErrNoReturn"
  by (rule rollback_returns [of _ "\<lambda>_. []" 0 _ sample_ctrl])
     (use sample_sync_at_rest sample_sync_rht db_ok_empty in \<open>simp_all add: start_ok_def at_rest_def sample_sync_def committed_init\<close>)

section \<open>Finding the last common block\<close>

text \<open>A node that stands still: its chain has one hash per number.\<close>

definition fixed_chain :: "'n Node \<Rightarrow> (u64 \<Rightarrow> h256) \<Rightarrow> bool" where
  "fixed_chain N chain \<longleftrightarrow> (\<forall>k n. HeaderByNumber N (Some k) n = (Inr (k, chain k), n))"

text \<open>The specification: the newest stored block that is on the chain or not above the genesis block.\<close>

definition common_block :: "(u64 \<Rightarrow> h256) \<Rightarrow> u64 \<Rightarrow> block_row list \<Rightarrow> block_row option" where
  "common_block chain gen rows = find (\<lambda>b. chain (br_num b) = br_hash b \<or> br_num b \<le> gen) rows"

definition row_block :: "block_row \<Rightarrow> Block" where
  "row_block b = mk_block 0 (br_num b) (br_hash b) (br_net b)"

lemma find_found: "find P xs = Some x \<Longrightarrow> x \<in> set xs \<and> P x"
  by (induction xs) (auto split: if_splits)

lemma length_blocks_of: "length (blocks_of net d) \<le> length (t_block d)"
  by (simp add: blocks_of_def order_desc_def)

lemma GetPreviousBlock_InrD:
  assumes "GetPreviousBlock net k tx st = (Inr b, st')" and "raw_view tx st = Some d"
  shows "unat k < length (blocks_of net d)"
proof -
  obtain d' where "raw_view tx st = Some d'" "map_sum id (\<lambda>b. mk_block 0 (br_num b) (br_hash b) (br_net b))
      (first_row (drop (unat k) (blocks_of net d'))) = Inr b"
    using pg_query_InrD [OF assms(1) [unfolded GetPreviousBlock_def]] by blast
  thus ?thesis using assms(2) by (cases "drop (unat k) (blocks_of net d)") (auto simp: first_row_def dest: arg_cong [where f = length])
qed

lemma GetPreviousBlock_ready:
  assumes "pg_ready NoTx st" and "pg_committed st = d" and "k < 2 ^ 64"
  obtains st' where "GetPreviousBlock net (of_nat k) NoTx st =
      (if k < length (blocks_of net d) then Inr (row_block (blocks_of net d ! k)) else Inl ErrStorageNotFound, st')"
    and "pg_ready NoTx st'" and "pg_committed st' = d"
proof -
  let ?f = "\<lambda>d. map_sum id (\<lambda>b. mk_block 0 (br_num b) (br_hash b) (br_net b)) (first_row (drop (unat (of_nat k :: u64)) (blocks_of net d)))"
  obtain d' st' where q: "raw_view NoTx st = Some d'" "pg_query NoTx ?f st = (?f d', st')" "pg_ready NoTx st'"
    using pg_query_ready [OF assms(1), of ?f] by blast
  have d': "d' = d" using q(1) assms(2) by (simp add: raw_view_def)
  have uk: "unat (of_nat k :: u64) = k" using assms(3) by (simp add: unat_of_nat)
  have row: "?f d = (if k < length (blocks_of net d) then Inr (row_block (blocks_of net d ! k)) else Inl ErrStorageNotFound)"
    by (simp add: uk first_row_def row_block_def Cons_nth_drop_Suc [symmetric])
  have "pg_committed st' = d" using pg_query_frame [OF q(2), of NoTx] assms(2) by (simp add: raw_view_def)
  thus thesis using that q(2,3) row d' by (simp add: GetPreviousBlock_def)
qed

lemma checkReorg_loop_spec:
  assumes node: "fixed_chain N chain" and len: "length (blocks_of net d) < 2 ^ 64"
  shows "pg_ready NoTx (cs_storage s) \<Longrightarrow> pg_committed (cs_storage s) = d \<Longrightarrow> cs_networkID s = net \<Longrightarrow> cs_genBlockNumber s = gen \<Longrightarrow>
    k < length (blocks_of net d) \<Longrightarrow> length (blocks_of net d) < k + fuel \<Longrightarrow>
    blk_BlockNumber rb = br_num (blocks_of net d ! k) \<Longrightarrow> blk_BlockHash rb = br_hash (blocks_of net d ! k) \<Longrightarrow>
    fst (checkReorg_loop fuel N rb None (of_nat k) s n) =
      (case common_block chain gen (drop k (blocks_of net d)) of
         None \<Rightarrow> Inr (Inl (zero_block\<lparr>blk_BlockNumber := gen\<rparr>))
       | Some b \<Rightarrow> Inr (Inr (if b = blocks_of net d ! k \<and> (chain (blk_BlockNumber rb) = blk_BlockHash rb \<or> blk_BlockNumber rb \<le> gen)
                            then rb else row_block b)))"
proof (induction fuel arbitrary: rb k s)
  case (Suc fuel)
  let ?bs = "blocks_of net d" and ?ok = "chain (blk_BlockNumber rb) = blk_BlockHash rb \<or> blk_BlockNumber rb \<le> gen"
  have nb: "node_block N rb n = (Inr (zero_block\<lparr>blk_BlockNumber := blk_BlockNumber rb, blk_BlockHash := chain (blk_BlockNumber rb)\<rparr>), n)"
    using node by (simp add: node_block_def fixed_chain_def)
  have drop: "drop k ?bs = ?bs ! k # drop (Suc k) ?bs" using Suc.prems(5) by (simp add: Cons_nth_drop_Suc)
  show ?case
  proof (cases ?ok)
    case True
    thus ?thesis using nb Suc.prems drop by (auto simp: common_block_def zero_block_def mk_block_def linorder_not_less)
  next
    case False
    hence cb: "common_block chain gen (drop k ?bs) = common_block chain gen (drop (Suc k) ?bs)"
      using drop Suc.prems by (simp add: common_block_def)
    have k1: "of_nat k + 1 = (of_nat (Suc k) :: u64)" by simp
    have "Suc k < 2 ^ 64" using Suc.prems(5) len by simp
    then obtain st' where p: "GetPreviousBlock net (of_nat (Suc k)) NoTx (cs_storage s) =
        (if Suc k < length ?bs then Inr (row_block (?bs ! Suc k)) else Inl ErrStorageNotFound, st')"
      "pg_ready NoTx st'" "pg_committed st' = d"
      by (rule GetPreviousBlock_ready [OF Suc.prems(1,2)])
    have step: "checkReorg_loop (Suc fuel) N rb None (of_nat k) s n =
      (case (if Suc k < length ?bs then Inr (row_block (?bs ! Suc k)) else Inl ErrStorageNotFound) of
         Inl e \<Rightarrow> if e = ErrStorageNotFound
                 then (Inr (Inl (zero_block\<lparr>blk_BlockNumber := gen\<rparr>)), s\<lparr>cs_storage := st'\<rparr>, n) else (Inl e, s\<lparr>cs_storage := st'\<rparr>, n)
       | Inr lb \<Rightarrow> checkReorg_loop fuel N lb None (of_nat (Suc k)) (s\<lparr>cs_storage := st'\<rparr>) n)"
      using nb False Suc.prems(3,4) p(1) unfolding checkReorg_loop.simps k1
      by (simp add: store_def zero_block_def mk_block_def linorder_not_le del: of_nat_Suc)
    show ?thesis
    proof (cases "Suc k < length ?bs")
      case True
      have "fst (checkReorg_loop fuel N (row_block (?bs ! Suc k)) None (of_nat (Suc k)) (s\<lparr>cs_storage := st'\<rparr>) n) =
         (case common_block chain gen (drop (Suc k) ?bs) of None \<Rightarrow> Inr (Inl (zero_block\<lparr>blk_BlockNumber := gen\<rparr>))
          | Some b \<Rightarrow> Inr (Inr (row_block b)))"
        by (subst Suc.IH) (use Suc.prems True p in \<open>auto simp: row_block_def mk_block_def split: option.splits\<close>)
      thus ?thesis using step True cb False by (auto split: option.splits simp del: of_nat_Suc)
    next
      case no: False
      have "drop (Suc k) ?bs = []" using no by simp
      hence "common_block chain gen (drop k ?bs) = None" using cb by (simp add: common_block_def)
      thus ?thesis using step no by (simp del: of_nat_Suc)
    qed
  qed
qed simp

text \<open>C20. With a chain that stands still and a server that answers, looking for a reorganisation from the
  latest stored block finds none exactly when that block is on the chain (or not above the genesis
  block); otherwise it returns the newest stored block that is, or the genesis block when there is none.\<close>

theorem checkReorg_finds_common_block:
  assumes "fixed_chain N chain" and "pg_ready NoTx (cs_storage s)"
    and "blocks_of (cs_networkID s) (pg_committed (cs_storage s)) = b0 # rows" and "length rows < 2 ^ 64 - 1"
    and "blk_BlockNumber latest = br_num b0" and "blk_BlockHash latest = br_hash b0" and "br_hash b0 \<notin> br_hash ` set rows"
  shows "fst (checkReorg N latest None s n) =
    Inr (case common_block chain (cs_genBlockNumber s) (b0 # rows) of
           None \<Rightarrow> Some (zero_block\<lparr>blk_BlockNumber := cs_genBlockNumber s\<rparr>)
         | Some b \<Rightarrow> if b = b0 then None else Some (row_block b))"
proof -
  let ?d = "pg_committed (cs_storage s)" and ?net = "cs_networkID s" and ?gen = "cs_genBlockNumber s"
  let ?fuel = "Suc (length (t_block ?d))"
  let ?ok = "chain (blk_BlockNumber latest) = blk_BlockHash latest \<or> blk_BlockNumber latest \<le> ?gen"
  have fuel: "length (blocks_of ?net ?d) < 0 + ?fuel" using length_blocks_of [of ?net ?d] by simp
  have len: "length (blocks_of ?net ?d) < 2 ^ 64" using assms(3,4) by simp
  have loop: "fst (checkReorg_loop ?fuel N latest None (of_nat 0) s n) =
      (case common_block chain ?gen (drop 0 (blocks_of ?net ?d)) of
         None \<Rightarrow> Inr (Inl (zero_block\<lparr>blk_BlockNumber := ?gen\<rparr>))
       | Some b \<Rightarrow> Inr (Inr (if b = blocks_of ?net ?d ! 0 \<and> ?ok then latest else row_block b)))"
    by (rule checkReorg_loop_spec [OF assms(1) len assms(2) refl refl refl _ fuel]) (use assms(3,5,6) in simp_all)
  obtain r s1 n1 where r: "checkReorg_loop ?fuel N latest None 0 s n = (r, s1, n1)" by (metis prod_cases3)
  show ?thesis
  proof (cases "common_block chain ?gen (b0 # rows)")
    case None
    thus ?thesis using loop r assms(3) by (simp add: checkReorg_def)
  next
    case (Some b)
    hence b: "b \<in> set (b0 # rows)" "chain (br_num b) = br_hash b \<or> br_num b \<le> ?gen"
      unfolding common_block_def by (auto dest: find_found simp del: find.simps)
    hence "b = b0 \<longleftrightarrow> br_hash b = br_hash b0" using assms(7) by (force simp: image_iff)
    thus ?thesis using loop r assms(3,5,6) Some b by (auto simp: checkReorg_def row_block_def mk_block_def)
  qed
qed

text \<open>Three stored blocks; the two newest ones are not on the chain any more.\<close>

definition forked_sync :: ClientSynchronizer where
  "forked_sync = sample_sync\<lparr>cs_storage := pg_init\<lparr>pg_committed := empty_db\<lparr>t_block :=
     map (\<lambda>i. \<lparr>br_id = i, br_num = i, br_hash = 100 + ucast i, br_net = 0\<rparr>) [1, 2, 3], seq_block := 4\<rparr>\<rparr>\<rparr>"

definition chain_node :: "(u64 \<Rightarrow> h256) \<Rightarrow> u64 \<Rightarrow> unit Node" where
  "chain_node chain head = \<lparr>HeaderByNumber = (\<lambda>k n. (case k of None \<Rightarrow> Inr (head, chain head) | Some k \<Rightarrow> Inr (k, chain k), n)),
     RollupInfo = (\<lambda>a b n. (Inr ([], \<lambda>_. []), n)), GetLatestGlobalExitRoot = (\<lambda>n. (Inr 0, n)),
     ExitRootsByGER = (\<lambda>g n. (Inr None, n))\<rparr>"

theorem checkReorg_finds_common_block_witness:
  "fst (checkReorg (chain_node (\<lambda>k. if k = 1 then 101 else 7) 9) (mk_block 0 3 103 0) None forked_sync ()) =
     Inr (Some (mk_block 0 1 101 0))"
proof -
  let ?chain = "\<lambda>k. if k = 1 then 101 else 7"
  have node: "fixed_chain (chain_node ?chain 9) ?chain" by (simp add: fixed_chain_def chain_node_def)
  have rd: "pg_ready NoTx (cs_storage forked_sync)"
    by (simp add: forked_sync_def sample_sync_def pg_ready_def pg_init_def pg_view_def)
  have rows: "blocks_of (cs_networkID forked_sync) (pg_committed (cs_storage forked_sync)) =
      \<lparr>br_id = 3, br_num = 3, br_hash = 103, br_net = 0\<rparr> # map (\<lambda>i. \<lparr>br_id = i, br_num = i, br_hash = 100 + ucast i, br_net = 0\<rparr>) [2, 1]"
    by (simp add: forked_sync_def sample_sync_def blocks_of_def order_desc_def empty_db_def)
  show ?thesis
    using checkReorg_finds_common_block [OF node rd rows, of "mk_block 0 3 103 0" "()"]
    by (simp add: mk_block_def common_block_def row_block_def forked_sync_def sample_sync_def)
qed

lemma checkReorg_loop_returns:
  assumes "\<And>k n. fst (HeaderByNumber N k n) \<noteq> Inl ErrNoReturn" and "Suc (length (t_block d)) < 2 ^ 64"
  shows "pg_committed (cs_storage s) = d \<Longrightarrow> k + fuel = Suc (length (t_block d)) \<Longrightarrow> k \<le> length (t_block d) \<Longrightarrow>
    fst (checkReorg_loop fuel N rb block (of_nat k) s n) \<noteq> Inl ErrNoReturn"
proof (induction fuel arbitrary: rb block k s n)
  case (Suc fuel)
  obtain r n1 where b: "(case block of Some b \<Rightarrow> (Inr b, n) | None \<Rightarrow> node_block N rb n) = (r, n1)" by fastforce
  have r: "r \<noteq> Inl ErrNoReturn"
    using b assms(1) [of "Some (blk_BlockNumber rb)" n]
    by (auto simp: node_block_def split: option.splits prod.splits sum.splits if_splits)
  have k1: "of_nat k + 1 = (of_nat (Suc k) :: u64)" by simp
  obtain x st' where p: "GetPreviousBlock (cs_networkID s) (of_nat (Suc k)) NoTx (cs_storage s) = (x, st')" by fastforce
  have x: "x \<noteq> Inl ErrNoReturn"
    using p by (auto simp: GetPreviousBlock_def pg_query_def pg_view_def first_row_def simp del: of_nat_Suc
        split: prod.splits bool.splits sum.splits list.splits)
  have c: "pg_committed st' = d"
    using p Suc.prems(1) pg_query_frame [of NoTx _ "cs_storage s" x st' NoTx] by (simp add: GetPreviousBlock_def raw_view_def)
  have go: "fst (checkReorg_loop fuel N lb None (of_nat (Suc k)) (s\<lparr>cs_storage := st'\<rparr>) n1) \<noteq> Inl ErrNoReturn" if "x = Inr lb" for lb
  proof (rule Suc.IH)
    have "unat (of_nat (Suc k) :: u64) = Suc k" using Suc.prems(3) assms(2) by (simp add: unat_of_nat del: of_nat_Suc)
    thus "Suc k \<le> length (t_block d)"
      using GetPreviousBlock_InrD [OF p [unfolded that], of d] Suc.prems(1) length_blocks_of [of "cs_networkID s" d]
      by (simp add: raw_view_def del: of_nat_Suc)
  qed (use c Suc.prems(2) in simp_all)
  show ?case using b r p x go unfolding checkReorg_loop.simps k1
    by (cases r; cases x) (auto simp: store_def simp del: of_nat_Suc)
qed simp

text \<open>C21. Looking for a reorganisation returns, whatever the node answers and whichever calls to the server
  fail: with fewer than \<open>2 ^ 64 - 1\<close> stored blocks the walk down the stored blocks ends.\<close>

theorem checkReorg_returns:
  assumes "\<forall>k n. fst (HeaderByNumber N k n) \<noteq> Inl ErrNoReturn"
    and "Suc (length (t_block (pg_committed (cs_storage s)))) < 2 ^ 64"
  shows "fst (checkReorg N latest block s n) \<noteq> Inl ErrNoReturn"
proof -
  obtain r s1 n1 where r: "checkReorg_loop (Suc (length (t_block (pg_committed (cs_storage s))))) N latest block 0 s n = (r, s1, n1)"
    by (metis prod_cases3)
  have "r \<noteq> Inl ErrNoReturn"
    using checkReorg_loop_returns [OF _ assms(2) refl, of N 0 "Suc (length (t_block (pg_committed (cs_storage s))))" latest block n]
      assms(1) r by simp
  thus ?thesis using r by (auto simp: checkReorg_def split: sum.splits)
qed

theorem checkReorg_returns_witness:
  "fst (checkReorg (chain_node (\<lambda>k. 7) 9) (mk_block 0 3 103 0) None forked_sync ()) \<noteq> Inl ErrNoReturn"
  by (rule checkReorg_returns)
     (simp_all add: chain_node_def forked_sync_def sample_sync_def split: option.splits)

end
