(* ===== verification/Hex.thy ===== *)
theory Hex
  imports Prelude
begin

text \<open>
  \<^verbatim>\<open>hex/hex.go\<close> and the text forms of \<^verbatim>\<open>jsonrpcclient/types/types.go\<close>: byte strings and numbers as
  hexadecimal text.

  A Go string is a string of bytes, as \<^typ>\<open>string\<close> is.  The section on the library holds what is used of
  \<^verbatim>\<open>encoding/hex\<close>, \<^verbatim>\<open>strconv\<close> and \<^verbatim>\<open>math/big\<close>.  After a failed \<^verbatim>\<open>SetString\<close> the value of the receiver is
  not specified: \<open>DecodeBig\<close> takes it as the argument \<open>unspec\<close>.
\<close>

section \<open>The library\<close>

definition digit_char :: "nat \<Rightarrow> char" where
  "digit_char d = ''0123456789abcdef'' ! d"

definition nibble :: "char \<Rightarrow> nat option" where
  "nibble c =
     (let x = of_char c :: nat in
      if 48 \<le> x \<and> x \<le> 57 then Some (x - 48)
      else if 65 \<le> x \<and> x \<le> 70 then Some (x - 55)
      else if 97 \<le> x \<and> x \<le> 102 then Some (x - 87)
      else None)"

text \<open>\<^verbatim>\<open>hex.EncodeToString\<close> and \<^verbatim>\<open>hex.DecodeString\<close>.\<close>

fun hex_encode :: "bytes \<Rightarrow> string" where
  "hex_encode [] = []"
| "hex_encode (b # bs) = digit_char (unat b div 16) # digit_char (unat b mod 16) # hex_encode bs"

fun hex_decode :: "string \<Rightarrow> bytes result" where
  "hex_decode [] = Inr []"
| "hex_decode [c] = (case nibble c of None \<Rightarrow> Inl (ErrMsg ''invalid byte'') | Some _ \<Rightarrow> Inl (ErrMsg ''odd length hex string''))"
| "hex_decode (c # d # s) =
     (case nibble c of
        None \<Rightarrow> Inl (ErrMsg ''invalid byte'')
      | Some x \<Rightarrow>
          (case nibble d of
             None \<Rightarrow> Inl (ErrMsg ''invalid byte'')
           | Some y \<Rightarrow> (case hex_decode s of Inl e \<Rightarrow> Inl e | Inr bs \<Rightarrow> Inr (of_nat (16 * x + y) # bs))))"

text \<open>Numbers in a base (\<^verbatim>\<open>strconv.AppendUint\<close>, \<^verbatim>\<open>Int.Text\<close>), without leading zeros.\<close>

function digits :: "nat \<Rightarrow> nat \<Rightarrow> nat list" where
  "digits b n = (if b < 2 \<or> n < b then [n] else digits b (n div b) @ [n mod b])"
  by pat_completeness auto
termination
  by (relation "measure snd") auto

definition nat_text :: "nat \<Rightarrow> nat \<Rightarrow> string" where
  "nat_text b n = map digit_char (digits b n)"

definition int_text :: "nat \<Rightarrow> int \<Rightarrow> string" where
  "int_text b i = (if i < 0 then CHR ''-'' # nat_text b (nat (- i)) else nat_text b (nat i))"

text \<open>\<^verbatim>\<open>strconv.ParseUint\<close> in base 16 with 64 bits: the loop tests for overflow before and after the digit is
  added.\<close>

fun parse_digits :: "string \<Rightarrow> u64 \<Rightarrow> u64 result" where
  "parse_digits [] n = Inr n"
| "parse_digits (c # cs) n =
     (case nibble c of
        None \<Rightarrow> Inl (ErrMsg ''invalid syntax'')
      | Some d \<Rightarrow>
          if 2 ^ 60 \<le> n then Inl (ErrMsg ''value out of range'')
          else
            let n0 = n * 16; n1 = n0 + of_nat d in
            if n1 < n0 then Inl (ErrMsg ''value out of range'') else parse_digits cs n1)"

definition ParseUint :: "string \<Rightarrow> u64 result" where
  "ParseUint s = (if s = [] then Inl (ErrMsg ''invalid syntax'') else parse_digits s 0)"

text \<open>The value of a string of digits, and \<^verbatim>\<open>Int.SetString\<close> in base 16.\<close>

fun hex_value :: "string \<Rightarrow> nat \<Rightarrow> nat option" where
  "hex_value [] n = Some n"
| "hex_value (c # cs) n = (case nibble c of None \<Rightarrow> None | Some d \<Rightarrow> hex_value cs (16 * n + d))"

definition digits_value :: "string \<Rightarrow> nat option" where
  "digits_value s = (if s = [] then None else hex_value s 0)"

definition SetString :: "string \<Rightarrow> int option" where
  "SetString s =
     (case s of
        [] \<Rightarrow> None
      | c # cs \<Rightarrow>
          if c = CHR ''-'' then map_option (\<lambda>n. - int n) (digits_value cs)
          else if c = CHR ''+'' then map_option int (digits_value cs)
          else map_option int (digits_value s))"

definition TrimPrefix :: "string \<Rightarrow> string \<Rightarrow> string" where
  "TrimPrefix s p = (if take (length p) s = p then drop (length p) s else s)"

section \<open>hex.go\<close>

definition EncodeToHex :: "bytes \<Rightarrow> string" where
  "EncodeToHex str = ''0x'' @ hex_encode str"

definition EncodeToString :: "bytes \<Rightarrow> string" where
  "EncodeToString str = hex_encode str"

definition DecodeString :: "string \<Rightarrow> bytes result" where
  "DecodeString str = hex_decode str"

definition DecodeHex :: "string \<Rightarrow> bytes result" where
  "DecodeHex str =
     (let str1 = TrimPrefix str ''0x'' in
      hex_decode (if length str1 mod 2 \<noteq> 0 then ''0'' @ str1 else str1))"

definition MustDecodeHex :: "string \<Rightarrow> bytes result" where
  "MustDecodeHex str = (case DecodeHex str of Inl e \<Rightarrow> Inl GoPanic | Inr buf \<Rightarrow> Inr buf)"

definition DecodeBig :: "(string \<Rightarrow> int) \<Rightarrow> string \<Rightarrow> int" where
  "DecodeBig unspec hexNum =
     (let str = TrimPrefix hexNum ''0x'' in case SetString str of None \<Rightarrow> unspec str | Some n \<Rightarrow> n)"

definition DecodeUint64 :: "(string \<Rightarrow> int) \<Rightarrow> string \<Rightarrow> u64" where
  "DecodeUint64 unspec str = of_int \<bar>DecodeBig unspec str\<bar>"

definition EncodeUint64 :: "u64 \<Rightarrow> string" where
  "EncodeUint64 i = ''0x'' @ nat_text 16 (unat i)"

definition BadNibble :: u64 where
  "BadNibble = NOT 0"

definition DecodeNibble :: "u8 \<Rightarrow> u64" where
  "DecodeNibble x =
     (if 48 \<le> x \<and> x \<le> 57 then ucast (x - 48)
      else if 65 \<le> x \<and> x \<le> 70 then ucast (x - 65 + 10)
      else if 97 \<le> x \<and> x \<le> 102 then ucast (x - 97 + 10)
      else BadNibble)"

text \<open>The verb \<^verbatim>\<open>%#x\<close> writes the sign before the prefix.\<close>

definition EncodeBig :: "int \<Rightarrow> string" where
  "EncodeBig i =
     (if i = 0 then ''0x0''
      else if i < 0 then ''-0x'' @ nat_text 16 (nat (- i)) else ''0x'' @ nat_text 16 (nat i))"

section \<open>types.go\<close>

definition encodeToHex :: "bytes \<Rightarrow> string" where
  "encodeToHex b =
     (let str = hex_encode b in ''0x'' @ (if length str mod 2 \<noteq> 0 then ''0'' @ str else str))"

definition decodeToHex :: "string \<Rightarrow> bytes result" where
  "decodeToHex b =
     (let str = TrimPrefix b ''0x'' in hex_decode (if length str mod 2 \<noteq> 0 then ''0'' @ str else str))"

definition ArgUint64_MarshalText :: "u64 \<Rightarrow> string" where
  "ArgUint64_MarshalText b = ''0x'' @ nat_text 16 (unat b)"

definition ArgUint64_UnmarshalText :: "string \<Rightarrow> u64 result" where
  "ArgUint64_UnmarshalText input = ParseUint (TrimPrefix input ''0x'')"

definition ArgBytes_MarshalText :: "bytes \<Rightarrow> string" where
  "ArgBytes_MarshalText b = encodeToHex b"

text \<open>The old value stays when the text can not be read; no error is returned.\<close>

definition ArgBytes_UnmarshalText :: "bytes \<Rightarrow> string \<Rightarrow> bytes result" where
  "ArgBytes_UnmarshalText b input = (case decodeToHex input of Inl e \<Rightarrow> Inr b | Inr hh \<Rightarrow> Inr hh)"

definition ArgBig_MarshalText :: "int \<Rightarrow> string" where
  "ArgBig_MarshalText a = ''0x'' @ int_text 16 a"

definition ArgBig_UnmarshalText :: "string \<Rightarrow> int result" where
  "ArgBig_UnmarshalText input = (case decodeToHex input of Inl e \<Rightarrow> Inl e | Inr buf \<Rightarrow> Inr (int (be_value buf)))"

section \<open>Lemmas\<close>

lemma digit_upto: "d < 16 \<Longrightarrow> d \<in> set [0..<16]"
  by simp

lemma nibble_digit [simp]:
  assumes "d < 16" shows "nibble (digit_char d) = Some d"
proof -
  have "\<forall>x\<in>set [0..<16]. nibble (digit_char x) = Some x"
    by (simp add: upt_rec nibble_def digit_char_def Let_def)
  thus ?thesis using digit_upto [OF assms] by blast
qed

lemma nibble_less: "nibble c = Some d \<Longrightarrow> d < 16"
  by (auto simp: nibble_def Let_def split: if_splits)

lemma length_hex_encode [simp]: "length (hex_encode bs) = 2 * length bs"
  by (induction bs) auto

lemma unat_of_nat_small: "n < 2 ^ LENGTH('a) \<Longrightarrow> unat (of_nat n :: 'a::len word) = n"
  by (simp add: unat_of_nat take_bit_nat_eq_self)

lemma unat_byte: "unat (b::u8) < 256"
  using unat_less [of b] by simp

lemma hex_decode_encode [simp]: "hex_decode (hex_encode bs) = Inr bs"
proof (induction bs)
  case (Cons b bs)
  have "unat b div 16 < 16" using unat_byte [of b] by (simp add: less_mult_imp_div_less)
  moreover have "of_nat (16 * (unat b div 16) + unat b mod 16) = b" by simp
  ultimately show ?case using Cons by simp
qed simp

lemma Trim0x [simp]: "TrimPrefix (CHR ''0'' # CHR ''x'' # s) ''0x'' = s"
  by (simp add: TrimPrefix_def)

lemma hex_value_append: "hex_value (s @ t) n = (case hex_value s n of None \<Rightarrow> None | Some m \<Rightarrow> hex_value t m)"
  by (induction s arbitrary: n) (auto split: option.splits)

lemma hex_value_ge: "hex_value s n = Some v \<Longrightarrow> n \<le> v"
proof (induction s arbitrary: n)
  case (Cons c s)
  then obtain d where "hex_value s (16 * n + d) = Some v" by (auto split: option.splits)
  from Cons.IH [OF this] show ?case by simp
qed simp

declare digits.simps [simp del]

lemma digits_not_Nil [simp]: "digits b n \<noteq> []"
  by (subst digits.simps) simp

lemma nat_text_not_Nil [simp]: "nat_text b n \<noteq> []"
  by (simp add: nat_text_def)

lemma hex_value_text: "hex_value (nat_text 16 n) 0 = Some n"
proof (induction "16::nat" n rule: digits.induct)
  case (1 n)
  show ?case
  proof (cases "n < 16")
    case True
    thus ?thesis by (simp add: nat_text_def digits.simps [of 16 n])
  next
    case False
    with 1 have "hex_value (nat_text 16 (n div 16)) 0 = Some (n div 16)" by simp
    with False show ?thesis
      by (simp add: nat_text_def digits.simps [of 16 n] hex_value_append)
  qed
qed

lemma digits_value_text [simp]: "digits_value (nat_text 16 n) = Some n"
  by (simp add: digits_value_def hex_value_text)

text \<open>No sum wraps: the test before the digit is enough.\<close>

lemma parse_digits_value:
  assumes "hex_value s n = Some v" and "n < 2 ^ 64"
  shows "parse_digits s (of_nat n) = (if v < 2 ^ 64 then Inr (of_nat v) else Inl (ErrMsg ''value out of range''))"
  using assms
proof (induction s arbitrary: n)
  case (Cons c s)
  then obtain d where d: "nibble c = Some d" and v: "hex_value s (16 * n + d) = Some v"
    by (auto split: option.splits)
  have ge: "16 * n + d \<le> v" by (rule hex_value_ge [OF v])
  have le: "(2 ^ 60 \<le> (of_nat n :: u64)) = (2 ^ 60 \<le> n)"
    using Cons.prems(2) by (simp add: word_le_nat_alt unat_of_nat take_bit_nat_eq_self)
  show ?case
  proof (cases "2 ^ 60 \<le> n")
    case True
    with ge le d show ?thesis by simp
  next
    case False
    have lt: "16 * n + d < 2 ^ 64" using False nibble_less [OF d] by simp
    note eq = Cons.IH [OF v lt]
    have "unat (of_nat (16 * n + d) :: u64) = 16 * n + d"
      by (rule unat_of_nat_small) (use lt in simp)
    moreover have "unat (of_nat (16 * n) :: u64) = 16 * n"
      by (rule unat_of_nat_small) (use lt in simp)
    ultimately have nw: "\<not> (of_nat (16 * n + d) :: u64) < of_nat (16 * n)"
      unfolding word_less_nat_alt by simp
    have m: "of_nat n * 16 = (of_nat (16 * n) :: u64)" by simp
    have "parse_digits (c # s) (of_nat n) = parse_digits s (of_nat (16 * n + d))"
      using d False le nw by (simp only: parse_digits.simps option.case m Let_def of_nat_add [symmetric] if_False)
    thus ?thesis using eq by simp
  qed
qed simp

lemma hex_decode_value:
  assumes "hex_value s n = Some v" and "even (length s)"
  shows "\<exists>bs. hex_decode s = Inr bs \<and> foldl (\<lambda>a b. a * 256 + unat b) n bs = v"
  using assms
proof (induction s arbitrary: n rule: hex_decode.induct)
  case (3 c d s)
  then obtain x y where x: "nibble c = Some x" and y: "nibble d = Some y"
    and v: "hex_value s (16 * (16 * n + x) + y) = Some v" and ev: "even (length s)"
    by (auto split: option.splits)
  from 3 (1) [OF x y v ev] obtain bs where bs: "hex_decode s = Inr bs"
    and f: "foldl (\<lambda>a b. a * 256 + unat b) (16 * (16 * n + x) + y) bs = v" by blast
  have "unat (of_nat (16 * x + y) :: u8) = 16 * x + y"
    by (rule unat_of_nat_small) (use nibble_less [OF x] nibble_less [OF y] in simp)
  hence "n * 256 + unat (of_nat (16 * x + y) :: u8) = 16 * (16 * n + x) + y" by simp
  with x y bs f show ?case by (simp add: algebra_simps)
qed auto

section \<open>Properties\<close>

text \<open>Reading an unsigned number: a text of hexadecimal digits with the prefix gives its value when the
  value has 64 bits, and the range error otherwise; nothing wraps around.\<close>

theorem ArgUint64_UnmarshalText_bounds:
  assumes "digits_value s = Some v"
  shows "ArgUint64_UnmarshalText (''0x'' @ s) =
    (if v < 2 ^ 64 then Inr (of_nat v) else Inl (ErrMsg ''value out of range''))"
proof -
  have "s \<noteq> []" and "hex_value s 0 = Some v" using assms by (auto simp: digits_value_def split: if_splits)
  with parse_digits_value [of s 0 v] show ?thesis
    by (simp add: ArgUint64_UnmarshalText_def ParseUint_def)
qed

theorem ArgUint64_UnmarshalText_bounds_witness:
  "ArgUint64_UnmarshalText ''0xFFFFFFFFFFFFFFFF'' = Inr (- 1) \<and>
   ArgUint64_UnmarshalText ''0x10000000000000000'' = Inl (ErrMsg ''value out of range'')"
  using ArgUint64_UnmarshalText_bounds [of "''FFFFFFFFFFFFFFFF''" "2 ^ 64 - 1"]
    ArgUint64_UnmarshalText_bounds [of "''10000000000000000''" "2 ^ 64"]
  by (simp add: digits_value_def nibble_def Let_def)

text \<open>A big number that was written is read back, unless it is negative: the text of a negative number is
  refused.\<close>

theorem ArgBig_roundtrip:
  "ArgBig_UnmarshalText (ArgBig_MarshalText a) = (if a < 0 then Inl (ErrMsg ''invalid byte'') else Inr a)"
proof (cases "a < 0")
  case True
  obtain c s where "nat_text 16 (nat (- a)) = c # s" by (cases "nat_text 16 (nat (- a))") simp_all
  with True show ?thesis
    by (simp add: ArgBig_UnmarshalText_def ArgBig_MarshalText_def decodeToHex_def int_text_def nibble_def Let_def)
next
  case False
  let ?t = "nat_text 16 (nat a)"
  let ?s = "if odd (length ?t) then CHR ''0'' # ?t else ?t"
  have "hex_value ?s 0 = Some (nat a)" by (simp add: hex_value_text nibble_def)
  moreover have "even (length ?s)" by simp
  ultimately obtain bs where "hex_decode ?s = Inr bs" and "foldl (\<lambda>a b. a * 256 + unat b) 0 bs = nat a"
    using hex_decode_value by blast
  with False show ?thesis
    by (simp add: ArgBig_UnmarshalText_def ArgBig_MarshalText_def decodeToHex_def int_text_def be_value_def
        Let_def odd_iff_mod_2_eq_one split: if_splits)
qed

text \<open>\<open>EncodeBig\<close> and \<open>DecodeBig\<close> are inverse on the natural numbers.  The sign of a negative number is
  written, against the comment of \<open>EncodeBig\<close>, and in a place where \<open>DecodeBig\<close> can not read it: the
  result is then the unspecified value.\<close>

theorem DecodeBig_EncodeBig:
  "DecodeBig unspec (EncodeBig i) = (if i < 0 then unspec (EncodeBig i) else i)"
proof -
  have n: "SetString (nat_text 16 m) = Some (int m)" for m
  proof -
    obtain c s where cs: "nat_text 16 m = c # s" by (cases "nat_text 16 m") simp_all
    have "digits_value (c # s) = Some m" by (simp flip: cs)
    moreover have "c \<noteq> CHR ''-''" and "c \<noteq> CHR ''+''"
      using calculation by (auto simp: digits_value_def nibble_def split: if_splits)
    ultimately show ?thesis by (simp add: SetString_def cs)
  qed
  show ?thesis
  proof (cases "i < 0")
    case True
    thus ?thesis
      by (simp add: DecodeBig_def EncodeBig_def SetString_def TrimPrefix_def digits_value_def nibble_def Let_def)
  next
    case False
    have "SetString ''0'' = Some 0" by (simp add: SetString_def digits_value_def nibble_def)
    with False n [of "nat i"] show ?thesis by (simp add: DecodeBig_def EncodeBig_def Let_def)
  qed
qed

end
