(* ===== verification/Bridge_Service.thy ===== *)
theory Bridge_Service
  imports Bridge_Ctrl Pg_Queries Etherman Hex
begin

text \<open>
  \<^verbatim>\<open>server/service.go\<close>: the answers of the service, the proofs of claims first.

  \<^item> \<open>bridgeService\<close> is the struct, with the storage it reads as a field.  Counters and latencies are left
    out.
  \<^item> The cache is code of another package: the record \<open>lru\<close> of its operations over a state of type
    \<open>'c\<close>.  What is relied on is \<open>cache_keeps\<close>: a hit is a value that was put under the key.
  \<^item> The text forms of addresses and hashes are code of another package too, the record \<open>eth_text\<close>.
    \<^verbatim>\<open>FromHex\<close> is the argument the storage takes.
  \<^item> The messages of the API (\<^verbatim>\<open>bridgectrl/pb\<close>) are records with the fields the service sets.
  \<^item> An error wrapped with \<^verbatim>\<open>%w\<close> is the error itself; one formatted with \<^verbatim>\<open>%v\<close> is a new one, \<open>reword\<close>.
\<close>

section \<open>State\<close>

record 'c lru =
  lru_New :: "int \<Rightarrow> 'c result"
  lru_Get :: "h256 \<Rightarrow> 'c \<Rightarrow> (h256 \<times> h256) option \<times> 'c"
  lru_Add :: "h256 \<Rightarrow> h256 \<times> h256 \<Rightarrow> 'c \<Rightarrow> 'c"

record eth_text =
  AddressHex :: "address \<Rightarrow> string"
  HashHex :: "h256 \<Rightarrow> string"
  HexToAddress :: "string \<Rightarrow> address"
  HexToHash :: "string \<Rightarrow> h256"
  FromHex :: "string \<Rightarrow> bytes"

record 'c bridgeService =
  bs_storage :: pg
  bs_networkIDs :: "u32 \<rightharpoonup> u8"
  bs_height :: u8
  bs_defaultPageLimit :: u32
  bs_maxPageLimit :: u32
  bs_version :: string
  bs_finalizedGER :: bool
  bs_cache :: 'c

fun number_networks :: "nat \<Rightarrow> u32 list \<Rightarrow> (u32 \<rightharpoonup> u8) \<Rightarrow> (u32 \<rightharpoonup> u8)" where
  "number_networks i [] m = m"
| "number_networks i (network # ns) m = number_networks (Suc i) ns (m(network \<mapsto> of_nat i))"

definition NewBridgeService :: "'c lru \<Rightarrow> int \<Rightarrow> u32 \<Rightarrow> u32 \<Rightarrow> string \<Rightarrow> bool \<Rightarrow> u8 \<Rightarrow> u32 list \<Rightarrow> pg \<Rightarrow> 'c bridgeService result" where
  "NewBridgeService C cacheSize defaultPageLimit maxPageLimit version finalizedGER height networks st =
     (case lru_New C cacheSize of
        Inl e \<Rightarrow> Inl GoPanic
      | Inr cache \<Rightarrow> Inr
          \<lparr>bs_storage = st, bs_networkIDs = number_networks 0 networks Map.empty, bs_height = height,
           bs_defaultPageLimit = defaultPageLimit, bs_maxPageLimit = maxPageLimit, bs_version = version,
           bs_finalizedGER = finalizedGER, bs_cache = cache\<rparr>)"

definition ask :: "(pg \<Rightarrow> 'a \<times> pg) \<Rightarrow> 'c bridgeService \<Rightarrow> 'a \<times> 'c bridgeService" where
  "ask f s = (case f (bs_storage s) of (x, st) \<Rightarrow> (x, s\<lparr>bs_storage := st\<rparr>))"

definition reword :: "string \<Rightarrow> error \<Rightarrow> error" where
  "reword msg e = (if e = GoPanic then e else ErrMsg msg)"

text \<open>A call and what follows when it returned no error.\<close>

definition andthen :: "'a result \<times> 's \<Rightarrow> ('a \<Rightarrow> 's \<Rightarrow> 'b result \<times> 's) \<Rightarrow> 'b result \<times> 's" where
  "andthen m f = (case m of (Inl e, s) \<Rightarrow> (Inl e, s) | (Inr x, s) \<Rightarrow> f x s)"

definition rewording :: "string \<Rightarrow> 'a result \<times> 's \<Rightarrow> 'a result \<times> 's" where
  "rewording msg m = (case m of (Inl e, s) \<Rightarrow> (Inl (reword msg e), s) | (Inr x, s) \<Rightarrow> (Inr x, s))"

section \<open>Proofs\<close>

definition getNode :: "'c lru \<Rightarrow> h256 \<Rightarrow> dbTx \<Rightarrow> 'c bridgeService \<Rightarrow> (h256 \<times> h256) result \<times> 'c bridgeService" where
  "getNode C parentHash tx s =
     (case lru_Get C parentHash (bs_cache s) of
        (Some value, c) \<Rightarrow> (Inr value, s\<lparr>bs_cache := c\<rparr>)
      | (None, c) \<Rightarrow>
          (case ask (GetNode parentHash tx) (s\<lparr>bs_cache := c\<rparr>) of
             (Inl e, s1) \<Rightarrow> (Inl (reword ''parentHash'' e), s1)
           | (Inr value, s1) \<Rightarrow> (Inr value, s1\<lparr>bs_cache := lru_Add C parentHash value (bs_cache s1)\<rparr>)))"

fun proof_walk :: "'c lru \<Rightarrow> dbTx \<Rightarrow> u32 \<Rightarrow> nat list \<Rightarrow> h256 \<Rightarrow> h256 list \<Rightarrow> 'c bridgeService
    \<Rightarrow> (h256 list) result \<times> 'c bridgeService" where
  "proof_walk C tx index [] cur siblings s = (Inr siblings, s)"
| "proof_walk C tx index (h # hs) cur siblings s =
     (case getNode C cur tx s of
        (Inl e, s1) \<Rightarrow> (Inl (reword ''height'' e), s1)
      | (Inr (left, right), s1) \<Rightarrow>
          if bit_at index h then proof_walk C tx index hs right (siblings @ [left]) s1
          else proof_walk C tx index hs left (siblings @ [right]) s1)"

definition getProof :: "'c lru \<Rightarrow> u32 \<Rightarrow> h256 \<Rightarrow> dbTx \<Rightarrow> 'c bridgeService \<Rightarrow> (h256 list) result \<times> 'c bridgeService" where
  "getProof C index root tx s =
     andthen (proof_walk C tx index (levels_down (bs_height s)) root [] s) (\<lambda>siblings s1. (Inr (rev siblings), s1))"

definition getRollupExitProof :: "keccak \<Rightarrow> u32 \<Rightarrow> h256 \<Rightarrow> dbTx \<Rightarrow> 'c bridgeService
    \<Rightarrow> (h256 list \<times> h256) result \<times> 'c bridgeService" where
  "getRollupExitProof K rollupIndex root tx s =
     andthen (ask (GetRollupExitLeavesByRoot root tx) s) (\<lambda>leaves s1.
       let ls = map rel_Leaf leaves in
       (case ComputeSiblings K rollupIndex ls (bs_height s1) of
          Inl e \<Rightarrow> (Inl e, s1)
        | Inr (siblings, r) \<Rightarrow>
            if root \<noteq> r then (Inl (ErrMsg ''error checking calculated root''), s1)
            else if siblings = [] \<or> ls = [] then (Inl (ErrMsg ''no siblings found for root''), s1)
            else if length ls \<le> unat rollupIndex then (Inl (ErrMsg ''error getting rollupLeaf. Not synced yet''), s1)
            else (Inr (siblings, ls ! unat rollupIndex), s1)))"

definition emptyProof :: "h256 list" where
  "emptyProof = replicate 32 0"

text \<open>What the three functions below have in common: the proofs for a deposit once the global exit root is
  known.  They differ in the texts of their errors.\<close>

definition claim_proofs :: "string \<times> string \<times> string \<Rightarrow> keccak \<Rightarrow> 'c lru \<Rightarrow> GlobalExitRoot \<Rightarrow> u32 \<Rightarrow> u32 \<Rightarrow> dbTx \<Rightarrow> 'c bridgeService
    \<Rightarrow> (GlobalExitRoot \<times> h256 list \<times> h256 list) result \<times> 'c bridgeService" where
  "claim_proofs texts K C globalExitRoot depositCnt networkID tx s =
     (let (mainnetText, rollupText, exitText) = texts in
      if networkID = 0 then
        (case idx (ger_ExitRoots globalExitRoot) 0 of
           Inl e \<Rightarrow> (Inl e, s)
         | Inr root \<Rightarrow>
             andthen (rewording mainnetText (getProof C depositCnt root tx s)) (\<lambda>merkleProof s1.
               (Inr (globalExitRoot, merkleProof, emptyProof), s1)))
      else
        (case idx (ger_ExitRoots globalExitRoot) 1 of
           Inl e \<Rightarrow> (Inl e, s)
         | Inr root \<Rightarrow>
             andthen (rewording rollupText (getRollupExitProof K (networkID - 1) root tx s))
               (\<lambda>(rollupMerkleProof, rollupLeaf) s1.
                 andthen (rewording exitText (getProof C depositCnt rollupLeaf tx s1)) (\<lambda>merkleProof s2.
                   (Inr (globalExitRoot, merkleProof, rollupMerkleProof), s2)))))"

definition GetClaimProof :: "keccak \<Rightarrow> 'c lru \<Rightarrow> u32 \<Rightarrow> u32 \<Rightarrow> dbTx \<Rightarrow> 'c bridgeService
    \<Rightarrow> (GlobalExitRoot \<times> h256 list \<times> h256 list) result \<times> 'c bridgeService" where
  "GetClaimProof K C depositCnt networkID tx s =
     andthen (ask (GetDeposit depositCnt networkID tx) s) (\<lambda>deposit s1.
       if \<not> dep_ReadyForClaim deposit then (Inl ErrDepositNotSynced, s1)
       else
         andthen (if bs_finalizedGER s1 \<and> dep_DestinationNetwork deposit \<noteq> 0 \<and> networkID \<noteq> 0
                  then ask (GetLatestTrustedExitRoot networkID tx) s1
                  else ask (GetLatestExitRoot networkID (dep_DestinationNetwork deposit) tx) s1) (\<lambda>globalExitRoot s2.
           claim_proofs (''getting the proof failed'', ''getting the rollup proof failed'', ''getting the proof failed'') K C globalExitRoot depositCnt networkID tx s2))"

text \<open>The deposit is looked up only when the call comes from the API, without transaction; a deposit that is
  not ready is then logged.\<close>

definition GetClaimProofbyGER :: "keccak \<Rightarrow> 'c lru \<Rightarrow> u32 \<Rightarrow> u32 \<Rightarrow> h256 \<Rightarrow> dbTx \<Rightarrow> 'c bridgeService
    \<Rightarrow> (GlobalExitRoot \<times> h256 list \<times> h256 list) result \<times> 'c bridgeService" where
  "GetClaimProofbyGER K C depositCnt networkID ger tx s =
     andthen (if tx = NoTx then andthen (ask (GetDeposit depositCnt networkID NoTx) s) (\<lambda>deposit s1. (Inr (), s1))
              else (Inr (), s)) (\<lambda>_ s1.
     andthen (ask (GetL1ExitRootByGER ger tx) s1) (\<lambda>globalExitRoot s2.
       claim_proofs (''getting the proof failed (MAINNET)'', ''getting the rollupexit proof failed'', ''getting the proof failed (ROLLUP)'') K C globalExitRoot depositCnt networkID tx s2))"

definition GetClaimProofForCompressed :: "keccak \<Rightarrow> 'c lru \<Rightarrow> h256 \<Rightarrow> u32 \<Rightarrow> u32 \<Rightarrow> dbTx \<Rightarrow> 'c bridgeService
    \<Rightarrow> (GlobalExitRoot \<times> h256 list \<times> h256 list) result \<times> 'c bridgeService" where
  "GetClaimProofForCompressed K C ger depositCnt networkID tx s =
     andthen (if tx = NoTx then
                andthen (ask (GetDeposit depositCnt networkID NoTx) s) (\<lambda>deposit s1.
                  if \<not> dep_ReadyForClaim deposit then (Inl ErrDepositNotSynced, s1) else (Inr (), s1))
              else (Inr (), s)) (\<lambda>_ s1.
     andthen (ask (GetL1ExitRootByGER ger tx) s1) (\<lambda>globalExitRoot s2.
       claim_proofs (''getting the proof failed'', ''getting the rollup proof failed'', ''getting the proof failed'') K C globalExitRoot depositCnt networkID tx s2))"

definition GetDepositStatus :: "eth_text \<Rightarrow> u32 \<Rightarrow> u32 \<Rightarrow> u32 \<Rightarrow> 'c bridgeService \<Rightarrow> string result \<times> 'c bridgeService" where
  "GetDepositStatus E depositCount originNetworkID destNetworkID s =
     (case ask (GetClaim depositCount originNetworkID destNetworkID NoTx) s of
        (Inl e, s1) \<Rightarrow> (if e \<noteq> ErrStorageNotFound then Inl e else Inr [], s1)
      | (Inr claim, s1) \<Rightarrow> (Inr (HashHex E (clm_TxHash claim)), s1))"

section \<open>Endpoints\<close>

record pbDeposit =
  pd_LeafType :: u32
  pd_OrigNet :: u32
  pd_OrigAddr :: string
  pd_Amount :: string
  pd_DestNet :: u32
  pd_DestAddr :: string
  pd_BlockNum :: u64
  pd_DepositCnt :: u32
  pd_NetworkId :: u32
  pd_TxHash :: string
  pd_ClaimTxHash :: string
  pd_Metadata :: string
  pd_ReadyForClaim :: bool
  pd_GlobalIndex :: string

record pbClaim =
  pc_Index :: u32
  pc_OrigNet :: u32
  pc_OrigAddr :: string
  pc_Amount :: string
  pc_NetworkId :: u32
  pc_DestAddr :: string
  pc_BlockNum :: u64
  pc_TxHash :: string
  pc_RollupIndex :: u32
  pc_MainnetFlag :: bool
  pc_GlobalIndex :: string

record pbProof =
  pp_RollupMerkleProof :: "string list"
  pp_MerkleProof :: "string list"
  pp_MainExitRoot :: string
  pp_RollupExitRoot :: string

record pbTokenWrapped =
  pt_OrigNet :: u32
  pt_OriginalTokenAddr :: string
  pt_WrappedTokenAddr :: string
  pt_NetworkId :: u32
  pt_Name :: string
  pt_Symbol :: string
  pt_Decimals :: u32

record pbBackwardLETData =
  pb_Root :: string
  pb_LeafHash :: string
  pb_RollupMerkleProof :: "string list"
  pb_Frontier :: "string list"

definition CheckAPI :: "'c bridgeService \<Rightarrow> string" where
  "CheckAPI s = bs_version s"

definition page_limit :: "u32 \<Rightarrow> 'c bridgeService \<Rightarrow> u32" where
  "page_limit reqLimit s =
     (let limit = (if reqLimit = 0 then bs_defaultPageLimit s else reqLimit) in
      if bs_maxPageLimit s < limit then bs_maxPageLimit s else limit)"

definition pb_deposit :: "eth_text \<Rightarrow> string \<Rightarrow> Deposit \<Rightarrow> pbDeposit" where
  "pb_deposit E claimTxHash deposit =
     (let mainnetFlag = (dep_NetworkID deposit = 0);
          rollupIndex = (if \<not> mainnetFlag then dep_NetworkID deposit - 1 else 0) in
      \<lparr>pd_LeafType = ucast (dep_LeafType deposit), pd_OrigNet = dep_OriginalNetwork deposit,
       pd_OrigAddr = AddressHex E (dep_OriginalAddress deposit), pd_Amount = int_text 10 (dep_Amount deposit),
       pd_DestNet = dep_DestinationNetwork deposit, pd_DestAddr = AddressHex E (dep_DestinationAddress deposit),
       pd_BlockNum = dep_BlockNumber deposit, pd_DepositCnt = dep_DepositCount deposit,
       pd_NetworkId = dep_NetworkID deposit, pd_TxHash = HashHex E (dep_TxHash deposit),
       pd_ClaimTxHash = claimTxHash, pd_Metadata = ''0x'' @ hex_encode (dep_Metadata deposit),
       pd_ReadyForClaim = dep_ReadyForClaim deposit,
       pd_GlobalIndex = int_text 10 (GenerateGlobalIndex mainnetFlag rollupIndex (dep_DepositCount deposit))\<rparr>)"

fun bridge_deposits :: "eth_text \<Rightarrow> Deposit list \<Rightarrow> 'c bridgeService \<Rightarrow> (pbDeposit list) result \<times> 'c bridgeService" where
  "bridge_deposits E [] s = (Inr [], s)"
| "bridge_deposits E (deposit # ps) s =
     andthen (GetDepositStatus E (dep_DepositCount deposit) (dep_NetworkID deposit) (dep_DestinationNetwork deposit) s)
       (\<lambda>claimTxHash s1. andthen (bridge_deposits E ps s1) (\<lambda>rest s2. (Inr (pb_deposit E claimTxHash deposit # rest), s2)))"

definition GetBridges :: "eth_text \<Rightarrow> u32 \<Rightarrow> u32 \<Rightarrow> string \<Rightarrow> u32 option \<Rightarrow> u32 option \<Rightarrow> 'c bridgeService
    \<Rightarrow> (pbDeposit list \<times> u64) result \<times> 'c bridgeService" where
  "GetBridges E reqLimit offset destAddr netId destNet s =
     andthen (ask (GetDepositCount (FromHex E) destAddr netId destNet NoTx) s) (\<lambda>totalCount s1.
     andthen (ask (GetDeposits (FromHex E) destAddr netId destNet (page_limit reqLimit s) offset NoTx) s1) (\<lambda>deposits s2.
     andthen (bridge_deposits E deposits s2) (\<lambda>pbDeposits s3. (Inr (pbDeposits, totalCount), s3))))"

definition pb_claim :: "eth_text \<Rightarrow> Claim \<Rightarrow> pbClaim" where
  "pb_claim E claim =
     \<lparr>pc_Index = clm_Index claim, pc_OrigNet = clm_OriginalNetwork claim,
      pc_OrigAddr = AddressHex E (clm_OriginalAddress claim), pc_Amount = int_text 10 (clm_Amount claim),
      pc_NetworkId = clm_NetworkID claim, pc_DestAddr = AddressHex E (clm_DestinationAddress claim),
      pc_BlockNum = clm_BlockNumber claim, pc_TxHash = HashHex E (clm_TxHash claim),
      pc_RollupIndex = clm_RollupIndex claim, pc_MainnetFlag = clm_MainnetFlag claim,
      pc_GlobalIndex = (case clm_GlobalIndex claim of None \<Rightarrow> [] | Some n \<Rightarrow> int_text 10 n)\<rparr>"

definition bs_GetClaims :: "eth_text \<Rightarrow> u32 \<Rightarrow> u32 \<Rightarrow> string \<Rightarrow> 'c bridgeService
    \<Rightarrow> (pbClaim list \<times> u64) result \<times> 'c bridgeService" where
  "bs_GetClaims E reqLimit offset destAddr s =
     andthen (ask (GetClaimCount (FromHex E) destAddr NoTx) s) (\<lambda>totalCount s1.
     andthen (ask (GetClaims (FromHex E) destAddr (page_limit reqLimit s) offset NoTx) s1) (\<lambda>claims s2.
     (Inr (map (pb_claim E) claims, totalCount), s2)))"

text \<open>The text of a proof.  The lengths that are compared before are those of two slices that are still empty;
  the loop over the first proof panics when the second one is shorter.\<close>

fun proof_texts :: "nat \<Rightarrow> h256 list \<Rightarrow> h256 list \<Rightarrow> (string list \<times> string list) result" where
  "proof_texts i [] rollupMerkleProof = Inr ([], [])"
| "proof_texts i (p # ps) rollupMerkleProof =
     (case idx rollupMerkleProof i of
        Inl e \<Rightarrow> Inl e
      | Inr r \<Rightarrow>
          (case proof_texts (Suc i) ps rollupMerkleProof of
             Inl e \<Rightarrow> Inl e
           | Inr (a, b) \<Rightarrow> Inr ((''0x'' @ hex_encode (be_bytes 32 p)) # a, (''0x'' @ hex_encode (be_bytes 32 r)) # b)))"

definition pb_proof :: "eth_text \<Rightarrow> GlobalExitRoot \<times> h256 list \<times> h256 list \<Rightarrow> 'c bridgeService
    \<Rightarrow> pbProof result \<times> 'c bridgeService" where
  "pb_proof E res s =
     (case res of (globalExitRoot, merkleProof, rollupMerkleProof) \<Rightarrow>
        (case proof_texts 0 merkleProof rollupMerkleProof of
           Inl e \<Rightarrow> (Inl e, s)
         | Inr (mproof, rollupProof) \<Rightarrow>
             (case (idx (ger_ExitRoots globalExitRoot) 0, idx (ger_ExitRoots globalExitRoot) 1) of
                (Inr r0, Inr r1) \<Rightarrow>
                  (Inr \<lparr>pp_RollupMerkleProof = rollupProof, pp_MerkleProof = mproof,
                        pp_MainExitRoot = HashHex E r0, pp_RollupExitRoot = HashHex E r1\<rparr>, s)
              | _ \<Rightarrow> (Inl GoPanic, s))))"

definition GetProof :: "keccak \<Rightarrow> 'c lru \<Rightarrow> eth_text \<Rightarrow> u32 \<Rightarrow> u32 \<Rightarrow> 'c bridgeService \<Rightarrow> pbProof result \<times> 'c bridgeService" where
  "GetProof K C E depositCnt netId s = andthen (GetClaimProof K C depositCnt netId NoTx s) (pb_proof E)"

definition GetProofByGER :: "keccak \<Rightarrow> 'c lru \<Rightarrow> eth_text \<Rightarrow> u32 \<Rightarrow> u32 \<Rightarrow> string \<Rightarrow> 'c bridgeService
    \<Rightarrow> pbProof result \<times> 'c bridgeService" where
  "GetProofByGER K C E depositCnt netId ger s =
     andthen (GetClaimProofbyGER K C depositCnt netId (HexToHash E ger) NoTx s) (pb_proof E)"

definition GetProofV2 :: "keccak \<Rightarrow> 'c lru \<Rightarrow> eth_text \<Rightarrow> u32 \<Rightarrow> u32 \<Rightarrow> 'c bridgeService \<Rightarrow> pbProof result \<times> 'c bridgeService" where
  "GetProofV2 K C E depositCount networkId s = andthen (GetClaimProof K C depositCount networkId NoTx s) (pb_proof E)"

definition GetBridge :: "eth_text \<Rightarrow> u32 \<Rightarrow> u32 \<Rightarrow> 'c bridgeService \<Rightarrow> pbDeposit result \<times> 'c bridgeService" where
  "GetBridge E depositCnt netId s =
     andthen (ask (GetDeposit depositCnt netId NoTx) s) (\<lambda>deposit s1.
     andthen (GetDepositStatus E depositCnt (dep_NetworkID deposit) (dep_DestinationNetwork deposit) s1) (\<lambda>claimTxHash s2.
     (Inr (pb_deposit E claimTxHash deposit), s2)))"

definition bs_GetTokenWrapped :: "eth_text \<Rightarrow> (bytes \<Rightarrow> TokenMetadata result) \<Rightarrow> u32 \<Rightarrow> string \<Rightarrow> 'c bridgeService
    \<Rightarrow> pbTokenWrapped result \<times> 'c bridgeService" where
  "bs_GetTokenWrapped E decode origNet origTokenAddr s =
     andthen (ask (GetTokenWrapped decode origNet (HexToAddress E origTokenAddr) NoTx) s) (\<lambda>t s1.
       (Inr \<lparr>pt_OrigNet = tok_OriginalNetwork t, pt_OriginalTokenAddr = AddressHex E (tok_OriginalTokenAddress t),
             pt_WrappedTokenAddr = AddressHex E (tok_WrappedTokenAddress t), pt_NetworkId = tok_NetworkID t,
             pt_Name = tm_Name (tok_TokenMetadata t), pt_Symbol = tm_Symbol (tok_TokenMetadata t),
             pt_Decimals = ucast (tm_Decimals (tok_TokenMetadata t))\<rparr>, s1))"

definition GetPendingBridgesToClaim :: "eth_text \<Rightarrow> u32 \<Rightarrow> u32 \<Rightarrow> string \<Rightarrow> u32 \<Rightarrow> u32 \<Rightarrow> 'c bridgeService
    \<Rightarrow> (pbDeposit list \<times> u64) result \<times> 'c bridgeService" where
  "GetPendingBridgesToClaim E reqLimit offset destAddr destNet leafType s =
     andthen (ask (GetPendingDepositsToClaim (HexToAddress E destAddr) destNet leafType (page_limit reqLimit s) offset (- 1) NoTx) s)
       (\<lambda>(deposits, totalDeposits) s1. (Inr (map (pb_deposit E []) deposits, totalDeposits), s1))"

definition bs_GetSyncStatus :: "'c bridgeService \<Rightarrow> (SyncStatus list) result \<times> 'c bridgeService" where
  "bs_GetSyncStatus s = ask (GetSyncStatus NoTx) s"

definition computeFrontierFromProof :: "u32 \<Rightarrow> h256 list \<Rightarrow> 'c bridgeService \<Rightarrow> (h256 list) result" where
  "computeFrontierFromProof n mproof s =
     (if length mproof \<noteq> unat (bs_height s) then Inl (ErrMsg ''proof length does not match tree height'')
      else Inr (map (\<lambda>i. if drop_bit i n AND 1 = 1 then mproof ! i else 0) [0..<unat (bs_height s)]))"

definition getLeaf :: "keccak \<Rightarrow> u32 \<Rightarrow> u32 \<Rightarrow> 'c bridgeService \<Rightarrow> h256 result \<times> 'c bridgeService" where
  "getLeaf K index networkID s =
     (case ask (GetDeposit index networkID NoTx) s of
        (Inl e, s1) \<Rightarrow> (if e = ErrStorageNotFound then Inr 0 else Inl e, s1)
      | (Inr deposit, s1) \<Rightarrow> (HashDeposit K deposit, s1))"

definition GetBackwardLETData :: "keccak \<Rightarrow> 'c lru \<Rightarrow> eth_text \<Rightarrow> u32 \<Rightarrow> u32 \<Rightarrow> 'c bridgeService
    \<Rightarrow> pbBackwardLETData result \<times> 'c bridgeService" where
  "GetBackwardLETData K C E indexToRemove networkID s =
     (if networkID = 0 then (Inl (ErrMsg ''networkID cannot be 0 for backward LET''), s)
      else
        andthen (getLeaf K indexToRemove networkID s) (\<lambda>leafHash s1.
        andthen (ask (GetLastComputedRoot networkID NoTx) s1) (\<lambda>root s2.
        andthen (getProof C indexToRemove root NoTx s2) (\<lambda>rollupMerkleProof s3.
        (case computeFrontierFromProof indexToRemove rollupMerkleProof s3 of
           Inl e \<Rightarrow> (Inl e, s3)
         | Inr frontier \<Rightarrow>
             (Inr \<lparr>pb_Root = HashHex E root, pb_LeafHash = HashHex E leafHash,
                   pb_RollupMerkleProof = map (\<lambda>h. ''0x'' @ hex_encode (be_bytes 32 h)) rollupMerkleProof,
                   pb_Frontier = map (\<lambda>h. ''0x'' @ hex_encode (be_bytes 32 h)) frontier\<rparr>, s3))))))"

section \<open>What a descent reads\<close>

text \<open>What is relied on of the cache; \<open>held\<close> is what it may return.\<close>

definition cache_keeps :: "'c lru \<Rightarrow> ('c \<Rightarrow> node_row set) \<Rightarrow> bool" where
  "cache_keeps C held \<longleftrightarrow>
     (\<forall>k c v c'. lru_Get C k c = (Some v, c') \<longrightarrow> (k, v) \<in> held c) \<and>
     (\<forall>k c x c'. lru_Get C k c = (x, c') \<longrightarrow> held c' \<subseteq> held c) \<and>
     (\<forall>k v c. held (lru_Add C k v c) \<subseteq> insert (k, v) (held c))"

definition known :: "('c \<Rightarrow> node_row set) \<Rightarrow> dbTx \<Rightarrow> 'c bridgeService \<Rightarrow> node_row set" where
  "known held tx s = pg_nodes tx (bs_storage s) \<union> held (bs_cache s)"

text \<open>The calls change nothing but the cache and the faults of the server that are left.\<close>

definition same_view :: "'c bridgeService \<Rightarrow> 'c bridgeService \<Rightarrow> bool" where
  "same_view s s' \<longleftrightarrow> (\<forall>t. raw_view t (bs_storage s') = raw_view t (bs_storage s)) \<and> bs_height s' = bs_height s"

lemma same_view_refl [simp]: "same_view s s"
  by (simp add: same_view_def)

lemma same_view_trans: "same_view a b \<Longrightarrow> same_view b c \<Longrightarrow> same_view a c"
  by (simp add: same_view_def)

lemma same_view_cache [simp]: "same_view s (s'\<lparr>bs_cache := c\<rparr>) = same_view s s'"
  by (simp add: same_view_def)

lemma ask_query:
  assumes "ask (pg_query tx f) s = (x, s')"
  shows "same_view s s'" and "bs_cache s' = bs_cache s"
  using assms pg_query_frame by (auto simp: ask_def same_view_def split: prod.splits)

lemma GetNode_view:
  assumes "ask (GetNode k tx) s = (x, s')"
  shows "same_view s s'" and "bs_cache s' = bs_cache s"
  using assms ask_query unfolding GetNode_def by blast+

lemma known_view:
  "same_view s s' \<Longrightarrow> held (bs_cache s') \<subseteq> known held tx s \<Longrightarrow> known held tx s' \<subseteq> known held tx s"
  by (auto simp: known_def same_view_def pg_nodes_def)

lemma getNode_known:
  assumes C: "cache_keeps C held" and g: "getNode C k tx s = (x, s')"
  shows "known held tx s' \<subseteq> known held tx s" and "same_view s s'"
    and "x = Inr v \<Longrightarrow> (k, v) \<in> known held tx s"
proof -
  obtain hit c where lg: "lru_Get C k (bs_cache s) = (hit, c)" by fastforce
  have hc: "held c \<subseteq> held (bs_cache s)" using C lg by (auto simp: cache_keeps_def)
  have "known held tx s' \<subseteq> known held tx s \<and> same_view s s' \<and> (x = Inr v \<longrightarrow> (k, v) \<in> known held tx s)"
  proof (cases hit)
    case (Some w)
    hence s': "s' = s\<lparr>bs_cache := c\<rparr>" and x: "x = Inr w" using g lg by (auto simp: getNode_def)
    have "(k, w) \<in> held (bs_cache s)" using C lg Some unfolding cache_keeps_def by blast
    thus ?thesis using s' x hc by (auto simp: known_def)
  next
    case None
    obtain y s1 where y: "ask (GetNode k tx) (s\<lparr>bs_cache := c\<rparr>) = (y, s1)" by fastforce
    note sv = GetNode_view [OF y]
    have sv1: "same_view s s1" and c1: "bs_cache s1 = c" using sv by (auto simp: same_view_def)
    show ?thesis
    proof (cases y)
      case (Inl e)
      hence "s' = s1" and "\<exists>e'. x = Inl e'" using g lg None y by (auto simp: getNode_def)
      moreover have "known held tx s1 \<subseteq> known held tx s"
        by (rule known_view [OF sv1]) (use hc c1 in \<open>auto simp: known_def\<close>)
      ultimately show ?thesis using sv1 by auto
    next
      case (Inr w)
      hence s': "s' = s1\<lparr>bs_cache := lru_Add C k w c\<rparr>" and x: "x = Inr w"
        using g lg None y c1 by (auto simp: getNode_def)
      obtain st1 where "GetNode k tx (bs_storage s) = (Inr w, st1)"
        using y Inr by (auto simp: ask_def split: prod.splits)
      hence kw: "(k, w) \<in> known held tx s"
        using GetNode_sound [of k tx "bs_storage s" "fst w" "snd w"] by (auto simp: known_def)
      have "held (lru_Add C k w c) \<subseteq> insert (k, w) (held c)" using C unfolding cache_keeps_def by blast
      hence "known held tx s' \<subseteq> known held tx s"
        by (intro known_view) (use s' sv1 kw hc in \<open>auto simp: known_def\<close>)
      thus ?thesis using s' x sv1 kw by auto
    qed
  qed
  thus "known held tx s' \<subseteq> known held tx s" and "same_view s s'"
    and "x = Inr v \<Longrightarrow> (k, v) \<in> known held tx s" by blast+
qed

lemma proof_walk_known:
  assumes "cache_keeps C held" and "proof_walk C tx index hs cur acc s = (x, s')"
  shows "known held tx s' \<subseteq> known held tx s \<and> same_view s s'"
  using assms(2)
proof (induction hs arbitrary: cur acc s)
  case (Cons h hs)
  obtain y s1 where y: "getNode C cur tx s = (y, s1)" by fastforce
  note g = getNode_known [OF assms(1) y]
  show ?case
  proof (cases y)
    case (Inl e)
    thus ?thesis using Cons.prems y g by auto
  next
    case (Inr v)
    then obtain cur' acc' where "proof_walk C tx index hs cur' acc' s1 = (x, s')"
      using Cons.prems y by (cases v) (auto split: if_splits)
    from Cons.IH [OF this] show ?thesis using g same_view_trans by blast
  qed
qed simp

section \<open>Every proof that is returned verifies\<close>

definition hashed :: "keccak \<Rightarrow> node_row set \<Rightarrow> bool" where
  "hashed K N \<longleftrightarrow> (\<forall>(k, l, r)\<in>N. k = Hash K [l, r])"

lemma hashed_mono: "hashed K N \<Longrightarrow> N' \<subseteq> N \<Longrightarrow> hashed K N'"
  by (auto simp: hashed_def)

lemma climb_append: "k \<le> length p \<Longrightarrow> climb K (p @ q) index leaf k = climb K p index leaf k"
  by (induction k) (auto simp: nth_append)

lemma bit_index: "bit_at (index :: u32) h = bit (ucast index :: u64) h"
  using bit_imp_le_length [of index h] by (auto simp: bit_at_iff bit_ucast_iff)

lemma proof_walk_sound:
  assumes "cache_keeps C held" and "hashed K (known held tx s)"
    and "proof_walk C tx index (rev [0..<h]) cur acc s = (Inr sibs, s')"
  shows "\<exists>leaf p. sibs = acc @ rev p \<and> length p = h \<and> climb K p (ucast index) leaf h = cur"
  using assms(2,3)
proof (induction h arbitrary: cur acc s)
  case 0
  thus ?case by simp
next
  case (Suc h)
  obtain y s1 where y: "getNode C cur tx s = (y, s1)" by fastforce
  note g = getNode_known [OF assms(1) y]
  from Suc.prems(2) y obtain l r where lr: "y = Inr (l, r)" by (cases y) auto
  have cur: "cur = Hash K [l, r]" using g(3) [OF lr] Suc.prems(1) by (auto simp: hashed_def)
  let ?sib = "if bit_at index h then l else r" and ?child = "if bit_at index h then r else l"
  have "proof_walk C tx index (rev [0..<h]) ?child (acc @ [?sib]) s1 = (Inr sibs, s')"
    using Suc.prems(2) y lr by (simp split: if_splits)
  from Suc.IH [OF hashed_mono [OF Suc.prems(1) g(1)] this] obtain leaf p where
    p: "sibs = (acc @ [?sib]) @ rev p" "length p = h" "climb K p (ucast index) leaf h = ?child" by blast
  have "climb K (p @ [?sib]) (ucast index) leaf h = ?child" using p climb_append [of h p] by simp
  hence "climb K (p @ [?sib]) (ucast index) leaf (Suc h) = cur"
    using p(2) cur by (cases "bit_at index h") (simp_all add: nth_append bit_index)
  thus ?case using p(1,2) by (intro exI [of _ leaf] exI [of _ "p @ [?sib]"]) simp
qed

section \<open>Proofs of the exit tree\<close>

lemma getNode_ready:
  assumes C: "cache_keeps C held" and rd: "pg_ready tx (bs_storage s)" and row: "(k, v) \<in> pg_nodes tx (bs_storage s)"
    and nc: "no_clash (known held tx s)"
  shows "\<exists>s'. getNode C k tx s = (Inr v, s') \<and> pg_ready tx (bs_storage s')"
proof -
  obtain hit c where lg: "lru_Get C k (bs_cache s) = (hit, c)" by fastforce
  have kv: "(k, v) \<in> known held tx s" using row by (simp add: known_def)
  have uniq: "w = v" if "(k, w) \<in> known held tx s" for w
    using nc kv that by (cases v; cases w) (auto dest: no_clashD)
  obtain w st' where w: "GetNode k tx (bs_storage s) = (Inr w, st')" "pg_ready tx st'"
    using GetNode_ready [of tx "bs_storage s" k "fst v" "snd v"] rd row by auto
  define s' where "s' = (case hit of Some x \<Rightarrow> s\<lparr>bs_cache := c\<rparr>
    | None \<Rightarrow> s\<lparr>bs_cache := lru_Add C k w c, bs_storage := st'\<rparr>)"
  have "\<exists>u. getNode C k tx s = (Inr u, s') \<and> pg_ready tx (bs_storage s')"
    using lg w rd by (cases hit) (auto simp: getNode_def ask_def s'_def)
  then obtain u where u: "getNode C k tx s = (Inr u, s')" "pg_ready tx (bs_storage s')" by blast
  have "u = v" by (rule uniq) (use getNode_known(3) [OF C u(1) refl] in simp)
  thus ?thesis using u by blast
qed

text \<open>The descent reads the siblings of the path, from the root down; it fails only when the server does.\<close>

lemma proof_walk_tree:
  assumes "cache_keeps C held" and "no_clash (known held tx s)"
    and "\<And>k. k < h \<Longrightarrow> row_at K ls k (unat index div 2 ^ Suc k) \<in> pg_nodes tx (bs_storage s)"
    and "proof_walk C tx index (rev [0..<h]) (node K ls h (unat index div 2 ^ h)) acc s = (x, s')"
  shows "x = Inr (acc @ map (sibling_at K ls (unat index)) (rev [0..<h])) \<or>
    (\<exists>e. x = Inl e) \<and> \<not> pg_ready tx (bs_storage s)"
  using assms(2,3,4)
proof (induction h arbitrary: acc s)
  case 0
  thus ?case by simp
next
  case (Suc h)
  let ?q = "unat index div 2 ^ Suc h"
  let ?v = "(node K ls h (2 * ?q), node K ls h (2 * ?q + 1))"
  obtain y s1 where y: "getNode C (node K ls (Suc h) ?q) tx s = (y, s1)" by fastforce
  have row: "(node K ls (Suc h) ?q, ?v) \<in> pg_nodes tx (bs_storage s)"
    using Suc.prems(2) [of h] by (simp add: row_at_def del: node.simps power_Suc)
  note kn = getNode_known [OF assms(1) y]
  have rd: "y = Inr ?v \<and> pg_ready tx (bs_storage s1)" if "pg_ready tx (bs_storage s)"
    using getNode_ready [OF assms(1) that row Suc.prems(1)] y by (auto simp del: node.simps power_Suc)
  show ?case
  proof (cases y)
    case (Inl e)
    have "\<not> pg_ready tx (bs_storage s)" using rd Inl by blast
    moreover have "\<exists>e. x = Inl e" using Suc.prems(3) y Inl by (simp del: node.simps power_Suc) blast
    ultimately show ?thesis by blast
  next
    case (Inr w)
    obtain a b where ab: "w = (a, b)" by (cases w)
    have "(node K ls (Suc h) ?q, a, b) \<in> known held tx s" using kn(3) [OF Inr] unfolding ab .
    moreover have "(node K ls (Suc h) ?q, ?v) \<in> known held tx s" unfolding known_def using row by (rule UnI1)
    ultimately have "w = ?v" unfolding ab by (blast dest: no_clashD [OF Suc.prems(1)])
    have rows: "row_at K ls k (unat index div 2 ^ Suc k) \<in> pg_nodes tx (bs_storage s1)" if "k < h" for k
      using Suc.prems(2) [of k] that kn(2) by (simp add: same_view_def pg_nodes_def)
    have nc: "no_clash (known held tx s1)" using Suc.prems(1) kn(1) unfolding no_clash_def by blast
    let ?acc = "acc @ [sibling_at K ls (unat index) h]"
    have "proof_walk C tx index (rev [0..<h]) (node K ls h (unat index div 2 ^ h)) ?acc s1 = (x, s')"
    proof (cases "odd (unat index div 2 ^ h)")
      case True
      have "2 * ?q + 1 = unat index div 2 ^ h" using node_step_odd(2) [OF True] True
        by (metis Suc_eq_plus1 Suc_pred' odd_pos)
      thus ?thesis using y Inr \<open>w = ?v\<close> Suc.prems(3) True node_step_odd(3) [OF True, of K ls]
        by (simp add: bit_at_unat del: node.simps power_Suc)
    next
      case False
      hence ev: "even (unat index div 2 ^ h)" by simp
      show ?thesis using y Inr \<open>w = ?v\<close> Suc.prems(3) ev node_step_even(2) [OF ev] node_step_even(3) [OF ev, of K ls]
        by (simp add: bit_at_unat del: node.simps power_Suc)
    qed
    from Suc.IH [OF nc rows this] show ?thesis using rd by auto
  qed
qed

text \<open>The stored tree of a network, as far as the proofs need it.\<close>

definition serves :: "keccak \<Rightarrow> ('c \<Rightarrow> node_row set) \<Rightarrow> dbTx \<Rightarrow> u32 \<Rightarrow> h256 list \<Rightarrow> 'c bridgeService \<Rightarrow> bool" where
  "serves K held tx net ls s \<longleftrightarrow>
     (\<exists>d. raw_view tx (bs_storage s) = Some d \<and> db_ok d \<and> net_tree K (unat (bs_height s)) net d ls) \<and>
     no_clash (known held tx s) \<and> 0 < unat (bs_height s) \<and> unat (bs_height s) \<le> 64 \<and>
     length ls < 2 ^ 32 \<and> length ls \<le> 2 ^ unat (bs_height s)"

lemma getProof_tree:
  assumes C: "cache_keeps C held" and sv: "serves K held tx net ls s" and m: "m \<le> length ls" "unat index < m"
    and g: "getProof C index (tree_root K (unat (bs_height s)) (take m ls)) tx s = (x, s')"
  shows "x = Inr (sibling_path K (unat (bs_height s)) (take m ls) (unat index)) \<or>
    (\<exists>e. x = Inl e) \<and> \<not> pg_ready tx (bs_storage s)"
proof -
  let ?H = "unat (bs_height s)" and ?ls = "take m ls"
  obtain d where d: "raw_view tx (bs_storage s) = Some d" "db_ok d" "net_tree K ?H net d ls"
    using sv by (auto simp: serves_def)
  have len: "length ls < 2 ^ 32" "length ls \<le> 2 ^ ?H" and H: "0 < ?H" and nc: "no_clash (known held tx s)"
    using sv by (auto simp: serves_def)
  have "tree_ok K ?H net ls (pg_nodes tx (bs_storage s)) (pg_roots tx (bs_storage s))"
    by (rule net_tree_ok(1) [OF d(2,3,1) len(1)])
  hence rows: "row_at K ?ls k (unat index div 2 ^ Suc k) \<in> pg_nodes tx (bs_storage s)" if "k < ?H" for k
    using path_rows_stored m that by blast
  have z: "unat index div 2 ^ ?H = 0" using m len(2) by simp
  obtain y s1 where y: "proof_walk C tx index (rev [0..<?H]) (node K ?ls ?H (unat index div 2 ^ ?H)) [] s = (y, s1)"
    by fastforce
  have "x = (case y of Inl e \<Rightarrow> Inl e | Inr sibs \<Rightarrow> Inr (rev sibs))"
    using g y z H by (cases y) (auto simp: getProof_def andthen_def tree_root_def pgm.levels_down_eq)
  with proof_walk_tree [OF C nc rows y] show ?thesis
    by (auto simp: sibling_path_def rev_map)
qed

section \<open>Checking a proof\<close>

lemma calculateRoot_sibling_path:
  assumes "H = unat height" and "unat (i :: u32) < 2 ^ H"
  shows "calculateRoot K (leaf_at ls (unat i)) (sibling_path K H ls (unat i)) (ucast i) height = Inr (tree_root K H ls)"
proof -
  let ?p = "sibling_path K H ls (unat i)"
  have u: "unat (ucast i :: u64) = unat i" by transfer (simp add: take_bit_eq_mod)
  have z: "unat i div 2 ^ H = 0" using assms(2) by simp
  have "calculateRoot K (leaf_at ls (unat i)) ?p (ucast i) height = Inr (climb K ?p (ucast i) (leaf_at ls (unat i)) H)"
    by (rule calculateRoot_eq) (simp_all add: assms(1))
  moreover have "climb K ?p (ucast i) (leaf_at ls (unat i)) H = node K ls H (unat i div 2 ^ H)"
    using climb_sibling_path [of H H K ls "ucast i"] by (simp add: u)
  ultimately show ?thesis unfolding z tree_root_def by simp
qed

text \<open>Too many leaves for the tree are an error, so a result is the path and the root of the reference tree.\<close>

lemma ComputeSiblings_Inr:
  assumes r: "ComputeSiblings K i ls height = Inr (sibs, root)" and H: "H = unat height" "0 < H" "H \<le> 64"
  shows "length ls \<le> 2 ^ H" and "sibs = sibling_path K H ls (unat i)" and "root = tree_root K H ls"
proof -
  have i: "unat i < max (Suc 0) (length ls)"
    using r by (auto simp: ComputeSiblings_def length_or_zero Let_def split: if_splits)
  show le: "length ls \<le> 2 ^ H"
  proof (rule ccontr)
    assume big: "\<not> length ls \<le> 2 ^ H"
    let ?w = "length (or_zero_leaf K ls)"
    have w: "?w = length ls" using big by (cases ls) (auto simp: length_or_zero)
    have "ComputeSiblings_loop K [0..<H] i (map (node K ls 0) [0..<?w]) [] [] =
      Inr ([] @ map (sibling_at K ls (unat i)) [0..<H],
           if 0 = H then [] else map (row_at K ls (H - 1)) [0..<halves (H - 0) ?w])"
      by (rule ComputeSiblings_loop_eq) (use H i w in \<open>auto simp: length_or_zero\<close>)
    hence "ComputeSiblings_loop K (levels_up height) i (or_zero_leaf K ls) [] [] =
      Inr (map (sibling_at K ls (unat i)) [0..<H], map (row_at K ls (H - 1)) [0..<halves H (length ls)])"
      unfolding or_zero_as_map unfolding w using H by (simp add: levels_up_def)
    moreover have "2 \<le> halves H (length ls)"
    proof (rule ccontr)
      assume "\<not> 2 \<le> halves H (length ls)"
      hence "halves H (length ls) * 2 ^ H \<le> 1 * 2 ^ H" by (intro mult_le_mono1) simp
      hence "length ls \<le> 1 * 2 ^ H" by (rule le_trans [OF halves_cover])
      thus False using big by simp
    qed
    hence "2 \<le> length (map (row_at K ls (H - 1)) [0..<halves H (length ls)])" by simp
    then obtain a b cs where "map (row_at K ls (H - 1)) [0..<halves H (length ls)] = a # b # cs"
      by (metis Suc_le_length_iff numeral_2_eq_2)
    ultimately show False using r w i by (auto simp: ComputeSiblings_def Let_def split: if_splits prod.splits)
  qed
  have "ComputeSiblings K i ls height = Inr (sibling_path K H ls (unat i), tree_root K H ls)"
    by (rule ComputeSiblings_eq) (use H le i in simp_all)
  thus "sibs = sibling_path K H ls (unat i)" and "root = tree_root K H ls" using r by simp_all
qed

lemma getRollupExitProof_verifies:
  assumes g: "getRollupExitProof K i root tx s = (Inr (mproof, leaf), s')" and H: "0 < unat (bs_height s)" "unat (bs_height s) \<le> 64"
  shows "calculateRoot K leaf mproof (ucast i) (bs_height s) = Inr root \<and> length mproof = unat (bs_height s)"
    and "same_view s s'" and "bs_cache s' = bs_cache s"
proof -
  obtain y s1 where y: "ask (GetRollupExitLeavesByRoot root tx) s = (y, s1)" by fastforce
  note v = ask_query [OF y [unfolded GetRollupExitLeavesByRoot_def]]
  obtain leaves where lv: "y = Inr leaves" using g y by (cases y) (auto simp: getRollupExitProof_def andthen_def)
  let ?ls = "map rel_Leaf leaves"
  have h: "bs_height s1 = bs_height s" using v(1) by (simp add: same_view_def)
  obtain sibs r where cs: "ComputeSiblings K i ?ls (bs_height s) = Inr (sibs, r)"
    using g y lv h by (cases "ComputeSiblings K i ?ls (bs_height s)") (auto simp: getRollupExitProof_def andthen_def)
  have res: "root = r" "mproof = sibs" "unat i < length ?ls" "leaf = ?ls ! unat i" "s' = s1"
    using g y lv h cs by (auto simp: getRollupExitProof_def andthen_def Let_def split: if_splits)
  note c = ComputeSiblings_Inr [OF cs refl H]
  have "leaf = leaf_at ?ls (unat i)" using res by (simp add: leaf_at_def)
  moreover have "unat i < 2 ^ unat (bs_height s)" using c(1) res(3) by simp
  ultimately show "calculateRoot K leaf mproof (ucast i) (bs_height s) = Inr root \<and> length mproof = unat (bs_height s)"
    using c res calculateRoot_sibling_path [OF refl, of i "bs_height s" K ?ls] by simp
  show "same_view s s'" and "bs_cache s' = bs_cache s" using v res by simp_all
qed

text \<open>The deposit that is looked up is the one of its leaf.\<close>

lemma HashDeposit_BlockNumber: "HashDeposit K (p\<lparr>dep_BlockNumber := n\<rparr>) = HashDeposit K (p :: Deposit)"
  unfolding HashDeposit_def deposit_preimage_def by (simp cong: sum.case_cong)

lemma GetDeposit_leaf:
  assumes g: "GetDeposit cnt net tx st = (Inr deposit, st')" and v: "raw_view tx st = Some d"
    and t: "net_tree K H net d ls" and len: "length ls < 2 ^ 32"
  shows "unat cnt < length ls" and "HashDeposit K deposit = Inr (ls ! unat cnt)"
proof -
  let ?rows = "filter (\<lambda>r. dep_NetworkID r = net \<and> dep_DepositCount r = cnt) (t_deposit d)"
  have "first_row (concat (map (join_block d) ?rows)) = Inr deposit"
    using pg_query_InrD [OF g [unfolded GetDeposit_def]] v by auto
  from first_row_InrD [OF this] obtain p where p: "p \<in> set (t_deposit d)" "dep_NetworkID p = net"
    "dep_DepositCount p = cnt" and b: "deposit \<in> set (join_block d p)" by auto
  have "p \<in> set (net_deposits net d)" using p by (simp add: net_deposits_in)
  then obtain i where i: "i < length ls" "p = net_deposits net d ! i"
    using t unfolding net_tree_def in_set_conv_nth by metis
  have ds: "deposit_stored K H net d ls i p" using t i by (simp add: net_tree_def)
  have u: "unat cnt = i" using ds p(3) i(1) len by (simp add: deposit_stored_def unat_of_nat_small)
  have "HashDeposit K deposit = HashDeposit K (Deposit.truncate p)"
    using b by (auto simp: join_block_def HashDeposit_BlockNumber)
  with ds u i show "unat cnt < length ls" and "HashDeposit K deposit = Inr (ls ! unat cnt)"
    by (simp_all add: deposit_stored_def)
qed

lemma proof_walk_length:
  "proof_walk C tx index hs cur acc s = (Inr sibs, s') \<Longrightarrow> length sibs = length acc + length hs"
proof (induction hs arbitrary: cur acc s)
  case (Cons h hs)
  obtain y s1 where y: "getNode C cur tx s = (y, s1)" by fastforce
  then obtain v where v: "y = Inr v" using Cons.prems by (cases y) auto
  obtain cur' w where "proof_walk C tx index hs cur' (acc @ [w]) s1 = (Inr sibs, s')"
    using Cons.prems y v by (cases v) (auto split: if_splits)
  from Cons.IH [OF this] show ?case by simp
qed simp

lemma getProof_InrD:
  assumes "getProof C index root tx s = (Inr mproof, s')" and "0 < unat (bs_height s)"
  shows "proof_walk C tx index (rev [0..<unat (bs_height s)]) root [] s = (Inr (rev mproof), s')"
    and "length mproof = unat (bs_height s)"
proof -
  obtain y s1 where y: "proof_walk C tx index (rev [0..<unat (bs_height s)]) root [] s = (y, s1)" by fastforce
  have "y = Inr (rev mproof) \<and> s1 = s'"
    using assms y by (cases y) (auto simp: getProof_def andthen_def pgm.levels_down_eq)
  thus w: "proof_walk C tx index (rev [0..<unat (bs_height s)]) root [] s = (Inr (rev mproof), s')" using y by simp
  show "length mproof = unat (bs_height s)" using proof_walk_length [OF w] by simp
qed

lemma getProof_leads:
  assumes "cache_keeps C held" and "hashed K (known held tx s)" and "0 < unat (bs_height s)"
    and "getProof C index root tx s = (Inr mproof, s')"
  shows "length mproof = unat (bs_height s) \<and> (\<exists>leaf. calculateRoot K leaf mproof (ucast index) (bs_height s) = Inr root)"
proof -
  note g = getProof_InrD [OF assms(4,3)]
  obtain leaf p where "rev mproof = [] @ rev p" "length p = unat (bs_height s)"
    "climb K p (ucast index) leaf (unat (bs_height s)) = root"
    using proof_walk_sound [OF assms(1,2) g(1)] by blast
  thus ?thesis using calculateRoot_eq [OF refl, of "bs_height s" mproof K leaf "ucast index"] by auto
qed

lemma andthen_InrD: "andthen m f = (Inr y, s') \<Longrightarrow> \<exists>x s1. m = (Inr x, s1) \<and> f x s1 = (Inr y, s')"
  by (auto simp: andthen_def split: prod.splits sum.splits)

lemma rewording_InrD: "rewording msg m = (Inr x, s') \<Longrightarrow> m = (Inr x, s')"
  by (auto simp: rewording_def split: prod.splits sum.splits)

lemma idx_InrD: "idx xs i = Inr x \<Longrightarrow> i < length xs \<and> xs ! i = x"
  by (auto simp: idx_def split: if_splits)

lemma known_same: "same_view s s' \<Longrightarrow> bs_cache s' = bs_cache s \<Longrightarrow> known held tx s' = known held tx s"
  by (auto simp: known_def same_view_def pg_nodes_def)

lemma serves_same: "serves K held tx net ls s \<Longrightarrow> same_view s s' \<Longrightarrow> bs_cache s' = bs_cache s \<Longrightarrow> serves K held tx net ls s'"
  by (simp add: serves_def known_same) (simp add: same_view_def)

lemma claim_proofs_mainnetD:
  assumes "claim_proofs texts K C g cnt 0 tx s = (Inr (ger, mproof, rollupProof), s')"
  obtains root where "idx (ger_ExitRoots g) 0 = Inr root" and "getProof C cnt root tx s = (Inr mproof, s')"
    and "ger = g" and "rollupProof = emptyProof"
proof -
  obtain root where i: "idx (ger_ExitRoots g) 0 = Inr root"
    using assms by (cases "idx (ger_ExitRoots g) 0") (auto simp: claim_proofs_def Let_def split: prod.splits)
  then obtain msg where "andthen (rewording msg (getProof C cnt root tx s)) (\<lambda>mp s1. (Inr (g, mp, emptyProof), s1)) =
      (Inr (ger, mproof, rollupProof), s')"
    using assms by (auto simp: claim_proofs_def Let_def split: prod.splits)
  hence "getProof C cnt root tx s = (Inr mproof, s') \<and> ger = g \<and> rollupProof = emptyProof"
    by (auto dest!: andthen_InrD rewording_InrD)
  thus thesis using that i by blast
qed

lemma claim_proofs_verify:
  assumes C: "cache_keeps C held" and sv: "serves K held tx net ls s"
    and p: "claim_proofs texts K C g cnt net tx s = (Inr (ger, mproof, rollupProof), s')"
  obtains r where "ger = g"
    and "if net = 0 then r = ger_ExitRoots ger ! 0 \<and> rollupProof = emptyProof
         else calculateRoot K r rollupProof (ucast (net - 1)) (bs_height s) = Inr (ger_ExitRoots ger ! 1)"
    and "\<And>m. unat cnt < m \<Longrightarrow> m \<le> length ls \<Longrightarrow> r = tree_root K (unat (bs_height s)) (take m ls) \<Longrightarrow>
      calculateRoot K (ls ! unat cnt) mproof (ucast cnt) (bs_height s) = Inr r"
proof -
  let ?H = "unat (bs_height s)"
  have H: "0 < ?H" "?H \<le> 64" and len: "length ls \<le> 2 ^ ?H" using sv by (auto simp: serves_def)
  have tree: "calculateRoot K (ls ! unat cnt) mproof (ucast cnt) (bs_height s) = Inr (tree_root K ?H (take m ls))"
    if g: "getProof C cnt (tree_root K ?H (take m ls)) tx s1 = (Inr mproof, s2)" and s1: "serves K held tx net ls s1"
      "bs_height s1 = bs_height s" and m: "unat cnt < m" "m \<le> length ls" for s1 s2 m
  proof -
    have "mproof = sibling_path K ?H (take m ls) (unat cnt)"
      using getProof_tree [OF C s1(1) m(2,1)] g s1(2) by auto
    moreover have "leaf_at (take m ls) (unat cnt) = ls ! unat cnt" using m by (simp add: leaf_at_def)
    moreover have "unat cnt < 2 ^ ?H" using m len by simp
    ultimately show ?thesis using calculateRoot_sibling_path [OF refl, of cnt "bs_height s" K "take m ls"] by simp
  qed
  show thesis
  proof (cases "net = 0")
    case True
    obtain root where i: "idx (ger_ExitRoots g) 0 = Inr root" and gp: "getProof C cnt root tx s = (Inr mproof, s')"
      and ger: "ger = g" "rollupProof = emptyProof" by (rule claim_proofs_mainnetD [OF p [unfolded True]])
    show thesis by (rule that [of root]) (use True ger tree gp sv idx_InrD [OF i] in auto)
  next
    case False
    then obtain root where i: "idx (ger_ExitRoots g) 1 = Inr root"
      using p by (cases "idx (ger_ExitRoots g) 1") (auto simp: claim_proofs_def Let_def split: prod.splits)
    then obtain msg msg' where "andthen (rewording msg (getRollupExitProof K (net - 1) root tx s)) (\<lambda>(rp, leaf) s1.
        andthen (rewording msg' (getProof C cnt leaf tx s1)) (\<lambda>mp s2. (Inr (g, mp, rp), s2))) = (Inr (ger, mproof, rollupProof), s')"
      using p False by (auto simp: claim_proofs_def Let_def split: prod.splits)
    then obtain rp leaf s1 s2 where rx: "getRollupExitProof K (net - 1) root tx s = (Inr (rp, leaf), s1)"
      and gp: "getProof C cnt leaf tx s1 = (Inr mproof, s2)" and ger: "ger = g" "rollupProof = rp"
      by (auto dest!: andthen_InrD rewording_InrD)
    note rv = getRollupExitProof_verifies [OF rx H]
    have s1: "serves K held tx net ls s1" "bs_height s1 = bs_height s"
      using serves_same [OF sv rv(2,3)] rv(2) by (auto simp: same_view_def)
    show thesis by (rule that [of leaf]) (use False ger tree gp s1 rv(1) idx_InrD [OF i] in auto)
  qed
qed

lemma GetLatestTrustedExitRoot_frame:
  assumes "GetLatestTrustedExitRoot net tx st = (x, st')"
  shows "raw_view t st' = raw_view t st"
proof -
  obtain y st1 where y: "pg_query tx (\<lambda>d. first_row (exit_roots_where (\<lambda>r. er_net r = net) d)) st = (y, st1)" by fastforce
  obtain z st2 where z: "GetL1ExitRootByGER (er_ger (projr y)) tx st1 = (z, st2)" by fastforce
  have "raw_view t st1 = raw_view t st" using pg_query_frame [OF y] .
  moreover have "raw_view t st2 = raw_view t st1" using pg_query_frame z unfolding GetL1ExitRootByGER_def by blast
  moreover have "st' = st1 \<or> st' = st2"
    using assms y z by (cases y; cases z) (auto simp: GetLatestTrustedExitRoot_def Let_def split: if_splits)
  ultimately show ?thesis by metis
qed

lemma ask_exit_root:
  assumes "(if b then ask (GetLatestTrustedExitRoot net tx) s else ask (GetLatestExitRoot net dst tx) s) = (x, s')"
  shows "same_view s s'" and "bs_cache s' = bs_cache s"
  using assms GetLatestTrustedExitRoot_frame pg_query_frame
  by (auto simp: ask_def same_view_def GetLatestExitRoot_def GetLatestL1SyncedExitRoot_def split: prod.splits if_splits)

lemma GetClaimProof_InrD:
  assumes "GetClaimProof K C cnt net tx s = (Inr res, s')"
  obtains deposit g s2 texts where "fst (GetDeposit cnt net tx (bs_storage s)) = Inr deposit" and "dep_ReadyForClaim deposit"
    and "same_view s s2" and "bs_cache s2 = bs_cache s" and "claim_proofs texts K C g cnt net tx s2 = (Inr res, s')"
proof -
  let ?texts = "(''getting the proof failed'', ''getting the rollup proof failed'', ''getting the proof failed'')"
  obtain deposit s1 where d: "ask (GetDeposit cnt net tx) s = (Inr deposit, s1)" and ready: "dep_ReadyForClaim deposit"
    and r: "andthen (if bs_finalizedGER s1 \<and> dep_DestinationNetwork deposit \<noteq> 0 \<and> net \<noteq> 0
                  then ask (GetLatestTrustedExitRoot net tx) s1
                  else ask (GetLatestExitRoot net (dep_DestinationNetwork deposit) tx) s1) (\<lambda>globalExitRoot s2.
           claim_proofs ?texts K C globalExitRoot cnt net tx s2) = (Inr res, s')"
    using andthen_InrD [OF assms [unfolded GetClaimProof_def]] by (elim exE conjE) (simp split: if_split_asm)
  obtain g s2 where g: "(if bs_finalizedGER s1 \<and> dep_DestinationNetwork deposit \<noteq> 0 \<and> net \<noteq> 0
                  then ask (GetLatestTrustedExitRoot net tx) s1
                  else ask (GetLatestExitRoot net (dep_DestinationNetwork deposit) tx) s1) = (Inr g, s2)"
    and cp: "claim_proofs ?texts K C g cnt net tx s2 = (Inr res, s')"
    using andthen_InrD [OF r] by blast
  note v1 = ask_query [OF d [unfolded GetDeposit_def]] and v2 = ask_exit_root [OF g]
  have "fst (GetDeposit cnt net tx (bs_storage s)) = Inr deposit"
    using d by (auto simp: ask_def split: prod.splits)
  thus thesis by (rule that) (use ready v1 v2 cp same_view_trans in auto)
qed

section \<open>Properties\<close>

text \<open>C24. Every proof the service computes verifies: it has one sibling per level and leads from some leaf, at the
  index asked for, to the root asked for.  This needs that the stored and the cached nodes are hashes of their
  children, and nothing on the order in which the deposits came.\<close>

theorem getProof_sound:
  assumes "cache_keeps C held" and "hashed K (known held tx s)" and "0 < unat (bs_height s)"
    and "getProof C index root tx s = (Inr mproof, s')"
  shows "length mproof = unat (bs_height s) \<and> (\<exists>leaf. calculateRoot K leaf mproof (ucast index) (bs_height s) = Inr root)"
  using assms by (rule getProof_leads)

text \<open>C23. What the service returns for a claim is what the contract checks.  For a deposit of the mainnet the
  proof leads from the leaf of the deposit to the mainnet exit root of the global exit root; for a rollup the
  second proof leads from the exit root of the rollup to the rollup exit root, and the first one from the leaf
  to that exit root.  The exit root has to be one of the tree after the deposit.\<close>

theorem GetClaimProof_claimable:
  assumes "cache_keeps C held" and "serves K held tx net ls s"
    and "GetClaimProof K C cnt net tx s = (Inr (ger, mproof, rollupProof), s')"
  shows "\<exists>deposit leaf r. fst (GetDeposit cnt net tx (bs_storage s)) = Inr deposit \<and> dep_ReadyForClaim deposit \<and>
    HashDeposit K deposit = Inr leaf \<and>
    (if net = 0 then r = ger_ExitRoots ger ! 0 \<and> rollupProof = emptyProof
     else calculateRoot K r rollupProof (ucast (net - 1)) (bs_height s) = Inr (ger_ExitRoots ger ! 1)) \<and>
    (\<forall>m. unat cnt < m \<and> m \<le> length ls \<and> r = tree_root K (unat (bs_height s)) (take m ls) \<longrightarrow>
       calculateRoot K leaf mproof (ucast cnt) (bs_height s) = Inr r)"
proof -
  obtain deposit g s2 texts where d: "fst (GetDeposit cnt net tx (bs_storage s)) = Inr deposit" "dep_ReadyForClaim deposit"
    and v: "same_view s s2" "bs_cache s2 = bs_cache s"
    and cp: "claim_proofs texts K C g cnt net tx s2 = (Inr (ger, mproof, rollupProof), s')"
    by (rule GetClaimProof_InrD [OF assms(3)])
  have h: "bs_height s2 = bs_height s" using v(1) by (simp add: same_view_def)
  obtain db where db: "raw_view tx (bs_storage s) = Some db" "net_tree K (unat (bs_height s)) net db ls" "length ls < 2 ^ 32"
    using assms(2) by (auto simp: serves_def)
  obtain st where "GetDeposit cnt net tx (bs_storage s) = (Inr deposit, st)" using d(1) by (metis prod.collapse)
  note leaf = GetDeposit_leaf [OF this db]
  obtain r where "ger = g" and "if net = 0 then r = ger_ExitRoots ger ! 0 \<and> rollupProof = emptyProof
         else calculateRoot K r rollupProof (ucast (net - 1)) (bs_height s2) = Inr (ger_ExitRoots ger ! 1)"
    and "\<And>m. unat cnt < m \<Longrightarrow> m \<le> length ls \<Longrightarrow> r = tree_root K (unat (bs_height s2)) (take m ls) \<Longrightarrow>
      calculateRoot K (ls ! unat cnt) mproof (ucast cnt) (bs_height s2) = Inr r"
    by (rule claim_proofs_verify [OF assms(1) serves_same [OF assms(2) v] cp]) blast
  thus ?thesis using d leaf(2) unfolding h by blast
qed

definition sample_cache :: "(node_row list) lru" where
  "sample_cache = \<lparr>lru_New = (\<lambda>n. if n \<le> 0 then Inl (ErrMsg ''must provide a positive size'') else Inr []),
     lru_Get = (\<lambda>k c. (map_of c k, c)), lru_Add = (\<lambda>k v c. [(k, v)])\<rparr>"

lemma sample_cache_keeps: "cache_keeps sample_cache set"
  by (auto simp: cache_keeps_def sample_cache_def dest: map_of_SomeD)

text \<open>One deposit of the mainnet in block 5, and a global exit root with the root of its tree.\<close>

definition claim_db :: db where
  "claim_db =
     (let d = deposit_added (\<lambda>_. 9) 1 (sample_deposit\<lparr>dep_DestinationNetwork := 0\<rparr>) 1 2 [9] (empty_db\<lparr>
        t_block := [\<lparr>br_id = 1, br_num = 5, br_hash = 50, br_net = 0\<rparr>], seq_block := 2,
        t_exit_root := [\<lparr>er_id = 1, er_block_id = 1, er_ger = 77, er_exit_roots = [9, 3], er_net = 0, er_allowed = True\<rparr>],
        seq_exit_root := 2\<rparr>) in
      d\<lparr>t_deposit := map (\<lambda>p. p\<lparr>dep_ReadyForClaim := True\<rparr>) (t_deposit d)\<rparr>)"

definition sample_service :: "u8 \<Rightarrow> (node_row list) bridgeService" where
  "sample_service h = \<lparr>bs_storage = pg_init\<lparr>pg_committed := claim_db\<rparr>, bs_networkIDs = [0 \<mapsto> 0], bs_height = h,
     bs_defaultPageLimit = 25, bs_maxPageLimit = 100, bs_version = ''v1'', bs_finalizedGER = False, bs_cache = []\<rparr>"

lemmas claim_db_run = claim_db_def deposit_added_def new_deposit_row_def Deposit.defs sample_deposit_def empty_db_def
  path_inserts_def path_rows_def row_at_def tree_root_def Let_def leaf_at_def Hash_def

lemma claim_db_tree: "net_tree (\<lambda>_. 9) 1 0 claim_db [9]"
  by (simp add: net_tree_def net_deposits_def deposit_stored_def claim_db_run HashDeposit_def deposit_preimage_def FillBytes32_def)

lemma claim_db_ok: "db_ok claim_db"
  by (simp add: db_ok_defs claim_db_run rht_key_def block_ref_def deposit_ref_def)

lemma sample_serves: "serves (\<lambda>_. 9) set NoTx 0 [9] (sample_service 1)"
proof -
  have "no_clash (known set NoTx (sample_service 1))"
    by (simp add: no_clash_def known_def sample_service_def pg_nodes_def raw_view_def claim_db_run)
  thus ?thesis using claim_db_tree claim_db_ok by (simp add: serves_def sample_service_def raw_view_def)
qed

lemmas service_run = getProof_def getNode_def ask_def andthen_def rewording_def reword_def sample_service_def sample_cache_def
  levels_down_def GetNode_def pg_run claim_db_run first_row_def bit_at_def HashZero_def

theorem getProof_sound_witness:
  "\<exists>s'. getProof sample_cache 0 9 NoTx (sample_service 1) = (Inr [0], s') \<and>
     length [0 :: h256] = 1 \<and> (\<exists>leaf. calculateRoot (\<lambda>_. 9) leaf [0] (ucast (0 :: u32)) 1 = Inr 9)"
proof -
  obtain s' where g: "getProof sample_cache 0 9 NoTx (sample_service 1) = (Inr [0], s')"
    by (simp add: service_run)
  have "hashed (\<lambda>_. 9) (known set NoTx (sample_service 1))"
    by (simp add: hashed_def known_def sample_service_def pg_nodes_def raw_view_def claim_db_run)
  from getProof_sound [OF sample_cache_keeps this _ g] g show ?thesis by (simp add: sample_service_def)
qed

theorem GetClaimProof_claimable_witness:
  "\<exists>s' leaf. GetClaimProof (\<lambda>_. 9) sample_cache 0 0 NoTx (sample_service 1) =
       (Inr (mk_ger 1 [9, 3] 77 0 0, [0], emptyProof), s') \<and>
     (\<exists>deposit. fst (GetDeposit 0 0 NoTx (bs_storage (sample_service 1))) = Inr deposit \<and>
        HashDeposit (\<lambda>_. 9) deposit = Inr leaf) \<and>
     calculateRoot (\<lambda>_. 9) leaf [0] 0 1 = Inr 9"
proof -
  obtain s' where g: "GetClaimProof (\<lambda>_. 9) sample_cache 0 0 NoTx (sample_service 1) =
      (Inr (mk_ger 1 [9, 3] 77 0 0, [0], emptyProof), s')"
    by (simp add: GetClaimProof_def GetDeposit_def join_block_def GetLatestExitRoot_def GetLatestL1SyncedExitRoot_def
        exit_roots_where_def order_desc_def l1_ger_of_row_def two_roots_def mk_ger_def claim_proofs_def idx_def service_run)
  have "ger_ExitRoots (mk_ger 1 [9, 3] 77 0 0) ! 0 = 9" by (simp add: mk_ger_def)
  moreover have "tree_root (\<lambda>_. 9) (unat (bs_height (sample_service 1))) (take 1 [9]) = 9"
    by (simp add: sample_service_def tree_root_def Hash_def)
  ultimately show ?thesis
    using GetClaimProof_claimable [OF sample_cache_keeps sample_serves g] g
    by (auto simp: sample_service_def dest!: spec [of _ 1])
qed

text \<open>C25. The data for taking a tree back: for a proof of the leaf at \<open>n\<close>, whatever leaves follow it, the frontier
  is the state of the tree with the first \<open>n\<close> leaves, and is zero at the levels where that state is not used.\<close>

theorem computeFrontier_state:
  assumes "unat n \<le> length ls"
  shows "\<exists>frontier. computeFrontierFromProof n (sibling_path K (unat (bs_height s)) ls (unat n)) s = Inr frontier \<and>
    sib_ok K (unat (bs_height s)) (take (unat n) ls) frontier \<and>
    (\<forall>h<unat (bs_height s). even (unat n div 2 ^ h) \<longrightarrow> frontier ! h = 0)"
proof -
  let ?H = "unat (bs_height s)" and ?p = "sibling_path K (unat (bs_height s)) ls (unat n)"
  let ?f = "map (\<lambda>i. if drop_bit i n AND 1 = 1 then ?p ! i else 0) [0..<?H]"
  have "?f ! h = node K (take (unat n) ls) h (2 * (unat n div 2 ^ Suc h))"
    if h: "h < ?H" and o: "odd (unat n div 2 ^ h)" for h
  proof -
    have "?f ! h = node K ls h (2 * (unat n div 2 ^ Suc h))"
      using h o node_step_odd(3) [OF o, of K ls] by (simp add: shift_and_one bit_unat del: power_Suc)
    moreover have "min (length ls) (Suc (2 * (unat n div 2 ^ Suc h)) * 2 ^ h) \<le> unat n"
      using left_complete [OF o] by (simp add: min_le_iff_disj)
    ultimately show ?thesis using node_take [of "unat n" ls "2 * (unat n div 2 ^ Suc h)" h K] assms by simp
  qed
  moreover have "?f ! h = 0" if "h < ?H" "even (unat n div 2 ^ h)" for h
    using that by (simp add: shift_and_one bit_unat)
  moreover have "computeFrontierFromProof n ?p s = Inr ?f" by (simp add: computeFrontierFromProof_def)
  ultimately show ?thesis using assms by (auto simp: sib_ok_def)
qed

theorem computeFrontier_state_witness:
  "\<exists>frontier. computeFrontierFromProof 1 (sibling_path (\<lambda>_. 9) 1 [4, 5] 1) (sample_service 1) = Inr frontier \<and>
    sib_ok (\<lambda>_. 9) 1 [4] frontier"
  using computeFrontier_state [of 1 "[4, 5]" "\<lambda>_. 9" "sample_service 1"] by (auto simp: sample_service_def)

lemma proof_texts_short:
  "i \<le> length rp \<Longrightarrow> length rp < i + length ps \<Longrightarrow> proof_texts i ps rp = Inl GoPanic"
proof (induction ps arbitrary: i)
  case (Cons p ps)
  thus ?case by (cases "i < length rp") (auto simp: idx_def)
qed simp

text \<open>C26. The lengths of the two proofs are not compared: the test before the conversion looks at two slices that
  are still empty.  A mainnet proof is converted together with an empty proof of 32 hashes, so that with trees
  higher than 32 the call panics.\<close>

theorem GetProof_high_tree_panics:
  assumes "GetClaimProof K C cnt 0 NoTx s = (Inr (ger, mproof, rollupProof), s')" and "32 < unat (bs_height s)"
  shows "GetProof K C E cnt 0 s = (Inl GoPanic, s')"
proof -
  obtain deposit g s2 texts where v: "same_view s s2"
    and cp: "claim_proofs texts K C g cnt 0 NoTx s2 = (Inr (ger, mproof, rollupProof), s')"
    by (rule GetClaimProof_InrD [OF assms(1)]) blast
  obtain root where gp: "getProof C cnt root NoTx s2 = (Inr mproof, s')" and e: "rollupProof = emptyProof"
    by (rule claim_proofs_mainnetD [OF cp]) blast
  have "length mproof = unat (bs_height s)"
    using getProof_InrD(2) [OF gp] v assms(2) by (simp add: same_view_def)
  hence "proof_texts 0 mproof rollupProof = Inl GoPanic"
    by (intro proof_texts_short) (use assms(2) e in \<open>simp_all add: emptyProof_def\<close>)
  thus ?thesis using assms(1) by (simp add: GetProof_def andthen_def pb_proof_def)
qed

definition sample_text :: eth_text where
  "sample_text = \<lparr>AddressHex = (\<lambda>a. ''0x'' @ nat_text 16 (unat a)), HashHex = (\<lambda>h. ''0x'' @ nat_text 16 (unat h)),
     HexToAddress = (\<lambda>_. 0), HexToHash = (\<lambda>_. 0), FromHex = (\<lambda>_. [])\<rparr>"

lemma sample_walk:
  assumes "bs_storage s = pg_init\<lparr>pg_committed := claim_db\<rparr>" and "bs_cache s = [] \<or> bs_cache s = [(9, 9, 0)]"
  shows "\<exists>s'. proof_walk sample_cache NoTx 0 hs 9 acc s = (Inr (acc @ replicate (length hs) 0), s') \<and>
    bs_storage s' = bs_storage s"
  using assms
proof (induction hs arbitrary: acc s)
  case (Cons h hs)
  have "\<exists>s1. getNode sample_cache 9 NoTx s = (Inr (9, 0), s1) \<and> bs_storage s1 = bs_storage s \<and> bs_cache s1 = [(9, 9, 0)]"
    using Cons.prems by (auto simp: getNode_def ask_def GetNode_def pg_run first_row_def sample_cache_def claim_db_run HashZero_def)
  then obtain s1 where s1: "getNode sample_cache 9 NoTx s = (Inr (9, 0), s1)" "bs_storage s1 = bs_storage s"
    "bs_cache s1 = [(9, 9, 0)]" by blast
  from Cons.IH [of s1 "acc @ [0]"] Cons.prems s1 show ?case by (auto simp: bit_at_def)
qed simp

lemma sample_getProof:
  assumes "bs_storage s = pg_init\<lparr>pg_committed := claim_db\<rparr>" and "bs_cache s = []"
  shows "\<exists>s'. getProof sample_cache 0 9 NoTx s = (Inr (replicate (length (levels_down (bs_height s))) 0), s') \<and>
    bs_storage s' = bs_storage s"
  using sample_walk [OF assms(1), of "levels_down (bs_height s)" "[]"] assms(2) by (auto simp: getProof_def andthen_def)

theorem GetProof_high_tree_panics_witness:
  "\<exists>s'. GetProof (\<lambda>_. 9) sample_cache sample_text 0 0 (sample_service 33) = (Inl GoPanic, s')"
proof -
  let ?st = "pg_init\<lparr>pg_committed := claim_db\<rparr>"
  obtain deposit where d: "GetDeposit 0 0 NoTx ?st = (Inr deposit, ?st)" "dep_ReadyForClaim deposit" "dep_DestinationNetwork deposit = 0"
    by (simp add: GetDeposit_def join_block_def pg_run claim_db_run first_row_def)
  have g: "GetLatestExitRoot 0 0 NoTx ?st = (Inr (mk_ger 1 [9, 3] 77 0 0), ?st)"
    by (simp add: GetLatestExitRoot_def GetLatestL1SyncedExitRoot_def exit_roots_where_def order_desc_def l1_ger_of_row_def
        two_roots_def idx_def mk_ger_def pg_run claim_db_run first_row_def)
  have s: "bs_storage (sample_service 33) = ?st" "bs_cache (sample_service 33) = []" "bs_height (sample_service 33) = 33"
    by (simp_all add: sample_service_def)
  obtain p s' where "getProof sample_cache 0 9 NoTx ((sample_service 33)\<lparr>bs_storage := ?st\<rparr>) = (Inr p, s')"
    using sample_getProof [of "(sample_service 33)\<lparr>bs_storage := ?st\<rparr>"] s by auto
  hence "GetClaimProof (\<lambda>_. 9) sample_cache 0 0 NoTx (sample_service 33) = (Inr (mk_ger 1 [9, 3] 77 0 0, p, emptyProof), s')"
    using d g s by (simp add: GetClaimProof_def ask_def andthen_def rewording_def claim_proofs_def idx_def mk_ger_def)
  from GetProof_high_tree_panics [OF this] show ?thesis by (auto simp: s)
qed

end
