(* ===== verification/Claim_Groups.thy ===== *)
theory Claim_Groups
  imports Pg_Queries Hex "HOL-Library.AList"
begin

text \<open>
  Claims sent in groups: \<^verbatim>\<open>claimtxman/groups_trigger.go\<close>, \<^verbatim>\<open>pending_txs.go\<close>, \<^verbatim>\<open>store_changes.go\<close>,
  \<^verbatim>\<open>compose_compress_claim.go\<close> and \<^verbatim>\<open>monitor_compressed_txs.go\<close>.

  \<^item> A Go map is a list of pairs with distinct keys; the order of the list is one its iteration can take.
  \<^item> What is outside of the repository is the record \<open>claim_node\<close> of functions over a state \<open>'n\<close>: the
    receipts of the node, the compressor contract, and the clock.  The ABI of the bridge is the record
    \<open>bridge_abi\<close>, the comparison of \<^verbatim>\<open>go-cmp\<close> the two functions \<open>eqG\<close> and \<open>eqT\<close>.
  \<^item> Log messages that are stored (\<^verbatim>\<open>LastLog\<close>) are kept without the hashes and numbers printed in them.
\<close>

section \<open>Configuration and the outside\<close>

record ConfigGroupingClaims =
  gc_TriggerNumberOfClaims :: int
  gc_MaxNumberOfClaimsPerGroup :: int
  gc_TriggerRetainedClaimPeriod :: int
  gc_MaxRetries :: "32 word"
  gc_RetryInterval :: int
  gc_RetryTimeout :: int
  gc_GasOffset :: u64

record ClaimCallData =
  cc_SmtProofLocalExitRoot :: "h256 list"
  cc_SmtProofRollupExitRoot :: "h256 list"
  cc_GlobalIndex :: int
  cc_OriginNetwork :: u32
  cc_OriginAddress :: address
  cc_DestinationAddress :: address
  cc_Amount :: int
  cc_Metadata :: bytes
  cc_IsMessage :: bool

record bridgeClaimXParams =
  cx_smtProofLocalExitRoot :: "h256 list"
  cx_smtProofRollupExitRoot :: "h256 list"
  cx_globalIndex :: int
  cx_mainnetExitRoot :: h256
  cx_rollupExitRoot :: h256
  cx_originNetwork :: u32
  cx_originTokenAddress :: address
  cx_destinationNetwork :: u32
  cx_destinationAddress :: address
  cx_amount :: int
  cx_metadata :: bytes
  cx_isMessage :: bool

record CompressClaimParameters =
  cp_MainnetExitRoot :: h256
  cp_RollupExitRoot :: h256
  cp_ClaimData :: "ClaimCallData list"

record bridge_abi =
  claimAssetID :: bytes
  claimMessageID :: bytes
  abi_Inputs :: "bytes \<Rightarrow> (bytes \<Rightarrow> bridgeClaimXParams result) result"

text \<open>A receipt is whether its status is successful, and its number of logs; a transaction its hash and gas.
  \<open>Compressor_Send\<close> has the fields \<^verbatim>\<open>NoSend\<close> and \<^verbatim>\<open>GasLimit\<close> of the authorisation as arguments.\<close>

record 'n claim_node =
  TransactionReceipt :: "h256 \<Rightarrow> 'n \<Rightarrow> (bool \<times> nat) result \<times> 'n"
  Compressor_Send :: "bool \<Rightarrow> u64 \<Rightarrow> bytes \<Rightarrow> 'n \<Rightarrow> (h256 \<times> u64) result \<times> 'n"
  Compressor_Call :: "h256 \<Rightarrow> h256 \<Rightarrow> ClaimCallData list \<Rightarrow> 'n \<Rightarrow> bytes result \<times> 'n"
  Time_Now :: "'n \<Rightarrow> int \<times> 'n"

definition ethNotFound :: error where
  "ethNotFound = ErrMsg ''not found''"

definition CheckTxWasMined :: "('n, 'z) claim_node_scheme \<Rightarrow> h256 \<Rightarrow> 'n \<Rightarrow> ((bool \<times> nat) option) result \<times> 'n" where
  "CheckTxWasMined N txHash n =
     (case TransactionReceipt N txHash n of
        (Inl e, n1) \<Rightarrow> (if e = ethNotFound then Inr None else Inl e, n1)
      | (Inr receipt, n1) \<Rightarrow> (Inr (Some receipt), n1))"

text \<open>A failed call of the compressor is reported as success with no bytes.\<close>

definition CompressClaimCall :: "'n claim_node \<Rightarrow> h256 \<Rightarrow> h256 \<Rightarrow> ClaimCallData list \<Rightarrow> 'n \<Rightarrow> bytes result \<times> 'n" where
  "CompressClaimCall N mainnetExitRoot rollupExitRoot claimData n =
     (case Compressor_Call N mainnetExitRoot rollupExitRoot claimData n of
        (Inl e, n1) \<Rightarrow> (Inr [], n1)
      | (Inr compressedData, n1) \<Rightarrow> (Inr compressedData, n1))"

definition SendCompressedClaims :: "'n claim_node \<Rightarrow> bool \<Rightarrow> u64 \<Rightarrow> bytes \<Rightarrow> 'n \<Rightarrow> (h256 \<times> u64) result \<times> 'n" where
  "SendCompressedClaims N noSend gasLimit compressedTxData n = Compressor_Send N noSend gasLimit compressedTxData n"

section \<open>Which claims form a group\<close>

definition isRetainedPeriodSurpassed :: "ConfigGroupingClaims \<Rightarrow> int \<Rightarrow> MonitoredTx list \<Rightarrow> bool" where
  "isRetainedPeriodSurpassed cfg now txs = list_ex (\<lambda>tx. gc_TriggerRetainedClaimPeriod cfg < now - mtx_CreatedAt tx) txs"

fun choose_loop :: "ConfigGroupingClaims \<Rightarrow> MonitoredTx list \<Rightarrow> MonitoredTx list \<Rightarrow> MonitoredTx list" where
  "choose_loop cfg [] gr = gr"
| "choose_loop cfg (tx # txs) gr =
     (if int (length (gr @ [tx])) = gc_MaxNumberOfClaimsPerGroup cfg then gr @ [tx]
      else choose_loop cfg txs (gr @ [tx]))"

definition chooseGroupTx :: "ConfigGroupingClaims \<Rightarrow> MonitoredTx list \<Rightarrow> MonitoredTx list" where
  "chooseGroupTx cfg txs = choose_loop cfg txs []"

definition ChooseTxs :: "ConfigGroupingClaims \<Rightarrow> int \<Rightarrow> MonitoredTx list \<Rightarrow> MonitoredTx list" where
  "ChooseTxs cfg now txs =
     (if isRetainedPeriodSurpassed cfg now txs then chooseGroupTx cfg txs
      else if gc_TriggerNumberOfClaims cfg \<le> int (length txs) then chooseGroupTx cfg txs
      else [])"

section \<open>The parameters of a compressed claim\<close>

definition extractParamsClaimX :: "bridge_abi \<Rightarrow> bytes \<Rightarrow> bridgeClaimXParams result" where
  "extractParamsClaimX A data =
     (if length data < 4 then Inl GoPanic
      else case abi_Inputs A (take 4 data) of
             Inl e \<Rightarrow> Inl e
           | Inr unpack \<Rightarrow> unpack (drop 4 data))"

definition extractParams :: "bridge_abi \<Rightarrow> bytes \<Rightarrow> bridgeClaimXParams result" where
  "extractParams A data =
     (if length data < 4 then Inl GoPanic
      else if claimAssetID A = take 4 data then
        map_sum id (\<lambda>p. p\<lparr>cx_isMessage := False\<rparr>) (extractParamsClaimX A data)
      else if claimMessageID A = take 4 data then
        map_sum id (\<lambda>p. p\<lparr>cx_isMessage := True\<rparr>) (extractParamsClaimX A data)
      else Inl (ErrMsg ''method unknown''))"

fun extract_all :: "bridge_abi \<Rightarrow> (u64 \<times> bytes) list \<Rightarrow> ((u64 \<times> bridgeClaimXParams) list) result" where
  "extract_all A [] = Inr []"
| "extract_all A ((depositID, data) # rest) =
     (case extractParams A data of
        Inl e \<Rightarrow> Inl e
      | Inr p \<Rightarrow> (case extract_all A rest of Inl e \<Rightarrow> Inl e | Inr ps \<Rightarrow> Inr ((depositID, p) # ps)))"

definition call_data :: "bridgeClaimXParams \<Rightarrow> ClaimCallData" where
  "call_data v =
     \<lparr>cc_SmtProofLocalExitRoot = cx_smtProofLocalExitRoot v, cc_SmtProofRollupExitRoot = cx_smtProofRollupExitRoot v,
      cc_GlobalIndex = cx_globalIndex v, cc_OriginNetwork = cx_originNetwork v, cc_OriginAddress = cx_originTokenAddress v,
      cc_DestinationAddress = cx_destinationAddress v, cc_Amount = cx_amount v, cc_Metadata = cx_metadata v,
      cc_IsMessage = cx_isMessage v\<rparr>"

text \<open>The exit roots are those of the claim with the largest deposit; the maximum of no keys panics.\<close>

definition GetCompressClaimParameters :: "bridge_abi \<Rightarrow> (u64 \<times> bytes) list \<Rightarrow> CompressClaimParameters result" where
  "GetCompressClaimParameters A txsData =
     (case extract_all A txsData of
        Inl e \<Rightarrow> Inl e
      | Inr params \<Rightarrow>
          if params = [] then Inl GoPanic
          else
            let maxDepositID = Max (set (map fst params)); p = the (map_of params maxDepositID) in
            Inr \<lparr>cp_MainnetExitRoot = cx_mainnetExitRoot p, cp_RollupExitRoot = cx_rollupExitRoot p,
                 cp_ClaimData = map (call_data \<circ> snd) params\<rparr>)"

fun put_all :: "('k \<times> 'v) list \<Rightarrow> ('k \<times> 'v) list \<Rightarrow> ('k \<times> 'v) list" where
  "put_all m [] = m"
| "put_all m ((k, v) # rest) = put_all (AList.update k v m) rest"

definition GetCompressClaimParametersFromMonitoredTx :: "bridge_abi \<Rightarrow> MonitoredTx list \<Rightarrow> CompressClaimParameters result" where
  "GetCompressClaimParametersFromMonitoredTx A txs =
     GetCompressClaimParameters A (put_all [] (map (\<lambda>tx. (mtx_DepositID tx, mtx_Data tx)) txs))"

section \<open>Pending transactions\<close>

record PendingTxs =
  pt_GroupTx :: "(u64 \<times> MonitoredTxGroup) list"
  pt_TxCandidatesForGroup :: "MonitoredTx list"
  pt_LastGroupTxID :: u64

definition IsEmpty :: "PendingTxs \<Rightarrow> bool" where
  "IsEmpty m = (length (pt_GroupTx m) = 0 \<and> length (pt_TxCandidatesForGroup m) = 0)"

definition GenerateNewGroupID :: "PendingTxs \<Rightarrow> u64 \<times> PendingTxs" where
  "GenerateNewGroupID m =
     (pt_LastGroupTxID m + 1, m\<lparr>pt_LastGroupTxID := pt_LastGroupTxID m + 1\<rparr>)"

definition addTxCandidatesForGroup :: "MonitoredTx \<Rightarrow> PendingTxs \<Rightarrow> PendingTxs" where
  "addTxCandidatesForGroup tx m = m\<lparr>pt_TxCandidatesForGroup := pt_TxCandidatesForGroup m @ [tx]\<rparr>"

definition zero_group :: MonitoredTxGroup where
  "zero_group =
     \<lparr>mg_DbEntry = \<lparr>grp_GroupID = 0, grp_Status = MonitoredTxGroupStatusNone, grp_DepositIDs = [],
        grp_CompressedTxData = None, grp_ClaimTxHistory = None, grp_CreatedAt = 0, grp_UpdatedAt = 0,
        grp_NumRetries = 0, grp_LastLog = []\<rparr>, mg_Txs = []\<rparr>"

definition addTxToGroup :: "u64 \<Rightarrow> MonitoredTx \<Rightarrow> PendingTxs \<Rightarrow> PendingTxs" where
  "addTxToGroup gr tx m =
     (let g = (case map_of (pt_GroupTx m) gr of None \<Rightarrow> zero_group | Some g \<Rightarrow> g) in
      m\<lparr>pt_GroupTx := AList.update gr (group_AddTx g tx) (pt_GroupTx m)\<rparr>)"

definition pt_AddGroup :: "MonitoredTxGroup \<Rightarrow> PendingTxs \<Rightarrow> PendingTxs" where
  "pt_AddGroup gr m =
     (case map_of (pt_GroupTx m) (grp_GroupID (mg_DbEntry gr)) of
        Some _ \<Rightarrow> m
      | None \<Rightarrow> m\<lparr>pt_GroupTx := AList.update (grp_GroupID (mg_DbEntry gr)) gr (pt_GroupTx m)\<rparr>)"

definition SetGroupDBEntry :: "MonitoredTxGroupDBEntry \<Rightarrow> PendingTxs \<Rightarrow> PendingTxs" where
  "SetGroupDBEntry gr m =
     (let g = (case map_of (pt_GroupTx m) (grp_GroupID gr) of
                 Some g \<Rightarrow> g\<lparr>mg_DbEntry := gr\<rparr>
               | None \<Rightarrow> \<lparr>mg_DbEntry = gr, mg_Txs = []\<rparr>) in
      m\<lparr>pt_GroupTx := AList.update (grp_GroupID gr) (AssignTxsGroupID g) (pt_GroupTx m)\<rparr>)"

fun pending_loop :: "h256 \<Rightarrow> (u64 \<rightharpoonup> MonitoredTxGroupDBEntry) \<Rightarrow> MonitoredTx list \<Rightarrow> PendingTxs \<Rightarrow> PendingTxs result" where
  "pending_loop ger groups [] m = Inr m"
| "pending_loop ger groups (tx # txs) m =
     (if IsCandidateToBeGrouped tx ger then pending_loop ger groups txs (addTxCandidatesForGroup tx m)
      else case mtx_GroupID tx of
             None \<Rightarrow> pending_loop ger groups txs m
           | Some i \<Rightarrow>
               (case groups i of
                  None \<Rightarrow> Inl (ErrMsg ''group not found'')
                | Some groupEntry \<Rightarrow> pending_loop ger groups txs (addTxToGroup i tx (SetGroupDBEntry groupEntry m))))"

definition NewPendingTxs :: "MonitoredTx list \<Rightarrow> (u64 \<rightharpoonup> MonitoredTxGroupDBEntry) \<Rightarrow> u64 \<Rightarrow> PendingTxs result" where
  "NewPendingTxs mTxs groups lastGroupID =
     (let ger = (case mTxs of [] \<Rightarrow> 0 | tx # _ \<Rightarrow> mtx_GlobalExitRoot tx) in
      pending_loop ger groups mTxs \<lparr>pt_GroupTx = [], pt_TxCandidatesForGroup = [], pt_LastGroupTxID = lastGroupID\<rparr>)"

section \<open>Changes to store\<close>

record StoreChanges =
  sc_AddGroups :: "MonitoredTxGroupDBEntry list"
  sc_UpdateGroups :: "MonitoredTxGroupDBEntry list"
  sc_UpdateTxs :: "MonitoredTx list"

text \<open>The groups: new ones are added with their deposits, changed ones are updated.\<close>

fun group_changes :: "'n claim_node \<Rightarrow> (MonitoredTxGroupDBEntry \<Rightarrow> MonitoredTxGroupDBEntry \<Rightarrow> bool) \<Rightarrow> PendingTxs
    \<Rightarrow> (u64 \<times> MonitoredTxGroup) list \<Rightarrow> StoreChanges \<Rightarrow> 'n \<Rightarrow> StoreChanges \<times> 'n" where
  "group_changes N eqG old [] sc n = (sc, n)"
| "group_changes N eqG old ((groupID, gr) # gs) sc n =
     (case map_of (pt_GroupTx old) groupID of
        None \<Rightarrow>
          (case Time_Now N n of
             (now, n1) \<Rightarrow> group_changes N eqG old gs
                (sc\<lparr>sc_AddGroups := sc_AddGroups sc @
                       [(mg_DbEntry gr)\<lparr>grp_UpdatedAt := now, grp_DepositIDs := GetTxsDepositID gr\<rparr>]\<rparr>) n1)
      | Some oldGroup \<Rightarrow>
          if eqG (mg_DbEntry oldGroup) (mg_DbEntry gr) then group_changes N eqG old gs sc n
          else
            (case Time_Now N n of
               (now, n1) \<Rightarrow> group_changes N eqG old gs
                  (sc\<lparr>sc_UpdateGroups := sc_UpdateGroups sc @ [(mg_DbEntry gr)\<lparr>grp_UpdatedAt := now\<rparr>]\<rparr>) n1))"

fun changed_txs :: "(MonitoredTx \<Rightarrow> MonitoredTx \<Rightarrow> bool) \<Rightarrow> MonitoredTxGroup \<Rightarrow> MonitoredTx list \<Rightarrow> (MonitoredTx list) result" where
  "changed_txs eqT oldGroup [] = Inr []"
| "changed_txs eqT oldGroup (tx # txs) =
     (case GetTxByDepositID oldGroup (mtx_DepositID tx) of
        None \<Rightarrow> Inl (ErrMsg ''tx with depositID not found in old state'')
      | Some oldTx \<Rightarrow>
          (case changed_txs eqT oldGroup txs of
             Inl e \<Rightarrow> Inl e
           | Inr rest \<Rightarrow> Inr (if \<not> eqT oldTx tx then tx # rest else rest)))"

fun tx_changes :: "(MonitoredTx \<Rightarrow> MonitoredTx \<Rightarrow> bool) \<Rightarrow> PendingTxs \<Rightarrow> (u64 \<times> MonitoredTxGroup) list \<Rightarrow> (MonitoredTx list) result" where
  "tx_changes eqT old [] = Inr []"
| "tx_changes eqT old ((groupID, gr) # gs) =
     (case (case map_of (pt_GroupTx old) groupID of
              Some oldGroup \<Rightarrow> changed_txs eqT oldGroup (mg_Txs gr)
            | None \<Rightarrow> Inr (mg_Txs gr)) of
        Inl e \<Rightarrow> Inl e
      | Inr txs \<Rightarrow> (case tx_changes eqT old gs of Inl e \<Rightarrow> Inl e | Inr rest \<Rightarrow> Inr (txs @ rest)))"

definition GenerateStoreUpdate :: "'n claim_node \<Rightarrow> (MonitoredTxGroupDBEntry \<Rightarrow> MonitoredTxGroupDBEntry \<Rightarrow> bool)
    \<Rightarrow> (MonitoredTx \<Rightarrow> MonitoredTx \<Rightarrow> bool) \<Rightarrow> PendingTxs \<Rightarrow> PendingTxs \<Rightarrow> 'n \<Rightarrow> StoreChanges result \<times> 'n" where
  "GenerateStoreUpdate N eqG eqT oldState newState n =
     (case group_changes N eqG oldState (pt_GroupTx newState)
             \<lparr>sc_AddGroups = [], sc_UpdateGroups = [], sc_UpdateTxs = []\<rparr> n of
        (sc, n1) \<Rightarrow>
          (case tx_changes eqT oldState (pt_GroupTx newState) of
             Inl e \<Rightarrow> (Inl e, n1)
           | Inr txs \<Rightarrow> (Inr (sc\<lparr>sc_UpdateTxs := txs\<rparr>), n1)))"

text \<open>Running the changes, at the time \<open>now\<close>.\<close>

fun run_all :: "('a \<Rightarrow> pg \<Rightarrow> unit result \<times> pg) \<Rightarrow> 'a list \<Rightarrow> pg \<Rightarrow> unit result \<times> pg" where
  "run_all f [] st = (Inr (), st)"
| "run_all f (x # xs) st = (case f x st of (Inl e, st1) \<Rightarrow> (Inl e, st1) | (Inr _, st1) \<Rightarrow> run_all f xs st1)"

definition Execute :: "int \<Rightarrow> StoreChanges \<Rightarrow> dbTx \<Rightarrow> pg \<Rightarrow> unit result \<times> pg" where
  "Execute now sc tx st =
     (case run_all (\<lambda>g. AddMonitoredTxsGroup (Some g) tx) (sc_AddGroups sc) st of
        (Inl e, st1) \<Rightarrow> (Inl e, st1)
      | (Inr _, st1) \<Rightarrow>
          (case run_all (\<lambda>g. UpdateMonitoredTxsGroup (Some (g\<lparr>grp_UpdatedAt := now\<rparr>)) tx) (sc_UpdateGroups sc) st1 of
             (Inl e, st2) \<Rightarrow> (Inl e, st2)
           | (Inr _, st2) \<Rightarrow> run_all (\<lambda>m. UpdateClaimTx now m tx) (sc_UpdateTxs sc) st2))"

section \<open>Monitoring the groups\<close>

definition getGroupsIds :: "MonitoredTx list \<Rightarrow> u64 list" where
  "getGroupsIds txs = remdups (List.map_filter mtx_GroupID txs)"

definition getPendingTxs :: "u32 \<Rightarrow> dbTx \<Rightarrow> pg \<Rightarrow> PendingTxs result \<times> pg" where
  "getPendingTxs rollupID tx st =
     (case GetClaimTxsByStatus [MonitoredTxStatusCreated, MonitoredTxStatusCompressing, MonitoredTxStatusClaiming] rollupID tx st of
        (Inl e, st1) \<Rightarrow> (Inl (ErrMsg ''failed to get get monitored txs''), st1)
      | (Inr mTxs, st1) \<Rightarrow>
          (case GetMonitoredTxsGroups (getGroupsIds mTxs) tx st1 of
             (Inl e, st2) \<Rightarrow> (Inl (ErrMsg ''failed to get get monitoredGroups txs''), st2)
           | (Inr groups, st2) \<Rightarrow>
               (case GetLatestMonitoredTxGroupID tx st2 of
                  (Inl e, st3) \<Rightarrow> (Inl (ErrMsg ''failed to get latest group id''), st3)
                | (Inr lastGroupID, st3) \<Rightarrow> (NewPendingTxs mTxs groups lastGroupID, st3))))"

definition set_log :: "string \<Rightarrow> MonitoredTxGroup \<Rightarrow> MonitoredTxGroup" where
  "set_log msg g = g\<lparr>mg_DbEntry := (mg_DbEntry g)\<lparr>grp_LastLog := msg\<rparr>\<rparr>"

definition set_status :: "MonitoredTxGroupStatus \<Rightarrow> MonitoredTxStatus \<Rightarrow> MonitoredTxGroup \<Rightarrow> MonitoredTxGroup" where
  "set_status gs ts g =
     g\<lparr>mg_DbEntry := (mg_DbEntry g)\<lparr>grp_Status := gs\<rparr>, mg_Txs := map (\<lambda>tx. tx\<lparr>mtx_Status := ts\<rparr>) (mg_Txs g)\<rparr>"

text \<open>Changing the entry \<open>i\<close> of the history in place.\<close>

definition set_entry :: "(TxHashHistoryEntry \<Rightarrow> TxHashHistoryEntry) \<Rightarrow> nat \<Rightarrow> MonitoredTxGroup \<Rightarrow> MonitoredTxGroup" where
  "set_entry f i g =
     g\<lparr>mg_DbEntry := (mg_DbEntry g)\<lparr>grp_ClaimTxHistory :=
         map_option (\<lambda>h. h\<lparr>th_TxHashes := (th_TxHashes h)[i := f (th_TxHashes h ! i)]\<rparr>) (grp_ClaimTxHistory (mg_DbEntry g))\<rparr>\<rparr>"

definition OnFinishClaimGroupTxSuccessful :: "MonitoredTxGroup \<Rightarrow> nat \<Rightarrow> MonitoredTxGroup" where
  "OnFinishClaimGroupTxSuccessful g txIndex =
     set_status MonitoredTxGroupStatusConfirmed MonitoredTxStatusConfirmed
       (set_entry ReceiptSuccessful txIndex (set_log ''tx was mined successfully'' g))"

definition OnFailGroup :: "MonitoredTxGroup \<Rightarrow> MonitoredTxGroup" where
  "OnFailGroup g =
     set_status MonitoredTxGroupStatussFailed MonitoredTxStatusFailed (set_log ''reached maximum retries'' g)"

definition OnFinishClaimGroupTxFailed :: "MonitoredTxGroup \<Rightarrow> nat \<Rightarrow> string \<Rightarrow> MonitoredTxGroup" where
  "OnFinishClaimGroupTxFailed g txIndex msg = set_entry ReceiptFailed txIndex (set_log msg g)"

text \<open>The history of a group; a nil history is dereferenced.\<close>

definition history :: "MonitoredTxGroup \<Rightarrow> (TxHashHistoryEntry list) result" where
  "history g = (case grp_ClaimTxHistory (mg_DbEntry g) of None \<Rightarrow> Inl GoPanic | Some h \<Rightarrow> Inr (th_TxHashes h))"

fun receipts_loop :: "'n claim_node \<Rightarrow> nat \<Rightarrow> TxHashHistoryEntry list \<Rightarrow> MonitoredTxGroup \<Rightarrow> 'n \<Rightarrow> MonitoredTxGroup \<times> 'n" where
  "receipts_loop N txIndex [] g n = (g, n)"
| "receipts_loop N txIndex (tx # txs) g n =
     (if \<not> IsPending tx then receipts_loop N (Suc txIndex) txs g n
      else case CheckTxWasMined N (the_TxHash tx) n of
             (Inl e, n1) \<Rightarrow> receipts_loop N (Suc txIndex) txs (set_log ''failed to check if tx was mined'' g) n1
           | (Inr None, n1) \<Rightarrow> receipts_loop N (Suc txIndex) txs (set_log ''tx not mined yet'' g) n1
           | (Inr (Some (ok, logs)), n1) \<Rightarrow>
               if ok \<and> 0 < logs then (OnFinishClaimGroupTxSuccessful g txIndex, n1)
               else receipts_loop N (Suc txIndex) txs
                      (OnFinishClaimGroupTxFailed g txIndex ''receipt status failed or no logs'') n1)"

definition check_receipts :: "'n claim_node \<Rightarrow> MonitoredTxGroup \<Rightarrow> 'n \<Rightarrow> MonitoredTxGroup result \<times> 'n" where
  "check_receipts N g n =
     (if grp_Status (mg_DbEntry g) = MonitoredTxGroupStatusClaiming then
        (case history g of
           Inl e \<Rightarrow> (Inl e, n)
         | Inr txs \<Rightarrow> (case receipts_loop N 0 txs g n of (g', n1) \<Rightarrow> (Inr g', n1)))
      else (Inr g, n))"

fun each_group :: "(MonitoredTxGroup \<Rightarrow> 'n \<Rightarrow> MonitoredTxGroup result \<times> 'n) \<Rightarrow> (u64 \<times> MonitoredTxGroup) list \<Rightarrow> 'n
    \<Rightarrow> ((u64 \<times> MonitoredTxGroup) list) result \<times> 'n" where
  "each_group f [] n = (Inr [], n)"
| "each_group f ((i, g) # gs) n =
     (case f g n of
        (Inl e, n1) \<Rightarrow> (Inl e, n1)
      | (Inr g', n1) \<Rightarrow>
          (case each_group f gs n1 of
             (Inl e, n2) \<Rightarrow> (Inl e, n2)
           | (Inr gs', n2) \<Rightarrow> (Inr ((i, g') # gs'), n2)))"

definition on_groups :: "(MonitoredTxGroup \<Rightarrow> 'n \<Rightarrow> MonitoredTxGroup result \<times> 'n) \<Rightarrow> PendingTxs \<Rightarrow> 'n \<Rightarrow> PendingTxs result \<times> 'n" where
  "on_groups f m n =
     (case each_group f (pt_GroupTx m) n of
        (Inl e, n1) \<Rightarrow> (Inl e, n1)
      | (Inr gs, n1) \<Rightarrow> (Inr (m\<lparr>pt_GroupTx := gs\<rparr>), n1))"

definition CheckReceipts :: "'n claim_node \<Rightarrow> PendingTxs \<Rightarrow> 'n \<Rightarrow> PendingTxs result \<times> 'n" where
  "CheckReceipts N = on_groups (check_receipts N)"

fun outdate_loop :: "'n claim_node \<Rightarrow> ConfigGroupingClaims \<Rightarrow> nat \<Rightarrow> TxHashHistoryEntry list \<Rightarrow> MonitoredTxGroup \<Rightarrow> 'n
    \<Rightarrow> MonitoredTxGroup \<times> 'n" where
  "outdate_loop N cfg txIndex [] g n = (g, n)"
| "outdate_loop N cfg txIndex (tx # txs) g n =
     (if \<not> IsPending tx then outdate_loop N cfg (Suc txIndex) txs g n
      else case Time_Now N n of
             (now, n1) \<Rightarrow> outdate_loop N cfg (Suc txIndex) txs
               (if IsExhaustedTimeWaitingForReceipt tx now (gc_RetryTimeout cfg)
                then OnFinishClaimGroupTxFailed g txIndex ''reached maximum wait time'' else g) n1)"

definition retries_reached :: "ConfigGroupingClaims \<Rightarrow> MonitoredTxGroup \<Rightarrow> bool" where
  "retries_reached cfg g \<longleftrightarrow> sint (gc_MaxRetries cfg) \<le> sint (grp_NumRetries (mg_DbEntry g))"

definition outdate_claims :: "'n claim_node \<Rightarrow> ConfigGroupingClaims \<Rightarrow> MonitoredTxGroup \<Rightarrow> 'n \<Rightarrow> MonitoredTxGroup result \<times> 'n" where
  "outdate_claims N cfg g n =
     (case (if grp_Status (mg_DbEntry g) = MonitoredTxGroupStatusClaiming then
              (case history g of
                 Inl e \<Rightarrow> (Inl e, n)
               | Inr txs \<Rightarrow> (case outdate_loop N cfg 0 txs g n of (g', n1) \<Rightarrow> (Inr g', n1)))
            else (Inr g, n)) of
        (Inl e, n1) \<Rightarrow> (Inl e, n1)
      | (Inr g', n1) \<Rightarrow> (Inr (if retries_reached cfg g' then OnFailGroup g' else g'), n1))"

definition OutdateClaims :: "'n claim_node \<Rightarrow> ConfigGroupingClaims \<Rightarrow> PendingTxs \<Rightarrow> 'n \<Rightarrow> PendingTxs result \<times> 'n" where
  "OutdateClaims N cfg = on_groups (outdate_claims N cfg)"

definition CanSendNewClaimCall :: "'n claim_node \<Rightarrow> ConfigGroupingClaims \<Rightarrow> MonitoredTxGroup \<Rightarrow> 'n \<Rightarrow> bool \<times> 'n" where
  "CanSendNewClaimCall N cfg g n =
     (if grp_Status (mg_DbEntry g) = MonitoredTxGroupStatusCreated then (True, n)
      else case grp_ClaimTxHistory (mg_DbEntry g) of
             None \<Rightarrow> (True, n)
           | Some h \<Rightarrow>
               if length (th_TxHashes h) = 0 then (True, n)
               else if list_ex (\<lambda>t. IsPending t \<and> \<not> IsOutdated t) (th_TxHashes h) then (False, n)
               else if retries_reached cfg g then (False, n)
               else
                 (case GetMoreRecentTx h of
                    None \<Rightarrow> (True, n)
                  | Some moreRecentTx \<Rightarrow>
                      (case Time_Now N n of (now, n1) \<Rightarrow> (gc_RetryInterval cfg \<le> now - the_CreatedAt moreRecentTx, n1))))"

text \<open>One group of \<^verbatim>\<open>SendClaims\<close>: the first call only estimates the gas.\<close>

definition send_claim :: "'n claim_node \<Rightarrow> ConfigGroupingClaims \<Rightarrow> u64 \<Rightarrow> bool \<Rightarrow> MonitoredTxGroup \<Rightarrow> 'n \<Rightarrow> MonitoredTxGroup result \<times> 'n" where
  "send_claim N cfg authGasLimit onlyFirstOne g n =
     (case grp_CompressedTxData (mg_DbEntry g) of
        None \<Rightarrow> (Inr g, n)
      | Some compressedTxData \<Rightarrow>
          (case CanSendNewClaimCall N cfg g n of
             (False, n1) \<Rightarrow> (Inr g, n1)
           | (True, n1) \<Rightarrow>
               if onlyFirstOne \<and> \<not> IsClaimTxHistoryEmpty (mg_DbEntry g) then (Inr g, n1)
               else
                 (case SendCompressedClaims N True authGasLimit compressedTxData n1 of
                    (Inl e, n2) \<Rightarrow> (Inr (set_log ''failed to call SMC SendCompressedClaims'' g), n2)
                  | (Inr (_, estimatedGas), n2) \<Rightarrow>
                      (case SendCompressedClaims N False (estimatedGas + gc_GasOffset cfg) compressedTxData n2 of
                         (Inl e, n3) \<Rightarrow> (Inr (set_log ''failed to call SMC SendCompressedClaims'' g), n3)
                       | (Inr (txHash, _), n3) \<Rightarrow>
                           (case Time_Now N n3 of
                              (now, n4) \<Rightarrow>
                                let e = group_AddPendingTx now ((mg_DbEntry g)\<lparr>grp_Status := MonitoredTxGroupStatusClaiming\<rparr>) txHash in
                                (Inr (g\<lparr>mg_DbEntry := e\<lparr>grp_NumRetries := grp_NumRetries e + 1\<rparr>\<rparr>), n4))))))"

definition SendClaims :: "'n claim_node \<Rightarrow> ConfigGroupingClaims \<Rightarrow> u64 \<Rightarrow> bool \<Rightarrow> PendingTxs \<Rightarrow> 'n \<Rightarrow> PendingTxs result \<times> 'n" where
  "SendClaims N cfg authGasLimit onlyFirstOne = on_groups (send_claim N cfg authGasLimit onlyFirstOne)"

definition createNewGroups :: "'n claim_node \<Rightarrow> bridge_abi \<Rightarrow> ConfigGroupingClaims \<Rightarrow> PendingTxs \<Rightarrow> 'n \<Rightarrow> PendingTxs result \<times> 'n" where
  "createNewGroups N A cfg m n =
     (case Time_Now N n of
        (now, n1) \<Rightarrow>
          let groupTxs = ChooseTxs cfg now (pt_TxCandidatesForGroup m) in
          if groupTxs = [] then (Inr m, n1)
          else
            (case GenerateNewGroupID m of
               (groupID, m1) \<Rightarrow>
                 (case Time_Now N n1 of
                    (created, n2) \<Rightarrow>
                      let g = NewMonitoredTxGroup ((mg_DbEntry zero_group)\<lparr>grp_GroupID := groupID,
                                grp_Status := MonitoredTxGroupStatusCreated, grp_CreatedAt := created\<rparr>) groupTxs in
                      (case GetCompressClaimParametersFromMonitoredTx A (mg_Txs g) of
                         Inl e \<Rightarrow> (Inl e, n2)
                       | Inr p \<Rightarrow>
                           (case CompressClaimCall N (cp_MainnetExitRoot p) (cp_RollupExitRoot p) (cp_ClaimData p) n2 of
                              (Inl e, n3) \<Rightarrow> (Inl (ErrMsg ''fails call to claimCompressorSMC''), n3)
                            | (Inr compressedData, n3) \<Rightarrow>
                                (Inr (pt_AddGroup (g\<lparr>mg_DbEntry := (mg_DbEntry g)\<lparr>grp_CompressedTxData := Some compressedData\<rparr>\<rparr>) m1), n3))))))"

definition Process :: "'n claim_node \<Rightarrow> bridge_abi \<Rightarrow> ConfigGroupingClaims \<Rightarrow> u64 \<Rightarrow> PendingTxs \<Rightarrow> 'n \<Rightarrow> PendingTxs result \<times> 'n" where
  "Process N A cfg authGasLimit m n =
     (case SendClaims N cfg authGasLimit False m n of
        (Inl e, n1) \<Rightarrow> (Inl e, n1)
      | (Inr m1, n1) \<Rightarrow>
          (case CheckReceipts N m1 n1 of
             (Inl e, n2) \<Rightarrow> (Inl e, n2)
           | (Inr m2, n2) \<Rightarrow>
               (case OutdateClaims N cfg m2 n2 of
                  (Inl e, n3) \<Rightarrow> (Inl e, n3)
                | (Inr m3, n3) \<Rightarrow> createNewGroups N A cfg m3 n3)))"

definition internalMonitorTxs :: "'n claim_node \<Rightarrow> (MonitoredTxGroupDBEntry \<Rightarrow> MonitoredTxGroupDBEntry \<Rightarrow> bool)
    \<Rightarrow> (MonitoredTx \<Rightarrow> MonitoredTx \<Rightarrow> bool) \<Rightarrow> bridge_abi \<Rightarrow> ConfigGroupingClaims \<Rightarrow> u64 \<Rightarrow> u32 \<Rightarrow> dbTx \<Rightarrow> pg \<Rightarrow> 'n
    \<Rightarrow> unit result \<times> pg \<times> 'n" where
  "internalMonitorTxs N eqG eqT A cfg authGasLimit rollupID tx st n =
     (case getPendingTxs rollupID tx st of
        (Inl e, st1) \<Rightarrow> (Inl e, st1, n)
      | (Inr pendingTx, st1) \<Rightarrow>
          if IsEmpty pendingTx then (Inr (), st1, n)
          else
            (case getPendingTxs rollupID tx st1 of
               (Inl e, st2) \<Rightarrow> (Inl e, st2, n)
             | (Inr initialStatus, st2) \<Rightarrow>
                 (case Process N A cfg authGasLimit pendingTx n of
                    (Inl e, n1) \<Rightarrow> (Inl e, st2, n1)
                  | (Inr newStatus, n1) \<Rightarrow>
                      (case GenerateStoreUpdate N eqG eqT initialStatus newStatus n1 of
                         (Inl e, n2) \<Rightarrow> (Inl e, st2, n2)
                       | (Inr storeUpdate, n2) \<Rightarrow>
                           (case Time_Now N n2 of
                              (now, n3) \<Rightarrow> (case Execute now storeUpdate tx st2 of (x, st3) \<Rightarrow> (x, st3, n3)))))))"

definition compressed_MonitorTxs :: "'n claim_node \<Rightarrow> (MonitoredTxGroupDBEntry \<Rightarrow> MonitoredTxGroupDBEntry \<Rightarrow> bool)
    \<Rightarrow> (MonitoredTx \<Rightarrow> MonitoredTx \<Rightarrow> bool) \<Rightarrow> bridge_abi \<Rightarrow> ConfigGroupingClaims \<Rightarrow> u64 \<Rightarrow> u32 \<Rightarrow> pg \<Rightarrow> 'n
    \<Rightarrow> unit result \<times> pg \<times> 'n" where
  "compressed_MonitorTxs N eqG eqT A cfg authGasLimit rollupID st n =
     (case BeginDBTransaction st of
        (Inl e, st1) \<Rightarrow> (Inl e, st1, n)
      | (Inr tx, st1) \<Rightarrow>
          (case internalMonitorTxs N eqG eqT A cfg authGasLimit rollupID tx st1 n of
             (Inl e, st2, n2) \<Rightarrow> if e = GoPanic then (Inl e, st2, n2) else (Inl e, snd (Rollback tx st2), n2)
           | (Inr _, st2, n2) \<Rightarrow> (case Commit tx st2 of (x, st3) \<Rightarrow> (x, st3, n2))))"

section \<open>The invariant of a group\<close>

text \<open>The claims of a group that were sent and have no outcome yet.\<close>

definition in_flight :: "MonitoredTxGroupDBEntry \<Rightarrow> nat" where
  "in_flight e = (case grp_ClaimTxHistory e of None \<Rightarrow> 0 | Some h \<Rightarrow> length (filter IsPending (th_TxHashes h)))"

text \<open>At most one claim is in flight, none before the group is claiming, and a claiming group has a history.\<close>

definition entry_ok :: "MonitoredTxGroupDBEntry \<Rightarrow> bool" where
  "entry_ok e \<longleftrightarrow>
     in_flight e \<le> 1 \<and> (grp_Status e = MonitoredTxGroupStatusCreated \<longrightarrow> in_flight e = 0) \<and>
     (grp_Status e = MonitoredTxGroupStatusClaiming \<longrightarrow> grp_ClaimTxHistory e \<noteq> None)"

definition group_ok :: "u64 \<Rightarrow> MonitoredTxGroup \<Rightarrow> bool" where
  "group_ok i g \<longleftrightarrow>
     grp_GroupID (mg_DbEntry g) = i \<and> entry_ok (mg_DbEntry g) \<and> (\<forall>tx\<in>set (mg_Txs g). mtx_GroupID tx = Some i)"

definition pending_ok :: "PendingTxs \<Rightarrow> bool" where
  "pending_ok m \<longleftrightarrow> distinct (map fst (pt_GroupTx m)) \<and> (\<forall>(i, g)\<in>set (pt_GroupTx m). group_ok i g)"

definition groups_ok :: "db \<Rightarrow> bool" where
  "groups_ok d \<longleftrightarrow> (\<forall>e\<in>set (t_monitored_txs_group d). entry_ok e)"

lemmas group_ok_defs = group_ok_def entry_ok_def in_flight_def

lemma set_log_facts [simp]:
  "group_ok i (set_log msg g) = group_ok i g" "GetTxsDepositID (set_log msg g) = GetTxsDepositID g"
  "grp_Status (mg_DbEntry (set_log msg g)) = grp_Status (mg_DbEntry g)" "history (set_log msg g) = history g"
  "grp_NumRetries (mg_DbEntry (set_log msg g)) = grp_NumRetries (mg_DbEntry g)"
  by (simp_all add: set_log_def group_ok_defs GetTxsDepositID_def history_def)

lemma set_entry_facts [simp]:
  "GetTxsDepositID (set_entry f k g) = GetTxsDepositID g"
  "grp_Status (mg_DbEntry (set_entry f k g)) = grp_Status (mg_DbEntry g)"
  "grp_NumRetries (mg_DbEntry (set_entry f k g)) = grp_NumRetries (mg_DbEntry g)"
  by (simp_all add: set_entry_def GetTxsDepositID_def)

lemma set_status_facts [simp]:
  "GetTxsDepositID (set_status gs ts g) = GetTxsDepositID g"
  "grp_Status (mg_DbEntry (set_status gs ts g)) = gs"
  "grp_NumRetries (mg_DbEntry (set_status gs ts g)) = grp_NumRetries (mg_DbEntry g)"
  by (simp_all add: set_status_def GetTxsDepositID_def o_def)

text \<open>Giving an entry of the history an outcome leaves no more claims in flight than before.\<close>

lemma filter_update_le:
  assumes "\<not> P y"
  shows "length (filter P (xs[k := y])) \<le> length (filter P xs)"
  using assms by (induction xs arbitrary: k) (auto split: nat.splits simp: le_SucI)

lemma set_entry_ok:
  assumes "group_ok i g" and "\<And>t. \<not> IsPending (f t)"
  shows "group_ok i (set_entry f k g)"
proof (cases "grp_ClaimTxHistory (mg_DbEntry g)")
  case None
  thus ?thesis using assms(1) by (simp add: group_ok_defs set_entry_def)
next
  case (Some h)
  have "length (filter IsPending ((th_TxHashes h)[k := f (th_TxHashes h ! k)])) \<le> length (filter IsPending (th_TxHashes h))"
    using assms(2) by (rule filter_update_le)
  thus ?thesis using assms(1) Some by (auto simp: group_ok_defs set_entry_def)
qed

lemma set_status_ok:
  assumes "group_ok i g" and "gs \<noteq> MonitoredTxGroupStatusCreated" and "gs \<noteq> MonitoredTxGroupStatusClaiming"
  shows "group_ok i (set_status gs ts g)"
  using assms by (auto simp: group_ok_defs set_status_def)

lemma outcomes_ok [simp]:
  "group_ok i g \<Longrightarrow> group_ok i (OnFinishClaimGroupTxSuccessful g k)"
  "group_ok i g \<Longrightarrow> group_ok i (OnFailGroup g)"
  "group_ok i g \<Longrightarrow> group_ok i (OnFinishClaimGroupTxFailed g k msg)"
  by (simp_all add: OnFinishClaimGroupTxSuccessful_def OnFailGroup_def OnFinishClaimGroupTxFailed_def set_status_ok set_entry_ok)

lemma outcomes_deposits [simp]:
  "GetTxsDepositID (OnFinishClaimGroupTxSuccessful g k) = GetTxsDepositID g"
  "GetTxsDepositID (OnFailGroup g) = GetTxsDepositID g"
  "GetTxsDepositID (OnFinishClaimGroupTxFailed g k msg) = GetTxsDepositID g"
  by (simp_all add: OnFinishClaimGroupTxSuccessful_def OnFailGroup_def OnFinishClaimGroupTxFailed_def)

text \<open>A group that may send a new claim has none in flight.\<close>

lemma CanSendNewClaimCall_idle:
  assumes "CanSendNewClaimCall N cfg g n = (True, n1)" and "entry_ok (mg_DbEntry g)"
  shows "in_flight (mg_DbEntry g) = 0"
proof -
  have "(IsPending t \<and> \<not> IsOutdated t) = IsPending t" for t
    by (auto simp: IsPending_def IsOutdated_def)
  thus ?thesis using assms
    by (auto simp: CanSendNewClaimCall_def entry_ok_def in_flight_def list_ex_iff filter_empty_conv
        split: if_splits option.splits)
qed

lemma in_flight_AddPendingTx: "in_flight (group_AddPendingTx now e h) = Suc (in_flight e)"
  by (simp add: in_flight_def group_AddPendingTx_def history_AddPendingTx_def IsPending_def split: option.splits)

lemma AddPendingTx_facts [simp]:
  "grp_Status (group_AddPendingTx now e h) = grp_Status e" "grp_GroupID (group_AddPendingTx now e h) = grp_GroupID e"
  "grp_ClaimTxHistory (group_AddPendingTx now e h) \<noteq> None"
  by (simp_all add: group_AddPendingTx_def Let_def)

lemma in_flight_frame [simp]:
  "in_flight (e\<lparr>grp_Status := s\<rparr>) = in_flight e" "in_flight (e\<lparr>grp_NumRetries := r\<rparr>) = in_flight e"
  "in_flight (e\<lparr>grp_UpdatedAt := u\<rparr>) = in_flight e" "in_flight (e\<lparr>grp_DepositIDs := ds\<rparr>) = in_flight e"
  "in_flight (e\<lparr>grp_LastLog := l\<rparr>) = in_flight e" "in_flight (e\<lparr>grp_CompressedTxData := c\<rparr>) = in_flight e"
  by (simp_all add: in_flight_def)

lemma send_claim_ok:
  assumes "group_ok i g"
  shows "\<exists>g' n'. send_claim N cfg gas only g n = (Inr g', n') \<and> group_ok i g' \<and> GetTxsDepositID g' = GetTxsDepositID g"
proof (cases "grp_CompressedTxData (mg_DbEntry g)")
  case None
  thus ?thesis using assms by (simp add: send_claim_def)
next
  case (Some data)
  obtain b n1 where can: "CanSendNewClaimCall N cfg g n = (b, n1)" by fastforce
  show ?thesis
  proof (cases "\<not> b \<or> only \<and> \<not> IsClaimTxHistoryEmpty (mg_DbEntry g)")
    case True
    thus ?thesis using assms can Some by (cases b) (auto simp: send_claim_def)
  next
    case False
    hence idle: "in_flight (mg_DbEntry g) = 0"
      using can assms CanSendNewClaimCall_idle by (auto simp: group_ok_def)
    obtain x n2 where est: "SendCompressedClaims N True gas data n1 = (x, n2)" by fastforce
    show ?thesis
    proof (cases x)
      case (Inl e)
      thus ?thesis using assms can Some False est by (simp add: send_claim_def)
    next
      case (Inr p)
      obtain h gas' where p: "p = (h, gas')" by fastforce
      obtain y n3 where snd: "SendCompressedClaims N False (gas' + gc_GasOffset cfg) data n2 = (y, n3)" by fastforce
      obtain now n4 where now: "Time_Now N n3 = (now, n4)" by fastforce
      have sent: "group_ok i (g\<lparr>mg_DbEntry := (group_AddPendingTx now ((mg_DbEntry g)\<lparr>grp_Status := MonitoredTxGroupStatusClaiming\<rparr>) h')
          \<lparr>grp_NumRetries := r\<rparr>\<rparr>)" for h' r
        using assms idle by (simp add: group_ok_def entry_ok_def in_flight_AddPendingTx)
      show ?thesis
      proof (cases y)
        case (Inl e)
        thus ?thesis using assms can Some False est \<open>x = Inr p\<close> p snd by (auto simp: send_claim_def)
      next
        case (Inr q)
        thus ?thesis using can Some False est \<open>x = Inr p\<close> p snd now sent
          by (cases q) (auto simp: send_claim_def Let_def GetTxsDepositID_def)
      qed
    qed
  qed
qed

lemma receipts_loop_ok:
  assumes "group_ok i g" and "receipts_loop N k txs g n = (g', n')"
  shows "group_ok i g' \<and> GetTxsDepositID g' = GetTxsDepositID g"
  using assms
proof (induction N k txs g n rule: receipts_loop.induct)
  case (2 N k tx txs g n)
  show ?case
  proof (cases "IsPending tx")
    case False
    thus ?thesis using 2 by simp
  next
    case True
    obtain x n1 where c: "CheckTxWasMined N (the_TxHash tx) n = (x, n1)" by fastforce
    show ?thesis
      using 2 True c
      by (cases x; simp split: option.splits prod.splits if_splits) fastforce+
  qed
qed simp

lemma check_receipts_ok:
  assumes "group_ok i g"
  shows "\<exists>g' n'. check_receipts N g n = (Inr g', n') \<and> group_ok i g' \<and> GetTxsDepositID g' = GetTxsDepositID g"
proof (cases "grp_Status (mg_DbEntry g) = MonitoredTxGroupStatusClaiming")
  case True
  then obtain h where h: "history g = Inr h"
    using assms by (auto simp: history_def group_ok_def entry_ok_def)
  obtain g' n' where r: "receipts_loop N 0 h g n = (g', n')" by fastforce
  show ?thesis using True h r receipts_loop_ok [OF assms r] by (simp add: check_receipts_def)
qed (use assms in \<open>simp add: check_receipts_def\<close>)

lemma outdate_loop_ok:
  assumes "group_ok i g" and "outdate_loop N cfg k txs g n = (g', n')"
  shows "group_ok i g' \<and> GetTxsDepositID g' = GetTxsDepositID g"
  using assms
  by (induction N cfg k txs g n rule: outdate_loop.induct) (auto split: if_splits prod.splits)

lemma outdate_claims_ok:
  assumes "group_ok i g"
  shows "\<exists>g' n'. outdate_claims N cfg g n = (Inr g', n') \<and> group_ok i g' \<and> GetTxsDepositID g' = GetTxsDepositID g"
proof (cases "grp_Status (mg_DbEntry g) = MonitoredTxGroupStatusClaiming")
  case True
  then obtain h where h: "history g = Inr h"
    using assms by (auto simp: history_def group_ok_def entry_ok_def)
  obtain g' n' where r: "outdate_loop N cfg 0 h g n = (g', n')" by fastforce
  show ?thesis using True h r outdate_loop_ok [OF assms r] by (simp add: outdate_claims_def)
qed (use assms in \<open>simp add: outdate_claims_def\<close>)

text \<open>A step on every group: what it keeps of one group it keeps of all pending ones.\<close>

locale group_step =
  fixes f :: "MonitoredTxGroup \<Rightarrow> 'n \<Rightarrow> MonitoredTxGroup result \<times> 'n"
  assumes step_ok: "group_ok i g \<Longrightarrow>
    \<exists>g' n'. f g n = (Inr g', n') \<and> group_ok i g' \<and> GetTxsDepositID g' = GetTxsDepositID g"
begin

lemma each_group_ok:
  "\<forall>(i, g)\<in>set gs. group_ok i g \<Longrightarrow>
   \<exists>gs' n'. each_group f gs n = (Inr gs', n') \<and> map fst gs' = map fst gs \<and>
     (\<forall>(i, g)\<in>set gs'. group_ok i g) \<and> map (GetTxsDepositID \<circ> snd) gs' = map (GetTxsDepositID \<circ> snd) gs"
proof (induction gs arbitrary: n)
  case (Cons p gs)
  obtain i g where p: "p = (i, g)" by fastforce
  obtain g' n1 where g': "f g n = (Inr g', n1)" "group_ok i g'" "GetTxsDepositID g' = GetTxsDepositID g"
    using step_ok [of i g n] Cons.prems p by auto
  obtain gs' n2 where "each_group f gs n1 = (Inr gs', n2)" "map fst gs' = map fst gs"
    "\<forall>(i, g)\<in>set gs'. group_ok i g" "map (GetTxsDepositID \<circ> snd) gs' = map (GetTxsDepositID \<circ> snd) gs"
    using Cons.IH [of n1] Cons.prems unfolding list.set ball_simps by blast
  thus ?case using p g' by (simp add: comp_def)
qed simp

lemma on_groups_ok:
  assumes "pending_ok m"
  shows "\<exists>m' n'. on_groups f m n = (Inr m', n') \<and> pending_ok m' \<and> map fst (pt_GroupTx m') = map fst (pt_GroupTx m) \<and>
    map (GetTxsDepositID \<circ> snd) (pt_GroupTx m') = map (GetTxsDepositID \<circ> snd) (pt_GroupTx m) \<and>
    pt_TxCandidatesForGroup m' = pt_TxCandidatesForGroup m \<and> pt_LastGroupTxID m' = pt_LastGroupTxID m"
proof -
  obtain gs' n' where "each_group f (pt_GroupTx m) n = (Inr gs', n')" "map fst gs' = map fst (pt_GroupTx m)"
    "\<forall>(i, g)\<in>set gs'. group_ok i g" "map (GetTxsDepositID \<circ> snd) gs' = map (GetTxsDepositID \<circ> snd) (pt_GroupTx m)"
    using each_group_ok [of "pt_GroupTx m" n] assms unfolding pending_ok_def by blast
  thus ?thesis using assms by (simp add: on_groups_def pending_ok_def)
qed

end

interpretation send_step: group_step "send_claim N cfg gas only" for N cfg gas only
  by unfold_locales (rule send_claim_ok)

interpretation receipt_step: group_step "check_receipts N" for N
  by unfold_locales (rule check_receipts_ok)

interpretation outdate_step: group_step "outdate_claims N cfg" for N cfg
  by unfold_locales (rule outdate_claims_ok)

text \<open>A pass over the pending groups.\<close>

lemma update_absent: "map_of m k = None \<Longrightarrow> AList.update k v m = m @ [(k, v)]"
  by (induction m) (auto split: if_splits)

lemma createNewGroups_cases:
  assumes "createNewGroups N A cfg m n = (Inr m', n')"
  obtains "m' = m"
  | g where "group_ok (pt_LastGroupTxID m + 1) g" and "grp_Status (mg_DbEntry g) = MonitoredTxGroupStatusCreated"
      and "m' = pt_AddGroup g (m\<lparr>pt_LastGroupTxID := pt_LastGroupTxID m + 1\<rparr>)"
      and "GetTxsDepositID g = map mtx_DepositID (ChooseTxs cfg (fst (Time_Now N n)) (pt_TxCandidatesForGroup m))"
      and "ChooseTxs cfg (fst (Time_Now N n)) (pt_TxCandidatesForGroup m) \<noteq> []"
proof -
  obtain now n1 where now: "Time_Now N n = (now, n1)" by fastforce
  obtain created n2 where created: "Time_Now N n1 = (created, n2)" by fastforce
  let ?txs = "ChooseTxs cfg now (pt_TxCandidatesForGroup m)"
  let ?g = "NewMonitoredTxGroup ((mg_DbEntry zero_group)\<lparr>grp_GroupID := pt_LastGroupTxID m + 1,
      grp_Status := MonitoredTxGroupStatusCreated, grp_CreatedAt := created\<rparr>) ?txs"
  show ?thesis
  proof (cases "?txs = []")
    case True
    thus ?thesis using that(1) assms now by (simp add: createNewGroups_def)
  next
    case False
    then obtain data where m': "m' = pt_AddGroup (?g\<lparr>mg_DbEntry := (mg_DbEntry ?g)\<lparr>grp_CompressedTxData := Some data\<rparr>\<rparr>)
        (m\<lparr>pt_LastGroupTxID := pt_LastGroupTxID m + 1\<rparr>)"
      using assms now created
      by (auto simp: createNewGroups_def GenerateNewGroupID_def Let_def split: sum.splits prod.splits)
    show ?thesis
      by (rule that(2) [OF _ _ m'])
         (use False in \<open>auto simp: group_ok_defs NewMonitoredTxGroup_def AssignTxsGroupID_def zero_group_def GetTxsDepositID_def now o_def\<close>)
  qed
qed

lemma pt_AddGroup_ok:
  assumes "pending_ok m" and "group_ok i g"
  shows "pending_ok (pt_AddGroup g (m\<lparr>pt_LastGroupTxID := k\<rparr>))"
  using assms
  by (auto simp: pending_ok_def pt_AddGroup_def update_absent group_ok_def map_of_eq_None_iff split: option.splits)

lemma createNewGroups_ok:
  "pending_ok m \<Longrightarrow> createNewGroups N A cfg m n = (Inr m', n') \<Longrightarrow> pending_ok m'"
  by (erule createNewGroups_cases) (auto intro: pt_AddGroup_ok)

lemma Process_InrD:
  assumes "pending_ok m" and "Process N A cfg gas m n = (Inr m', n')"
  obtains m1 m2 m3 n1 n2 n3 where "SendClaims N cfg gas False m n = (Inr m1, n1)" "CheckReceipts N m1 n1 = (Inr m2, n2)"
    "OutdateClaims N cfg m2 n2 = (Inr m3, n3)" "createNewGroups N A cfg m3 n3 = (Inr m', n')"
    "pending_ok m1" "pending_ok m2" "pending_ok m3"
    "map fst (pt_GroupTx m3) = map fst (pt_GroupTx m)"
    "map (GetTxsDepositID \<circ> snd) (pt_GroupTx m3) = map (GetTxsDepositID \<circ> snd) (pt_GroupTx m)"
    "pt_TxCandidatesForGroup m3 = pt_TxCandidatesForGroup m" "pt_LastGroupTxID m3 = pt_LastGroupTxID m"
proof -
  from send_step.on_groups_ok [OF assms(1), of N cfg gas False n] obtain m1 n1 where
    1: "SendClaims N cfg gas False m n = (Inr m1, n1)" "pending_ok m1" "map fst (pt_GroupTx m1) = map fst (pt_GroupTx m)"
    "map (GetTxsDepositID \<circ> snd) (pt_GroupTx m1) = map (GetTxsDepositID \<circ> snd) (pt_GroupTx m)"
    "pt_TxCandidatesForGroup m1 = pt_TxCandidatesForGroup m" "pt_LastGroupTxID m1 = pt_LastGroupTxID m"
    unfolding SendClaims_def by blast
  from receipt_step.on_groups_ok [OF 1(2), of N n1] obtain m2 n2 where
    2: "CheckReceipts N m1 n1 = (Inr m2, n2)" "pending_ok m2" "map fst (pt_GroupTx m2) = map fst (pt_GroupTx m1)"
    "map (GetTxsDepositID \<circ> snd) (pt_GroupTx m2) = map (GetTxsDepositID \<circ> snd) (pt_GroupTx m1)"
    "pt_TxCandidatesForGroup m2 = pt_TxCandidatesForGroup m1" "pt_LastGroupTxID m2 = pt_LastGroupTxID m1"
    unfolding CheckReceipts_def by blast
  from outdate_step.on_groups_ok [OF 2(2), of N cfg n2] obtain m3 n3 where
    3: "OutdateClaims N cfg m2 n2 = (Inr m3, n3)" "pending_ok m3" "map fst (pt_GroupTx m3) = map fst (pt_GroupTx m2)"
    "map (GetTxsDepositID \<circ> snd) (pt_GroupTx m3) = map (GetTxsDepositID \<circ> snd) (pt_GroupTx m2)"
    "pt_TxCandidatesForGroup m3 = pt_TxCandidatesForGroup m2" "pt_LastGroupTxID m3 = pt_LastGroupTxID m2"
    unfolding OutdateClaims_def by blast
  have 4: "createNewGroups N A cfg m3 n3 = (Inr m', n')" using assms(2) 1(1) 2(1) 3(1) by (simp add: Process_def)
  have keys: "map fst (pt_GroupTx m3) = map fst (pt_GroupTx m)" using 1(3) 2(3) 3(3) by (simp only:)
  have ids: "map (GetTxsDepositID \<circ> snd) (pt_GroupTx m3) = map (GetTxsDepositID \<circ> snd) (pt_GroupTx m)"
    using 1(4) 2(4) 3(4) by (simp only:)
  have cand: "pt_TxCandidatesForGroup m3 = pt_TxCandidatesForGroup m" "pt_LastGroupTxID m3 = pt_LastGroupTxID m"
    using 1(5,6) 2(5,6) 3(5,6) by simp_all
  show ?thesis by (rule that [OF 1(1) 2(1) 3(1) 4 1(2) 2(2) 3(2) keys ids cand])
qed

lemma Process_ok: "pending_ok m \<Longrightarrow> Process N A cfg gas m n = (Inr m', n') \<Longrightarrow> pending_ok m'"
  by (erule (1) Process_InrD) (rule createNewGroups_ok)

text \<open>Reading the pending groups from the database.\<close>

definition entries_ok :: "(u64 \<rightharpoonup> MonitoredTxGroupDBEntry) \<Rightarrow> bool" where
  "entries_ok groups \<longleftrightarrow> (\<forall>i e. groups i = Some e \<longrightarrow> grp_GroupID e = i \<and> entry_ok e)"

lemma in_update: "p \<in> set (AList.update i g m) \<Longrightarrow> p = (i, g) \<or> p \<in> set m"
  by (induction m) (auto split: if_splits)

lemma pending_ok_update:
  assumes "pending_ok m" and "group_ok i g"
  shows "pending_ok (m\<lparr>pt_GroupTx := AList.update i g (pt_GroupTx m)\<rparr>)"
  using assms distinct_update [of "pt_GroupTx m" i g] by (auto simp: pending_ok_def dest!: in_update)

lemma pending_ok_lookup: "pending_ok m \<Longrightarrow> map_of (pt_GroupTx m) i = Some g \<Longrightarrow> group_ok i g"
  by (auto simp: pending_ok_def dest: map_of_SomeD)

lemma SetGroupDBEntry_ok:
  assumes "pending_ok m" and "entry_ok e"
  shows "pending_ok (SetGroupDBEntry e m)" and "\<exists>g. map_of (pt_GroupTx (SetGroupDBEntry e m)) (grp_GroupID e) = Some g"
proof -
  have "group_ok (grp_GroupID e) (AssignTxsGroupID (g\<lparr>mg_DbEntry := e\<rparr>))" for g
    using assms(2) by (auto simp: group_ok_def AssignTxsGroupID_def)
  moreover have "group_ok (grp_GroupID e) (AssignTxsGroupID \<lparr>mg_DbEntry = e, mg_Txs = []\<rparr>)"
    using assms(2) by (auto simp: group_ok_def AssignTxsGroupID_def)
  ultimately show "pending_ok (SetGroupDBEntry e m)"
    using assms(1) by (auto simp: SetGroupDBEntry_def Let_def split: option.splits intro!: pending_ok_update)
  show "\<exists>g. map_of (pt_GroupTx (SetGroupDBEntry e m)) (grp_GroupID e) = Some g"
    by (simp add: SetGroupDBEntry_def Let_def update_conv')
qed

lemma addTxToGroup_ok:
  assumes "pending_ok m" and "map_of (pt_GroupTx m) i = Some g"
  shows "pending_ok (addTxToGroup i tx m)"
  using assms pending_ok_lookup [OF assms]
  by (auto simp: addTxToGroup_def group_ok_def group_AddTx_def intro!: pending_ok_update)

lemma pending_loop_ok:
  assumes "entries_ok groups" and "pending_ok m" and "pending_loop ger groups txs m = Inr m'"
  shows "pending_ok m'"
  using assms(2,3)
proof (induction txs arbitrary: m)
  case (Cons tx txs)
  show ?case
  proof (cases "IsCandidateToBeGrouped tx ger \<or> mtx_GroupID tx = None")
    case True
    have "pending_ok (addTxCandidatesForGroup tx m)"
      using Cons.prems(1) by (simp add: pending_ok_def addTxCandidatesForGroup_def)
    thus ?thesis using Cons True by (auto split: if_splits)
  next
    case False
    then obtain i e where i: "mtx_GroupID tx = Some i" "groups i = Some e"
      and run: "pending_loop ger groups txs (addTxToGroup i tx (SetGroupDBEntry e m)) = Inr m'"
      using Cons.prems(2) by (auto split: option.splits)
    have e: "grp_GroupID e = i" "entry_ok e" using assms(1) i(2) by (auto simp: entries_ok_def)
    show ?thesis
      using Cons.IH [OF _ run] addTxToGroup_ok SetGroupDBEntry_ok [OF Cons.prems(1) e(2)] e(1) by blast
  qed
qed simp

lemma NewPendingTxs_ok: "entries_ok groups \<Longrightarrow> NewPendingTxs mTxs groups k = Inr m \<Longrightarrow> pending_ok m"
  unfolding NewPendingTxs_def Let_def by (erule pending_loop_ok [rotated 2], assumption) (simp add: pending_ok_def)

text \<open>What holds of every view of the database, committed or not.\<close>

definition pg_all :: "(db \<Rightarrow> bool) \<Rightarrow> pg \<Rightarrow> bool" where
  "pg_all P st \<longleftrightarrow> (\<forall>t d. raw_view t st = Some d \<longrightarrow> P d)"

lemma pg_all_alt: "pg_all P st \<longleftrightarrow> P (pg_committed st) \<and> (\<forall>t. pg_open st = Some t \<longrightarrow> P (tx_view t))"
  by (auto simp: pg_all_def raw_view_def split: dbTx.splits)

lemma pg_all_query: "pg_all P st \<Longrightarrow> pg_query tx f st = (x, st') \<Longrightarrow> pg_all P st'"
  by (simp add: pg_all_def pg_query_frame [of tx f st x st'])

lemma pg_all_exec:
  assumes "pg_all P st" and "pg_exec tx f st = (x, st')" and "\<And>d y d'. P d \<Longrightarrow> f d = Inr (y, d') \<Longrightarrow> P d'"
  shows "pg_all P st'"
proof (cases x)
  case (Inl e)
  thus ?thesis using assms(1,2) pg_exec_InlD by (fastforce simp: pg_all_def)
next
  case (Inr y)
  from pg_exec_InrD [OF assms(2) [unfolded Inr]] obtain d d' where
    d: "raw_view tx st = Some d" "f d = Inr (y, d')" "raw_view tx st' = Some d'"
    "\<forall>t. t \<noteq> tx \<longrightarrow> raw_view t st' = raw_view t st" by blast
  have "P d'" using assms(1,3) d(1,2) unfolding pg_all_def by blast
  thus ?thesis using d assms(1) unfolding pg_all_def by (metis option.inject)
qed

lemma pg_all_call: "pg_all P st \<Longrightarrow> pg_call st = (b, st') \<Longrightarrow> pg_all P st'"
  by (auto simp: pg_all_def)

lemma pg_all_Begin:
  assumes "pg_all P st" and "BeginDBTransaction st = (x, st')"
  shows "pg_all P st'"
proof -
  obtain b st1 where call: "pg_call st = (b, st1)" by fastforce
  have "pg_all P st1" using assms(1) call by (rule pg_all_call)
  thus ?thesis using assms(2) call by (cases b) (auto simp: BeginDBTransaction_def pg_all_alt)
qed

text \<open>Ending a transaction, for a predicate that does not look at the sequences.\<close>

lemma pg_all_discard:
  "pg_all P st \<Longrightarrow> (\<And>v d. P d \<Longrightarrow> P (keep_seqs v d)) \<Longrightarrow> pg_all P (pg_discard t st)"
  by (auto simp: pg_all_alt pg_discard_def)

lemma pg_all_Rollback:
  "pg_all P st \<Longrightarrow> (\<And>v d. P d \<Longrightarrow> P (keep_seqs v d)) \<Longrightarrow> Rollback tx st = (x, st') \<Longrightarrow> pg_all P st'"
  by (auto simp: Rollback_def split: dbTx.splits option.splits prod.splits bool.splits
      intro!: pg_all_discard dest: pg_all_call)

lemma pg_all_Commit:
  assumes "pg_all P st" and "\<And>v d. P d \<Longrightarrow> P (keep_seqs v d)" and "Commit tx st = (x, st')"
  shows "pg_all P st'"
proof (cases "pg_open st")
  case None
  thus ?thesis using assms by (auto simp: Commit_def split: dbTx.splits)
next
  case (Some t)
  obtain b st1 where call: "pg_call st = (b, st1)" by fastforce
  have ok: "pg_all P st1" using assms(1) call by (rule pg_all_call)
  have "P (tx_view t)" using assms(1) Some by (simp add: pg_all_alt)
  moreover have "pg_all P (pg_discard t st1)" using ok assms(2) by (rule pg_all_discard)
  ultimately show ?thesis using assms(1,3) Some call
    by (auto simp: Commit_def pg_all_alt split: dbTx.splits if_splits bool.splits)
qed

text \<open>The rows of the groups.\<close>

lemma groups_ok_keep_seqs: "groups_ok d \<Longrightarrow> groups_ok (keep_seqs v d)"
  by (simp add: groups_ok_def keep_seqs_def)

lemma entry_ok_frame [simp]:
  "entry_ok (e\<lparr>grp_UpdatedAt := u\<rparr>) = entry_ok e" "entry_ok (e\<lparr>grp_DepositIDs := ds\<rparr>) = entry_ok e"
  "entry_ok (e\<lparr>grp_LastLog := l\<rparr>) = entry_ok e"
  by (simp_all add: entry_ok_def)

lemma entry_ok_stored:
  "entry_ok g \<Longrightarrow> entry_ok (r\<lparr>grp_NumRetries := n, grp_CompressedTxData := c, grp_ClaimTxHistory := grp_ClaimTxHistory g,
      grp_UpdatedAt := u, grp_Status := grp_Status g\<rparr>)"
  by (simp add: entry_ok_def in_flight_def)

lemma AddMonitoredTxsGroup_ok:
  assumes "pg_all groups_ok st" and "entry_ok g" and "AddMonitoredTxsGroup (Some g) tx st = (x, st')"
  shows "pg_all groups_ok st'"
  by (rule pg_all_exec [OF assms(1) assms(3) [unfolded AddMonitoredTxsGroup_def option.case]])
     (use assms(2) in \<open>auto simp: groups_ok_def split: if_splits\<close>)

lemma UpdateMonitoredTxsGroup_ok:
  assumes "pg_all groups_ok st" and "entry_ok g" and "UpdateMonitoredTxsGroup (Some g) tx st = (x, st')"
  shows "pg_all groups_ok st'"
  by (rule pg_all_exec [OF assms(1) assms(3) [unfolded UpdateMonitoredTxsGroup_def option.case]])
     (use assms(2) in \<open>auto simp: groups_ok_def entry_ok_stored\<close>)

lemma UpdateClaimTx_ok: "pg_all groups_ok st \<Longrightarrow> UpdateClaimTx u m tx st = (x, st') \<Longrightarrow> pg_all groups_ok st'"
  unfolding UpdateClaimTx_def by (erule (1) pg_all_exec) (auto simp: groups_ok_def)

lemma run_all_ok:
  assumes "pg_all P st" and "run_all f xs st = (r, st')"
    and "\<And>x s y s'. x \<in> set xs \<Longrightarrow> pg_all P s \<Longrightarrow> f x s = (y, s') \<Longrightarrow> pg_all P s'"
  shows "pg_all P st'"
  using assms
proof (induction xs arbitrary: st)
  case (Cons x xs)
  obtain y s where fx: "f x st = (y, s)" by fastforce
  have s: "pg_all P s" using Cons.prems(1,3) fx by (meson list.set_intros(1))
  show ?case
  proof (cases y)
    case (Inr u)
    have run: "run_all f xs s = (r, st')" using Cons.prems(2) fx Inr by simp
    show ?thesis by (rule Cons.IH [OF s run]) (use Cons.prems(3) in \<open>meson list.set_intros(2)\<close>)
  qed (use Cons.prems(2) fx s in auto)
qed simp

definition changes_ok :: "StoreChanges \<Rightarrow> bool" where
  "changes_ok sc \<longleftrightarrow> (\<forall>e\<in>set (sc_AddGroups sc) \<union> set (sc_UpdateGroups sc). entry_ok e)"

lemma Execute_ok:
  assumes "pg_all groups_ok st" and "changes_ok sc" and "Execute now sc tx st = (x, st')"
  shows "pg_all groups_ok st'"
proof -
  obtain y st1 where 1: "run_all (\<lambda>g. AddMonitoredTxsGroup (Some g) tx) (sc_AddGroups sc) st = (y, st1)" by fastforce
  have ok1: "pg_all groups_ok st1"
    by (rule run_all_ok [OF assms(1) 1], rule AddMonitoredTxsGroup_ok)
       (use assms(2) in \<open>auto simp: changes_ok_def\<close>)
  obtain z st2 where 2: "run_all (\<lambda>g. UpdateMonitoredTxsGroup (Some (g\<lparr>grp_UpdatedAt := now\<rparr>)) tx) (sc_UpdateGroups sc) st1 = (z, st2)"
    by fastforce
  have ok2: "pg_all groups_ok st2"
    by (rule run_all_ok [OF ok1 2], rule UpdateMonitoredTxsGroup_ok)
       (use assms(2) in \<open>auto simp: changes_ok_def\<close>)
  obtain w st3 where 3: "run_all (\<lambda>m. UpdateClaimTx now m tx) (sc_UpdateTxs sc) st2 = (w, st3)" by fastforce
  have "pg_all groups_ok st3" by (rule run_all_ok [OF ok2 3]) (rule UpdateClaimTx_ok)
  thus ?thesis using assms(3) 1 2 3 ok1 ok2 by (cases y; cases z) (auto simp: Execute_def)
qed

lemma group_changes_ok:
  assumes "\<forall>(i, g)\<in>set gs. group_ok i g" and "changes_ok sc" and "group_changes N eqG old gs sc n = (sc', n')"
  shows "changes_ok sc'"
  using assms
proof (induction gs arbitrary: sc n)
  case (Cons p gs)
  obtain i g where p: "p = (i, g)" by fastforce
  have g: "entry_ok (mg_DbEntry g)" using Cons.prems(1) p by (auto simp: group_ok_def)
  obtain now n1 where now: "Time_Now N n = (now, n1)" by fastforce
  have "changes_ok (sc\<lparr>sc_AddGroups := sc_AddGroups sc @ [(mg_DbEntry g)\<lparr>grp_UpdatedAt := now, grp_DepositIDs := ds\<rparr>]\<rparr>)"
    "changes_ok (sc\<lparr>sc_UpdateGroups := sc_UpdateGroups sc @ [(mg_DbEntry g)\<lparr>grp_UpdatedAt := now\<rparr>]\<rparr>)" for ds
    using g Cons.prems(2) by (auto simp: changes_ok_def)
  thus ?case using Cons p now by (auto split: option.splits if_splits)
qed simp

lemma GenerateStoreUpdate_ok:
  assumes "pending_ok new" and "GenerateStoreUpdate N eqG eqT old new n = (Inr sc, n')"
  shows "changes_ok sc"
proof -
  obtain sc1 n1 where 1: "group_changes N eqG old (pt_GroupTx new)
      \<lparr>sc_AddGroups = [], sc_UpdateGroups = [], sc_UpdateTxs = []\<rparr> n = (sc1, n1)" by fastforce
  have "changes_ok sc1" by (rule group_changes_ok [OF _ _ 1]) (use assms(1) in \<open>auto simp: pending_ok_def changes_ok_def\<close>)
  thus ?thesis using assms(2) 1 by (auto simp: GenerateStoreUpdate_def changes_ok_def split: sum.splits)
qed

lemma entries_ok_read:
  assumes "groups_ok d"
  shows "entries_ok (map_of (map (\<lambda>g. (grp_GroupID g, g\<lparr>grp_DepositIDs := [], grp_LastLog := []\<rparr>))
     (filter P (t_monitored_txs_group d))))"
  using assms by (auto simp: entries_ok_def groups_ok_def dest!: map_of_SomeD)

lemma getPendingTxs_ok:
  assumes "pg_all groups_ok st" and "getPendingTxs r tx st = (x, st')"
  shows "pg_all groups_ok st' \<and> (\<forall>m. x = Inr m \<longrightarrow> pending_ok m)"
proof -
  obtain a st1 where 1: "GetClaimTxsByStatus [MonitoredTxStatusCreated, MonitoredTxStatusCompressing, MonitoredTxStatusClaiming]
     r tx st = (a, st1)" by fastforce
  have ok1: "pg_all groups_ok st1" using assms(1) 1 [unfolded GetClaimTxsByStatus_def] by (rule pg_all_query)
  show ?thesis
  proof (cases a)
    case (Inr mTxs)
    obtain b st2 where 2: "GetMonitoredTxsGroups (getGroupsIds mTxs) tx st1 = (b, st2)" by fastforce
    have ok2: "pg_all groups_ok st2" using ok1 2 [unfolded GetMonitoredTxsGroups_def] by (rule pg_all_query)
    show ?thesis
    proof (cases b)
      case (Inr groups)
      have groups: "entries_ok groups"
        using pg_query_InrD [OF 2 [unfolded GetMonitoredTxsGroups_def Inr]] ok1 entries_ok_read
        by (auto simp: pg_all_def)
      obtain c st3 where 3: "GetLatestMonitoredTxGroupID tx st2 = (c, st3)" by fastforce
      have ok3: "pg_all groups_ok st3" using ok2 3 [unfolded GetLatestMonitoredTxGroupID_def] by (rule pg_all_query)
      show ?thesis using assms(2) 1 2 3 \<open>a = Inr mTxs\<close> Inr ok3 NewPendingTxs_ok [OF groups]
        by (cases c) (auto simp: getPendingTxs_def)
    qed (use assms(2) 1 2 \<open>a = Inr mTxs\<close> ok2 in \<open>auto simp: getPendingTxs_def\<close>)
  qed (use assms(2) 1 ok1 in \<open>auto simp: getPendingTxs_def\<close>)
qed

lemma internalMonitorTxs_ok:
  assumes "pg_all groups_ok st" and "internalMonitorTxs N eqG eqT A cfg gas r tx st n = (x, st', n')"
  shows "pg_all groups_ok st'"
proof -
  obtain a st1 where 1: "getPendingTxs r tx st = (a, st1)" by fastforce
  have ok1: "pg_all groups_ok st1" using getPendingTxs_ok [OF assms(1) 1] by blast
  show ?thesis
  proof (cases "\<exists>m. a = Inr m \<and> \<not> IsEmpty m")
    case True
    then obtain m where m: "a = Inr m" "\<not> IsEmpty m" by blast
    have m_ok: "pending_ok m" using getPendingTxs_ok [OF assms(1) 1] m by blast
    obtain b st2 where 2: "getPendingTxs r tx st1 = (b, st2)" by fastforce
    have ok2: "pg_all groups_ok st2" using getPendingTxs_ok [OF ok1 2] by blast
    obtain y n1 where 3: "Process N A cfg gas m n = (y, n1)" by fastforce
    show ?thesis
    proof (cases "\<exists>old new. b = Inr old \<and> y = Inr new")
      case True
      then obtain old new where on: "b = Inr old" "y = Inr new" by blast
      have new: "pending_ok new" using Process_ok [OF m_ok] 3 on by simp
      obtain z n2 where 4: "GenerateStoreUpdate N eqG eqT old new n1 = (z, n2)" by fastforce
      obtain now n3 where 5: "Time_Now N n2 = (now, n3)" by fastforce
      show ?thesis
      proof (cases z)
        case (Inr sc)
        have sc: "changes_ok sc" using GenerateStoreUpdate_ok [OF new 4 [unfolded Inr]] .
        obtain w st3 where 6: "Execute now sc tx st2 = (w, st3)" by fastforce
        show ?thesis using assms(2) 1 2 3 4 5 6 m on Inr Execute_ok [OF ok2 sc 6]
          by (auto simp: internalMonitorTxs_def)
      qed (use assms(2) 1 2 3 4 m on ok2 in \<open>auto simp: internalMonitorTxs_def\<close>)
    qed (use assms(2) 1 2 3 m ok2 in \<open>cases b; cases y; auto simp: internalMonitorTxs_def\<close>)
  qed (use assms(2) 1 ok1 in \<open>cases a; auto simp: internalMonitorTxs_def\<close>)
qed

lemma compressed_MonitorTxs_ok:
  assumes "pg_all groups_ok st" and "compressed_MonitorTxs N eqG eqT A cfg gas r st n = (x, st', n')"
  shows "pg_all groups_ok st'"
proof -
  obtain a st1 where 1: "BeginDBTransaction st = (a, st1)" by fastforce
  have ok1: "pg_all groups_ok st1" using pg_all_Begin [OF assms(1) 1] .
  show ?thesis
  proof (cases a)
    case (Inr tx)
    obtain b st2 n2 where 2: "internalMonitorTxs N eqG eqT A cfg gas r tx st1 n = (b, st2, n2)" by (metis prod_cases3)
    have ok2: "pg_all groups_ok st2" using internalMonitorTxs_ok [OF ok1 2] .
    have "pg_all groups_ok (snd (Rollback tx st2))" "pg_all groups_ok (snd (Commit tx st2))"
      using pg_all_Rollback [OF ok2 groups_ok_keep_seqs] pg_all_Commit [OF ok2 groups_ok_keep_seqs]
      by (metis prod.collapse)+
    thus ?thesis using assms(2) 1 Inr 2 ok2
      by (cases b) (auto simp: compressed_MonitorTxs_def split: if_splits prod.splits)
  qed (use assms(2) 1 ok1 in \<open>auto simp: compressed_MonitorTxs_def\<close>)
qed

text \<open>The chosen claims are the first candidates, up to the configured number.\<close>

lemma choose_loop_take:
  assumes "0 < gc_MaxNumberOfClaimsPerGroup cfg" and "int (length gr) < gc_MaxNumberOfClaimsPerGroup cfg"
  shows "choose_loop cfg txs gr = gr @ take (nat (gc_MaxNumberOfClaimsPerGroup cfg) - length gr) txs"
  using assms(2)
proof (induction txs arbitrary: gr)
  case (Cons tx txs)
  show ?case
  proof (cases "int (length (gr @ [tx])) = gc_MaxNumberOfClaimsPerGroup cfg")
    case True
    hence "nat (gc_MaxNumberOfClaimsPerGroup cfg) - length gr = 1" by simp
    thus ?thesis using True by simp
  next
    case False
    obtain k where k: "nat (gc_MaxNumberOfClaimsPerGroup cfg) - length gr = Suc k"
      using Cons.prems by (metis Suc_diff_Suc zless_nat_eq_int_zless)
    hence "nat (gc_MaxNumberOfClaimsPerGroup cfg) - length (gr @ [tx]) = k" by simp
    thus ?thesis using Cons False k by simp
  qed
qed simp

lemma choose_loop_all:
  "gc_MaxNumberOfClaimsPerGroup cfg \<le> 0 \<Longrightarrow> choose_loop cfg txs gr = gr @ txs"
  by (induction txs arbitrary: gr) auto

lemma ChooseTxs_take:
  "ChooseTxs cfg now txs = [] \<or> ChooseTxs cfg now txs =
     (if 0 < gc_MaxNumberOfClaimsPerGroup cfg then take (nat (gc_MaxNumberOfClaimsPerGroup cfg)) txs else txs)"
  using choose_loop_take [of cfg "[]" txs] choose_loop_all [of cfg txs "[]"]
  by (auto simp: ChooseTxs_def chooseGroupTx_def)

definition group_candidates :: "ConfigGroupingClaims \<Rightarrow> PendingTxs \<Rightarrow> MonitoredTx list" where
  "group_candidates cfg m =
     (if 0 < gc_MaxNumberOfClaimsPerGroup cfg then take (nat (gc_MaxNumberOfClaimsPerGroup cfg)) (pt_TxCandidatesForGroup m)
      else pt_TxCandidatesForGroup m)"

lemma createNewGroups_lookup:
  assumes "createNewGroups N A cfg m n = (Inr m', n')"
  shows "map_of (pt_GroupTx m) i = Some g \<Longrightarrow> map_of (pt_GroupTx m') i = Some g"
    and "map_of (pt_GroupTx m) i = None \<Longrightarrow> map_of (pt_GroupTx m') i = Some g \<Longrightarrow>
      i = pt_LastGroupTxID m + 1 \<and> grp_Status (mg_DbEntry g) = MonitoredTxGroupStatusCreated \<and>
      GetTxsDepositID g = map mtx_DepositID (group_candidates cfg m)"
proof -
  show "map_of (pt_GroupTx m') i = Some g" if "map_of (pt_GroupTx m) i = Some g"
    using assms by (rule createNewGroups_cases)
      (use that in \<open>auto simp: pt_AddGroup_def update_absent map_add_Some_iff split: option.splits\<close>)
  show "i = pt_LastGroupTxID m + 1 \<and> grp_Status (mg_DbEntry g) = MonitoredTxGroupStatusCreated \<and>
      GetTxsDepositID g = map mtx_DepositID (group_candidates cfg m)"
    if "map_of (pt_GroupTx m) i = None" "map_of (pt_GroupTx m') i = Some g"
    using assms
  proof (rule createNewGroups_cases)
    fix h assume "group_ok (pt_LastGroupTxID m + 1) h" "grp_Status (mg_DbEntry h) = MonitoredTxGroupStatusCreated"
      "m' = pt_AddGroup h (m\<lparr>pt_LastGroupTxID := pt_LastGroupTxID m + 1\<rparr>)"
      "GetTxsDepositID h = map mtx_DepositID (ChooseTxs cfg (fst (Time_Now N n)) (pt_TxCandidatesForGroup m))"
      "ChooseTxs cfg (fst (Time_Now N n)) (pt_TxCandidatesForGroup m) \<noteq> []"
    thus ?thesis
      using that ChooseTxs_take [of cfg "fst (Time_Now N n)" "pt_TxCandidatesForGroup m"]
      by (simp add: pt_AddGroup_def update_conv' group_ok_def group_candidates_def split: option.splits if_splits)
  qed (use that in simp)
qed

lemma map_of_same:
  assumes "map fst xs = map fst ys" and "map (f \<circ> snd) xs = map (f \<circ> snd) ys"
  shows "map_option f (map_of xs i) = map_option f (map_of ys i)"
proof -
  have "length xs = length ys" using arg_cong [OF assms(1), of length] by simp
  thus ?thesis using assms by (induction xs ys rule: list_induct2) (auto split: if_splits)
qed

text \<open>A group at its last retry is failed, whatever its claims did.\<close>

definition group_failed :: "MonitoredTxGroup \<Rightarrow> bool" where
  "group_failed g \<longleftrightarrow>
     grp_Status (mg_DbEntry g) = MonitoredTxGroupStatussFailed \<and> (\<forall>tx\<in>set (mg_Txs g). mtx_Status tx = MonitoredTxStatusFailed)"

lemma OutdateClaims_lookup:
  assumes "OutdateClaims N cfg m n = (Inr m', n')" and "map_of (pt_GroupTx m') i = Some g'"
    and "retries_reached cfg g'"
  shows "group_failed g'"
proof -
  have one: "group_failed g'"
    if "outdate_claims N cfg g n = (Inr g', n')" "retries_reached cfg g'" for g g' n n'
    using that
    by (auto simp: group_failed_def outdate_claims_def OnFailGroup_def set_status_def retries_reached_def split: sum.splits prod.splits if_splits)
  have all: "group_failed g'"
    if "each_group (outdate_claims N cfg) gs n = (Inr gs', n')" "(i, g') \<in> set gs'" "retries_reached cfg g'" for gs gs' n n' i g'
    using that
  proof (induction gs arbitrary: gs' n n')
    case (Cons p gs)
    obtain j g where p: "p = (j, g)" by fastforce
    obtain h n1 hs n2 where h: "outdate_claims N cfg g n = (Inr h, n1)" "each_group (outdate_claims N cfg) gs n1 = (Inr hs, n2)"
      "gs' = (j, h) # hs" using Cons.prems(1) p by (auto split: sum.splits prod.splits)
    show ?case using Cons.IH [OF h(2) _ Cons.prems(3)] one [OF h(1)] Cons.prems(2,3) h(3) by auto
  qed simp
  show ?thesis
    using assms(1,2) all [OF _ _ assms(3)]
    by (fastforce simp: OutdateClaims_def on_groups_def split: sum.splits prod.splits dest: map_of_SomeD)
qed

text \<open>A compressor call that fails still gives a group, with no bytes to send.\<close>

lemma failed_compression_stored:
  assumes "Time_Now N n = (now, n1)" and "Time_Now N n1 = (created, n2)"
    and "ChooseTxs cfg now (pt_TxCandidatesForGroup m) \<noteq> []"
    and "GetCompressClaimParametersFromMonitoredTx A (mg_Txs (NewMonitoredTxGroup ((mg_DbEntry zero_group)\<lparr>grp_GroupID := pt_LastGroupTxID m + 1,
           grp_Status := MonitoredTxGroupStatusCreated, grp_CreatedAt := created\<rparr>) (ChooseTxs cfg now (pt_TxCandidatesForGroup m)))) = Inr p"
    and "Compressor_Call N (cp_MainnetExitRoot p) (cp_RollupExitRoot p) (cp_ClaimData p) n2 = (Inl e, n3)"
  shows "\<exists>g. createNewGroups N A cfg m n = (Inr (pt_AddGroup g (m\<lparr>pt_LastGroupTxID := pt_LastGroupTxID m + 1\<rparr>)), n3) \<and>
    grp_CompressedTxData (mg_DbEntry g) = Some []"
  using assms by (simp add: createNewGroups_def GenerateNewGroupID_def CompressClaimCall_def Let_def) (rule exI, rule conjI, rule refl, simp)

section \<open>A sample\<close>

text \<open>A group of one deposit and a candidate with another one; the node mines every claim at once.\<close>

definition sample_params :: bridgeClaimXParams where
  "sample_params = \<lparr>cx_smtProofLocalExitRoot = [], cx_smtProofRollupExitRoot = [], cx_globalIndex = 0, cx_mainnetExitRoot = 1,
     cx_rollupExitRoot = 2, cx_originNetwork = 0, cx_originTokenAddress = 0, cx_destinationNetwork = 1,
     cx_destinationAddress = 0, cx_amount = 5, cx_metadata = [], cx_isMessage = False\<rparr>"

definition sample_abi :: bridge_abi where
  "sample_abi = \<lparr>claimAssetID = [1, 2, 3, 4], claimMessageID = [5, 6, 7, 8], abi_Inputs = (\<lambda>_. Inr (\<lambda>_. Inr sample_params))\<rparr>"

definition sample_node :: "int claim_node" where
  "sample_node = \<lparr>TransactionReceipt = (\<lambda>h n. (Inr (True, 1), n)), Compressor_Send = (\<lambda>b gas d n. (Inr (ucast gas, 7), n)),
     Compressor_Call = (\<lambda>_ _ c n. (Inr [9], n)), Time_Now = (\<lambda>n. (n, n + 1))\<rparr>"

definition sample_cfg :: ConfigGroupingClaims where
  "sample_cfg = \<lparr>gc_TriggerNumberOfClaims = 1, gc_MaxNumberOfClaimsPerGroup = 10, gc_TriggerRetainedClaimPeriod = 5,
     gc_MaxRetries = 1, gc_RetryInterval = 5, gc_RetryTimeout = 50, gc_GasOffset = 3\<rparr>"

definition sample_entry :: MonitoredTxGroupDBEntry where
  "sample_entry = (mg_DbEntry zero_group)\<lparr>grp_GroupID := 4, grp_Status := MonitoredTxGroupStatusCreated, grp_CompressedTxData := Some [9]\<rparr>"

definition sample_pending :: PendingTxs where
  "sample_pending = \<lparr>pt_GroupTx = [(4, \<lparr>mg_DbEntry = sample_entry, mg_Txs = [sample_mtx\<lparr>mtx_GroupID := Some 4\<rparr>]\<rparr>)],
     pt_TxCandidatesForGroup = [sample_mtx\<lparr>mtx_DepositID := 2, mtx_Data := [1, 2, 3, 4, 0]\<rparr>], pt_LastGroupTxID = 4\<rparr>"

definition sample_groups_pg :: pg where
  "sample_groups_pg = pg_init\<lparr>pg_committed := empty_db\<lparr>t_deposit := [new_deposit_row 1 sample_deposit],
     t_monitored_txs := [sample_mtx\<lparr>mtx_GroupID := Some 4\<rparr>], t_monitored_txs_group := [sample_entry]\<rparr>\<rparr>"

lemmas sample_group_defs = sample_params_def sample_abi_def sample_node_def sample_cfg_def sample_entry_def sample_pending_def
  sample_groups_pg_def sample_mtx_def zero_group_def

lemmas process_run = Process_def SendClaims_def CheckReceipts_def OutdateClaims_def on_groups_def send_claim_def
  CanSendNewClaimCall_def SendCompressedClaims_def group_AddPendingTx_def history_AddPendingTx_def check_receipts_def history_def
  CheckTxWasMined_def IsPending_def OnFinishClaimGroupTxSuccessful_def set_status_def set_entry_def set_log_def ReceiptSuccessful_def
  outdate_claims_def retries_reached_def OnFailGroup_def createNewGroups_def ChooseTxs_def isRetainedPeriodSurpassed_def
  chooseGroupTx_def GenerateNewGroupID_def NewMonitoredTxGroup_def AssignTxsGroupID_def
  GetCompressClaimParametersFromMonitoredTx_def GetCompressClaimParameters_def extractParams_def extractParamsClaimX_def
  CompressClaimCall_def pt_AddGroup_def Let_def

lemmas group_pass_run = compressed_MonitorTxs_def BeginDBTransaction_def internalMonitorTxs_def getPendingTxs_def
  GetClaimTxsByStatus_def getGroupsIds_def GetMonitoredTxsGroups_def GetLatestMonitoredTxGroupID_def order_desc_def map_filter_def
  NewPendingTxs_def IsCandidateToBeGrouped_def addTxCandidatesForGroup_def SetGroupDBEntry_def addTxToGroup_def group_AddTx_def
  IsEmpty_def GenerateStoreUpdate_def GetTxByDepositID_def Execute_def UpdateMonitoredTxsGroup_def UpdateClaimTx_def Commit_def
  new_deposit_row_def sample_deposit_def Deposit.defs

definition group_summary :: "PendingTxs \<Rightarrow> (u64 \<times> MonitoredTxGroupStatus \<times> u64 list \<times> 32 word) list" where
  "group_summary m =
     map (\<lambda>(i, g). (i, grp_Status (mg_DbEntry g), GetTxsDepositID g, grp_NumRetries (mg_DbEntry g))) (pt_GroupTx m)"

lemma sample_pending_ok: "pending_ok sample_pending"
  by (simp add: pending_ok_def group_ok_defs sample_group_defs)

lemma sample_Process:
  "\<exists>m'. Process sample_node sample_abi sample_cfg 0 sample_pending 100 = (Inr m', 103) \<and>
     group_summary m' =
       [(4, MonitoredTxGroupStatussFailed, [1], 1), (5, MonitoredTxGroupStatusCreated, [2], 0)]"
  by (simp add: process_run sample_group_defs group_summary_def GetTxsDepositID_def)

section \<open>Properties\<close>

text \<open>C27. At most one claim of a group is in flight: whatever the node answers and whichever database calls fail, a pass of the
  monitor over a database where every group has at most one claim without an outcome (none while the group is created) leaves
  a database of that kind, so no group is sent again before its last claim has an outcome.\<close>

theorem compressed_MonitorTxs_one_in_flight:
  assumes "pg_open st = None" and "groups_ok (pg_committed st)"
    and "compressed_MonitorTxs N eqG eqT A cfg gas r st n = (x, st', n')"
  shows "groups_ok (pg_committed st')"
proof -
  have "pg_all groups_ok st" using assms(1,2) by (simp add: pg_all_alt)
  from compressed_MonitorTxs_ok [OF this assms(3)] show ?thesis by (simp add: pg_all_alt)
qed

theorem compressed_MonitorTxs_one_in_flight_witness:
  "\<exists>st'. compressed_MonitorTxs sample_node (=) (=) sample_abi (sample_cfg\<lparr>gc_MaxRetries := 3\<rparr>) 0 1 sample_groups_pg 100 =
       (Inr (), st', 104) \<and>
     map grp_Status (t_monitored_txs_group (pg_committed st')) = [MonitoredTxGroupStatusConfirmed] \<and> groups_ok (pg_committed st')"
proof -
  have start: "pg_open sample_groups_pg = None" "groups_ok (pg_committed sample_groups_pg)"
    by (simp_all add: sample_group_defs pg_init_def groups_ok_def entry_ok_def in_flight_def)
  have "\<exists>st'. compressed_MonitorTxs sample_node (=) (=) sample_abi (sample_cfg\<lparr>gc_MaxRetries := 3\<rparr>) 0 1 sample_groups_pg 100 =
       (Inr (), st', 104) \<and>
     map grp_Status (t_monitored_txs_group (pg_committed st')) = [MonitoredTxGroupStatusConfirmed]"
    by (simp add: group_pass_run process_run sample_group_defs pg_run)
  then obtain st' where st': "compressed_MonitorTxs sample_node (=) (=) sample_abi (sample_cfg\<lparr>gc_MaxRetries := 3\<rparr>) 0 1 sample_groups_pg 100 =
       (Inr (), st', 104)" "map grp_Status (t_monitored_txs_group (pg_committed st')) = [MonitoredTxGroupStatusConfirmed]" by (elim exE conjE)
  show ?thesis using st' compressed_MonitorTxs_one_in_flight [OF start st'(1)] by (intro exI conjI)
qed

text \<open>C28. The pending groups stay well typed through a pass: keys are distinct and are the identifiers of their groups, every
  transaction of a group carries its identifier, every group that was there keeps its deposits, and a new group is one,
  created, with the next identifier and with the first candidates, at most the configured number of them.\<close>

theorem Process_well_typed:
  assumes "pending_ok m" and "Process N A cfg gas m n = (Inr m', n')"
  shows "pending_ok m' \<and>
    (\<forall>i g. map_of (pt_GroupTx m) i = Some g \<longrightarrow>
       (\<exists>g'. map_of (pt_GroupTx m') i = Some g' \<and> GetTxsDepositID g' = GetTxsDepositID g)) \<and>
    (\<forall>i g. map_of (pt_GroupTx m) i = None \<and> map_of (pt_GroupTx m') i = Some g \<longrightarrow>
       i = pt_LastGroupTxID m + 1 \<and> grp_Status (mg_DbEntry g) = MonitoredTxGroupStatusCreated \<and>
       GetTxsDepositID g = map mtx_DepositID (group_candidates cfg m))"
proof -
  obtain m3 n3 where m3: "createNewGroups N A cfg m3 n3 = (Inr m', n')" "map fst (pt_GroupTx m3) = map fst (pt_GroupTx m)"
    "map (GetTxsDepositID \<circ> snd) (pt_GroupTx m3) = map (GetTxsDepositID \<circ> snd) (pt_GroupTx m)"
    "pt_TxCandidatesForGroup m3 = pt_TxCandidatesForGroup m" "pt_LastGroupTxID m3 = pt_LastGroupTxID m"
    by (rule Process_InrD [OF assms])
  have same: "map_option GetTxsDepositID (map_of (pt_GroupTx m3) i) = map_option GetTxsDepositID (map_of (pt_GroupTx m) i)" for i
    using m3(2,3) by (rule map_of_same)
  have cand: "group_candidates cfg m3 = group_candidates cfg m" using m3(4) by (simp add: group_candidates_def)
  show ?thesis
  proof (intro conjI allI impI)
    fix i g assume "map_of (pt_GroupTx m) i = Some g"
    then obtain g3 where "map_of (pt_GroupTx m3) i = Some g3" "GetTxsDepositID g3 = GetTxsDepositID g" using same [of i] by auto
    thus "\<exists>g'. map_of (pt_GroupTx m') i = Some g' \<and> GetTxsDepositID g' = GetTxsDepositID g"
      using createNewGroups_lookup [OF m3(1)] by simp
  next
    fix i g assume i: "map_of (pt_GroupTx m) i = None \<and> map_of (pt_GroupTx m') i = Some g"
    hence "map_of (pt_GroupTx m3) i = None" using same [of i] by auto
    hence "i = pt_LastGroupTxID m3 + 1 \<and> grp_Status (mg_DbEntry g) = MonitoredTxGroupStatusCreated \<and>
        GetTxsDepositID g = map mtx_DepositID (group_candidates cfg m3)"
      using createNewGroups_lookup [OF m3(1)] i by blast
    thus "i = pt_LastGroupTxID m + 1" "grp_Status (mg_DbEntry g) = MonitoredTxGroupStatusCreated"
      "GetTxsDepositID g = map mtx_DepositID (group_candidates cfg m)"
      using m3(5) cand by simp_all
  qed (rule Process_ok [OF assms])
qed

theorem Process_well_typed_witness:
  "\<exists>m'. Process sample_node sample_abi sample_cfg 0 sample_pending 100 = (Inr m', 103) \<and> pending_ok m' \<and>
     map (GetTxsDepositID \<circ> snd) (pt_GroupTx m') = [[1], [2]]"
proof -
  obtain m' where m': "Process sample_node sample_abi sample_cfg 0 sample_pending 100 = (Inr m', 103)"
    "group_summary m' =
       [(4, MonitoredTxGroupStatussFailed, [1], 1), (5, MonitoredTxGroupStatusCreated, [2], 0)]"
    using sample_Process by blast
  show ?thesis using m' Process_well_typed [OF sample_pending_ok m'(1)] by (auto simp: group_summary_def map_eq_Cons_conv)
qed

text \<open>C29. A group whose retries are used up is failed at the end of the pass, with all its claims, even when its last claim
  was sent in this very pass or was found mined successfully in it.\<close>

theorem exhausted_group_fails:
  assumes "pending_ok m" and "Process N A cfg gas m n = (Inr m', n')"
    and "map_of (pt_GroupTx m) i \<noteq> None" and "map_of (pt_GroupTx m') i = Some g'" and "retries_reached cfg g'"
  shows "group_failed g'"
proof -
  obtain m3 m2 n2 n3 where m3: "OutdateClaims N cfg m2 n2 = (Inr m3, n3)" "createNewGroups N A cfg m3 n3 = (Inr m', n')"
    "map fst (pt_GroupTx m3) = map fst (pt_GroupTx m)"
    by (rule Process_InrD [OF assms(1,2)])
  have "map_of (pt_GroupTx m3) i \<noteq> None" using assms(3) m3(3) by (metis list.set_map map_of_eq_None_iff)
  hence "map_of (pt_GroupTx m3) i = Some g'"
    using m3(2) assms(4) by (elim createNewGroups_cases) (auto simp: pt_AddGroup_def update_absent split: option.splits)
  thus ?thesis using OutdateClaims_lookup [OF m3(1) _ assms(5)] by blast
qed

theorem exhausted_group_fails_witness:
  "\<exists>m' g'. Process sample_node sample_abi sample_cfg 0 sample_pending 100 = (Inr m', 103) \<and>
     map_of (pt_GroupTx m') 4 = Some g' \<and> retries_reached sample_cfg g' \<and> group_failed g'"
proof -
  obtain m' where m': "Process sample_node sample_abi sample_cfg 0 sample_pending 100 = (Inr m', 103)"
    "group_summary m' =
       [(4, MonitoredTxGroupStatussFailed, [1], 1), (5, MonitoredTxGroupStatusCreated, [2], 0)]"
    using sample_Process by blast
  then obtain g' where g': "map_of (pt_GroupTx m') 4 = Some g'" "grp_NumRetries (mg_DbEntry g') = 1"
    by (auto simp: group_summary_def map_eq_Cons_conv)
  have "retries_reached sample_cfg g'" using g'(2) by (simp add: retries_reached_def sample_cfg_def)
  thus ?thesis
    using m'(1) g'(1) exhausted_group_fails [OF sample_pending_ok m'(1) _ g'(1)] by (simp add: sample_pending_def)
qed

end
