(* ===== verification/Claim_Monitor.thy ===== *)
theory Claim_Monitor
  imports Claim_Groups Bridge_Service "HOL-Library.Sublist"
begin

text \<open>
  Claims sent one by one: \<^verbatim>\<open>claimtxman/monitortxs.go\<close> and \<^verbatim>\<open>nonce_cache.go\<close>.

  \<^item> The node is the record \<open>l2_node\<close>, the node of the grouped claims with the calls used here; its state has type
    \<open>'n\<close>.  The receipt of a transaction is the one of \<^verbatim>\<open>CheckTxWasMined\<close>.
  \<^item> Signing and the hash of a signed transaction are the record \<open>signer\<close>; the cache of nonces, code of
    another package, is the record \<open>nonce_lru\<close>.
  \<^item> Waiting between retries is not modelled; the number of retries is.
  \<^item> An error of the node is its text; the errors of the database contain none of the texts looked for.
\<close>

section \<open>Definitions\<close>

record CallMsg =
  msg_From :: address
  msg_To :: "address option"
  msg_Value :: "int option"
  msg_Data :: bytes

record LegacyTx =
  ltx_To :: "address option"
  ltx_Nonce :: u64
  ltx_Value :: "int option"
  ltx_Data :: bytes
  ltx_Gas :: u64
  ltx_GasPrice :: "int option"

record 'n l2_node = "'n claim_node" +
  NonceAt :: "address \<Rightarrow> 'n \<Rightarrow> u64 result \<times> 'n"
  EstimateGas :: "CallMsg \<Rightarrow> 'n \<Rightarrow> u64 result \<times> 'n"
  SuggestGasPrice :: "'n \<Rightarrow> int result \<times> 'n"
  TransactionByHash :: "h256 \<Rightarrow> 'n \<Rightarrow> unit result \<times> 'n"
  SendTransaction :: "address \<Rightarrow> LegacyTx \<Rightarrow> 'n \<Rightarrow> unit result \<times> 'n"
  node_IsClaimed :: "u32 \<Rightarrow> u32 \<Rightarrow> 'n \<Rightarrow> bool result \<times> 'n"

text \<open>A signed transaction is the account and the transaction; \<open>SignedHash\<close> is its hash.\<close>

record signer =
  Signer :: "address \<Rightarrow> LegacyTx \<Rightarrow> unit result"
  SignedHash :: "address \<Rightarrow> LegacyTx \<Rightarrow> h256"

record 'k nonce_lru =
  nonce_Get :: "string \<Rightarrow> 'k \<Rightarrow> u64 option \<times> 'k"
  nonce_Add :: "string \<Rightarrow> u64 \<Rightarrow> 'k \<Rightarrow> 'k"
  nonce_Remove :: "string \<Rightarrow> 'k \<Rightarrow> 'k"

text \<open>The state: the database, the node and the cache of nonces.\<close>

record ('n, 'k) monitor =
  mon_pg :: pg
  mon_node :: 'n
  mon_nonces :: 'k

definition on_pg :: "(pg \<Rightarrow> 'a \<times> pg) \<Rightarrow> ('n, 'k, 'z) monitor_scheme \<Rightarrow> 'a \<times> ('n, 'k, 'z) monitor_scheme" where
  "on_pg f s = (case f (mon_pg s) of (x, st) \<Rightarrow> (x, s\<lparr>mon_pg := st\<rparr>))"

definition on_node :: "('n \<Rightarrow> 'a \<times> 'n) \<Rightarrow> ('n, 'k, 'z) monitor_scheme \<Rightarrow> 'a \<times> ('n, 'k, 'z) monitor_scheme" where
  "on_node f s = (case f (mon_node s) of (x, n) \<Rightarrow> (x, s\<lparr>mon_node := n\<rparr>))"

subsection \<open>The cache of nonces\<close>

definition GetNextNonce :: "'n l2_node \<Rightarrow> 'k nonce_lru \<Rightarrow> eth_text \<Rightarrow> address \<Rightarrow> ('n, 'k, 'z) monitor_scheme
    \<Rightarrow> u64 result \<times> ('n, 'k, 'z) monitor_scheme" where
  "GetNextNonce N C E from s =
     andthen (on_node (NonceAt N from) s) (\<lambda>nonce s1.
       case nonce_Get C (AddressHex E from) (mon_nonces s1) of
         (found, c) \<Rightarrow>
           let nonce' = (case found of
                           None \<Rightarrow> nonce
                         | Some tempNonce \<Rightarrow> if nonce \<le> tempNonce then tempNonce + 1 else nonce) in
           (Inr nonce', s1\<lparr>mon_nonces := nonce_Add C (AddressHex E from) nonce' c\<rparr>))"

definition nonce_cache_Remove :: "'k nonce_lru \<Rightarrow> string \<Rightarrow> ('n, 'k) monitor \<Rightarrow> ('n, 'k) monitor" where
  "nonce_cache_Remove C from s = s\<lparr>mon_nonces := nonce_Remove C from (mon_nonces s)\<rparr>"

subsection \<open>Texts of errors\<close>

definition error_text :: "error \<Rightarrow> string" where
  "error_text e = (case e of ErrMsg t \<Rightarrow> t | _ \<Rightarrow> [])"

definition lower_char :: "char \<Rightarrow> char" where
  "lower_char c = (let k = of_char c in if (65::nat) \<le> k \<and> k \<le> 90 then char_of (k + 32) else c)"

definition text_contains :: "string \<Rightarrow> string \<Rightarrow> bool" where
  "text_contains s t = sublist t (map lower_char s)"

definition isNonceError :: "error \<Rightarrow> bool" where
  "isNonceError e \<longleftrightarrow>
     text_contains (error_text e) ''nonce too low'' \<or> text_contains (error_text e) ''invalid nonce'' \<or>
     text_contains (error_text e) ''txnonce''"

definition isExecutionReverted :: "error \<Rightarrow> bool" where
  "isExecutionReverted e \<longleftrightarrow> text_contains (error_text e) ''execution reverted''"

subsection \<open>The history of a claim\<close>

definition maxHistorySize :: nat where
  "maxHistorySize = 10"

fun find_again :: "'n l2_node \<Rightarrow> h256 \<Rightarrow> nat \<Rightarrow> unit result \<Rightarrow> 'n \<Rightarrow> unit result \<times> 'n" where
  "find_again N txHash 0 r n = (r, n)"
| "find_again N txHash (Suc k) r n =
     (case r of
        Inr u \<Rightarrow> (r, n)
      | Inl e \<Rightarrow> (case TransactionByHash N txHash n of (r1, n1) \<Rightarrow> find_again N txHash k r1 n1))"

definition find_in_pool :: "'n l2_node \<Rightarrow> int \<Rightarrow> h256 \<Rightarrow> 'n \<Rightarrow> unit result \<times> 'n" where
  "find_in_pool N retryNumber txHash n =
     (case TransactionByHash N txHash n of (r, n1) \<Rightarrow> find_again N txHash (nat retryNumber) r n1)"

fun history_loop :: "'n l2_node \<Rightarrow> int \<Rightarrow> h256 list \<Rightarrow> bool \<Rightarrow> bool \<Rightarrow> 'n \<Rightarrow> (bool \<times> bool \<times> bool) \<times> 'n" where
  "history_loop N retryNumber [] hasFailedReceipts allHistoryTxMined n = ((hasFailedReceipts, allHistoryTxMined, False), n)"
| "history_loop N retryNumber (txHash # txs) hasFailedReceipts allHistoryTxMined n =
     (case CheckTxWasMined N txHash n of
        (Inl e, n1) \<Rightarrow> history_loop N retryNumber txs hasFailedReceipts False n1
      | (Inr None, n1) \<Rightarrow>
          (case find_in_pool N retryNumber txHash n1 of
             (Inl e, n2) \<Rightarrow>
               if e = ethNotFound then history_loop N retryNumber txs True False n2
               else history_loop N retryNumber txs hasFailedReceipts False n2
           | (Inr _, n2) \<Rightarrow> history_loop N retryNumber txs hasFailedReceipts False n2)
      | (Inr (Some (ok, logs)), n1) \<Rightarrow>
          if ok then ((hasFailedReceipts, allHistoryTxMined, True), n1)
          else history_loop N retryNumber txs True allHistoryTxMined n1)"

definition checkTxHistory :: "'n l2_node \<Rightarrow> int \<Rightarrow> MonitoredTx \<Rightarrow> 'n \<Rightarrow> (bool \<times> bool \<times> bool) \<times> 'n" where
  "checkTxHistory N retryNumber mTx n = history_loop N retryNumber (mtx_History mTx) False True n"

subsection \<open>Reviewing a claim\<close>

text \<open>Estimating the gas, again after an error that is not one of \<open>stop\<close>.\<close>

fun estimate_again :: "'n l2_node \<Rightarrow> (error \<Rightarrow> bool) \<Rightarrow> CallMsg \<Rightarrow> nat \<Rightarrow> u64 result \<Rightarrow> 'n \<Rightarrow> u64 result \<times> 'n" where
  "estimate_again N stop tx 0 r n = (r, n)"
| "estimate_again N stop tx (Suc k) r n =
     (case r of
        Inr gas \<Rightarrow> (r, n)
      | Inl e \<Rightarrow> if stop e then (r, n)
                 else (case EstimateGas N tx n of (r1, n1) \<Rightarrow> estimate_again N stop tx k r1 n1))"

definition estimate_gas :: "'n l2_node \<Rightarrow> (error \<Rightarrow> bool) \<Rightarrow> int \<Rightarrow> CallMsg \<Rightarrow> 'n \<Rightarrow> u64 result \<times> 'n" where
  "estimate_gas N stop retryNumber tx n =
     (case EstimateGas N tx n of (r, n1) \<Rightarrow> estimate_again N stop tx (nat (retryNumber - 1)) r n1)"

text \<open>The claim is returned with the fields updated before an error too.\<close>

definition ReviewMonitoredTx :: "'n l2_node \<Rightarrow> 'k nonce_lru \<Rightarrow> eth_text \<Rightarrow> int \<Rightarrow> MonitoredTx \<Rightarrow> bool \<Rightarrow> ('n, 'k) monitor
    \<Rightarrow> (unit result \<times> MonitoredTx) \<times> ('n, 'k) monitor" where
  "ReviewMonitoredTx N C E retryNumber mTx reviewNonce s =
     (case on_node (estimate_gas N isExecutionReverted retryNumber
              \<lparr>msg_From = mtx_From mTx, msg_To = mtx_To mTx, msg_Value = mtx_Value mTx, msg_Data = mtx_Data mTx\<rparr>) s of
        (Inl e, s1) \<Rightarrow> ((Inl e, mTx), s1)
      | (Inr gas, s1) \<Rightarrow>
          let mTx1 = (if mtx_Gas mTx < gas then mTx\<lparr>mtx_Gas := gas\<rparr> else mTx) in
          if reviewNonce then
            (case GetNextNonce N C E (mtx_From mTx1) s1 of
               (Inl e, s2) \<Rightarrow> ((Inl e, mTx1), s2)
             | (Inr nonce, s2) \<Rightarrow>
                 ((Inr (), if mtx_Nonce mTx1 < nonce then mTx1\<lparr>mtx_Nonce := nonce\<rparr> else mTx1), s2))
          else ((Inr (), mTx1), s1))"

text \<open>Storing a claim, at the time of the clock.\<close>

definition update_claim :: "'n l2_node \<Rightarrow> MonitoredTx \<Rightarrow> dbTx \<Rightarrow> ('n, 'k) monitor \<Rightarrow> unit result \<times> ('n, 'k) monitor" where
  "update_claim N mTx tx s =
     (case on_node (Time_Now N) s of (now, s1) \<Rightarrow> on_pg (UpdateClaimTx now mTx tx) s1)"

definition checkIfClaimed :: "'n l2_node \<Rightarrow> MonitoredTx \<Rightarrow> dbTx \<Rightarrow> ('n, 'k) monitor \<Rightarrow> unit result \<times> ('n, 'k) monitor" where
  "checkIfClaimed N mTx tx s =
     andthen (on_pg (GetDepositByDepositID (mtx_DepositID mTx) tx) s) (\<lambda>deposit s1.
     andthen (on_node (node_IsClaimed N (dep_DepositCount deposit) (dep_NetworkID deposit)) s1) (\<lambda>isClaimed s2.
       if isClaimed then update_claim N (mTx\<lparr>mtx_Status := MonitoredTxStatusConfirmed\<rparr>) tx s2
       else update_claim N (mTx\<lparr>mtx_Status := MonitoredTxStatusFailed\<rparr>) tx s2))"

definition commitOrRollback :: "dbTx \<Rightarrow> pg \<Rightarrow> unit result \<times> pg" where
  "commitOrRollback tx st =
     (case Commit tx st of
        (Inr u, st1) \<Rightarrow> (Inr u, st1)
      | (Inl e, st1) \<Rightarrow>
          (case Rollback tx st1 of
             (Inl rollbackErr, st2) \<Rightarrow> (Inl rollbackErr, st2)
           | (Inr _, st2) \<Rightarrow> (Inl e, st2)))"

subsection \<open>Monitoring\<close>

definition mtx_Tx :: "MonitoredTx \<Rightarrow> LegacyTx" where
  "mtx_Tx mTx =
     \<lparr>ltx_To = mtx_To mTx, ltx_Nonce = mtx_Nonce mTx, ltx_Value = mtx_Value mTx, ltx_Data = mtx_Data mTx,
      ltx_Gas = mtx_Gas mTx, ltx_GasPrice = mtx_GasPrice mTx\<rparr>"

text \<open>A review that failed: a reverted claim may have been claimed by someone else.\<close>

definition review_failed :: "'n l2_node \<Rightarrow> error \<Rightarrow> MonitoredTx \<Rightarrow> dbTx \<Rightarrow> ('n, 'k) monitor \<Rightarrow> unit result \<times> ('n, 'k) monitor" where
  "review_failed N e mTx tx s =
     on_pg (commitOrRollback tx) (if isExecutionReverted e then snd (checkIfClaimed N mTx tx s) else s)"

text \<open>The transaction could not be sent: the hash leaves the history, and the claim is reviewed.\<close>

definition send_failed :: "'n l2_node \<Rightarrow> 'k nonce_lru \<Rightarrow> eth_text \<Rightarrow> int \<Rightarrow> error \<Rightarrow> h256 \<Rightarrow> MonitoredTx \<Rightarrow> ('n, 'k) monitor
    \<Rightarrow> (unit result \<times> MonitoredTx) \<times> ('n, 'k) monitor" where
  "send_failed N C E retryNumber e txHash mTx s =
     (let s1 = (if isNonceError e then nonce_cache_Remove C (AddressHex E (mtx_From mTx)) s else s) in
      ReviewMonitoredTx N C E retryNumber (RemoveHistory mTx txHash) (isNonceError e) s1)"

definition store_sent :: "'n l2_node \<Rightarrow> MonitoredTx \<Rightarrow> dbTx \<Rightarrow> ('n, 'k) monitor \<Rightarrow> unit result \<times> ('n, 'k) monitor" where
  "store_sent N mTx tx s = (case update_claim N mTx tx s of (_, s1) \<Rightarrow> on_pg (commitOrRollback tx) s1)"

definition send_claim_tx :: "'n l2_node \<Rightarrow> 'k nonce_lru \<Rightarrow> eth_text \<Rightarrow> signer \<Rightarrow> int \<Rightarrow> MonitoredTx \<Rightarrow> dbTx \<Rightarrow> ('n, 'k) monitor
    \<Rightarrow> unit result \<times> ('n, 'k) monitor" where
  "send_claim_tx N C E G retryNumber mTx tx s =
     (case on_node (SuggestGasPrice N) s of
        (Inl e, s1) \<Rightarrow> on_pg (commitOrRollback tx) s1
      | (Inr gasPrice, s1) \<Rightarrow>
          let mTx1 = mTx\<lparr>mtx_GasPrice := Some (gasPrice * 10)\<rparr> in
          (case Signer G (mtx_From mTx1) (mtx_Tx mTx1) of
             Inl e \<Rightarrow> on_pg (commitOrRollback tx) s1
           | Inr _ \<Rightarrow>
               let txHash = SignedHash G (mtx_From mTx1) (mtx_Tx mTx1);
                   mTx2 = (case AddHistory mTx1 txHash of None \<Rightarrow> mTx1 | Some m \<Rightarrow> m) in
               (case on_node (TransactionByHash N txHash) s1 of
                  (Inl e, s2) \<Rightarrow>
                    if e = ethNotFound then
                      (case on_node (SendTransaction N (mtx_From mTx2) (mtx_Tx mTx2)) s2 of
                         (Inr _, s3) \<Rightarrow> store_sent N mTx2 tx s3
                       | (Inl sendErr, s3) \<Rightarrow>
                           (case send_failed N C E retryNumber sendErr txHash mTx2 s3 of
                              ((Inl reviewErr, mTx3), s4) \<Rightarrow> review_failed N reviewErr mTx3 tx s4
                            | ((Inr _, mTx3), s4) \<Rightarrow> store_sent N mTx3 tx s4))
                    else store_sent N mTx2 tx s2
                | (Inr _, s2) \<Rightarrow> store_sent N mTx2 tx s2)))"

definition monitor_tx :: "'n l2_node \<Rightarrow> 'k nonce_lru \<Rightarrow> eth_text \<Rightarrow> signer \<Rightarrow> int \<Rightarrow> MonitoredTx \<Rightarrow> ('n, 'k) monitor
    \<Rightarrow> unit result \<times> ('n, 'k) monitor" where
  "monitor_tx N C E G retryNumber mTx s =
     andthen (on_pg BeginDBTransaction s) (\<lambda>tx s1.
       case on_node (checkTxHistory N retryNumber mTx) s1 of
         ((hasFailedReceipts, allHistoryTxMined, receiptSuccessful), s2) \<Rightarrow>
           if receiptSuccessful then store_sent N (mTx\<lparr>mtx_Status := MonitoredTxStatusConfirmed\<rparr>) tx s2
           else if allHistoryTxMined \<and> maxHistorySize \<le> length (mtx_History mTx) then
             store_sent N (mTx\<lparr>mtx_Status := MonitoredTxStatusFailed\<rparr>) tx s2
           else if allHistoryTxMined then
             if hasFailedReceipts then
               (case ReviewMonitoredTx N C E retryNumber mTx True s2 of
                  ((Inl e, mTx1), s3) \<Rightarrow> review_failed N e mTx1 tx s3
                | ((Inr _, mTx1), s3) \<Rightarrow> send_claim_tx N C E G retryNumber mTx1 tx s3)
             else send_claim_tx N C E G retryNumber mTx tx s2
           else on_pg (commitOrRollback tx) s2)"

fun monitor_loop :: "'n l2_node \<Rightarrow> 'k nonce_lru \<Rightarrow> eth_text \<Rightarrow> signer \<Rightarrow> int \<Rightarrow> MonitoredTx list \<Rightarrow> ('n, 'k) monitor
    \<Rightarrow> unit result \<times> ('n, 'k) monitor" where
  "monitor_loop N C E G retryNumber [] s = (Inr (), s)"
| "monitor_loop N C E G retryNumber (mTx # mTxs) s =
     andthen (monitor_tx N C E G retryNumber mTx s) (\<lambda>_ s1. monitor_loop N C E G retryNumber mTxs s1)"

definition MonitorTxs :: "'n l2_node \<Rightarrow> 'k nonce_lru \<Rightarrow> eth_text \<Rightarrow> signer \<Rightarrow> int \<Rightarrow> u32 \<Rightarrow> ('n, 'k) monitor
    \<Rightarrow> unit result \<times> ('n, 'k) monitor" where
  "MonitorTxs N C E G retryNumber rollupID s =
     andthen (on_pg BeginDBTransaction s) (\<lambda>tx s1.
       case on_pg (GetClaimTxsByStatus [MonitoredTxStatusCreated] rollupID tx) s1 of
         (Inl e, s2) \<Rightarrow>
           (case on_pg (Rollback tx) s2 of
              (Inl rollbackErr, s3) \<Rightarrow> (Inl rollbackErr, s3)
            | (Inr _, s3) \<Rightarrow> (Inl (ErrMsg ''failed to get created monitored txs''), s3))
       | (Inr mTxs, s2) \<Rightarrow>
           andthen (on_pg (commitOrRollback tx) s2) (\<lambda>_ s3. monitor_loop N C E G retryNumber mTxs s3))"

section \<open>What a pass keeps of the database\<close>

lemma on_node_pg: "on_node f s = (x, s') \<Longrightarrow> mon_pg s' = mon_pg s"
  by (auto simp: on_node_def split: prod.splits)

lemma on_pgE:
  assumes "on_pg f s = (x, s')"
  shows "f (mon_pg s) = (x, mon_pg s')"
  using assms by (auto simp: on_pg_def split: prod.splits)

lemma GetNextNonce_pg: "GetNextNonce N C E a s = (x, s') \<Longrightarrow> mon_pg s' = mon_pg s"
  by (auto simp: GetNextNonce_def andthen_def Let_def dest: on_node_pg split: prod.splits sum.splits)

lemma nonce_cache_Remove_pg [simp]: "mon_pg (nonce_cache_Remove C a s) = mon_pg s"
  by (simp add: nonce_cache_Remove_def)

text \<open>A review changes the gas and the nonce only.\<close>

definition same_claim :: "MonitoredTx \<Rightarrow> MonitoredTx \<Rightarrow> bool" where
  "same_claim m m' \<longleftrightarrow> mtx_DepositID m' = mtx_DepositID m \<and> mtx_Status m' = mtx_Status m"

lemma ReviewMonitoredTx_keeps:
  assumes "ReviewMonitoredTx N C E k m b s = ((x, m'), s')"
  shows "mon_pg s' = mon_pg s \<and> same_claim m m'"
proof -
  obtain r s1 where est: "on_node (estimate_gas N isExecutionReverted k
      \<lparr>msg_From = mtx_From m, msg_To = mtx_To m, msg_Value = mtx_Value m, msg_Data = mtx_Data m\<rparr>) s = (r, s1)" by fastforce
  show ?thesis
  proof (cases r)
    case (Inl e)
    thus ?thesis using assms est on_node_pg [OF est] by (auto simp: ReviewMonitoredTx_def same_claim_def)
  next
    case (Inr gas)
    define m1 where "m1 = (if mtx_Gas m < gas then m\<lparr>mtx_Gas := gas\<rparr> else m)"
    obtain q s2 where q: "GetNextNonce N C E (mtx_From m1) s1 = (q, s2)" by fastforce
    have pgs: "mon_pg s1 = mon_pg s" "mon_pg s2 = mon_pg s" using on_node_pg [OF est] GetNextNonce_pg [OF q] by simp_all
    have m1: "same_claim m m1" by (simp add: m1_def same_claim_def)
    show ?thesis
      using assms est Inr q pgs m1
      by (cases q; cases b) (auto simp: ReviewMonitoredTx_def Let_def same_claim_def simp flip: m1_def split: if_splits)
  qed
qed

lemma send_failed_keeps:
  assumes "send_failed N C E k e h m s = ((x, m'), s')"
  shows "mon_pg s' = mon_pg s \<and> same_claim m m'"
  using ReviewMonitoredTx_keeps [OF assms [unfolded send_failed_def Let_def]]
  by (auto simp: same_claim_def RemoveHistory_def split: if_splits)

text \<open>A successful receipt was answered for a hash of the history.\<close>

definition mined :: "'n l2_node \<Rightarrow> MonitoredTx \<Rightarrow> bool" where
  "mined N m \<longleftrightarrow> (\<exists>h\<in>set (mtx_History m). \<exists>n n' logs. TransactionReceipt N h n = (Inr (True, logs), n'))"

lemma CheckTxWasMined_Some: "CheckTxWasMined N h n = (Inr (Some r), n') \<Longrightarrow> TransactionReceipt N h n = (Inr r, n')"
  by (auto simp: CheckTxWasMined_def split: prod.splits sum.splits if_splits)

lemma history_loop_mined:
  assumes "history_loop N k hs b c n = ((f, a, True), n')"
  shows "\<exists>h\<in>set hs. \<exists>n n' logs. TransactionReceipt N h n = (Inr (True, logs), n')"
  using assms
proof (induction N k hs b c n rule: history_loop.induct)
  case (2 N k h hs b c n)
  obtain r n1 where r: "CheckTxWasMined N h n = (r, n1)" by fastforce
  obtain q n2 where q: "find_in_pool N k h n1 = (q, n2)" by fastforce
  consider (err) e where "r = Inl e" | (none) "r = Inr None" | (some) ok logs where "r = Inr (Some (ok, logs))"
    by (metis option.exhaust sum.exhaust surj_pair)
  thus ?case
  proof cases
    case err
    thus ?thesis using 2 r by auto
  next
    case none
    thus ?thesis using 2 r q by (cases q) (auto split: if_splits)
  next
    case some
    thus ?thesis using 2 r CheckTxWasMined_Some [of N h n "(ok, logs)" n1] by (cases ok) auto
  qed
qed simp

lemma checkTxHistory_mined: "checkTxHistory N k m n = ((f, a, True), n') \<Longrightarrow> mined N m"
  unfolding checkTxHistory_def mined_def by (rule history_loop_mined)

lemma GetDepositByDepositID_InrD:
  assumes "GetDepositByDepositID i tx st = (Inr p, st')"
  shows "\<exists>d r. raw_view tx st = Some d \<and> r \<in> set (t_deposit d) \<and> dep_Id r = i \<and>
    dep_DepositCount p = dep_DepositCount r \<and> dep_NetworkID p = dep_NetworkID r"
proof -
  obtain d where d: "raw_view tx st = Some d"
    "(case concat (map (join_block d) (filter (\<lambda>r. dep_Id r = i) (t_deposit d))) of [] \<Rightarrow> Inl ErrNoRows | p # _ \<Rightarrow> Inr p) = Inr p"
    using pg_query_InrD [OF assms [unfolded GetDepositByDepositID_def]] by blast
  then obtain ps where "concat (map (join_block d) (filter (\<lambda>r. dep_Id r = i) (t_deposit d))) = p # ps"
    by (auto split: list.splits)
  hence "p \<in> set (concat (map (join_block d) (filter (\<lambda>r. dep_Id r = i) (t_deposit d))))" by (simp only: list.set_intros)
  then obtain r where r: "r \<in> set (t_deposit d)" "dep_Id r = i" "p \<in> set (join_block d r)" by auto
  hence "dep_DepositCount p = dep_DepositCount r \<and> dep_NetworkID p = dep_NetworkID r"
    by (auto simp: join_block_def Deposit.defs)
  thus ?thesis using d(1) r by blast
qed

lemma commitOrRollback_all:
  assumes "pg_all P st" and "\<And>v d. P d \<Longrightarrow> P (keep_seqs v d)" and "commitOrRollback tx st = (x, st')"
  shows "pg_all P st'"
proof -
  obtain y st1 where c: "Commit tx st = (y, st1)" by fastforce
  obtain z st2 where r: "Rollback tx st1 = (z, st2)" by fastforce
  have 1: "pg_all P st1" using assms(1,2) c by (rule pg_all_Commit)
  have 2: "pg_all P st2" using 1 assms(2) r by (rule pg_all_Rollback)
  show ?thesis using assms(3) c r 1 2 by (cases y; cases z) (auto simp: commitOrRollback_def)
qed

lemma GetClaimTxsByStatus_InrD:
  assumes "GetClaimTxsByStatus sts r tx st = (Inr ms, st')"
  shows "\<exists>d. raw_view tx st = Some d \<and> (\<forall>m\<in>set ms. m \<in> set (t_monitored_txs d) \<and> mtx_Status m \<in> set sts)"
proof -
  obtain d where "raw_view tx st = Some d" "ms = sort_key mtx_CreatedAt (concat (map (\<lambda>m.
        map (\<lambda>p. m) (filter (\<lambda>p. dep_Id p = mtx_DepositID m \<and> dep_DestinationNetwork p = r) (t_deposit d)))
        (filter (\<lambda>m. mtx_Status m \<in> set sts) (t_monitored_txs d))))"
    using pg_query_InrD [OF assms [unfolded GetClaimTxsByStatus_def]] by auto
  thus ?thesis by (intro exI [of _ d]) auto
qed

lemma Begin_view: "BeginDBTransaction st = (Inr tx, st') \<Longrightarrow> raw_view tx st' = Some (pg_committed st)"
  by (auto simp: BeginDBTransaction_def raw_view_def pg_call_def split: list.splits bool.splits)

text \<open>A property of databases that storing a claim keeps, when its deposit may have its status; \<open>may\<close> allows the
  status of a claim that is confirmed only with evidence.\<close>

locale claim_store =
  fixes P :: "db \<Rightarrow> bool" and may :: "u64 \<Rightarrow> MonitoredTxStatus \<Rightarrow> bool" and claimed :: "u32 \<Rightarrow> u32 \<Rightarrow> bool"
  assumes keeps_seqs: "P d \<Longrightarrow> P (keep_seqs v d)"
    and keeps_update: "pg_all P st \<Longrightarrow> may (mtx_DepositID m) (mtx_Status m) \<Longrightarrow> UpdateClaimTx now m tx st = (x, st') \<Longrightarrow> pg_all P st'"
    and may_fail: "may i MonitoredTxStatusFailed" and may_wait: "may i MonitoredTxStatusCreated"
    and may_claimed: "P d \<Longrightarrow> r \<in> set (t_deposit d) \<Longrightarrow> claimed (dep_DepositCount r) (dep_NetworkID r) \<Longrightarrow>
      may (dep_Id r) MonitoredTxStatusConfirmed"
begin

lemma transaction_end: "pg_all P st \<Longrightarrow> commitOrRollback tx st = (x, st') \<Longrightarrow> pg_all P st'"
  by (erule commitOrRollback_all, erule keeps_seqs, assumption)

lemma store_keeps:
  assumes "pg_all P (mon_pg s)" and "may (mtx_DepositID m) (mtx_Status m)"
  shows "update_claim N m tx s = (x, s') \<Longrightarrow> pg_all P (mon_pg s')" and "store_sent N m tx s = (y, s'') \<Longrightarrow> pg_all P (mon_pg s'')"
proof -
  have upd: "pg_all P (mon_pg s')" if run: "update_claim N m tx s = (x, s')" for x s'
  proof -
    obtain now s1 where now: "on_node (Time_Now N) s = (now, s1)" by fastforce
    have "UpdateClaimTx now m tx (mon_pg s) = (x, mon_pg s')"
      using run now on_pgE [of "UpdateClaimTx now m tx" s1 x s'] on_node_pg [OF now] by (simp add: update_claim_def)
    thus ?thesis using keeps_update [OF assms] by blast
  qed
  show "update_claim N m tx s = (x, s') \<Longrightarrow> pg_all P (mon_pg s')" by (rule upd)
  show "pg_all P (mon_pg s'')" if run: "store_sent N m tx s = (y, s'')"
  proof -
    obtain z s1 where z: "update_claim N m tx s = (z, s1)" by fastforce
    have "commitOrRollback tx (mon_pg s1) = (y, mon_pg s'')" using run z on_pgE by (simp add: store_sent_def)
    thus ?thesis by (rule transaction_end [OF upd [OF z]])
  qed
qed

lemma end_keeps: "pg_all P (mon_pg s) \<Longrightarrow> on_pg (commitOrRollback tx) s = (x, s') \<Longrightarrow> pg_all P (mon_pg s')"
  by (drule on_pgE) (erule (1) transaction_end)

lemma checkIfClaimed_keeps:
  assumes "pg_all P (mon_pg s)" and "\<And>c i n n'. node_IsClaimed N c i n = (Inr True, n') \<Longrightarrow> claimed c i"
    and "checkIfClaimed N m tx s = (x, s')"
  shows "pg_all P (mon_pg s')"
proof -
  obtain a s1 where 1: "on_pg (GetDepositByDepositID (mtx_DepositID m) tx) s = (a, s1)" by fastforce
  have q: "GetDepositByDepositID (mtx_DepositID m) tx (mon_pg s) = (a, mon_pg s1)" using 1 by (rule on_pgE)
  have ok1: "pg_all P (mon_pg s1)" using assms(1) q [unfolded GetDepositByDepositID_def] by (rule pg_all_query)
  show ?thesis
  proof (cases a)
    case (Inr dep)
    obtain d r where d: "raw_view tx (mon_pg s) = Some d" "r \<in> set (t_deposit d)" "dep_Id r = mtx_DepositID m"
      "dep_DepositCount dep = dep_DepositCount r" "dep_NetworkID dep = dep_NetworkID r"
      using GetDepositByDepositID_InrD [OF q [unfolded Inr]] by blast
    obtain b s2 where 2: "on_node (node_IsClaimed N (dep_DepositCount dep) (dep_NetworkID dep)) s1 = (b, s2)" by fastforce
    have ok2: "pg_all P (mon_pg s2)" using ok1 on_node_pg [OF 2] by simp
    have conf: "may (mtx_DepositID m) MonitoredTxStatusConfirmed" if "b = Inr True"
    proof -
      have "claimed (dep_DepositCount r) (dep_NetworkID r)"
        using assms(2) 2 that d(4,5) by (auto simp: on_node_def split: prod.splits)
      thus ?thesis using may_claimed [of d r] d assms(1) by (auto simp: pg_all_def)
    qed
    have conf': "update_claim N (m\<lparr>mtx_Status := MonitoredTxStatusConfirmed\<rparr>) tx s2 = (x, s') \<Longrightarrow> b = Inr True \<Longrightarrow> pg_all P (mon_pg s')"
      by (rule store_keeps(1) [OF ok2]) (simp_all add: conf)
    have fail': "update_claim N (m\<lparr>mtx_Status := MonitoredTxStatusFailed\<rparr>) tx s2 = (x, s') \<Longrightarrow> pg_all P (mon_pg s')"
      by (rule store_keeps(1) [OF ok2]) (simp_all add: may_fail)
    show ?thesis using assms(3) 1 2 Inr ok2 conf' fail'
      by (cases b) (auto simp: checkIfClaimed_def andthen_def split: if_splits)
  qed (use assms(3) 1 ok1 in \<open>auto simp: checkIfClaimed_def andthen_def\<close>)
qed

lemma review_failed_keeps:
  assumes "pg_all P (mon_pg s)" and "\<And>c i n n'. node_IsClaimed N c i n = (Inr True, n') \<Longrightarrow> claimed c i"
    and "review_failed N e m tx s = (x, s')"
  shows "pg_all P (mon_pg s')"
proof -
  obtain y s1 where 1: "checkIfClaimed N m tx s = (y, s1)" by fastforce
  have "pg_all P (mon_pg s1)" using assms(1,2) 1 by (rule checkIfClaimed_keeps)
  thus ?thesis using assms(1,3) 1 end_keeps by (simp add: review_failed_def split: if_splits)
qed

lemma send_claim_tx_keeps:
  assumes "pg_all P (mon_pg s)" and claim: "\<And>c i n n'. node_IsClaimed N c i n = (Inr True, n') \<Longrightarrow> claimed c i"
    and created: "mtx_Status m = MonitoredTxStatusCreated" and run: "send_claim_tx N C E G k m tx s = (x, s')"
  shows "pg_all P (mon_pg s')"
proof -
  have store: "pg_all P (mon_pg s'')" if "same_claim m m'" "mon_pg s1 = mon_pg s" "store_sent N m' tx s1 = (y, s'')" for m' s1 y s''
    by (rule store_keeps(2) [OF _ _ that(3)]) (use assms(1) that created may_wait in \<open>simp_all add: same_claim_def\<close>)
  have quit: "pg_all P (mon_pg s'')" if "mon_pg s1 = mon_pg s" "on_pg (commitOrRollback tx) s1 = (y, s'')" for s1 y s''
    using end_keeps [OF _ that(2)] assms(1) that(1) by simp
  obtain p s1 where 1: "on_node (SuggestGasPrice N) s = (p, s1)" by fastforce
  have pg1: "mon_pg s1 = mon_pg s" by (rule on_node_pg [OF 1])
  show ?thesis
  proof (cases p)
    case (Inr price)
    define m1 where "m1 = m\<lparr>mtx_GasPrice := Some (price * 10)\<rparr>"
    define h where "h = SignedHash G (mtx_From m1) (mtx_Tx m1)"
    define m2 where "m2 = (case AddHistory m1 h of None \<Rightarrow> m1 | Some m \<Rightarrow> m)"
    have m2: "same_claim m m2" by (auto simp: m2_def m1_def AddHistory_def same_claim_def)
    note defs = send_claim_tx_def Let_def m1_def [symmetric] h_def [symmetric] m2_def [symmetric]
    show ?thesis
    proof (cases "Signer G (mtx_From m1) (mtx_Tx m1)")
      case (Inl e)
      thus ?thesis using run 1 Inr quit [OF pg1] by (simp add: defs)
    next
      case (Inr u)
      note sig = this
      obtain q s2 where 2: "on_node (TransactionByHash N h) s1 = (q, s2)" by fastforce
      have pg2: "mon_pg s2 = mon_pg s" using pg1 on_node_pg [OF 2] by simp
      show ?thesis
      proof (cases "q = Inl ethNotFound")
        case False
        thus ?thesis using run 1 \<open>p = Inr price\<close> sig 2 store [OF m2 pg2] by (cases q) (simp_all add: defs)
      next
        case True
        obtain r s3 where 3: "on_node (SendTransaction N (mtx_From m2) (mtx_Tx m2)) s2 = (r, s3)" by fastforce
        have pg3: "mon_pg s3 = mon_pg s" using pg2 on_node_pg [OF 3] by simp
        show ?thesis
        proof (cases r)
          case (Inr v)
          thus ?thesis using run 1 \<open>p = Inr price\<close> sig 2 True 3 store [OF m2 pg3] by (simp add: defs)
        next
          case (Inl sendErr)
          obtain y m3 s4 where 4: "send_failed N C E k sendErr h m2 s3 = ((y, m3), s4)" by (metis prod.collapse)
          have k4: "mon_pg s4 = mon_pg s" "same_claim m m3"
            using send_failed_keeps [OF 4] pg3 m2 by (simp_all add: same_claim_def)
          have review: "pg_all P (mon_pg s')" if "review_failed N e m3 tx s4 = (x, s')" for e
            by (rule review_failed_keeps [OF _ claim that]) (use assms(1) k4 in simp_all)
          show ?thesis using run 1 \<open>p = Inr price\<close> sig 2 True 3 Inl 4 store [OF k4(2,1)] review
            by (cases y) (simp_all add: defs)
        qed
      qed
    qed
  qed (use run 1 quit [OF pg1] in \<open>simp add: send_claim_tx_def\<close>)
qed

lemma monitor_tx_keeps:
  assumes "pg_all P (mon_pg s)" and claim: "\<And>c i n n'. node_IsClaimed N c i n = (Inr True, n') \<Longrightarrow> claimed c i"
    and created: "mtx_Status m = MonitoredTxStatusCreated" and conf: "mined N m \<Longrightarrow> may (mtx_DepositID m) MonitoredTxStatusConfirmed"
    and run: "monitor_tx N C E G k m s = (x, s')"
  shows "pg_all P (mon_pg s')"
proof -
  obtain a s1 where 1: "on_pg BeginDBTransaction s = (a, s1)" by fastforce
  have ok1: "pg_all P (mon_pg s1)" using assms(1) on_pgE [OF 1] by (rule pg_all_Begin)
  show ?thesis
  proof (cases a)
    case (Inr tx)
    obtain f al su s2 where 2: "on_node (checkTxHistory N k m) s1 = ((f, al, su), s2)" by (metis surj_pair)
    have ok2: "pg_all P (mon_pg s2)" using ok1 on_node_pg [OF 2] by simp
    have "mined N m" if su
      using 2 that checkTxHistory_mined by (fastforce simp: on_node_def split: prod.splits)
    hence c: "pg_all P (mon_pg s')" if "store_sent N (m\<lparr>mtx_Status := MonitoredTxStatusConfirmed\<rparr>) tx s2 = (x, s')" su
      by (intro store_keeps(2) [OF ok2 _ that(1)]) (use conf that in simp)
    have fl: "pg_all P (mon_pg s')" if "store_sent N (m\<lparr>mtx_Status := MonitoredTxStatusFailed\<rparr>) tx s2 = (x, s')"
      by (rule store_keeps(2) [OF ok2 _ that]) (simp add: may_fail)
    obtain y m1 s3 where 3: "ReviewMonitoredTx N C E k m True s2 = ((y, m1), s3)" by (metis prod.collapse)
    have k3: "pg_all P (mon_pg s3)" "mtx_Status m1 = MonitoredTxStatusCreated"
      using ReviewMonitoredTx_keeps [OF 3] ok2 created by (simp_all add: same_claim_def)
    note rest = send_claim_tx_keeps [OF ok2 claim created] send_claim_tx_keeps [OF k3(1) claim k3(2)]
      review_failed_keeps [OF k3(1) claim] end_keeps [OF ok2]
    show ?thesis using run 1 Inr 2 3 c fl rest
      by (cases y) (simp_all add: monitor_tx_def andthen_def split: if_splits)
  qed (use run 1 ok1 in \<open>simp add: monitor_tx_def andthen_def\<close>)
qed

lemma monitor_loop_keeps:
  assumes "pg_all P (mon_pg s)" and claim: "\<And>c i n n'. node_IsClaimed N c i n = (Inr True, n') \<Longrightarrow> claimed c i"
    and "\<forall>m\<in>set ms. mtx_Status m = MonitoredTxStatusCreated \<and> (mined N m \<longrightarrow> may (mtx_DepositID m) MonitoredTxStatusConfirmed)"
    and "monitor_loop N C E G k ms s = (x, s')"
  shows "pg_all P (mon_pg s')"
  using assms(1,3,4)
proof (induction ms arbitrary: s)
  case (Cons m ms)
  obtain y s1 where 1: "monitor_tx N C E G k m s = (y, s1)" by fastforce
  have "pg_all P (mon_pg s1)"
    by (rule monitor_tx_keeps [OF Cons.prems(1) claim _ _ 1]) (use Cons.prems(2) in simp_all)
  thus ?case using Cons 1 by (cases y) (auto simp: andthen_def)
qed simp

lemma MonitorTxs_keeps:
  assumes "pg_all P (mon_pg s)" and claim: "\<And>c i n n'. node_IsClaimed N c i n = (Inr True, n') \<Longrightarrow> claimed c i"
    and conf: "\<And>m. m \<in> set (t_monitored_txs (pg_committed (mon_pg s))) \<Longrightarrow> mtx_Status m = MonitoredTxStatusCreated \<Longrightarrow>
      mined N m \<Longrightarrow> may (mtx_DepositID m) MonitoredTxStatusConfirmed"
    and run: "MonitorTxs N C E G k r s = (x, s')"
  shows "pg_all P (mon_pg s')"
proof -
  obtain a s1 where 1: "on_pg BeginDBTransaction s = (a, s1)" by fastforce
  have ok1: "pg_all P (mon_pg s1)" using assms(1) on_pgE [OF 1] by (rule pg_all_Begin)
  show ?thesis
  proof (cases a)
    case (Inr tx)
    obtain b s2 where 2: "on_pg (GetClaimTxsByStatus [MonitoredTxStatusCreated] r tx) s1 = (b, s2)" by fastforce
    note q = on_pgE [OF 2, unfolded GetClaimTxsByStatus_def]
    have ok2: "pg_all P (mon_pg s2)" using ok1 q by (rule pg_all_query)
    obtain c s3 where 3: "on_pg (Rollback tx) s2 = (c, s3)" by fastforce
    have ok3: "pg_all P (mon_pg s3)" by (rule pg_all_Rollback [OF ok2 keeps_seqs on_pgE [OF 3]])
    obtain e s4 where 4: "on_pg (commitOrRollback tx) s2 = (e, s4)" by fastforce
    have ok4: "pg_all P (mon_pg s4)" using ok2 4 by (rule end_keeps)
    show ?thesis
    proof (cases b)
      case (Inl err)
      thus ?thesis using run 1 \<open>a = Inr tx\<close> 2 3 ok3 by (cases c) (auto simp: MonitorTxs_def andthen_def)
    next
      case (Inr ms)
      have "\<forall>m\<in>set ms. m \<in> set (t_monitored_txs (pg_committed (mon_pg s))) \<and> mtx_Status m = MonitoredTxStatusCreated"
        using GetClaimTxsByStatus_InrD [OF on_pgE [OF 2 [unfolded Inr]]] Begin_view [OF on_pgE [OF 1 [unfolded \<open>a = Inr tx\<close>]]] by auto
      hence ms: "\<forall>m\<in>set ms. mtx_Status m = MonitoredTxStatusCreated \<and> (mined N m \<longrightarrow> may (mtx_DepositID m) MonitoredTxStatusConfirmed)"
        using conf by blast
      show ?thesis using run 1 \<open>a = Inr tx\<close> 2 Inr 4 ok4 monitor_loop_keeps [OF ok4 claim ms]
        by (cases e) (auto simp: MonitorTxs_def andthen_def)
    qed
  qed (use run 1 ok1 in \<open>auto simp: MonitorTxs_def andthen_def\<close>)
qed

end

text \<open>The integrity of the database and the invariant of the groups, for every status.\<close>

lemma pg_all_db_ok: "pg_all db_ok = pg_ok"
  by (simp add: fun_eq_iff pg_all_def pg_ok_def)

interpretation integrity: claim_store db_ok "\<lambda>_ _. True" "\<lambda>_ _. True"
  by unfold_locales (auto simp: pg_all_db_ok intro: db_ok_keep_seqs pg_ok_claim_txs(2))

interpretation groups_kept: claim_store groups_ok "\<lambda>_ _. True" "\<lambda>_ _. True"
  by unfold_locales (auto intro: groups_ok_keep_seqs UpdateClaimTx_ok)

text \<open>The evidence a claim is confirmed with.\<close>

definition bridge_claimed :: "'n l2_node \<Rightarrow> u32 \<Rightarrow> u32 \<Rightarrow> bool" where
  "bridge_claimed N c net \<longleftrightarrow> (\<exists>n n'. node_IsClaimed N c net n = (Inr True, n'))"

definition confirmable :: "'n l2_node \<Rightarrow> db \<Rightarrow> u64 \<Rightarrow> bool" where
  "confirmable N d i \<longleftrightarrow>
     (\<exists>m\<in>set (t_monitored_txs d). mtx_DepositID m = i \<and> (mtx_Status m = MonitoredTxStatusConfirmed \<or> mined N m)) \<or>
     (\<exists>r\<in>set (t_deposit d). dep_Id r = i \<and> bridge_claimed N (dep_DepositCount r) (dep_NetworkID r))"

definition confirmed_ok :: "'n l2_node \<Rightarrow> db \<Rightarrow> db \<Rightarrow> bool" where
  "confirmed_ok N d0 d \<longleftrightarrow>
     t_deposit d = t_deposit d0 \<and>
     (\<forall>m\<in>set (t_monitored_txs d). mtx_Status m = MonitoredTxStatusConfirmed \<longrightarrow> confirmable N d0 (mtx_DepositID m))"

interpretation confirmed: claim_store "confirmed_ok N d0" "\<lambda>i st. st = MonitoredTxStatusConfirmed \<longrightarrow> confirmable N d0 i"
  "bridge_claimed N" for N d0
proof
  show "confirmed_ok N d0 (keep_seqs v d)" if "confirmed_ok N d0 d" for d v
    using that by (simp add: confirmed_ok_def keep_seqs_def)
  show "pg_all (confirmed_ok N d0) st'" if "pg_all (confirmed_ok N d0) st"
    "mtx_Status m = MonitoredTxStatusConfirmed \<longrightarrow> confirmable N d0 (mtx_DepositID m)" "UpdateClaimTx now m tx st = (x, st')"
    for st m now tx x st'
    by (rule pg_all_exec [OF that(1) that(3) [unfolded UpdateClaimTx_def]])
       (use that(2) in \<open>auto simp: confirmed_ok_def split: if_splits\<close>)
qed (auto simp: confirmed_ok_def confirmable_def)

section \<open>Nonces\<close>

text \<open>The nonces of a number of claims in a row.\<close>

fun next_nonces :: "'n l2_node \<Rightarrow> 'k nonce_lru \<Rightarrow> eth_text \<Rightarrow> address \<Rightarrow> nat \<Rightarrow> ('n, 'k) monitor
    \<Rightarrow> (u64 list) result \<times> ('n, 'k) monitor" where
  "next_nonces N C E from 0 s = (Inr [], s)"
| "next_nonces N C E from (Suc k) s =
     andthen (GetNextNonce N C E from s) (\<lambda>nonce s1.
     andthen (next_nonces N C E from k s1) (\<lambda>rest s2. (Inr (nonce # rest), s2)))"

text \<open>What is used of the cache: it returns what was added last for a key.\<close>

definition cache_law :: "'k nonce_lru \<Rightarrow> bool" where
  "cache_law C \<longleftrightarrow> (\<forall>a v c. fst (nonce_Get C a (nonce_Add C a v c)) = Some v)"

definition cached :: "'k nonce_lru \<Rightarrow> eth_text \<Rightarrow> address \<Rightarrow> u64 \<Rightarrow> ('n, 'k) monitor \<Rightarrow> bool" where
  "cached C E a v s \<longleftrightarrow> fst (nonce_Get C (AddressHex E a) (mon_nonces s)) = Some v"

lemma on_node_nonces: "on_node f s = (x, s') \<Longrightarrow> mon_nonces s' = mon_nonces s"
  by (auto simp: on_node_def split: prod.splits)

lemma GetNextNonce_cached:
  assumes "cache_law C" and "GetNextNonce N C E a s = (Inr v, s')"
  shows "cached C E a v s'" and "cached C E a w s \<Longrightarrow> w \<noteq> - 1 \<Longrightarrow> w < v"
proof -
  obtain n s1 where 1: "on_node (NonceAt N a) s = (Inr n, s1)"
    using assms(2) by (auto simp: GetNextNonce_def andthen_def split: prod.splits sum.splits)
  obtain f c where 2: "nonce_Get C (AddressHex E a) (mon_nonces s1) = (f, c)" by fastforce
  have v: "v = (case f of None \<Rightarrow> n | Some w \<Rightarrow> if n \<le> w then w + 1 else n)"
    "s' = s1\<lparr>mon_nonces := nonce_Add C (AddressHex E a) v c\<rparr>"
    using assms(2) 1 2 by (auto simp: GetNextNonce_def andthen_def Let_def)
  show "cached C E a v s'" using assms(1) v(2) by (simp add: cached_def cache_law_def)
  show "w < v" if "cached C E a w s" "w \<noteq> - 1"
  proof -
    have "f = Some w" using that(1) 2 on_node_nonces [OF 1] by (simp add: cached_def)
    moreover have "w < w + 1"
      using that(2) unatSuc [of w] by (simp add: word_less_nat_alt add.commute eq_neg_iff_add_eq_0)
    ultimately show ?thesis using v(1) by (simp split: if_splits)
  qed
qed

lemma next_nonces_sorted:
  assumes "cache_law C" and "next_nonces N C E a k s = (Inr vs, s')" and "- 1 \<notin> set vs"
  shows "sorted_wrt (<) vs \<and> (\<forall>w. cached C E a w s \<and> w \<noteq> - 1 \<longrightarrow> (\<forall>v\<in>set vs. w < v))"
  using assms(2,3)
proof (induction k arbitrary: s vs)
  case (Suc k)
  obtain v s1 where 1: "GetNextNonce N C E a s = (Inr v, s1)"
    using Suc.prems(1) by (auto simp: andthen_def split: prod.splits sum.splits)
  obtain ws where 2: "next_nonces N C E a k s1 = (Inr ws, s')" "vs = v # ws"
    using Suc.prems(1) 1 by (auto simp: andthen_def split: prod.splits sum.splits)
  note c = GetNextNonce_cached [OF assms(1) 1]
  have "sorted_wrt (<) ws" "\<forall>u\<in>set ws. v < u" using Suc.IH [OF 2(1)] Suc.prems(2) 2(2) c(1) by auto
  thus ?case using 2(2) c(2) by (auto intro: less_trans)
qed simp

section \<open>A transaction that is gone\<close>

definition gone :: "'n l2_node \<Rightarrow> h256 \<Rightarrow> bool" where
  "gone N h \<longleftrightarrow> (\<forall>n. fst (TransactionReceipt N h n) = Inl ethNotFound \<and> fst (TransactionByHash N h n) = Inl ethNotFound)"

lemma find_again_gone: "gone N h \<Longrightarrow> fst (find_again N h k (Inl ethNotFound) n) = Inl ethNotFound"
proof (induction k arbitrary: n)
  case (Suc k)
  have "fst (TransactionByHash N h n) = Inl ethNotFound" using Suc.prems by (simp add: gone_def)
  thus ?case using Suc by (simp add: case_prod_unfold)
qed simp

lemma find_in_pool_gone: "gone N h \<Longrightarrow> fst (find_in_pool N k h n) = Inl ethNotFound"
  using find_again_gone [of N h] by (simp add: find_in_pool_def case_prod_unfold gone_def)

lemma history_loop_gone:
  assumes "\<forall>h\<in>set hs. gone N h"
  shows "fst (history_loop N k hs b c n) = (b \<or> hs \<noteq> [], c \<and> hs = [], False)"
  using assms
proof (induction hs arbitrary: b c n)
  case (Cons h hs)
  have h: "gone N h" using Cons.prems by simp
  obtain n1 where 1: "CheckTxWasMined N h n = (Inr None, n1)"
    using h by (cases "TransactionReceipt N h n") (auto simp: CheckTxWasMined_def gone_def dest: spec [of _ n])
  obtain n2 where 2: "find_in_pool N k h n1 = (Inl ethNotFound, n2)"
    using find_in_pool_gone [OF h, of k n1] by (cases "find_in_pool N k h n1") simp
  show ?case using Cons 1 2 by simp
qed simp

lemma commitOrRollback_unchanged:
  assumes "pg_all (\<lambda>d. t_monitored_txs d = ms) st" and "commitOrRollback tx st = (x, st')"
  shows "pg_all (\<lambda>d. t_monitored_txs d = ms) st'"
  by (rule commitOrRollback_all [OF assms(1) _ assms(2)]) (simp add: keep_seqs_def)

lemma gone_monitor_tx:
  assumes "mtx_History m \<noteq> []" and "\<forall>h\<in>set (mtx_History m). gone N h"
  shows "monitor_tx N C E G k m s = andthen (on_pg BeginDBTransaction s) (\<lambda>tx s1.
    on_pg (commitOrRollback tx) (snd (on_node (checkTxHistory N k m) s1)))"
proof -
  have "\<exists>s2. on_node (checkTxHistory N k m) s1 = ((True, False, False), s2)" for s1 :: "('a, 'b) monitor"
    using history_loop_gone [OF assms(2), of k False True "mon_node s1"] assms(1)
    by (simp add: on_node_def checkTxHistory_def case_prod_unfold)
  hence "on_node (checkTxHistory N k m) s1 = ((True, False, False), snd (on_node (checkTxHistory N k m) s1))"
    for s1 :: "('a, 'b) monitor" by (metis snd_conv)
  note * = this
  show ?thesis
    by (cases "on_pg BeginDBTransaction s"; cases "fst (on_pg BeginDBTransaction s)")
       (simp_all add: monitor_tx_def andthen_def, subst *, simp)
qed

lemma Begin_rows:
  assumes "BeginDBTransaction st = (x, st')"
  shows "pg_committed st' = pg_committed st" and "x = Inr tx \<Longrightarrow> pg_all (\<lambda>d. d = pg_committed st) st'"
  using assms by (auto simp: BeginDBTransaction_def pg_all_alt pg_call_def split: list.splits bool.splits)

lemma gone_keeps_rows:
  assumes "mtx_History m \<noteq> []" and "\<forall>h\<in>set (mtx_History m). gone N h"
  shows "t_monitored_txs (pg_committed (mon_pg (snd (monitor_tx N C E G k m s)))) = t_monitored_txs (pg_committed (mon_pg s))"
proof -
  obtain a s1 where 1: "on_pg BeginDBTransaction s = (a, s1)" by fastforce
  note b = Begin_rows [OF on_pgE [OF 1]]
  show ?thesis
  proof (cases a)
    case (Inr tx)
    obtain r s2 where 2: "on_node (checkTxHistory N k m) s1 = (r, s2)" by fastforce
    obtain x s3 where 3: "on_pg (commitOrRollback tx) s2 = (x, s3)" by fastforce
    have "pg_all (\<lambda>d. t_monitored_txs d = t_monitored_txs (pg_committed (mon_pg s))) (mon_pg s2)"
      using b(2) [OF Inr] on_node_pg [OF 2] by (simp add: pg_all_def)
    from commitOrRollback_unchanged [OF this on_pgE [OF 3]]
    have "t_monitored_txs (pg_committed (mon_pg s3)) = t_monitored_txs (pg_committed (mon_pg s))" by (simp add: pg_all_alt)
    thus ?thesis using 1 2 3 Inr by (simp add: gone_monitor_tx [OF assms] andthen_def)
  qed (use 1 b(1) in \<open>simp add: gone_monitor_tx [OF assms] andthen_def\<close>)
qed

text \<open>Looking at the history sends nothing.\<close>

lemma find_again_no_send: "find_again (N\<lparr>SendTransaction := f\<rparr>) h k r n = find_again N h k r n"
  by (induction k arbitrary: r n) (simp_all add: case_prod_unfold split: sum.splits)

lemma history_loop_no_send: "history_loop (N\<lparr>SendTransaction := f\<rparr>) k hs b c n = history_loop N k hs b c n"
  by (induction hs arbitrary: b c n)
     (simp_all add: CheckTxWasMined_def find_in_pool_def find_again_no_send split: prod.splits sum.splits option.splits)

lemma gone_no_send: "gone (N\<lparr>SendTransaction := f\<rparr>) h = gone N h"
  by (simp add: gone_def)

section \<open>A sample\<close>

text \<open>A node that knows no transaction, and one where every claim was mined; a cache that keeps everything.\<close>

definition sample_l2 :: "bool \<Rightarrow> int l2_node" where
  "sample_l2 b = claim_node.extend
     (sample_node\<lparr>TransactionReceipt := (\<lambda>h n. (if b then Inr (True, 1) else Inl ethNotFound, n))\<rparr>)
     \<lparr>NonceAt = (\<lambda>a n. (Inr 5, n)), EstimateGas = (\<lambda>m n. (Inr 21000, n)), SuggestGasPrice = (\<lambda>n. (Inr 3, n)),
      TransactionByHash = (\<lambda>h n. (Inl ethNotFound, n)), SendTransaction = (\<lambda>a tx n. (Inr (), n)),
      node_IsClaimed = (\<lambda>c net n. (Inr False, n))\<rparr>"

definition sample_nonces :: "((string \<times> u64) list) nonce_lru" where
  "sample_nonces = \<lparr>nonce_Get = (\<lambda>a c. (map_of c a, c)), nonce_Add = (\<lambda>a v c. (a, v) # c),
     nonce_Remove = (\<lambda>a c. filter (\<lambda>p. fst p \<noteq> a) c)\<rparr>"

definition sample_signer :: signer where
  "sample_signer = \<lparr>Signer = (\<lambda>a tx. Inr ()), SignedHash = (\<lambda>a tx. ucast (ltx_Nonce tx))\<rparr>"

definition sample_monitor :: "(int, (string \<times> u64) list) monitor" where
  "sample_monitor = \<lparr>mon_pg = pg_init\<lparr>pg_committed := empty_db\<lparr>t_deposit := [new_deposit_row 1 sample_deposit],
     t_monitored_txs := [sample_mtx\<lparr>mtx_History := [8]\<rparr>]\<rparr>\<rparr>, mon_node = 100, mon_nonces = []\<rparr>"

lemmas sample_monitor_defs = sample_l2_def claim_node.defs sample_node_def sample_nonces_def sample_signer_def sample_monitor_def
  sample_text_def sample_mtx_def new_deposit_row_def sample_deposit_def Deposit.defs

lemmas monitor_run = MonitorTxs_def monitor_tx_def andthen_def on_pg_def on_node_def BeginDBTransaction_def GetClaimTxsByStatus_def
  commitOrRollback_def Commit_def checkTxHistory_def CheckTxWasMined_def store_sent_def update_claim_def UpdateClaimTx_def

section \<open>Properties\<close>

text \<open>C30. A claim is confirmed only with evidence: after a pass of the monitor, whatever fails in it, a claim marked confirmed in the
  database was confirmed before, or the node answered a successful receipt for a transaction of its history, or it answered that
  the bridge contract has the deposit of the claim as claimed.\<close>

theorem MonitorTxs_confirmed_with_evidence:
  assumes "pg_open (mon_pg s) = None" and "MonitorTxs N C E G k r s = (x, s')"
    and "m \<in> set (t_monitored_txs (pg_committed (mon_pg s')))" and "mtx_Status m = MonitoredTxStatusConfirmed"
  shows "(\<exists>m0\<in>set (t_monitored_txs (pg_committed (mon_pg s))). mtx_DepositID m0 = mtx_DepositID m \<and>
      (mtx_Status m0 = MonitoredTxStatusConfirmed \<or>
       (\<exists>h\<in>set (mtx_History m0). \<exists>n n' logs. TransactionReceipt N h n = (Inr (True, logs), n')))) \<or>
    (\<exists>dep\<in>set (t_deposit (pg_committed (mon_pg s))). dep_Id dep = mtx_DepositID m \<and>
      (\<exists>n n'. node_IsClaimed N (dep_DepositCount dep) (dep_NetworkID dep) n = (Inr True, n')))"
proof -
  let ?d = "pg_committed (mon_pg s)"
  have start: "pg_all (confirmed_ok N ?d) (mon_pg s)"
    using assms(1) by (auto simp: pg_all_alt confirmed_ok_def confirmable_def)
  have "pg_all (confirmed_ok N ?d) (mon_pg s')"
    by (rule confirmed.MonitorTxs_keeps [OF start _ _ assms(2)]) (auto simp: bridge_claimed_def confirmable_def)
  hence "confirmable N ?d (mtx_DepositID m)" using assms(3,4) by (auto simp: pg_all_alt confirmed_ok_def)
  thus ?thesis by (simp add: confirmable_def mined_def bridge_claimed_def)
qed

theorem MonitorTxs_confirmed_with_evidence_witness:
  "\<exists>s' m. MonitorTxs (sample_l2 True) sample_nonces sample_text sample_signer 1 1 sample_monitor = (Inr (), s') \<and>
     m \<in> set (t_monitored_txs (pg_committed (mon_pg s'))) \<and> mtx_Status m = MonitoredTxStatusConfirmed \<and>
     confirmable (sample_l2 True) (pg_committed (mon_pg sample_monitor)) (mtx_DepositID m)"
proof -
  have open0: "pg_open (mon_pg sample_monitor) = None" by (simp add: sample_monitor_def pg_init_def)
  have "\<exists>s'. MonitorTxs (sample_l2 True) sample_nonces sample_text sample_signer 1 1 sample_monitor = (Inr (), s') \<and>
     map mtx_Status (t_monitored_txs (pg_committed (mon_pg s'))) = [MonitoredTxStatusConfirmed]"
    by (simp add: monitor_run sample_monitor_defs pg_run)
  then obtain s' where s': "MonitorTxs (sample_l2 True) sample_nonces sample_text sample_signer 1 1 sample_monitor = (Inr (), s')"
    "map mtx_Status (t_monitored_txs (pg_committed (mon_pg s'))) = [MonitoredTxStatusConfirmed]" by (elim exE conjE)
  then obtain m where m: "m \<in> set (t_monitored_txs (pg_committed (mon_pg s')))" "mtx_Status m = MonitoredTxStatusConfirmed"
    by (auto simp: map_eq_Cons_conv)
  show ?thesis
    using s'(1) m MonitorTxs_confirmed_with_evidence [OF open0 s'(1) m]
    unfolding confirmable_def mined_def bridge_claimed_def by (intro exI conjI)
qed

text \<open>C31. Nonces are never reused: with a cache that returns what was added last, any number of claims of an account in a row get
  strictly increasing nonces, whatever the node answers, unless the largest 64 bit number is reached.\<close>

theorem GetNextNonce_increasing:
  assumes "cache_law C" and "next_nonces N C E a k s = (Inr vs, s')" and "- 1 \<notin> set vs"
  shows "sorted_wrt (<) vs"
  using next_nonces_sorted [OF assms] by blast

theorem GetNextNonce_increasing_witness:
  "\<exists>s'. next_nonces (sample_l2 True) sample_nonces sample_text 9 3 sample_monitor = (Inr [5, 6, 7], s') \<and>
     sorted_wrt (<) [5, 6, 7 :: u64]"
proof -
  have law: "cache_law sample_nonces" by (simp add: cache_law_def sample_nonces_def)
  have "\<exists>s'. next_nonces (sample_l2 True) sample_nonces sample_text 9 3 sample_monitor = (Inr [5, 6, 7], s')"
    by (simp add: numeral_3_eq_3 GetNextNonce_def andthen_def on_node_def Let_def sample_monitor_defs)
  then obtain s' where s': "next_nonces (sample_l2 True) sample_nonces sample_text 9 3 sample_monitor = (Inr [5, 6, 7], s')" by (elim exE)
  show ?thesis using s' GetNextNonce_increasing [OF law s'] by simp
qed

text \<open>C32. A claim whose transactions are gone is never sent again: when the node has no receipt for any transaction of the history and
  none of them in its pool, a pass over the claim changes no row and calls \<^verbatim>\<open>SendTransaction\<close> not once, so every later
  pass finds the claim in the same state.\<close>

theorem dropped_claim_not_resent:
  assumes "mtx_History m \<noteq> []" and "\<forall>h\<in>set (mtx_History m). gone N h"
  shows "t_monitored_txs (pg_committed (mon_pg (snd (monitor_tx N C E G k m s)))) = t_monitored_txs (pg_committed (mon_pg s)) \<and>
    (\<forall>f. monitor_tx (N\<lparr>SendTransaction := f\<rparr>) C E G k m s = monitor_tx N C E G k m s)"
proof (intro conjI allI)
  fix f
  have gone': "\<forall>h\<in>set (mtx_History m). gone (N\<lparr>SendTransaction := f\<rparr>) h" using assms(2) by (simp add: gone_no_send)
  show "monitor_tx (N\<lparr>SendTransaction := f\<rparr>) C E G k m s = monitor_tx N C E G k m s"
    unfolding gone_monitor_tx [OF assms(1) gone'] gone_monitor_tx [OF assms]
    by (simp add: on_node_def checkTxHistory_def history_loop_no_send)
qed (rule gone_keeps_rows [OF assms])

theorem dropped_claim_not_resent_witness:
  "\<exists>s'. monitor_tx (sample_l2 False) sample_nonces sample_text sample_signer 1 (sample_mtx\<lparr>mtx_History := [8]\<rparr>) sample_monitor = (Inr (), s') \<and>
     t_monitored_txs (pg_committed (mon_pg s')) = [sample_mtx\<lparr>mtx_History := [8]\<rparr>]"
proof -
  have gone: "\<forall>h\<in>set (mtx_History (sample_mtx\<lparr>mtx_History := [8]\<rparr>)). gone (sample_l2 False) h"
    by (simp add: gone_def sample_l2_def claim_node.defs)
  have "\<exists>s'. monitor_tx (sample_l2 False) sample_nonces sample_text sample_signer 1 (sample_mtx\<lparr>mtx_History := [8]\<rparr>) sample_monitor = (Inr (), s')"
    by (simp add: monitor_run find_in_pool_def sample_monitor_defs pg_run)
  then obtain s' where s': "monitor_tx (sample_l2 False) sample_nonces sample_text sample_signer 1 (sample_mtx\<lparr>mtx_History := [8]\<rparr>) sample_monitor
    = (Inr (), s')" by (elim exE)
  show ?thesis
    using s' dropped_claim_not_resent [OF _ gone, of sample_nonces sample_text sample_signer 1 sample_monitor]
    by (simp add: sample_monitor_def)
qed

end
