(* ===== verification/Claim_TxMan.thy ===== *)
theory Claim_TxMan
  imports Claim_Monitor Etherman
begin

text \<open>
  The claim transaction manager, \<^verbatim>\<open>claimtxman/claimtxman.go\<close>, with \<^verbatim>\<open>BuildSendClaim\<close> of
  \<^verbatim>\<open>utils/client.go\<close>, and the loop \<^verbatim>\<open>monitorChannel\<close> of \<^verbatim>\<open>cmd/run.go\<close> that takes its place
  for networks without one.

  \<^item> The state is the one of the monitor with the cache of the bridge service, which works on the same database; \<open>svc\<close>
    holds the fields of the service that do not change.
  \<^item> The L1 node and the bindings of the bridge contract are parameters.  Building a claim does not ask the
    node, since nonce, gas and gas price are given and the transaction is not sent.
  \<^item> Calls made only for a log message, and waiting, are left out.
  \<^item> The goroutine started for an exit root reads the variable \<^verbatim>\<open>ger\<close> of the loop when it runs: a started
    one is counted and reads the exit root of that time.
\<close>

section \<open>Definitions\<close>

record ctm_Config =
  cfg_RetryNumber :: int
  cfg_AuthorizedClaimMessageAddresses :: "address list"
  cfg_AreClaimsBetweenL2sEnabled :: bool
  cfg_IgnoreDepositAfterXL1Blocks :: u64
  cfg_GroupingEnabled :: bool
  cfg_GroupingClaims :: ConfigGroupingClaims

record ('n, 'k, 'c) ctm = "('n, 'k) monitor" +
  ctm_cache :: 'c

record 'n l1_node =
  L1_BlockNumber :: "'n \<Rightarrow> u64 result \<times> 'n"
  L1_BlockByNumber :: "u64 \<Rightarrow> 'n \<Rightarrow> u64 result \<times> 'n"

text \<open>A transaction that was built is its receiver and its data.\<close>

record bridge_binding =
  ClaimAsset :: "bridgeClaimXParams \<Rightarrow> (address option \<times> bytes) result"
  ClaimMessage :: "bridgeClaimXParams \<Rightarrow> (address option \<times> bytes) result"

definition on_service :: "'c bridgeService \<Rightarrow> ('c bridgeService \<Rightarrow> 'a \<times> 'c bridgeService) \<Rightarrow> ('n, 'k, 'c) ctm \<Rightarrow> 'a \<times> ('n, 'k, 'c) ctm" where
  "on_service svc f s =
     (case f (svc\<lparr>bs_storage := mon_pg s, bs_cache := ctm_cache s\<rparr>) of
        (x, svc') \<Rightarrow> (x, s\<lparr>mon_pg := bs_storage svc', ctm_cache := bs_cache svc'\<rparr>))"

definition rollbackState :: "dbTx \<Rightarrow> error \<Rightarrow> pg \<Rightarrow> 'a result \<times> pg" where
  "rollbackState tx err st =
     (case Rollback tx st of
        (Inl rollbackErr, st1) \<Rightarrow> (Inl rollbackErr, st1)
      | (Inr _, st1) \<Rightarrow> (Inl err, st1))"

text \<open>An error of a call inside a transaction rolls it back; a panic does not.\<close>

definition guarded :: "dbTx \<Rightarrow> 'a result \<times> ('n, 'k, 'z) monitor_scheme \<Rightarrow> 'a result \<times> ('n, 'k, 'z) monitor_scheme" where
  "guarded tx m =
     (case m of
        (Inl e, s) \<Rightarrow> if e = GoPanic then (Inl e, s) else on_pg (rollbackState tx e) s
      | (Inr x, s) \<Rightarrow> (Inr x, s))"

definition isDepositMessageAllowed :: "ctm_Config \<Rightarrow> Deposit \<Rightarrow> bool" where
  "isDepositMessageAllowed cfg deposit = list_ex (\<lambda>addr. dep_OriginalAddress deposit = addr) (cfg_AuthorizedClaimMessageAddresses cfg)"

subsection \<open>Building a claim\<close>

text \<open>With a leaf type that is neither an asset nor a message no transaction is built, and nil is returned.\<close>

definition claim_args :: "Deposit \<Rightarrow> h256 list \<Rightarrow> h256 list \<Rightarrow> h256 \<Rightarrow> h256 \<Rightarrow> bridgeClaimXParams" where
  "claim_args deposit smtProof smtRollupProof mainnetExitRoot rollupExitRoot =
     (let mainnetFlag = (dep_NetworkID deposit = 0);
          rollupIndex = (if \<not> mainnetFlag then dep_NetworkID deposit - 1 else 0) in
      \<lparr>cx_smtProofLocalExitRoot = smtProof, cx_smtProofRollupExitRoot = smtRollupProof,
       cx_globalIndex = GenerateGlobalIndex mainnetFlag rollupIndex (dep_DepositCount deposit),
       cx_mainnetExitRoot = mainnetExitRoot, cx_rollupExitRoot = rollupExitRoot,
       cx_originNetwork = dep_OriginalNetwork deposit, cx_originTokenAddress = dep_OriginalAddress deposit,
       cx_destinationNetwork = dep_DestinationNetwork deposit, cx_destinationAddress = dep_DestinationAddress deposit,
       cx_amount = dep_Amount deposit, cx_metadata = dep_Metadata deposit, cx_isMessage = (dep_LeafType deposit = 1)\<rparr>)"

definition BuildSendClaim :: "bridge_binding \<Rightarrow> Deposit \<Rightarrow> h256 list \<Rightarrow> h256 list \<Rightarrow> h256 \<Rightarrow> h256 \<Rightarrow> ((address option \<times> bytes) option) result" where
  "BuildSendClaim B deposit smtProof smtRollupProof mainnetExitRoot rollupExitRoot =
     (let args = claim_args deposit smtProof smtRollupProof mainnetExitRoot rollupExitRoot in
      if dep_LeafType deposit = 0 then
        (case ClaimAsset B args of Inl e \<Rightarrow> Inl (ErrMsg ''failed to build SendClaim tx'') | Inr tx \<Rightarrow> Inr (Some tx))
      else if dep_LeafType deposit = 1 then
        (case ClaimMessage B args of Inl e \<Rightarrow> Inl (ErrMsg ''failed to build SendClaim tx'') | Inr tx \<Rightarrow> Inr (Some tx))
      else Inr None)"

text \<open>The proofs copied into arrays of 32 hashes.\<close>

definition proof_array :: "h256 list \<Rightarrow> (h256 list) result" where
  "proof_array ps = (if length ps < 32 then Inl GoPanic else Inr (take 32 ps))"

subsection \<open>Adding a claim\<close>

definition addClaimTx :: "'n l2_node \<Rightarrow> 'n l1_node \<Rightarrow> 'k nonce_lru \<Rightarrow> eth_text \<Rightarrow> ctm_Config \<Rightarrow> Deposit \<Rightarrow> address
    \<Rightarrow> address option \<Rightarrow> int option \<Rightarrow> bytes \<Rightarrow> h256 \<Rightarrow> dbTx \<Rightarrow> ('n, 'k, 'z) monitor_scheme \<Rightarrow> unit result \<times> ('n, 'k, 'z) monitor_scheme" where
  "addClaimTx N L C E cfg deposit from to val data ger tx s =
     (case on_node (estimate_gas N (\<lambda>e. error_text e = ''execution reverted'') (cfg_RetryNumber cfg)
              \<lparr>msg_From = from, msg_To = to, msg_Value = val, msg_Data = data\<rparr>) s of
        (Inl e, s1) \<Rightarrow>
          (case on_node (L1_BlockNumber L) s1 of
             (Inl _, s2) \<Rightarrow> (Inr (), s2)
           | (Inr currentL1BlockNumber, s2) \<Rightarrow>
               (case on_node (L1_BlockByNumber L currentL1BlockNumber) s2 of
                  (Inl _, s3) \<Rightarrow> (Inr (), s3)
                | (Inr currentL1Block, s3) \<Rightarrow>
                    if dep_BlockNumber deposit + cfg_IgnoreDepositAfterXL1Blocks cfg < currentL1Block then
                      (Inr (), snd (on_pg (IgnoreDeposit (dep_Id deposit) tx) s3))
                    else (Inr (), s3)))
      | (Inr gas, s1) \<Rightarrow>
          (case GetNextNonce N C E from s1 of
             (Inl e, s2) \<Rightarrow> (Inl (ErrMsg ''failed to get current nonce''), s2)
           | (Inr nonce, s2) \<Rightarrow>
               (case on_node (Time_Now N) s2 of
                  (now, s3) \<Rightarrow>
                    (case on_pg (AddClaimTx now now \<lparr>mtx_DepositID = dep_Id deposit, mtx_From = from, mtx_To = to, mtx_Nonce = nonce,
                             mtx_Value = val, mtx_Data = data, mtx_Gas = gas, mtx_GasPrice = None,
                             mtx_Status = MonitoredTxStatusCreated, mtx_History = [], mtx_CreatedAt = 0, mtx_UpdatedAt = 0,
                             mtx_GroupID = None, mtx_GlobalExitRoot = ger\<rparr> tx) s3 of
                       (Inl e, s4) \<Rightarrow> (Inl (ErrMsg ''failed to add tx to get monitored''), s4)
                     | (Inr _, s4) \<Rightarrow> (Inr (), s4)))))"

text \<open>One deposit of \<^verbatim>\<open>processPendingDeposits\<close>, inside its transaction.\<close>

definition claim_deposit :: "keccak \<Rightarrow> 'c lru \<Rightarrow> 'c bridgeService \<Rightarrow> 'n l2_node \<Rightarrow> 'n l1_node \<Rightarrow> 'k nonce_lru \<Rightarrow> eth_text
    \<Rightarrow> bridge_binding \<Rightarrow> ctm_Config \<Rightarrow> address \<Rightarrow> h256 \<Rightarrow> Deposit \<Rightarrow> dbTx \<Rightarrow> ('n, 'k, 'c) ctm \<Rightarrow> unit result \<times> ('n, 'k, 'c) ctm" where
  "claim_deposit K Lru svc N L C E B cfg from globalExitRoot deposit tx s =
     andthen (on_service svc (GetClaimProofForCompressed K Lru globalExitRoot (dep_DepositCount deposit) (dep_NetworkID deposit) tx) s)
       (\<lambda>(claimGer, pf, rollupPf) s1.
     andthen (proof_array pf, s1) (\<lambda>mtProof s2.
     andthen (proof_array rollupPf, s2) (\<lambda>mtRollupProof s3.
     andthen (idx (ger_ExitRoots claimGer) 0, s3) (\<lambda>mainnetExitRoot s4.
     andthen (idx (ger_ExitRoots claimGer) 1, s4) (\<lambda>rollupExitRoot s5.
     andthen (BuildSendClaim B deposit mtProof mtRollupProof mainnetExitRoot rollupExitRoot, s5) (\<lambda>claimTx s6.
       case claimTx of
         None \<Rightarrow> (Inl GoPanic, s6)
       | Some (to, data) \<Rightarrow>
           addClaimTx N L C E cfg deposit from to None data (ger_GlobalExitRoot claimGer) tx s6))))))"

fun claim_loop :: "keccak \<Rightarrow> 'c lru \<Rightarrow> 'c bridgeService \<Rightarrow> 'n l2_node \<Rightarrow> 'n l1_node \<Rightarrow> 'k nonce_lru \<Rightarrow> eth_text
    \<Rightarrow> bridge_binding \<Rightarrow> ctm_Config \<Rightarrow> address \<Rightarrow> u32 \<Rightarrow> h256 \<Rightarrow> Deposit list \<Rightarrow> ('n, 'k, 'c) ctm \<Rightarrow> unit result \<times> ('n, 'k, 'c) ctm" where
  "claim_loop K Lru svc N L C E B cfg from l2NetworkID globalExitRoot [] s = (Inr (), s)"
| "claim_loop K Lru svc N L C E B cfg from l2NetworkID globalExitRoot (deposit # deposits) s =
     (if l2NetworkID \<noteq> dep_DestinationNetwork deposit \<or> dep_LeafType deposit = 1 \<and> \<not> isDepositMessageAllowed cfg deposit then
        claim_loop K Lru svc N L C E B cfg from l2NetworkID globalExitRoot deposits s
      else
        andthen (on_pg BeginDBTransaction s) (\<lambda>tx s1.
        andthen (guarded tx (claim_deposit K Lru svc N L C E B cfg from globalExitRoot deposit tx s1)) (\<lambda>_ s2.
        andthen (guarded tx (on_pg (Commit tx) s2)) (\<lambda>_ s3.
          claim_loop K Lru svc N L C E B cfg from l2NetworkID globalExitRoot deposits s3))))"

subsection \<open>The deposits to claim\<close>

text \<open>\<open>None\<close> is the early return without an error, while the exit root of the deposits is not known yet.\<close>

fun message_deposits :: "u32 \<Rightarrow> address list \<Rightarrow> dbTx \<Rightarrow> pg \<Rightarrow> (Deposit list) result \<times> pg" where
  "message_deposits l2NetworkID [] tx st = (Inr [], st)"
| "message_deposits l2NetworkID (addr # addrs) tx st =
     andthen (GetPendingDepositsToClaim addr l2NetworkID 1 0 0 0 tx st) (\<lambda>(msgDeposits, _) st1.
     andthen (message_deposits l2NetworkID addrs tx st1) (\<lambda>rest st2. (Inr (msgDeposits @ rest), st2)))"

definition gather_deposits :: "ctm_Config \<Rightarrow> u32 \<Rightarrow> GlobalExitRoot \<Rightarrow> dbTx \<Rightarrow> pg \<Rightarrow> ((Deposit list \<times> h256) option) result \<times> pg" where
  "gather_deposits cfg l2NetworkID ger tx st =
     (if ger_BlockID ger \<noteq> 0 \<and> ger_NetworkID ger = 0 then
        andthen (idx (ger_ExitRoots ger) 1, st) (\<lambda>_ st1.
          if \<not> cfg_AreClaimsBetweenL2sEnabled cfg then (Inr (Some ([], ger_GlobalExitRoot ger)), st1)
          else
            andthen (GetDepositsFromOtherL2ToClaim l2NetworkID tx st1) (\<lambda>deposits st2.
              case deposits of
                [] \<Rightarrow> (Inr (Some ([], ger_GlobalExitRoot ger)), st2)
              | deposit # _ \<Rightarrow>
                  let ask_ger = GetLatestTrustedGERByDeposit (dep_DepositCount deposit) (dep_NetworkID deposit) (dep_DestinationNetwork deposit) tx in
                  (case ask_ger st2 of
                     (Inr globalExitRoot, st3) \<Rightarrow> (Inr (Some (deposits, globalExitRoot)), st3)
                   | (Inl e, st3) \<Rightarrow>
                       if e \<noteq> ErrStorageNotFound then (Inl e, st3)
                       else
                         (case ask_ger st3 of
                            (Inr globalExitRoot, st4) \<Rightarrow> (Inr (Some (deposits, globalExitRoot)), st4)
                          | (Inl e2, st4) \<Rightarrow> if e2 = ErrStorageNotFound then (Inr None, st4) else (Inl e2, st4)))))
      else
        andthen (idx (ger_ExitRoots ger) 0, st) (\<lambda>_ st1.
        andthen (GetPendingDepositsToClaim 0 l2NetworkID 0 0 0 0 tx st1) (\<lambda>(deposits, _) st2.
        andthen (message_deposits l2NetworkID (cfg_AuthorizedClaimMessageAddresses cfg) tx st2) (\<lambda>msgDeposits st3.
          (Inr (Some (deposits @ msgDeposits, ger_GlobalExitRoot ger)), st3)))))"

definition processPendingDeposits :: "keccak \<Rightarrow> 'c lru \<Rightarrow> 'c bridgeService \<Rightarrow> 'n l2_node \<Rightarrow> 'n l1_node \<Rightarrow> 'k nonce_lru \<Rightarrow> eth_text
    \<Rightarrow> bridge_binding \<Rightarrow> ctm_Config \<Rightarrow> address \<Rightarrow> u32 \<Rightarrow> GlobalExitRoot \<Rightarrow> ('n, 'k, 'c) ctm \<Rightarrow> unit result \<times> ('n, 'k, 'c) ctm" where
  "processPendingDeposits K Lru svc N L C E B cfg from l2NetworkID ger s =
     andthen (on_pg BeginDBTransaction s) (\<lambda>tx s1.
     andthen (guarded tx (on_pg (gather_deposits cfg l2NetworkID ger tx) s1)) (\<lambda>found s2.
       case found of
         None \<Rightarrow> (Inr (), s2)
       | Some (deposits, globalExitRoot) \<Rightarrow>
           andthen (guarded tx (on_pg (Commit tx) s2)) (\<lambda>_ s3.
             claim_loop K Lru svc N L C E B cfg from l2NetworkID globalExitRoot deposits s3)))"

subsection \<open>The status of deposits\<close>

definition update_status :: "u32 \<Rightarrow> u32 \<Rightarrow> GlobalExitRoot \<Rightarrow> dbTx \<Rightarrow> pg \<Rightarrow> unit result \<times> pg" where
  "update_status rollupID l2NetworkID ger tx st =
     (if ger_BlockID ger \<noteq> 0 \<and> ger_NetworkID ger = 0 then
        andthen (idx (ger_ExitRoots ger) 1, st) (\<lambda>rollupRoot st1. UpdateL2DepositsStatus rollupRoot rollupID l2NetworkID True tx st1)
      else
        andthen (idx (ger_ExitRoots ger) 0, st) (\<lambda>mainnetRoot st1.
        andthen (UpdateL1DepositsStatus mainnetRoot l2NetworkID tx st1) (\<lambda>_ st2.
        andthen (idx (ger_ExitRoots ger) 1, st2) (\<lambda>rollupRoot st3.
          UpdateL2DepositsStatus rollupRoot rollupID l2NetworkID False tx st3))))"

definition updateDepositsStatus :: "u32 \<Rightarrow> u32 \<Rightarrow> GlobalExitRoot \<Rightarrow> ('n, 'k, 'z) monitor_scheme \<Rightarrow> unit result \<times> ('n, 'k, 'z) monitor_scheme" where
  "updateDepositsStatus rollupID l2NetworkID ger s =
     andthen (on_pg BeginDBTransaction s) (\<lambda>tx s1.
     andthen (guarded tx (on_pg (update_status rollupID l2NetworkID ger tx) s1)) (\<lambda>_ s2.
       guarded tx (on_pg (Commit tx) s2)))"

text \<open>The handler of \<^verbatim>\<open>monitorChannel\<close>: with no exit roots the loop goes on with the transaction open.\<close>

definition monitorChannel :: "u32 \<Rightarrow> GlobalExitRoot \<Rightarrow> pg \<Rightarrow> unit result \<times> pg" where
  "monitorChannel networkID ger st =
     (case BeginDBTransaction st of
        (Inl e, st1) \<Rightarrow> (Inr (), st1)
      | (Inr tx, st1) \<Rightarrow>
          if ger_ExitRoots ger = [] then (Inr (), st1)
          else
            (case update_status networkID networkID ger tx st1 of
               (Inl e, st2) \<Rightarrow> if e = GoPanic then (Inl e, st2) else (Inr (), snd (Rollback tx st2))
             | (Inr _, st2) \<Rightarrow>
                 (case Commit tx st2 of
                    (Inl e, st3) \<Rightarrow> (Inr (), snd (Rollback tx st3))
                  | (Inr _, st3) \<Rightarrow> (Inr (), st3))))"

subsection \<open>The loop\<close>

text \<open>The fields of \<^verbatim>\<open>ClaimTxManager\<close> that do not change, with what is outside.\<close>

record ('n, 'k, 'c) ctm_env =
  env_K :: keccak
  env_Lru :: "'c lru"
  env_service :: "'c bridgeService"
  env_l2Node :: "'n l2_node"
  env_l1Node :: "'n l1_node"
  env_nonceCache :: "'k nonce_lru"
  env_text :: eth_text
  env_binding :: bridge_binding
  env_signer :: signer
  env_abi :: bridge_abi
  env_equal_group :: "MonitoredTxGroupDBEntry \<Rightarrow> MonitoredTxGroupDBEntry \<Rightarrow> bool"
  env_equal_tx :: "MonitoredTx \<Rightarrow> MonitoredTx \<Rightarrow> bool"
  env_cfg :: ctm_Config
  env_from :: address
  env_gasLimit :: u64
  env_l2NetworkID :: u32
  env_rollupID :: u32

record ('n, 'k, 'c) ctm_run =
  run_l1Synced :: bool
  run_l2Synced :: bool
  run_ger :: GlobalExitRoot
  run_latestProcessedGer :: h256
  run_started :: nat
  run_state :: "('n, 'k, 'c) ctm"

text \<open>What the loop waits for; \<open>Claiming_Goroutine\<close> is a started goroutine that runs, one at a time under the mutex.\<close>

datatype ctm_event =
    Network_Synced u32
  | Exit_Root GlobalExitRoot
  | Compressor_Ticker
  | Monitor_Ticker
  | Claiming_Goroutine

definition monitor_pass :: "('n, 'k, 'c) ctm_env \<Rightarrow> ('n, 'k, 'c) ctm \<Rightarrow> ('n, 'k, 'c) ctm" where
  "monitor_pass env s =
     (if cfg_GroupingEnabled (env_cfg env) then
        (case compressed_MonitorTxs (claim_node.truncate (env_l2Node env)) (env_equal_group env) (env_equal_tx env) (env_abi env)
                (cfg_GroupingClaims (env_cfg env)) (env_gasLimit env) (env_rollupID env) (mon_pg s) (mon_node s) of
           (_, st, n) \<Rightarrow> s\<lparr>mon_pg := st, mon_node := n\<rparr>)
      else
        (case MonitorTxs (env_l2Node env) (env_nonceCache env) (env_text env) (env_signer env) (cfg_RetryNumber (env_cfg env))
                (env_rollupID env) (monitor.truncate s) of
           (_, m) \<Rightarrow> s\<lparr>mon_pg := mon_pg m, mon_node := mon_node m, mon_nonces := mon_nonces m\<rparr>))"

fun on_event :: "('n, 'k, 'c) ctm_env \<Rightarrow> ctm_event \<Rightarrow> ('n, 'k, 'c) ctm_run \<Rightarrow> ('n, 'k, 'c) ctm_run" where
  "on_event env (Network_Synced netID) r =
     (let r1 = (if netID = env_l2NetworkID env \<and> \<not> run_l2Synced r then r\<lparr>run_l2Synced := True\<rparr> else r) in
      if netID = 0 \<and> \<not> run_l1Synced r1 then r1\<lparr>run_l1Synced := True\<rparr> else r1)"
| "on_event env (Exit_Root channelGer) r =
     (let r1 = r\<lparr>run_ger := channelGer\<rparr> in
      if run_l2Synced r1 \<and> run_l1Synced r1 then
        (case updateDepositsStatus (env_rollupID env) (env_l2NetworkID env) channelGer (run_state r1) of
           (Inl e, s) \<Rightarrow> r1\<lparr>run_state := s\<rparr>
         | (Inr _, s) \<Rightarrow>
             if cfg_GroupingEnabled (env_cfg env) then r1\<lparr>run_state := s\<rparr>
             else r1\<lparr>run_state := s, run_started := Suc (run_started r1)\<rparr>)
      else r1)"
| "on_event env Compressor_Ticker r =
     (if run_l2Synced r \<and> run_l1Synced r \<and> cfg_GroupingEnabled (env_cfg env) \<and>
         ger_GlobalExitRoot (run_ger r) \<noteq> run_latestProcessedGer r then
        r\<lparr>run_started := Suc (run_started r), run_latestProcessedGer := ger_GlobalExitRoot (run_ger r)\<rparr>
      else r)"
| "on_event env Monitor_Ticker r = r\<lparr>run_state := monitor_pass env (run_state r)\<rparr>"
| "on_event env Claiming_Goroutine r =
     r\<lparr>run_started := run_started r - 1,
       run_state := snd (processPendingDeposits (env_K env) (env_Lru env) (env_service env) (env_l2Node env) (env_l1Node env)
          (env_nonceCache env) (env_text env) (env_binding env) (env_cfg env) (env_from env) (env_l2NetworkID env)
          (run_ger r) (run_state r))\<rparr>"

inductive ctm_step :: "('n, 'k, 'c) ctm_env \<Rightarrow> ('n, 'k, 'c) ctm_run \<Rightarrow> ('n, 'k, 'c) ctm_run \<Rightarrow> bool" for env where
  "ev \<noteq> Claiming_Goroutine \<Longrightarrow> ctm_step env r (on_event env ev r)"
| "0 < run_started r \<Longrightarrow> ctm_step env r (on_event env Claiming_Goroutine r)"

definition ctm_start :: "('n, 'k, 'c) ctm \<Rightarrow> ('n, 'k, 'c) ctm_run" where
  "ctm_start s = \<lparr>run_l1Synced = False, run_l2Synced = False,
     run_ger = \<lparr>ger_BlockID = 0, ger_BlockNumber = 0, ger_ExitRoots = [], ger_GlobalExitRoot = 0, ger_NetworkID = 0, ger_ID = 0\<rparr>,
     run_latestProcessedGer = 0, run_started = 0, run_state = s\<rparr>"

section \<open>What a claim is built from\<close>

lemma claim_proofs_sound:
  assumes C: "cache_keeps Lru held" and K: "hashed K (known held tx s)" and H: "0 < unat (bs_height s)" "unat (bs_height s) \<le> 64"
    and p: "claim_proofs texts K Lru g cnt net tx s = (Inr (ger, mproof, rollupProof), s')"
  shows "same_view s s' \<and> ger = g \<and> length mproof = unat (bs_height s) \<and>
    (\<exists>leaf r. calculateRoot K leaf mproof (ucast cnt) (bs_height s) = Inr r \<and>
      (if net = 0 then idx (ger_ExitRoots g) 0 = Inr r
       else length rollupProof = unat (bs_height s) \<and> (\<exists>root. idx (ger_ExitRoots g) 1 = Inr root \<and>
         calculateRoot K r rollupProof (ucast (net - 1)) (bs_height s) = Inr root)))"
proof -
  have view: "same_view s1 s2" if "getProof Lru cnt root tx s1 = (Inr p, s2)" "0 < unat (bs_height s1)" for root p s1 s2
    using proof_walk_known [OF C getProof_InrD(1) [OF that]] by blast
  show ?thesis
proof (cases "net = 0")
  case True
  obtain root where i: "idx (ger_ExitRoots g) 0 = Inr root" and gp: "getProof Lru cnt root tx s = (Inr mproof, s')"
    and ger: "ger = g" by (rule claim_proofs_mainnetD [OF p [unfolded True]])
  thus ?thesis using getProof_leads [OF C K H(1) gp] view [OF gp H(1)] True by auto
next
  case False
  then obtain root where i: "idx (ger_ExitRoots g) 1 = Inr root"
    using p by (cases "idx (ger_ExitRoots g) 1") (auto simp: claim_proofs_def Let_def split: prod.splits)
  then obtain msg msg' where "andthen (rewording msg (getRollupExitProof K (net - 1) root tx s)) (\<lambda>(rp, leaf) s1.
      andthen (rewording msg' (getProof Lru cnt leaf tx s1)) (\<lambda>mp s2. (Inr (g, mp, rp), s2))) = (Inr (ger, mproof, rollupProof), s')"
    using p False by (auto simp: claim_proofs_def Let_def split: prod.splits)
  then obtain rp leaf s1 s2 where rx: "getRollupExitProof K (net - 1) root tx s = (Inr (rp, leaf), s1)"
    and gp: "getProof Lru cnt leaf tx s1 = (Inr mproof, s2)" and ger: "ger = g" "rollupProof = rp" "s' = s2"
    by (auto dest!: andthen_InrD rewording_InrD)
  note rv = getRollupExitProof_verifies [OF rx H]
  have s1: "hashed K (known held tx s1)" "bs_height s1 = bs_height s"
    using K known_same [OF rv(2,3)] rv(2) by (auto simp: same_view_def)
  have "same_view s s'" using view [OF gp] H(1) s1(2) rv(2) ger(3) same_view_trans by auto
  thus ?thesis using getProof_leads [OF C s1(1) _ gp] H(1) s1(2) rv(1) ger i False by auto
qed
qed

lemma claim_proofs_soundE:
  assumes "cache_keeps Lru held" and "hashed K (known held tx s)" and "bs_height s = 32"
    and "claim_proofs texts K Lru g cnt net tx s = (Inr (ger, mproof, rollupProof), s')"
  obtains leaf r where "same_view s s'" and "ger = g" and "length mproof = 32"
    and "calculateRoot K leaf mproof (ucast cnt) 32 = Inr r" and "net = 0 \<longrightarrow> idx (ger_ExitRoots g) 0 = Inr r"
    and "net \<noteq> 0 \<longrightarrow> length rollupProof = 32"
    and "\<forall>root. net \<noteq> 0 \<and> idx (ger_ExitRoots g) 1 = Inr root \<longrightarrow> calculateRoot K r rollupProof (ucast (net - 1)) 32 = Inr root"
proof -
  have H: "0 < unat (bs_height s)" "unat (bs_height s) \<le> 64" using assms(3) by simp_all
  from claim_proofs_sound [OF assms(1,2) H assms(4)]
  obtain leaf r where lr: "same_view s s'" "ger = g" "length mproof = unat (bs_height s)"
    "calculateRoot K leaf mproof (ucast cnt) (bs_height s) = Inr r"
    "if net = 0 then idx (ger_ExitRoots g) 0 = Inr r
     else length rollupProof = unat (bs_height s) \<and> (\<exists>root. idx (ger_ExitRoots g) 1 = Inr root \<and>
         calculateRoot K r rollupProof (ucast (net - 1)) (bs_height s) = Inr root)" by (elim conjE exE)
  show thesis by (rule that [of leaf r]) (use lr assms(3) in \<open>auto split: if_splits\<close>)
qed

lemma GetClaimProofForCompressed_InrD:
  assumes "GetClaimProofForCompressed K Lru ger0 cnt net tx s = (Inr (ger, mproof, rollupProof), s')"
  obtains g s2 texts where "same_view s s2" and "bs_cache s2 = bs_cache s"
    and "claim_proofs texts K Lru g cnt net tx s2 = (Inr (ger, mproof, rollupProof), s')"
proof -
  obtain u s1 where 1: "(if tx = NoTx then andthen (ask (GetDeposit cnt net NoTx) s) (\<lambda>deposit s1.
      if \<not> dep_ReadyForClaim deposit then (Inl ErrDepositNotSynced, s1) else (Inr (), s1)) else (Inr (), s)) = (Inr u, s1)"
    and 2: "andthen (ask (GetL1ExitRootByGER ger0 tx) s1) (\<lambda>g s2. claim_proofs (''getting the proof failed'',
      ''getting the rollup proof failed'', ''getting the proof failed'') K Lru g cnt net tx s2) = (Inr (ger, mproof, rollupProof), s')"
    using andthen_InrD [OF assms [unfolded GetClaimProofForCompressed_def]] by blast
  have v1: "same_view s s1 \<and> bs_cache s1 = bs_cache s"
  proof (cases "tx = NoTx")
    case True
    then obtain deposit s0 where "ask (GetDeposit cnt net NoTx) s = (Inr deposit, s0)" "s1 = s0"
      using 1 by (auto dest!: andthen_InrD split: if_splits)
    thus ?thesis using ask_query unfolding GetDeposit_def by blast
  qed (use 1 in simp)
  obtain g s2 where 3: "ask (GetL1ExitRootByGER ger0 tx) s1 = (Inr g, s2)"
    and 4: "claim_proofs (''getting the proof failed'', ''getting the rollup proof failed'', ''getting the proof failed'')
      K Lru g cnt net tx s2 = (Inr (ger, mproof, rollupProof), s')"
    using andthen_InrD [OF 2] by blast
  have v2: "same_view s1 s2 \<and> bs_cache s2 = bs_cache s1" using ask_query 3 unfolding GetL1ExitRootByGER_def by blast
  show thesis by (rule that [OF _ _ 4]) (use v1 v2 same_view_trans in auto)
qed

text \<open>Adding a claim adds one row at most, the one of the deposit.\<close>

definition claim_row :: "Deposit \<Rightarrow> address option \<Rightarrow> bytes \<Rightarrow> MonitoredTx \<Rightarrow> bool" where
  "claim_row deposit to data m \<longleftrightarrow>
     mtx_DepositID m = dep_Id deposit \<and> mtx_To m = to \<and> mtx_Data m = data \<and>
     mtx_Status m = MonitoredTxStatusCreated \<and> mtx_History m = []"

definition rows_added :: "Deposit \<Rightarrow> address option \<Rightarrow> bytes \<Rightarrow> dbTx \<Rightarrow> db \<Rightarrow> pg \<Rightarrow> bool" where
  "rows_added deposit to data tx d st \<longleftrightarrow>
     (\<exists>d'. raw_view tx st = Some d' \<and>
        (t_monitored_txs d' = t_monitored_txs d \<or>
         (\<exists>m. claim_row deposit to data m \<and> t_monitored_txs d' = t_monitored_txs d @ [m])))"

lemma rows_added_same: "raw_view tx st = Some d \<Longrightarrow> rows_added deposit to data tx d st"
  by (auto simp: rows_added_def)

lemma AddClaimTx_rows:
  assumes "AddClaimTx t1 t2 m tx st = (Inr u, st')" and "raw_view tx st = Some d" and "claim_row deposit to data m"
  shows "rows_added deposit to data tx d st'"
proof -
  obtain d' where d': "(if mtx_DepositID m \<in> mtx_DepositID ` set (t_monitored_txs d) then Inr ((), d)
      else Inr ((), d\<lparr>t_monitored_txs := t_monitored_txs d @ [m\<lparr>mtx_GasPrice := None, mtx_CreatedAt := t1, mtx_UpdatedAt := t2\<rparr>]\<rparr>)
      :: (unit \<times> db) result) = Inr (u, d')" "raw_view tx st' = Some d'"
    by (rule pg_exec_InrE [OF assms(1) [unfolded AddClaimTx_def] assms(2)])
  have "claim_row deposit to data (m\<lparr>mtx_GasPrice := None, mtx_CreatedAt := t1, mtx_UpdatedAt := t2\<rparr>)"
    using assms(3) by (simp add: claim_row_def)
  thus ?thesis using d' by (auto simp: rows_added_def split: if_splits)
qed

lemma IgnoreDeposit_rows:
  assumes "IgnoreDeposit i tx st = (x, st')" and "raw_view tx st = Some d"
  shows "rows_added deposit to data tx d st'"
proof (cases x)
  case (Inl e)
  have "raw_view tx st' = raw_view tx st" by (rule pg_exec_InlD [OF assms(1) [unfolded IgnoreDeposit_def Inl]])
  thus ?thesis using assms(2) rows_added_same by simp
next
  case (Inr u)
  show ?thesis by (rule pg_exec_InrE [OF assms(1) [unfolded IgnoreDeposit_def Inr] assms(2)]) (auto simp: rows_added_def)
qed

lemma addClaimTx_rows:
  assumes run: "addClaimTx N L C E cfg deposit from to v data ger tx s = (Inr (), s')" and d: "raw_view tx (mon_pg s) = Some d"
  shows "rows_added deposit to data tx d (mon_pg s')"
proof -
  obtain r s1 where 1: "on_node (estimate_gas N (\<lambda>e. error_text e = ''execution reverted'') (cfg_RetryNumber cfg)
              \<lparr>msg_From = from, msg_To = to, msg_Value = v, msg_Data = data\<rparr>) s = (r, s1)" by fastforce
  have d1: "raw_view tx (mon_pg s1) = Some d" using d on_node_pg [OF 1] by simp
  show ?thesis
  proof (cases r)
    case (Inl e)
    obtain b s2 where 2: "on_node (L1_BlockNumber L) s1 = (b, s2)" by fastforce
    have d2: "raw_view tx (mon_pg s2) = Some d" using d1 on_node_pg [OF 2] by simp
    show ?thesis
    proof (cases b)
      case (Inr num)
      obtain c s3 where 3: "on_node (L1_BlockByNumber L num) s2 = (c, s3)" by fastforce
      have d3: "raw_view tx (mon_pg s3) = Some d" using d2 on_node_pg [OF 3] by simp
      obtain y s4 where 4: "on_pg (IgnoreDeposit (dep_Id deposit) tx) s3 = (y, s4)" by fastforce
      show ?thesis
        using run 1 Inl 2 Inr 3 4 rows_added_same [OF d3] IgnoreDeposit_rows [OF on_pgE [OF 4] d3]
        by (cases c) (auto simp: addClaimTx_def split: if_splits)
    qed (use run 1 Inl 2 rows_added_same [OF d2] in \<open>auto simp: addClaimTx_def\<close>)
  next
    case (Inr gas)
    obtain b s2 where 2: "GetNextNonce N C E from s1 = (b, s2)" by fastforce
    have d2: "raw_view tx (mon_pg s2) = Some d" using d1 GetNextNonce_pg [OF 2] by simp
    obtain nonce where b: "b = Inr nonce" using run 1 Inr 2 by (cases b) (auto simp: addClaimTx_def)
    obtain now s3 where 3: "on_node (Time_Now N) s2 = (now, s3)" by fastforce
    have d3: "raw_view tx (mon_pg s3) = Some d" using d2 on_node_pg [OF 3] by simp
    define m where "m = \<lparr>mtx_DepositID = dep_Id deposit, mtx_From = from, mtx_To = to, mtx_Nonce = nonce,
        mtx_Value = v, mtx_Data = data, mtx_Gas = gas, mtx_GasPrice = None, mtx_Status = MonitoredTxStatusCreated, mtx_History = [],
        mtx_CreatedAt = 0, mtx_UpdatedAt = 0, mtx_GroupID = None, mtx_GlobalExitRoot = ger\<rparr>"
    obtain y s4 where 4: "on_pg (AddClaimTx now now m tx) s3 = (y, s4)" by fastforce
    have "y = Inr () \<and> s' = s4" using run 1 Inr 2 b 3 4 by (cases y) (auto simp: addClaimTx_def m_def)
    moreover have "claim_row deposit to data m" by (simp add: m_def claim_row_def)
    ultimately show ?thesis using AddClaimTx_rows [OF _ d3] on_pgE [OF 4] by blast
  qed
qed

lemma on_serviceD:
  assumes "on_service svc f s = (x, s')"
  shows "\<exists>svc'. f (svc\<lparr>bs_storage := mon_pg s, bs_cache := ctm_cache s\<rparr>) = (x, svc') \<and> mon_pg s' = bs_storage svc'"
  using assms by (auto simp: on_service_def split: prod.splits)

lemma proof_array_32: "length ps = 32 \<Longrightarrow> proof_array ps = Inr ps"
  by (simp add: proof_array_def)

text \<open>The proofs of a claim, for trees of height 32.\<close>

definition claim_verifies :: "keccak \<Rightarrow> Deposit \<Rightarrow> bridgeClaimXParams \<Rightarrow> bool" where
  "claim_verifies K deposit args \<longleftrightarrow>
     (\<exists>leaf r. calculateRoot K leaf (cx_smtProofLocalExitRoot args) (ucast (dep_DepositCount deposit)) 32 = Inr r \<and>
        (if dep_NetworkID deposit = 0 then r = cx_mainnetExitRoot args
         else calculateRoot K r (cx_smtProofRollupExitRoot args) (ucast (dep_NetworkID deposit - 1)) 32 = Inr (cx_rollupExitRoot args)))"

lemma BuildSendClaim_InrD:
  "BuildSendClaim B deposit mp rp mr rr = Inr (Some (to, data)) \<Longrightarrow>
   ClaimAsset B (claim_args deposit mp rp mr rr) = Inr (to, data) \<or> ClaimMessage B (claim_args deposit mp rp mr rr) = Inr (to, data)"
  by (auto simp: BuildSendClaim_def Let_def split: if_splits sum.splits)

lemma claim_deposit_InrD:
  assumes "claim_deposit K Lru svc N L C E B cfg from ger0 deposit tx s = (Inr (), s')"
  obtains ger pf rpf s1 mp rp mr rr to data where
    "on_service svc (GetClaimProofForCompressed K Lru ger0 (dep_DepositCount deposit) (dep_NetworkID deposit) tx) s = (Inr (ger, pf, rpf), s1)"
    "proof_array pf = Inr mp" "proof_array rpf = Inr rp" "idx (ger_ExitRoots ger) 0 = Inr mr" "idx (ger_ExitRoots ger) 1 = Inr rr"
    "BuildSendClaim B deposit mp rp mr rr = Inr (Some (to, data))"
    "addClaimTx N L C E cfg deposit from to None data (ger_GlobalExitRoot ger) tx s1 = (Inr (), s')"
proof -
  obtain p s1 where 1: "on_service svc (GetClaimProofForCompressed K Lru ger0 (dep_DepositCount deposit) (dep_NetworkID deposit) tx) s = (Inr p, s1)"
    and rest: "(\<lambda>(claimGer, pf, rollupPf) s1.
     andthen (proof_array pf, s1) (\<lambda>mtProof s2.
     andthen (proof_array rollupPf, s2) (\<lambda>mtRollupProof s3.
     andthen (idx (ger_ExitRoots claimGer) 0, s3) (\<lambda>mainnetExitRoot s4.
     andthen (idx (ger_ExitRoots claimGer) 1, s4) (\<lambda>rollupExitRoot s5.
     andthen (BuildSendClaim B deposit mtProof mtRollupProof mainnetExitRoot rollupExitRoot, s5) (\<lambda>claimTx s6.
       case claimTx of
         None \<Rightarrow> (Inl GoPanic, s6)
       | Some (to, data) \<Rightarrow>
           addClaimTx N L C E cfg deposit from to None data (ger_GlobalExitRoot claimGer) tx s6)))))) p s1 = (Inr (), s')"
    using andthen_InrD [OF assms [unfolded claim_deposit_def]] by blast
  obtain ger pf rpf where p: "p = (ger, pf, rpf)" by (cases p)
  obtain mp rp where 2: "proof_array pf = Inr mp" "proof_array rpf = Inr rp"
    using rest p by (cases "proof_array pf"; cases "proof_array rpf") (auto simp: andthen_def)
  obtain mr rr where 3: "idx (ger_ExitRoots ger) 0 = Inr mr" "idx (ger_ExitRoots ger) 1 = Inr rr"
    using rest p 2 by (cases "idx (ger_ExitRoots ger) 0"; cases "idx (ger_ExitRoots ger) 1") (auto simp: andthen_def)
  obtain t where t: "BuildSendClaim B deposit mp rp mr rr = Inr t"
    using rest p 2 3 by (cases "BuildSendClaim B deposit mp rp mr rr") (auto simp: andthen_def)
  obtain to data where 4: "BuildSendClaim B deposit mp rp mr rr = Inr (Some (to, data))"
    using rest p 2 3 t by (cases t) (auto simp: andthen_def)
  show thesis by (rule that [OF 1 [unfolded p] 2 3 4]) (use rest p 2 3 4 in \<open>simp add: andthen_def\<close>)
qed

section \<open>A sample\<close>

definition sample_l1 :: "int l1_node" where
  "sample_l1 = \<lparr>L1_BlockNumber = (\<lambda>n. (Inr 500, n)), L1_BlockByNumber = (\<lambda>k n. (Inr k, n))\<rparr>"

definition sample_binding :: bridge_binding where
  "sample_binding = \<lparr>ClaimAsset = (\<lambda>_. Inr (Some 1, [7])), ClaimMessage = (\<lambda>_. Inr (Some 1, [7]))\<rparr>"

definition sample_ctm_cfg :: ctm_Config where
  "sample_ctm_cfg = \<lparr>cfg_RetryNumber = 1, cfg_AuthorizedClaimMessageAddresses = [], cfg_AreClaimsBetweenL2sEnabled = True,
     cfg_IgnoreDepositAfterXL1Blocks = 100, cfg_GroupingEnabled = False, cfg_GroupingClaims = sample_cfg\<rparr>"

definition sample_ctm :: "(int, (string \<times> u64) list, node_row list) ctm" where
  "sample_ctm = \<lparr>mon_pg = pg_init\<lparr>pg_committed := claim_db\<rparr>, mon_node = 100, mon_nonces = [], ctm_cache = []\<rparr>"

lemma sample_claim_run:
  "\<exists>s'. claim_deposit (\<lambda>_. 9) sample_cache (sample_service 32) (sample_l2 True) sample_l1 sample_nonces sample_text sample_binding
     sample_ctm_cfg 3 77 sample_deposit NoTx sample_ctm = (Inr (), s')"
proof -
  let ?st = "pg_init\<lparr>pg_committed := claim_db\<rparr>" and ?svc = "sample_service 32"
  obtain deposit where d: "GetDeposit 0 0 NoTx ?st = (Inr deposit, ?st)" "dep_ReadyForClaim deposit"
    by (simp add: GetDeposit_def join_block_def pg_run claim_db_run first_row_def)
  have g: "GetL1ExitRootByGER 77 NoTx ?st = (Inr (mk_ger 1 [9, 3] 77 0 0), ?st)"
    by (simp add: GetL1ExitRootByGER_def exit_roots_where_def order_desc_def l1_ger_of_row_def two_roots_def idx_def mk_ger_def pg_run claim_db_run first_row_def)
  have svc: "?svc\<lparr>bs_storage := mon_pg sample_ctm, bs_cache := ctm_cache sample_ctm\<rparr> = ?svc" "bs_storage ?svc = ?st" "bs_cache ?svc = []"
    "?svc\<lparr>bs_storage := ?st\<rparr> = ?svc" "length (levels_down (bs_height ?svc)) = 32"
    by (simp_all add: sample_service_def sample_ctm_def pgm.levels_down_eq)
  obtain svc' where p: "getProof sample_cache 0 9 NoTx ?svc = (Inr (replicate 32 0), svc')" "bs_storage svc' = ?st"
    using sample_getProof [OF svc(2,3)] svc(2,5) by auto
  have proof1: "GetClaimProofForCompressed (\<lambda>_. 9) sample_cache 77 0 0 NoTx ?svc = (Inr (mk_ger 1 [9, 3] 77 0 0, replicate 32 0, emptyProof), svc')"
    by (simp add: d g [unfolded mk_ger_def] p(1) svc(2,4) GetClaimProofForCompressed_def ask_def andthen_def rewording_def claim_proofs_def idx_def mk_ger_def)
  show ?thesis
    by (simp add: claim_deposit_def on_service_def svc proof1 sample_deposit_def p(2) andthen_def proof_array_def emptyProof_def mk_ger_def idx_def
        BuildSendClaim_def sample_binding_def addClaimTx_def on_node_def on_pg_def estimate_gas_def sample_ctm_cfg_def
        GetNextNonce_def AddClaimTx_def Let_def sample_monitor_defs pg_run)
qed

section \<open>Properties\<close>

text \<open>C33. Automatic claims carry proofs the contract accepts: when a claim is added for a deposit, its call data was made by the binding
  of the contract from arguments whose local proof leads from a leaf at the index of the deposit to the mainnet exit root, or, for
  a rollup, to a root that the second proof leads to the rollup exit root at the index of the rollup; and the only row that may
  have been added is the one of the deposit with that call data.\<close>

theorem claim_deposit_verifies:
  assumes "cache_keeps Lru held" and "hashed K (known held tx (svc\<lparr>bs_storage := mon_pg s, bs_cache := ctm_cache s\<rparr>))"
    and "bs_height svc = 32" and "raw_view tx (mon_pg s) = Some d"
    and "claim_deposit K Lru svc N L C E B cfg from ger0 deposit tx s = (Inr (), s')"
  shows "\<exists>args to data. (ClaimAsset B args = Inr (to, data) \<or> ClaimMessage B args = Inr (to, data)) \<and>
    claim_verifies K deposit args \<and> rows_added deposit to data tx d (mon_pg s')"
proof -
  obtain ger pf rpf s1 mp rp mr rr to data where
    1: "on_service svc (GetClaimProofForCompressed K Lru ger0 (dep_DepositCount deposit) (dep_NetworkID deposit) tx) s = (Inr (ger, pf, rpf), s1)"
    and arr: "proof_array pf = Inr mp" "proof_array rpf = Inr rp"
    and roots: "idx (ger_ExitRoots ger) 0 = Inr mr" "idx (ger_ExitRoots ger) 1 = Inr rr"
    and build: "BuildSendClaim B deposit mp rp mr rr = Inr (Some (to, data))"
    and add: "addClaimTx N L C E cfg deposit from to None data (ger_GlobalExitRoot ger) tx s1 = (Inr (), s')"
    by (rule claim_deposit_InrD [OF assms(5)])
  let ?svc = "svc\<lparr>bs_storage := mon_pg s, bs_cache := ctm_cache s\<rparr>"
  obtain svc' where svc': "GetClaimProofForCompressed K Lru ger0 (dep_DepositCount deposit) (dep_NetworkID deposit) tx ?svc = (Inr (ger, pf, rpf), svc')"
    "mon_pg s1 = bs_storage svc'" using on_serviceD [OF 1] by blast
  obtain g s2 texts where v: "same_view ?svc s2" "bs_cache s2 = bs_cache ?svc"
    and cp: "claim_proofs texts K Lru g (dep_DepositCount deposit) (dep_NetworkID deposit) tx s2 = (Inr (ger, pf, rpf), svc')"
    by (rule GetClaimProofForCompressed_InrD [OF svc'(1)])
  have h: "bs_height s2 = 32" using v(1) assms(3) by (simp add: same_view_def)
  have K2: "hashed K (known held tx s2)" using assms(2) known_same [OF v] by simp
  obtain leaf q where view: "same_view s2 svc'" and q: "ger = g" "length pf = 32"
    "calculateRoot K leaf pf (ucast (dep_DepositCount deposit)) 32 = Inr q"
    "dep_NetworkID deposit = 0 \<longrightarrow> idx (ger_ExitRoots g) 0 = Inr q" "dep_NetworkID deposit \<noteq> 0 \<longrightarrow> length rpf = 32"
    "\<forall>root. dep_NetworkID deposit \<noteq> 0 \<and> idx (ger_ExitRoots g) 1 = Inr root \<longrightarrow>
       calculateRoot K q rpf (ucast (dep_NetworkID deposit - 1)) 32 = Inr root"
    by (rule claim_proofs_soundE [OF assms(1) K2 h cp])
  have "raw_view tx (mon_pg s1) = Some d" using view v(1) svc'(2) assms(4) by (simp add: same_view_def)
  hence rows: "rows_added deposit to data tx d (mon_pg s')" by (rule addClaimTx_rows [OF add])
  have "claim_verifies K deposit (claim_args deposit mp rp mr rr)"
    unfolding claim_verifies_def
    by (intro exI [of _ leaf] exI [of _ q]) (use q arr roots in \<open>auto simp: claim_args_def Let_def proof_array_32\<close>)
  thus ?thesis using BuildSendClaim_InrD [OF build] rows by blast
qed

theorem claim_deposit_verifies_witness:
  "\<exists>s' args. claim_deposit (\<lambda>_. 9) sample_cache (sample_service 32) (sample_l2 True) sample_l1 sample_nonces sample_text sample_binding
       sample_ctm_cfg 3 77 sample_deposit NoTx sample_ctm = (Inr (), s') \<and>
     claim_verifies (\<lambda>_. 9) sample_deposit args \<and> rows_added sample_deposit (Some 1) [7] NoTx claim_db (mon_pg s')"
proof -
  let ?svc = "(sample_service 32)\<lparr>bs_storage := mon_pg sample_ctm, bs_cache := ctm_cache sample_ctm\<rparr>"
  have svc: "?svc = sample_service 32" by (simp add: sample_service_def sample_ctm_def)
  have K: "hashed (\<lambda>_. 9) (known set NoTx ?svc)"
    unfolding svc by (simp add: hashed_def known_def sample_service_def pg_nodes_def raw_view_def claim_db_run)
  have d: "raw_view NoTx (mon_pg sample_ctm) = Some claim_db" by (simp add: sample_ctm_def raw_view_def)
  have height: "bs_height (sample_service 32) = 32" by (simp add: sample_service_def)
  obtain s' where run: "claim_deposit (\<lambda>_. 9) sample_cache (sample_service 32) (sample_l2 True) sample_l1 sample_nonces sample_text sample_binding
       sample_ctm_cfg 3 77 sample_deposit NoTx sample_ctm = (Inr (), s')" using sample_claim_run by blast
  from claim_deposit_verifies [OF sample_cache_keeps K height d run]
  show ?thesis using run by (auto simp: sample_binding_def)
qed

text \<open>C34. A deposit from another rollup is given up on its first failed gas estimation: the query for these deposits does not read the block
  of a deposit, so its block number is zero, and as soon as the L1 chain is longer than the configured number of blocks a failed
  estimation marks the deposit as ignored, however young it is.\<close>

theorem other_rollup_deposit_ignored:
  assumes "GetDepositsFromOtherL2ToClaim net tx0 st0 = (Inr deposits, st0')" and "deposit \<in> set deposits"
    and "on_node (estimate_gas N (\<lambda>e. error_text e = ''execution reverted'') (cfg_RetryNumber cfg)
           \<lparr>msg_From = from, msg_To = to, msg_Value = v, msg_Data = data\<rparr>) s = (Inl e, s1)"
    and "on_node (L1_BlockNumber L) s1 = (Inr num, s2)" and "on_node (L1_BlockByNumber L num) s2 = (Inr cur, s3)"
    and "cfg_IgnoreDepositAfterXL1Blocks cfg < cur" and "pg_ready tx (mon_pg s)"
  shows "\<exists>s' d'. addClaimTx N L C E cfg deposit from to v data ger tx s = (Inr (), s') \<and> raw_view tx (mon_pg s') = Some d' \<and>
    (\<forall>r\<in>set (t_deposit d'). dep_Id r = dep_Id deposit \<longrightarrow> dr_ignore r)"
proof -
  have zero: "dep_BlockNumber deposit = 0"
    using pg_query_InrD [OF assms(1) [unfolded GetDepositsFromOtherL2ToClaim_def]] assms(2) by auto
  have ready: "pg_ready tx (mon_pg s3)"
    using assms(7) on_node_pg [OF assms(3)] on_node_pg [OF assms(4)] on_node_pg [OF assms(5)] by simp
  have "\<exists>u st4. IgnoreDeposit (dep_Id deposit) tx (mon_pg s3) = (Inr u, st4) \<and> pg_ready tx st4"
    unfolding IgnoreDeposit_def by (rule pg_exec_ready [OF ready]) simp
  then obtain u st4 where 4: "IgnoreDeposit (dep_Id deposit) tx (mon_pg s3) = (Inr u, st4)" by blast
  obtain d where "raw_view tx st4 = Some (d\<lparr>t_deposit := map (\<lambda>r. if dep_Id r = dep_Id deposit then r\<lparr>dr_ignore := True\<rparr> else r)
      (t_deposit d)\<rparr>)" using pg_exec_InrD [OF 4 [unfolded IgnoreDeposit_def]] by auto
  thus ?thesis using assms(3-6) zero 4 by (auto simp: addClaimTx_def on_pg_def)
qed

definition sample_other_pg :: pg where
  "sample_other_pg = pg_init\<lparr>pg_committed := empty_db\<lparr>
     t_deposit := [(new_deposit_row 1 (sample_deposit\<lparr>dep_NetworkID := 2\<rparr>))\<lparr>dep_ReadyForClaim := True\<rparr>]\<rparr>\<rparr>"

definition sample_failing :: "int l2_node" where
  "sample_failing = (sample_l2 True)\<lparr>EstimateGas := (\<lambda>m n. (Inl (ErrMsg ''execution reverted''), n))\<rparr>"

theorem other_rollup_deposit_ignored_witness:
  "\<exists>deposit s' d'. fst (GetDepositsFromOtherL2ToClaim 1 NoTx sample_other_pg) = Inr [deposit] \<and>
     addClaimTx sample_failing sample_l1 sample_nonces sample_text sample_ctm_cfg deposit 3 (Some 1) None [7] 77 NoTx
       (sample_ctm\<lparr>mon_pg := sample_other_pg\<rparr>) = (Inr (), s') \<and>
     raw_view NoTx (mon_pg s') = Some d' \<and> (\<forall>r\<in>set (t_deposit d'). dep_Id r = dep_Id deposit \<longrightarrow> dr_ignore r)"
proof -
  let ?s = "sample_ctm\<lparr>mon_pg := sample_other_pg\<rparr>" and ?msg = "\<lparr>msg_From = 3, msg_To = Some 1, msg_Value = None, msg_Data = [7]\<rparr>"
  obtain deposit where 1: "GetDepositsFromOtherL2ToClaim 1 NoTx sample_other_pg = (Inr [deposit], sample_other_pg)"
    by (simp add: GetDepositsFromOtherL2ToClaim_def sample_other_pg_def new_deposit_row_def sample_deposit_def Deposit.defs
        deposit_row.defs order_desc_def pg_run)
  have 2: "on_node (estimate_gas sample_failing (\<lambda>e. error_text e = ''execution reverted'') (cfg_RetryNumber sample_ctm_cfg) ?msg) ?s
      = (Inl (ErrMsg ''execution reverted''), ?s)"
    by (simp add: on_node_def estimate_gas_def sample_failing_def sample_ctm_cfg_def sample_ctm_def)
  have 3: "on_node (L1_BlockNumber sample_l1) ?s = (Inr 500, ?s)" "on_node (L1_BlockByNumber sample_l1 500) ?s = (Inr 500, ?s)"
    by (simp_all add: on_node_def sample_l1_def sample_ctm_def)
  have 4: "cfg_IgnoreDepositAfterXL1Blocks sample_ctm_cfg < 500" by (simp add: sample_ctm_cfg_def)
  have 5: "pg_ready NoTx (mon_pg ?s)" by (simp add: pg_ready_def pg_view_def sample_other_pg_def pg_init_def)
  show ?thesis
    using 1 other_rollup_deposit_ignored [OF 1 _ 2 3 4 5, of deposit sample_nonces sample_text 77] by auto
qed

section \<open>The loop\<close>

text \<open>A goroutine that claims is started only when both networks are synchronized, and they stay so.\<close>

definition run_ok :: "('n, 'k, 'c) ctm_run \<Rightarrow> bool" where
  "run_ok r \<longleftrightarrow> (0 < run_started r \<longrightarrow> run_l1Synced r \<and> run_l2Synced r)"

lemma ctm_step_ok: "ctm_step env r r' \<Longrightarrow> run_ok r \<Longrightarrow> run_ok r' \<and> (run_l1Synced r \<longrightarrow> run_l1Synced r') \<and> (run_l2Synced r \<longrightarrow> run_l2Synced r')"
proof (induction rule: ctm_step.induct)
  case (1 ev r)
  thus ?case by (cases ev) (auto simp: run_ok_def Let_def split: sum.splits prod.splits)
qed (auto simp: run_ok_def)

lemma ctm_reachable_ok: "(ctm_step env)\<^sup>*\<^sup>* (ctm_start s) r \<Longrightarrow> run_ok r"
  by (induction rule: rtranclp_induct) (auto simp: ctm_start_def run_ok_def dest: ctm_step_ok [unfolded run_ok_def])

text \<open>While the exit root of the deposits is not known, nothing is done and the transaction stays open.\<close>

lemma missing_ger_leaves_open:
  assumes "on_pg BeginDBTransaction s = (Inr tx, s1)" and "gather_deposits cfg net ger tx (mon_pg s1) = (Inr None, st)"
  shows "processPendingDeposits K Lru svc N L C E B cfg from net ger s = (Inr (), s1\<lparr>mon_pg := st\<rparr>)"
  using assms by (simp add: processPendingDeposits_def andthen_def guarded_def on_pg_def)

lemma monitorChannel_leaves_open:
  assumes "BeginDBTransaction st = (Inr tx, st1)" and "ger_ExitRoots ger = []"
  shows "monitorChannel net ger st = (Inr (), st1) \<and> pg_open st1 \<noteq> None"
  using assms by (auto simp: monitorChannel_def BeginDBTransaction_def split: prod.splits bool.splits)

end
