(* ===== verification/Auto_Claim.thy ===== *)
theory Auto_Claim
  imports Bridge_Service
begin

text \<open>
  The autoclaim service, \<^verbatim>\<open>autoclaimservice/autoclaim/autoclaim.go\<close> and the calls of
  \<^verbatim>\<open>autoclaimservice/blockchainmanager/manager.go\<close> it makes.

  \<^item> The answers of the bridge service (over HTTP) and of the contracts are the record \<open>ac_world\<close> over a state \<open>'n\<close>.
    \<^verbatim>\<open>getProof\<close>, \<^verbatim>\<open>getProofByGER\<close> and \<^verbatim>\<open>getPendingBridges\<close> fill its first three fields, over the HTTP client and the
    decoder of messages, which are the parameter \<open>http_env\<close> (\<open>http_world\<close>).
  \<^item> A transaction is its hash; the first argument of a claim is the field \<^verbatim>\<open>NoSend\<close> of the authorisation.
  \<^item> A number that can not be read from its text is a nil pointer.
\<close>

section \<open>Definitions\<close>

subsection \<open>\<^verbatim>\<open>Int.SetString\<close> with base 0\<close>

text \<open>What was read before: nothing, a prefix, a digit, an underscore.\<close>

datatype scanned = Nothing_Yet | After_Prefix | After_Digit | After_Underscore

fun scan_digits :: "nat \<Rightarrow> scanned \<Rightarrow> string \<Rightarrow> nat \<Rightarrow> nat option" where
  "scan_digits b p [] n = (if p = After_Digit then Some n else None)"
| "scan_digits b p (c # cs) n =
     (if c = CHR ''_'' then
        if p = After_Prefix \<or> p = After_Digit then scan_digits b After_Underscore cs n else None
      else case nibble c of
             None \<Rightarrow> None
           | Some d \<Rightarrow> if d < b then scan_digits b After_Digit cs (b * n + d) else None)"

definition scan_nat :: "string \<Rightarrow> nat option" where
  "scan_nat s =
     (if s = [] \<or> hd s \<noteq> CHR ''0'' then scan_digits 10 Nothing_Yet s 0
      else if length s = 1 then Some 0
      else let c = s ! 1; rest = drop 2 s in
        if c = CHR ''b'' \<or> c = CHR ''B'' then scan_digits 2 After_Prefix rest 0
        else if c = CHR ''o'' \<or> c = CHR ''O'' then scan_digits 8 After_Prefix rest 0
        else if c = CHR ''x'' \<or> c = CHR ''X'' then scan_digits 16 After_Prefix rest 0
        else scan_digits 8 After_Digit (tl s) 0)"

definition SetString0 :: "string \<Rightarrow> int option" where
  "SetString0 s =
     (if s \<noteq> [] \<and> hd s = CHR ''-'' then map_option (\<lambda>n. - int n) (scan_nat (tl s))
      else if s \<noteq> [] \<and> hd s = CHR ''+'' then map_option int (scan_nat (tl s))
      else map_option int (scan_nat s))"

subsection \<open>The outside\<close>

record claim_call =
  ca_smtProof :: "h256 list"
  ca_smtRollupProof :: "h256 list"
  ca_globalIndex :: "int option"
  ca_mainnetExitRoot :: h256
  ca_rollupExitRoot :: h256
  ca_origNet :: u32
  ca_origAddr :: address
  ca_destNet :: u32
  ca_destAddr :: address
  ca_amount :: "int option"
  ca_metadata :: bytes

record compress_data =
  cd_smtProof :: "h256 list"
  cd_smtRollupProof :: "h256 list"
  cd_globalIndex :: "int option"
  cd_originNetwork :: u32
  cd_originAddress :: address
  cd_destinationAddress :: address
  cd_amount :: "int option"
  cd_metadata :: bytes
  cd_isMessage :: bool

record 'n ac_world =
  ac_getPendingBridges :: "u32 \<Rightarrow> address \<Rightarrow> 'n \<Rightarrow> (pbDeposit list \<times> u64) result \<times> 'n"
  ac_getProof :: "pbDeposit \<Rightarrow> 'n \<Rightarrow> pbProof result \<times> 'n"
  ac_getProofByGER :: "pbDeposit \<Rightarrow> h256 \<Rightarrow> 'n \<Rightarrow> pbProof result \<times> 'n"
  ac_ClaimAsset :: "bool \<Rightarrow> claim_call \<Rightarrow> 'n \<Rightarrow> h256 result \<times> 'n"
  ac_ClaimMessage :: "bool \<Rightarrow> claim_call \<Rightarrow> 'n \<Rightarrow> h256 result \<times> 'n"
  ac_CompressClaim :: "h256 \<Rightarrow> h256 \<Rightarrow> compress_data list \<Rightarrow> 'n \<Rightarrow> bytes result \<times> 'n"
  ac_SendCompressed :: "bytes \<Rightarrow> 'n \<Rightarrow> h256 result \<times> 'n"

record ac_Config =
  ac_BridgeURL :: string
  ac_AuthorizedClaimMessageAddresses :: "address list"
  ac_MaxNumberOfClaimsPerGroup :: int

subsection \<open>Requests to the bridge service\<close>

text \<open>The HTTP client and the decoder of protobuf messages in JSON: a URL that is refused, the status of an answer with its body, which
  may fail to be read, and the messages of a body.\<close>

record 'n http_env =
  http_NewRequest :: "string \<Rightarrow> unit result"
  http_Do :: "string \<Rightarrow> 'n \<Rightarrow> (int \<times> bytes result) result \<times> 'n"
  http_proof :: "bytes \<Rightarrow> pbProof result"
  http_bridges :: "bytes \<Rightarrow> (pbDeposit list \<times> u64) result"

definition http_call :: "'n http_env \<Rightarrow> string \<Rightarrow> 'n \<Rightarrow> (int \<times> bytes result) result \<times> 'n" where
  "http_call H requestURL n = andthen (http_NewRequest H requestURL, n) (\<lambda>_ n1. http_Do H requestURL n1)"

definition proof_url :: "ac_Config \<Rightarrow> pbDeposit \<Rightarrow> string" where
  "proof_url cfg bridge =
     ac_BridgeURL cfg @ ''/merkle-proof?net_id='' @ nat_text 10 (unat (pd_NetworkId bridge)) @
     ''&deposit_cnt='' @ nat_text 10 (unat (pd_DepositCnt bridge))"

definition ac_call_getProof :: "'n http_env \<Rightarrow> ac_Config \<Rightarrow> pbDeposit \<Rightarrow> 'n \<Rightarrow> pbProof result \<times> 'n" where
  "ac_call_getProof H cfg bridge n =
     andthen (http_call H (proof_url cfg bridge) n) (\<lambda>(status, body) n1.
       if status = 200 then andthen (body, n1) (\<lambda>bodyBytes n2. (http_proof H bodyBytes, n2))
       else (Inl (ErrMsg ''error calling /merkle-proof endpoint''), n1))"

definition proof_by_ger_url :: "eth_text \<Rightarrow> ac_Config \<Rightarrow> pbDeposit \<Rightarrow> h256 \<Rightarrow> string" where
  "proof_by_ger_url E cfg bridge ger =
     ac_BridgeURL cfg @ ''/merkle-proof-by-ger?net_id='' @ nat_text 10 (unat (pd_NetworkId bridge)) @
     ''&deposit_cnt='' @ nat_text 10 (unat (pd_DepositCnt bridge)) @ ''&ger='' @ HashHex E ger"

definition ac_call_getProofByGER :: "'n http_env \<Rightarrow> eth_text \<Rightarrow> ac_Config \<Rightarrow> pbDeposit \<Rightarrow> h256 \<Rightarrow> 'n \<Rightarrow> pbProof result \<times> 'n" where
  "ac_call_getProofByGER H E cfg bridge ger n =
     andthen (http_call H (proof_by_ger_url E cfg bridge ger) n) (\<lambda>(status, body) n1.
       if status = 200 then andthen (body, n1) (\<lambda>bodyBytes n2. (http_proof H bodyBytes, n2))
       else (Inl (ErrMsg ''error calling merkle-proof-by-ger endpoint''), n1))"

text \<open>\<^verbatim>\<open>getPendingBridges\<close> has no branch for another status: it decodes an empty body then.\<close>

definition pending_url :: "eth_text \<Rightarrow> ac_Config \<Rightarrow> u32 \<Rightarrow> u32 \<Rightarrow> address \<Rightarrow> string" where
  "pending_url E cfg destNetwork leafType destAddress =
     ac_BridgeURL cfg @ ''/pending-bridges?dest_net='' @ nat_text 10 (unat destNetwork) @ ''&leaf_type='' @ nat_text 10 (unat leafType) @
     ''&dest_addr='' @ AddressHex E destAddress"

definition ac_call_getPendingBridges :: "'n http_env \<Rightarrow> eth_text \<Rightarrow> ac_Config \<Rightarrow> u32 \<Rightarrow> u32 \<Rightarrow> address \<Rightarrow> 'n
    \<Rightarrow> (pbDeposit list \<times> u64) result \<times> 'n" where
  "ac_call_getPendingBridges H E cfg networkID leafType destAddress n =
     andthen (http_call H (pending_url E cfg networkID leafType destAddress) n) (\<lambda>(status, body) n1.
     andthen (if status = 200 then body else Inr [], n1) (\<lambda>bodyBytes n2. (http_bridges H bodyBytes, n2)))"

text \<open>The methods of \<^verbatim>\<open>autoclaim\<close> over the contracts of \<open>W\<close>.\<close>

definition http_world :: "'n http_env \<Rightarrow> eth_text \<Rightarrow> ac_Config \<Rightarrow> u32 \<Rightarrow> 'n ac_world \<Rightarrow> 'n ac_world" where
  "http_world H E cfg networkID W =
     W\<lparr>ac_getPendingBridges := ac_call_getPendingBridges H E cfg networkID,
       ac_getProof := ac_call_getProof H cfg, ac_getProofByGER := ac_call_getProofByGER H E cfg\<rparr>"

subsection \<open>The blockchain manager\<close>

text \<open>A leaf that is neither an asset nor a message is not claimed: no transaction and no error, \<open>None\<close>.\<close>

definition bm_claim :: "'n ac_world \<Rightarrow> bool \<Rightarrow> u32 \<Rightarrow> claim_call \<Rightarrow> 'n \<Rightarrow> (h256 option) result \<times> 'n" where
  "bm_claim W noSend leafType args n =
     (if leafType = 0 then andthen (ac_ClaimAsset W noSend args n) (\<lambda>tx n1. (Inr (Some tx), n1))
      else if leafType = 1 then andthen (ac_ClaimMessage W noSend args n) (\<lambda>tx n1. (Inr (Some tx), n1))
      else (Inr None, n))"

definition SendClaim :: "'n ac_world \<Rightarrow> u32 \<Rightarrow> claim_call \<Rightarrow> 'n \<Rightarrow> (h256 option) result \<times> 'n" where
  "SendClaim W leafType args n = bm_claim W False leafType args n"

definition EstimateGasClaim :: "'n ac_world \<Rightarrow> u32 \<Rightarrow> claim_call \<Rightarrow> 'n \<Rightarrow> (h256 option) result \<times> 'n" where
  "EstimateGasClaim W leafType args n = rewording ''failed to estimate gas tx'' (bm_claim W True leafType args n)"

definition bm_CompressClaimCall :: "'n ac_world \<Rightarrow> h256 \<Rightarrow> h256 \<Rightarrow> compress_data list \<Rightarrow> 'n \<Rightarrow> bytes result \<times> 'n" where
  "bm_CompressClaimCall W mainnetExitRoot rollupExitRoot claimData n =
     (case ac_CompressClaim W mainnetExitRoot rollupExitRoot claimData n of
        (Inl e, n1) \<Rightarrow> (Inr [], n1)
      | (Inr compressedData, n1) \<Rightarrow> (Inr compressedData, n1))"

definition bm_SendCompressedClaims :: "'n ac_world \<Rightarrow> bytes \<Rightarrow> 'n \<Rightarrow> h256 result \<times> 'n" where
  "bm_SendCompressedClaims W compressedTxData n = ac_SendCompressed W compressedTxData n"

subsection \<open>Claiming one by one\<close>

fun authorized_bridges :: "'n ac_world \<Rightarrow> address list \<Rightarrow> 'n \<Rightarrow> (pbDeposit list) result \<times> 'n" where
  "authorized_bridges W [] n = (Inr [], n)"
| "authorized_bridges W (addr # addrs) n =
     andthen (ac_getPendingBridges W 1 addr n) (\<lambda>(authorizedBridges, _) n1.
     andthen (authorized_bridges W addrs n1) (\<lambda>rest n2. (Inr (authorizedBridges @ rest), n2)))"

definition getBridgesToClaim :: "'n ac_world \<Rightarrow> ac_Config \<Rightarrow> 'n \<Rightarrow> (pbDeposit list) result \<times> 'n" where
  "getBridgesToClaim W cfg n =
     andthen (ac_getPendingBridges W 0 0 n) (\<lambda>(bridges, _) n1.
     andthen (authorized_bridges W (ac_AuthorizedClaimMessageAddresses cfg) n1) (\<lambda>rest n2. (Inr (bridges @ rest), n2)))"

fun all_proofs :: "'n ac_world \<Rightarrow> pbDeposit list \<Rightarrow> 'n \<Rightarrow> (pbProof list) result \<times> 'n" where
  "all_proofs W [] n = (Inr [], n)"
| "all_proofs W (b # bs) n =
     andthen (ac_getProof W b n) (\<lambda>p n1.
     andthen (all_proofs W bs n1) (\<lambda>ps n2. (Inr (p # ps), n2)))"

text \<open>The texts of a proof in arrays of 32 hashes; an index out of range panics.\<close>

definition proof_arrays :: "eth_text \<Rightarrow> pbProof \<Rightarrow> (h256 list \<times> h256 list) result" where
  "proof_arrays E p =
     (let k = length (pp_MerkleProof p) in
      if 32 < k \<or> length (pp_RollupMerkleProof p) < k then Inl GoPanic
      else Inr (map (HexToHash E) (pp_MerkleProof p) @ replicate (32 - k) 0,
                map (HexToHash E) (take k (pp_RollupMerkleProof p)) @ replicate (32 - k) 0))"

definition bridge_call :: "eth_text \<Rightarrow> pbDeposit \<Rightarrow> h256 list \<times> h256 list \<Rightarrow> h256 \<Rightarrow> h256 \<Rightarrow> claim_call" where
  "bridge_call E b proofs mainnetExitRoot rollupExitRoot =
     \<lparr>ca_smtProof = fst proofs, ca_smtRollupProof = snd proofs, ca_globalIndex = SetString0 (pd_GlobalIndex b),
      ca_mainnetExitRoot = mainnetExitRoot, ca_rollupExitRoot = rollupExitRoot, ca_origNet = pd_OrigNet b,
      ca_origAddr = HexToAddress E (pd_OrigAddr b), ca_destNet = pd_DestNet b, ca_destAddr = HexToAddress E (pd_DestAddr b),
      ca_amount = SetString0 (pd_Amount b), ca_metadata = FromHex E (pd_Metadata b)\<rparr>"

text \<open>A claim that fails is only logged; the hash of the transaction that was sent is printed.\<close>

fun individual_loop :: "'n ac_world \<Rightarrow> eth_text \<Rightarrow> (pbDeposit \<times> pbProof) list \<Rightarrow> 'n \<Rightarrow> unit result \<times> 'n" where
  "individual_loop W E [] n = (Inr (), n)"
| "individual_loop W E ((b, p) # rest) n =
     (case proof_arrays E p of
        Inl e \<Rightarrow> (Inl e, n)
      | Inr proofs \<Rightarrow>
          (case SendClaim W (pd_LeafType b) (bridge_call E b proofs (HexToHash E (pp_MainExitRoot p)) (HexToHash E (pp_RollupExitRoot p))) n of
             (Inl e, n1) \<Rightarrow> individual_loop W E rest n1
           | (Inr None, n1) \<Rightarrow> (Inl GoPanic, n1)
           | (Inr (Some tx), n1) \<Rightarrow> individual_loop W E rest n1))"

definition claimIndividually :: "'n ac_world \<Rightarrow> eth_text \<Rightarrow> ac_Config \<Rightarrow> 'n \<Rightarrow> unit result \<times> 'n" where
  "claimIndividually W E cfg n =
     andthen (getBridgesToClaim W cfg n) (\<lambda>bridges n1.
       if bridges = [] then (Inr (), n1)
       else
         andthen (all_proofs W bridges n1) (\<lambda>proofs n2.
           if length bridges \<noteq> length proofs then (Inl (ErrMsg ''bridges length and proofs length dont match''), n2)
           else individual_loop W E (zip bridges proofs) n2))"

subsection \<open>Claiming in groups\<close>

text \<open>\<^verbatim>\<open>arraySplitter\<close>: \<open>None\<close> is a loop that does not end, a negative size panics.\<close>

partial_function (option) arraySplitter :: "int \<Rightarrow> 'a list \<Rightarrow> (('a list list) result) option" where
  "arraySplitter sz arr =
     (if arr = [] then Some (Inr [])
      else let sz' = (if int (length arr) < sz then int (length arr) else sz) in
        if sz' < 0 then Some (Inl GoPanic)
        else Option.bind (arraySplitter sz' (drop (nat sz') arr))
               (\<lambda>rest. Some (map_sum id (\<lambda>chunks. take (nat sz') arr # chunks) rest)))"

definition split_chunks :: "int \<Rightarrow> 'a list \<Rightarrow> ('a list list) result" where
  "split_chunks sz arr = (case arraySplitter sz arr of None \<Rightarrow> Inl ErrNoReturn | Some r \<Rightarrow> r)"

definition ac_hash :: "keccak \<Rightarrow> h256 \<Rightarrow> h256 \<Rightarrow> h256" where
  "ac_hash K a b = Hash K [a, b]"

fun proofs_by_ger :: "'n ac_world \<Rightarrow> h256 \<Rightarrow> pbDeposit list \<Rightarrow> 'n \<Rightarrow> (pbProof list) result \<times> 'n" where
  "proofs_by_ger W ger [] n = (Inr [], n)"
| "proofs_by_ger W ger (b # bs) n =
     andthen (ac_getProofByGER W b ger n) (\<lambda>p n1.
     andthen (proofs_by_ger W ger bs n1) (\<lambda>ps n2. (Inr (p # ps), n2)))"

text \<open>The claims of a chunk whose gas can be estimated.\<close>

fun chunk_claims :: "'n ac_world \<Rightarrow> eth_text \<Rightarrow> h256 \<Rightarrow> h256 \<Rightarrow> (pbDeposit \<times> pbProof) list \<Rightarrow> 'n \<Rightarrow> (compress_data list) result \<times> 'n" where
  "chunk_claims W E mainnetExitRoot rollupExitRoot [] n = (Inr [], n)"
| "chunk_claims W E mainnetExitRoot rollupExitRoot ((b, p) # rest) n =
     (case proof_arrays E p of
        Inl e \<Rightarrow> (Inl e, n)
      | Inr proofs \<Rightarrow>
          let args = bridge_call E b proofs mainnetExitRoot rollupExitRoot in
          (case EstimateGasClaim W (pd_LeafType b) args n of
             (Inl e, n1) \<Rightarrow> chunk_claims W E mainnetExitRoot rollupExitRoot rest n1
           | (Inr _, n1) \<Rightarrow>
               andthen (chunk_claims W E mainnetExitRoot rollupExitRoot rest n1) (\<lambda>claims n2.
                 (Inr (\<lparr>cd_smtProof = ca_smtProof args, cd_smtRollupProof = ca_smtRollupProof args, cd_globalIndex = ca_globalIndex args,
                        cd_originNetwork = ca_origNet args, cd_originAddress = ca_origAddr args,
                        cd_destinationAddress = ca_destAddr args, cd_amount = ca_amount args, cd_metadata = ca_metadata args,
                        cd_isMessage = (pd_LeafType b = 1)\<rparr> # claims), n2))))"

fun chunk_loop :: "'n ac_world \<Rightarrow> eth_text \<Rightarrow> h256 \<Rightarrow> h256 \<Rightarrow> ((pbDeposit \<times> pbProof) list) list \<Rightarrow> 'n \<Rightarrow> unit result \<times> 'n" where
  "chunk_loop W E mainnetExitRoot rollupExitRoot [] n = (Inr (), n)"
| "chunk_loop W E mainnetExitRoot rollupExitRoot (chunk # chunks) n =
     andthen (chunk_claims W E mainnetExitRoot rollupExitRoot chunk n) (\<lambda>allClaimData n1.
       if allClaimData = [] then (Inr (), n1)
       else
         andthen (bm_CompressClaimCall W mainnetExitRoot rollupExitRoot allClaimData n1) (\<lambda>compressedTxData n2.
         andthen (bm_SendCompressedClaims W compressedTxData n2) (\<lambda>tx n3.
           chunk_loop W E mainnetExitRoot rollupExitRoot chunks n3)))"

definition claimGrouped :: "keccak \<Rightarrow> 'n ac_world \<Rightarrow> eth_text \<Rightarrow> ac_Config \<Rightarrow> 'n \<Rightarrow> unit result \<times> 'n" where
  "claimGrouped K W E cfg n =
     andthen (getBridgesToClaim W cfg n) (\<lambda>bridges n1.
       case bridges of
         [] \<Rightarrow> (Inr (), n1)
       | b # bs \<Rightarrow>
           andthen (ac_getProof W b n1) (\<lambda>p n2.
             let mainnetExitRoot = HexToHash E (pp_MainExitRoot p); rollupExitRoot = HexToHash E (pp_RollupExitRoot p);
                 ger = ac_hash K mainnetExitRoot rollupExitRoot in
             andthen (proofs_by_ger W ger bs n2) (\<lambda>ps n3.
               let proofs = p # ps in
               if length bridges \<noteq> length proofs then (Inl (ErrMsg ''bridges length and proofs length dont match''), n3)
               else
                 andthen (split_chunks (ac_MaxNumberOfClaimsPerGroup cfg) bridges, n3) (\<lambda>splittedBridges n4.
                 andthen (split_chunks (ac_MaxNumberOfClaimsPerGroup cfg) proofs, n4) (\<lambda>splittedProofs n5.
                   chunk_loop W E mainnetExitRoot rollupExitRoot (map2 zip splittedBridges splittedProofs) n5)))))"

text \<open>One tick of \<^verbatim>\<open>Start\<close>.\<close>

definition autoclaim_tick :: "keccak \<Rightarrow> 'n ac_world \<Rightarrow> eth_text \<Rightarrow> bool \<Rightarrow> ac_Config \<Rightarrow> 'n \<Rightarrow> unit result \<times> 'n" where
  "autoclaim_tick K W E hasClaimCompressor cfg n =
     (if ac_MaxNumberOfClaimsPerGroup cfg = 0 \<or> \<not> hasClaimCompressor then claimIndividually W E cfg n
      else claimGrouped K W E cfg n)"

section \<open>Texts of numbers\<close>

text \<open>The decimal text of a number is read back by \<^verbatim>\<open>SetString\<close> with base 0: no leading zero makes it octal.\<close>

lemma digit_not_underscore: "d < 16 \<Longrightarrow> digit_char d \<noteq> CHR ''_''"
proof
  assume "d < 16" and "digit_char d = CHR ''_''"
  with nibble_digit [of d] have "nibble CHR ''_'' = Some d" by simp
  thus False by (simp add: nibble_def Let_def)
qed

lemma scan_digits_snoc:
  assumes "\<forall>x\<in>set ds. x < 10" and "d < 10"
  shows "scan_digits 10 p (map digit_char (ds @ [d])) n =
    (case scan_digits 10 After_Digit (map digit_char ds) n of None \<Rightarrow> None | Some m \<Rightarrow> Some (10 * m + d))"
  using assms by (induction ds arbitrary: p n) (simp_all add: digit_not_underscore)

lemma digits_less: "1 < b \<Longrightarrow> x \<in> set (digits b n) \<Longrightarrow> x < b"
proof (induction b n rule: digits.induct)
  case (1 b n)
  thus ?case by (auto simp: digits.simps [of b n] split: if_splits)
qed

lemma scan_digits_start: "s \<noteq> [] \<Longrightarrow> hd s \<noteq> CHR ''_'' \<Longrightarrow> scan_digits b p s n = scan_digits b q s n"
  by (cases s) simp_all

lemma scan_digits_text: "scan_digits 10 p (nat_text 10 n) 0 = Some n"
proof (induction "10::nat" n arbitrary: p rule: digits.induct)
  case (1 n)
  show ?case
  proof (cases "n < 10")
    case True
    thus ?thesis by (simp add: nat_text_def digits.simps [of 10 n] digit_not_underscore)
  next
    case False
    with 1 have "scan_digits 10 After_Digit (nat_text 10 (n div 10)) 0 = Some (n div 10)" by simp
    moreover have "\<forall>x\<in>set (digits 10 (n div 10)). x < 10" using digits_less [of 10] by simp
    ultimately show ?thesis using False
      by (simp add: nat_text_def digits.simps [of 10 n] scan_digits_snoc del: map_append)
  qed
qed

lemma hd_digits: "0 < n \<Longrightarrow> 1 < b \<Longrightarrow> hd (digits b n) \<noteq> 0"
proof (induction b n rule: digits.induct)
  case (1 b n)
  thus ?case by (subst digits.simps) (auto simp: hd_append div_greater_zero_iff)
qed

lemma digit_char_zero: "d < 16 \<Longrightarrow> digit_char d = CHR ''0'' \<longleftrightarrow> d = 0"
proof
  assume "d < 16" and "digit_char d = CHR ''0''"
  with nibble_digit [of d] have "nibble CHR ''0'' = Some d" by simp
  thus "d = 0" by (simp add: nibble_def Let_def)
qed (simp add: digit_char_def)

lemma hd_nat_text: "hd (nat_text 10 n) = digit_char (hd (digits 10 n))" and hd_digits_less: "hd (digits 10 n) < 10"
  using digits_less [of 10 "hd (digits 10 n)" n] by (simp_all add: nat_text_def hd_map)

lemma scan_nat_text: "scan_nat (nat_text 10 n) = Some n"
proof (cases "n = 0")
  case True
  thus ?thesis by (simp add: scan_nat_def nat_text_def digits.simps [of 10 0] digit_char_def)
next
  case False
  hence "hd (nat_text 10 n) \<noteq> CHR ''0''"
    using hd_digits [of n 10] hd_digits_less [of n] by (simp add: hd_nat_text digit_char_zero)
  thus ?thesis by (simp add: scan_nat_def scan_digits_text)
qed

lemma nibble_hd_text: "nibble (hd (nat_text 10 n)) = Some (hd (digits 10 n))"
  using hd_digits_less [of n] by (simp add: hd_nat_text)

lemma SetString0_text: "SetString0 (int_text 10 i) = Some i"
proof (cases "i < 0")
  case True
  thus ?thesis by (simp add: SetString0_def int_text_def scan_nat_text)
next
  case False
  have "hd (nat_text 10 (nat i)) \<notin> {CHR ''-'', CHR ''+''}"
    using nibble_hd_text [of "nat i"] by (auto simp: nibble_def Let_def)
  thus ?thesis using False by (simp add: SetString0_def int_text_def scan_nat_text)
qed

section \<open>Splitting\<close>

text \<open>The chunks of \<open>k\<close> elements, the last one shorter.\<close>

function chunks_of :: "nat \<Rightarrow> 'a list \<Rightarrow> 'a list list" where
  "chunks_of k xs = (if xs = [] \<or> k = 0 then [] else take k xs # chunks_of k (drop k xs))"
  by pat_completeness auto
termination by (relation "measure (length \<circ> snd)") auto

declare chunks_of.simps [simp del]

lemma chunks_of_Nil [simp]: "chunks_of k [] = []"
  by (simp add: chunks_of.simps)

lemma chunks_of_all: "xs \<noteq> [] \<Longrightarrow> length xs \<le> k \<Longrightarrow> chunks_of k xs = [xs]"
  by (cases xs) (simp_all add: chunks_of.simps)

lemma arraySplitter_chunks: "0 < sz \<Longrightarrow> arraySplitter sz arr = Some (Inr (chunks_of (nat sz) arr))"
proof (induction "length arr" arbitrary: arr sz rule: less_induct)
  case less
  show ?case
  proof (cases "arr = []")
    case True
    thus ?thesis by (simp add: arraySplitter.simps)
  next
    case False
    have Nil: "arraySplitter k ([] :: 'a list) = Some (Inr [])" for k by (simp add: arraySplitter.simps)
    show ?thesis
    proof (cases "int (length arr) < sz")
      case True
      thus ?thesis using False Nil by (subst arraySplitter.simps) (simp add: chunks_of_all)
    next
      case short: False
      have "length (drop (nat sz) arr) < length arr" using False less.prems by simp
      from less.hyps [OF this less.prems] show ?thesis using False short less.prems
        by (subst arraySplitter.simps, subst chunks_of.simps) simp
    qed
  qed
qed

lemma chunks_of_concat: "0 < k \<Longrightarrow> concat (chunks_of k xs) = xs"
  by (induction k xs rule: chunks_of.induct) (subst chunks_of.simps, auto)

lemma chunks_of_zip:
  assumes "length xs = length ys"
  shows "map2 zip (chunks_of k xs) (chunks_of k ys) = chunks_of k (zip xs ys)"
  using assms
proof (induction k xs arbitrary: ys rule: chunks_of.induct)
  case (1 k xs)
  show ?case
  proof (cases "xs = [] \<or> k = 0")
    case True
    thus ?thesis using 1 by (auto simp: chunks_of.simps)
  next
    case False
    hence "ys \<noteq> []" "zip xs ys \<noteq> []" using 1 by (auto simp: zip_eq_Nil_iff)
    thus ?thesis using False 1 by (subst (1 2 3) chunks_of.simps) (simp add: take_zip drop_zip)
  qed
qed

text \<open>With a positive size the chunks hold every bridge with its proof, in order.\<close>

lemma split_chunks_zip:
  assumes "0 < sz" and "length bridges = length proofs"
  shows "split_chunks sz bridges = Inr (chunks_of (nat sz) bridges)" and "split_chunks sz proofs = Inr (chunks_of (nat sz) proofs)"
    and "map2 zip (chunks_of (nat sz) bridges) (chunks_of (nat sz) proofs) = chunks_of (nat sz) (zip bridges proofs)"
    and "concat (chunks_of (nat sz) (zip bridges proofs)) = zip bridges proofs"
  using assms by (simp_all add: split_chunks_def arraySplitter_chunks chunks_of_zip chunks_of_concat)

section \<open>A chunk without claims\<close>

text \<open>No claim of the chunk passes the estimation of its gas.\<close>

definition dead_chunk :: "'n ac_world \<Rightarrow> eth_text \<Rightarrow> h256 \<Rightarrow> h256 \<Rightarrow> (pbDeposit \<times> pbProof) list \<Rightarrow> bool" where
  "dead_chunk W E mainnetExitRoot rollupExitRoot chunk \<longleftrightarrow>
     (\<forall>(b, p)\<in>set chunk. \<exists>proofs. proof_arrays E p = Inr proofs \<and>
        (\<forall>n. \<exists>e. fst (EstimateGasClaim W (pd_LeafType b) (bridge_call E b proofs mainnetExitRoot rollupExitRoot) n) = Inl e))"

lemma dead_chunk_claims:
  "dead_chunk W E m r chunk \<Longrightarrow> \<exists>n'. chunk_claims W E m r chunk n = (Inr [], n')"
proof (induction chunk arbitrary: n)
  case (Cons bp chunk)
  obtain b p where bp: "bp = (b, p)" by fastforce
  obtain proofs where p: "proof_arrays E p = Inr proofs"
    and dead: "\<forall>n. \<exists>e. fst (EstimateGasClaim W (pd_LeafType b) (bridge_call E b proofs m r) n) = Inl e"
    using Cons.prems bp by (auto simp: dead_chunk_def)
  obtain e n1 where e: "EstimateGasClaim W (pd_LeafType b) (bridge_call E b proofs m r) n = (Inl e, n1)"
    using dead by (metis prod.collapse)
  have "dead_chunk W E m r chunk" using Cons.prems by (simp add: dead_chunk_def)
  from Cons.IH [OF this, of n1] show ?case using bp p e by (simp add: Let_def)
qed simp

lemma chunk_claims_no_send: "chunk_claims (W\<lparr>ac_SendCompressed := f\<rparr>) E m r chunk n = chunk_claims W E m r chunk n"
proof (induction chunk arbitrary: n)
  case (Cons bp chunk)
  have "EstimateGasClaim (W\<lparr>ac_SendCompressed := f\<rparr>) l args k = EstimateGasClaim W l args k" for l args k
    by (simp add: EstimateGasClaim_def bm_claim_def)
  thus ?case using Cons by (cases bp) (simp add: Let_def split: sum.splits prod.splits)
qed simp

section \<open>Properties\<close>

text \<open>C35. A chunk in which no claim passes the estimation of its gas ends the pass of grouped claims without an error: whatever the chunks
  behind it hold, nothing of them is estimated, compressed or sent, so claims that can be made wait behind claims that can not.\<close>

theorem dead_chunk_ends_pass:
  assumes "dead_chunk W E m r chunk"
  shows "\<exists>n'. \<forall>chunks f. chunk_loop (W\<lparr>ac_SendCompressed := f\<rparr>) E m r (chunk # chunks) n = (Inr (), n')"
proof -
  obtain n' where "chunk_claims W E m r chunk n = (Inr [], n')" using dead_chunk_claims [OF assms] by blast
  thus ?thesis by (simp add: chunk_claims_no_send andthen_def)
qed

definition sample_bridge :: pbDeposit where
  "sample_bridge = \<lparr>pd_LeafType = 0, pd_OrigNet = 0, pd_OrigAddr = [], pd_Amount = ''10'', pd_DestNet = 1, pd_DestAddr = [],
     pd_BlockNum = 0, pd_DepositCnt = 0, pd_NetworkId = 0, pd_TxHash = [], pd_ClaimTxHash = [], pd_Metadata = [],
     pd_ReadyForClaim = True, pd_GlobalIndex = ''0x10''\<rparr>"

definition sample_proof :: pbProof where
  "sample_proof = \<lparr>pp_RollupMerkleProof = [''00''], pp_MerkleProof = [''00''], pp_MainExitRoot = [], pp_RollupExitRoot = []\<rparr>"

text \<open>A world where only the second deposit can be claimed; the state counts what was sent.\<close>

definition sample_world :: "nat ac_world" where
  "sample_world = \<lparr>ac_getPendingBridges = (\<lambda>l a n. (Inr (if l = 0 then [sample_bridge, sample_bridge\<lparr>pd_DestNet := 2\<rparr>] else [], 2), n)),
     ac_getProof = (\<lambda>b n. (Inr sample_proof, n)), ac_getProofByGER = (\<lambda>b g n. (Inr sample_proof, n)),
     ac_ClaimAsset = (\<lambda>s args n. (if ca_destNet args = 2 then Inr 1 else Inl (ErrMsg ''execution reverted''), n)),
     ac_ClaimMessage = (\<lambda>s args n. (Inr 1, n)), ac_CompressClaim = (\<lambda>_ _ c n. (Inr [1], n)),
     ac_SendCompressed = (\<lambda>d n. (Inr 1, Suc n))\<rparr>"

lemmas autoclaim_run = claimGrouped_def getBridgesToClaim_def andthen_def split_chunks_def arraySplitter_chunks chunks_of.simps proof_arrays_def
  EstimateGasClaim_def bm_claim_def rewording_def reword_def bridge_call_def bm_CompressClaimCall_def bm_SendCompressedClaims_def Let_def
  sample_world_def sample_bridge_def sample_proof_def

theorem dead_chunk_ends_pass_witness:
  "dead_chunk sample_world sample_text 0 0 [(sample_bridge, sample_proof)] \<and>
   (\<exists>n'. \<forall>chunks f. chunk_loop (sample_world\<lparr>ac_SendCompressed := f\<rparr>) sample_text 0 0 ([(sample_bridge, sample_proof)] # chunks) 0 = (Inr (), n')) \<and>
   claimGrouped (\<lambda>_. 9) sample_world sample_text \<lparr>ac_BridgeURL = '''', ac_AuthorizedClaimMessageAddresses = [], ac_MaxNumberOfClaimsPerGroup = 1\<rparr> 0 = (Inr (), 0) \<and>
   claimGrouped (\<lambda>_. 9) sample_world sample_text \<lparr>ac_BridgeURL = '''', ac_AuthorizedClaimMessageAddresses = [], ac_MaxNumberOfClaimsPerGroup = 2\<rparr> 0 = (Inr (), 1)"
proof (intro conjI)
  show dead: "dead_chunk sample_world sample_text 0 0 [(sample_bridge, sample_proof)]"
    by (simp add: dead_chunk_def autoclaim_run)
  show "\<exists>n'. \<forall>chunks f. chunk_loop (sample_world\<lparr>ac_SendCompressed := f\<rparr>) sample_text 0 0 ([(sample_bridge, sample_proof)] # chunks) 0 = (Inr (), n')"
    by (rule dead_chunk_ends_pass [OF dead])
qed (simp_all add: autoclaim_run)

end
