(* ===== verification/Metrics.thy ===== *)
theory Metrics
  imports Hex
begin

text \<open>
  The metrics of the services.

  \<^item> \<^verbatim>\<open>metrics/prometheus.go\<close>: the package state \<open>metrics\<close> with one map from names to metrics for
    each of the six kinds, the registration and removal of metrics and the updates by name. The
    Prometheus client library is a parameter (\<open>prom\<close>): it makes metrics, registers and removes
    them and applies the updates; \<open>prom_ok\<close> states what its documentation promises, over three
    views of its state. A panic of the library is the result \<open>GoPanic\<close>.
  \<^item> \<^verbatim>\<open>etherman/metrics\<close>, \<^verbatim>\<open>synchronizer/metrics\<close> and \<^verbatim>\<open>server/metrics\<close>: the metrics the components
    register and the calls with which they update them.

  A \<open>float64\<close> is the expression that computes it. The mutex makes each registration and lookup one
  step; the library's own updates are atomic.

  The laws the six kinds share are proved in the locale \<open>metric_map\<close>, interpreted on each of the
  maps. The names in the maps are registered, belong to one map only and lead to the metric created
  for them, in every state the program can reach.
\<close>

section \<open>The Prometheus library\<close>

datatype metric_kind = KGauge | KCounter | KCounterVec | KHistogram | KHistogramVec | KSummary

datatype float64 = Of_uint64 u64 | Of_int64 "64 word" | Of_big int | Float_div float64 float64

record metric_opts =
  o_Name :: string
  o_Help :: string
  o_Labels :: "string list"

datatype update =
    Set_to float64
  | Increment
  | Decrement
  | Add_to float64
  | Observe float64
  | WithLabelValues string update

record 'w prom =
  p_New :: "metric_kind \<Rightarrow> metric_opts \<Rightarrow> 'w \<Rightarrow> nat result \<times> 'w"
  p_MustRegister :: "nat \<Rightarrow> 'w \<Rightarrow> unit result \<times> 'w"
  p_Unregister :: "nat \<Rightarrow> 'w \<Rightarrow> bool \<times> 'w"
  p_Update :: "nat \<Rightarrow> update \<Rightarrow> 'w \<Rightarrow> unit result \<times> 'w"

section \<open>The package state\<close>

record 'w metrics =
  registerer :: 'w
  gauges :: "string \<rightharpoonup> nat"
  counters :: "string \<rightharpoonup> nat"
  counterVecs :: "string \<rightharpoonup> nat"
  histograms :: "string \<rightharpoonup> nat"
  histogramVecs :: "string \<rightharpoonup> nat"
  summaries :: "string \<rightharpoonup> nat"
  initialized :: bool
  initOnce :: bool

definition Init :: "'w metrics \<Rightarrow> 'w metrics" where
  "Init m = (if initOnce m then m
     else m\<lparr>gauges := Map.empty, counters := Map.empty, counterVecs := Map.empty,
            histograms := Map.empty, histogramVecs := Map.empty, summaries := Map.empty,
            initialized := True, initOnce := True\<rparr>)"

text \<open>The six functions that register one metric have the same body but for the map and the
  constructor, and so have the six that remove one.\<close>

definition register_if_not_exists ::
    "'w prom \<Rightarrow> metric_kind \<Rightarrow> ('w metrics \<Rightarrow> string \<rightharpoonup> nat) \<Rightarrow>
     (((string \<rightharpoonup> nat) \<Rightarrow> (string \<rightharpoonup> nat)) \<Rightarrow> 'w metrics \<Rightarrow> 'w metrics) \<Rightarrow>
     metric_opts \<Rightarrow> 'w metrics \<Rightarrow> unit result \<times> 'w metrics" where
  "register_if_not_exists P k get put options m =
    (if get m (o_Name options) \<noteq> None then (Inr (), m)
     else case p_New P k options (registerer m) of
       (Inl e, w) \<Rightarrow> (Inl e, m\<lparr>registerer := w\<rparr>)
     | (Inr metric, w) \<Rightarrow>
       (case p_MustRegister P metric w of
          (Inl e, w') \<Rightarrow> (Inl e, m\<lparr>registerer := w'\<rparr>)
        | (Inr _, w') \<Rightarrow>
          (Inr (), put (\<lambda>f. f(o_Name options \<mapsto> metric)) (m\<lparr>registerer := w'\<rparr>))))"

definition unregister_if_exists ::
    "'w prom \<Rightarrow> ('w metrics \<Rightarrow> string \<rightharpoonup> nat) \<Rightarrow>
     (((string \<rightharpoonup> nat) \<Rightarrow> (string \<rightharpoonup> nat)) \<Rightarrow> 'w metrics \<Rightarrow> 'w metrics) \<Rightarrow>
     string \<Rightarrow> 'w metrics \<Rightarrow> 'w metrics" where
  "unregister_if_exists P get put name m =
    (case get m name of
       None \<Rightarrow> m
     | Some metric \<Rightarrow>
       (case p_Unregister P metric (registerer m) of
          (False, w) \<Rightarrow> m\<lparr>registerer := w\<rparr>
        | (True, w) \<Rightarrow> put (\<lambda>f. f(name := None)) (m\<lparr>registerer := w\<rparr>)))"

definition registerGaugeIfNotExists :: "'w prom \<Rightarrow> metric_opts \<Rightarrow> 'w metrics \<Rightarrow> unit result \<times> 'w metrics" where
  "registerGaugeIfNotExists P = register_if_not_exists P KGauge gauges gauges_update"

definition unregisterGaugeIfExists :: "'w prom \<Rightarrow> string \<Rightarrow> 'w metrics \<Rightarrow> 'w metrics" where
  "unregisterGaugeIfExists P = unregister_if_exists P gauges gauges_update"

definition registerCounterIfNotExists :: "'w prom \<Rightarrow> metric_opts \<Rightarrow> 'w metrics \<Rightarrow> unit result \<times> 'w metrics" where
  "registerCounterIfNotExists P = register_if_not_exists P KCounter counters counters_update"

definition unregisterCounterIfExists :: "'w prom \<Rightarrow> string \<Rightarrow> 'w metrics \<Rightarrow> 'w metrics" where
  "unregisterCounterIfExists P = unregister_if_exists P counters counters_update"

definition registerCounterVecIfNotExists :: "'w prom \<Rightarrow> metric_opts \<Rightarrow> 'w metrics \<Rightarrow> unit result \<times> 'w metrics" where
  "registerCounterVecIfNotExists P = register_if_not_exists P KCounterVec counterVecs counterVecs_update"

definition unregisterCounterVecIfExists :: "'w prom \<Rightarrow> string \<Rightarrow> 'w metrics \<Rightarrow> 'w metrics" where
  "unregisterCounterVecIfExists P = unregister_if_exists P counterVecs counterVecs_update"

definition registerHistogramIfNotExists :: "'w prom \<Rightarrow> metric_opts \<Rightarrow> 'w metrics \<Rightarrow> unit result \<times> 'w metrics" where
  "registerHistogramIfNotExists P = register_if_not_exists P KHistogram histograms histograms_update"

definition unregisterHistogramIfExists :: "'w prom \<Rightarrow> string \<Rightarrow> 'w metrics \<Rightarrow> 'w metrics" where
  "unregisterHistogramIfExists P = unregister_if_exists P histograms histograms_update"

definition registerHistogramVecIfNotExists :: "'w prom \<Rightarrow> metric_opts \<Rightarrow> 'w metrics \<Rightarrow> unit result \<times> 'w metrics" where
  "registerHistogramVecIfNotExists P =
     register_if_not_exists P KHistogramVec histogramVecs histogramVecs_update"

definition unregisterHistogramVecIfExists :: "'w prom \<Rightarrow> string \<Rightarrow> 'w metrics \<Rightarrow> 'w metrics" where
  "unregisterHistogramVecIfExists P = unregister_if_exists P histogramVecs histogramVecs_update"

definition registerSummaryIfNotExists :: "'w prom \<Rightarrow> metric_opts \<Rightarrow> 'w metrics \<Rightarrow> unit result \<times> 'w metrics" where
  "registerSummaryIfNotExists P = register_if_not_exists P KSummary summaries summaries_update"

definition unregisterSummaryIfExists :: "'w prom \<Rightarrow> string \<Rightarrow> 'w metrics \<Rightarrow> 'w metrics" where
  "unregisterSummaryIfExists P = unregister_if_exists P summaries summaries_update"

text \<open>The loops over the options: a panic ends them, and what was registered before stays.\<close>

fun register_each ::
    "(metric_opts \<Rightarrow> 'w metrics \<Rightarrow> unit result \<times> 'w metrics) \<Rightarrow> metric_opts list \<Rightarrow> 'w metrics \<Rightarrow>
     unit result \<times> 'w metrics" where
  "register_each f [] m = (Inr (), m)"
| "register_each f (x # xs) m =
    (case f x m of (Inl e, m') \<Rightarrow> (Inl e, m') | (Inr _, m') \<Rightarrow> register_each f xs m')"

definition RegisterGauges :: "'w prom \<Rightarrow> metric_opts list \<Rightarrow> 'w metrics \<Rightarrow> unit result \<times> 'w metrics" where
  "RegisterGauges P opts m =
    (if \<not> initialized m then (Inr (), m) else register_each (registerGaugeIfNotExists P) opts m)"

definition UnregisterGauges :: "'w prom \<Rightarrow> string list \<Rightarrow> 'w metrics \<Rightarrow> 'w metrics" where
  "UnregisterGauges P names m =
    (if \<not> initialized m then m else fold (unregisterGaugeIfExists P) names m)"

definition Gauge :: "string \<Rightarrow> 'w metrics \<Rightarrow> nat option" where
  "Gauge name m = (if \<not> initialized m then None else gauges m name)"

definition update_metric :: "'w prom \<Rightarrow> nat \<Rightarrow> update \<Rightarrow> 'w metrics \<Rightarrow> unit result \<times> 'w metrics" where
  "update_metric P metric u m =
    (case p_Update P metric u (registerer m) of (r, w) \<Rightarrow> (r, m\<lparr>registerer := w\<rparr>))"

definition GaugeSet :: "'w prom \<Rightarrow> string \<Rightarrow> float64 \<Rightarrow> 'w metrics \<Rightarrow> unit result \<times> 'w metrics" where
  "GaugeSet P name value m =
    (if \<not> initialized m then (Inr (), m)
     else case Gauge name m of Some metric \<Rightarrow> update_metric P metric (Set_to value) m | None \<Rightarrow> (Inr (), m))"

definition GaugeInc :: "'w prom \<Rightarrow> string \<Rightarrow> 'w metrics \<Rightarrow> unit result \<times> 'w metrics" where
  "GaugeInc P name m =
    (if \<not> initialized m then (Inr (), m)
     else case Gauge name m of Some metric \<Rightarrow> update_metric P metric Increment m | None \<Rightarrow> (Inr (), m))"

definition GaugeDec :: "'w prom \<Rightarrow> string \<Rightarrow> 'w metrics \<Rightarrow> unit result \<times> 'w metrics" where
  "GaugeDec P name m =
    (if \<not> initialized m then (Inr (), m)
     else case Gauge name m of Some metric \<Rightarrow> update_metric P metric Decrement m | None \<Rightarrow> (Inr (), m))"

definition RegisterCounters :: "'w prom \<Rightarrow> metric_opts list \<Rightarrow> 'w metrics \<Rightarrow> unit result \<times> 'w metrics" where
  "RegisterCounters P opts m =
    (if \<not> initialized m then (Inr (), m) else register_each (registerCounterIfNotExists P) opts m)"

definition Counter :: "string \<Rightarrow> 'w metrics \<Rightarrow> nat option" where
  "Counter name m = (if \<not> initialized m then None else counters m name)"

definition CounterInc :: "'w prom \<Rightarrow> string \<Rightarrow> 'w metrics \<Rightarrow> unit result \<times> 'w metrics" where
  "CounterInc P name m =
    (if \<not> initialized m then (Inr (), m)
     else case Counter name m of Some metric \<Rightarrow> update_metric P metric Increment m | None \<Rightarrow> (Inr (), m))"

definition CounterAdd :: "'w prom \<Rightarrow> string \<Rightarrow> float64 \<Rightarrow> 'w metrics \<Rightarrow> unit result \<times> 'w metrics" where
  "CounterAdd P name value m =
    (if \<not> initialized m then (Inr (), m)
     else case Counter name m of Some metric \<Rightarrow> update_metric P metric (Add_to value) m | None \<Rightarrow> (Inr (), m))"

definition UnregisterCounters :: "'w prom \<Rightarrow> string list \<Rightarrow> 'w metrics \<Rightarrow> 'w metrics" where
  "UnregisterCounters P names m =
    (if \<not> initialized m then m else fold (unregisterCounterIfExists P) names m)"

definition RegisterCounterVecs :: "'w prom \<Rightarrow> metric_opts list \<Rightarrow> 'w metrics \<Rightarrow> unit result \<times> 'w metrics" where
  "RegisterCounterVecs P opts m =
    (if \<not> initialized m then (Inr (), m) else register_each (registerCounterVecIfNotExists P) opts m)"

definition CounterVec :: "string \<Rightarrow> 'w metrics \<Rightarrow> nat option" where
  "CounterVec name m = (if \<not> initialized m then None else counterVecs m name)"

definition CounterVecInc :: "'w prom \<Rightarrow> string \<Rightarrow> string \<Rightarrow> 'w metrics \<Rightarrow> unit result \<times> 'w metrics" where
  "CounterVecInc P name label m =
    (if \<not> initialized m then (Inr (), m)
     else case CounterVec name m of Some metric \<Rightarrow> update_metric P metric (WithLabelValues label Increment) m | None \<Rightarrow> (Inr (), m))"

definition CounterVecAdd :: "'w prom \<Rightarrow> string \<Rightarrow> string \<Rightarrow> float64 \<Rightarrow> 'w metrics \<Rightarrow> unit result \<times> 'w metrics" where
  "CounterVecAdd P name label value m =
    (if \<not> initialized m then (Inr (), m)
     else case CounterVec name m of Some metric \<Rightarrow> update_metric P metric (WithLabelValues label (Add_to value)) m | None \<Rightarrow> (Inr (), m))"

definition UnregisterCounterVecs :: "'w prom \<Rightarrow> string list \<Rightarrow> 'w metrics \<Rightarrow> 'w metrics" where
  "UnregisterCounterVecs P names m =
    (if \<not> initialized m then m else fold (unregisterCounterVecIfExists P) names m)"

definition RegisterHistograms :: "'w prom \<Rightarrow> metric_opts list \<Rightarrow> 'w metrics \<Rightarrow> unit result \<times> 'w metrics" where
  "RegisterHistograms P opts m =
    (if \<not> initialized m then (Inr (), m) else register_each (registerHistogramIfNotExists P) opts m)"

definition Histogram :: "string \<Rightarrow> 'w metrics \<Rightarrow> nat option" where
  "Histogram name m = (if \<not> initialized m then None else histograms m name)"

definition HistogramObserve :: "'w prom \<Rightarrow> string \<Rightarrow> float64 \<Rightarrow> 'w metrics \<Rightarrow> unit result \<times> 'w metrics" where
  "HistogramObserve P name value m =
    (if \<not> initialized m then (Inr (), m)
     else case Histogram name m of Some metric \<Rightarrow> update_metric P metric (Observe value) m | None \<Rightarrow> (Inr (), m))"

definition UnregisterHistogram :: "'w prom \<Rightarrow> string list \<Rightarrow> 'w metrics \<Rightarrow> 'w metrics" where
  "UnregisterHistogram P names m =
    (if \<not> initialized m then m else fold (unregisterHistogramIfExists P) names m)"

definition RegisterHistogramVecs :: "'w prom \<Rightarrow> metric_opts list \<Rightarrow> 'w metrics \<Rightarrow> unit result \<times> 'w metrics" where
  "RegisterHistogramVecs P opts m =
    (if \<not> initialized m then (Inr (), m) else register_each (registerHistogramVecIfNotExists P) opts m)"

definition HistogramVec :: "string \<Rightarrow> 'w metrics \<Rightarrow> nat option" where
  "HistogramVec name m = (if \<not> initialized m then None else histogramVecs m name)"

definition HistogramVecObserve :: "'w prom \<Rightarrow> string \<Rightarrow> string \<Rightarrow> float64 \<Rightarrow> 'w metrics \<Rightarrow> unit result \<times> 'w metrics" where
  "HistogramVecObserve P name label value m =
    (if \<not> initialized m then (Inr (), m)
     else case HistogramVec name m of Some metric \<Rightarrow> update_metric P metric (WithLabelValues label (Observe value)) m | None \<Rightarrow> (Inr (), m))"

definition UnregisterHistogramVecs :: "'w prom \<Rightarrow> string list \<Rightarrow> 'w metrics \<Rightarrow> 'w metrics" where
  "UnregisterHistogramVecs P names m =
    (if \<not> initialized m then m else fold (unregisterHistogramVecIfExists P) names m)"

definition RegisterSummaries :: "'w prom \<Rightarrow> metric_opts list \<Rightarrow> 'w metrics \<Rightarrow> unit result \<times> 'w metrics" where
  "RegisterSummaries P opts m =
    (if \<not> initialized m then (Inr (), m) else register_each (registerSummaryIfNotExists P) opts m)"

definition Summary :: "string \<Rightarrow> 'w metrics \<Rightarrow> nat option" where
  "Summary name m = (if \<not> initialized m then None else summaries m name)"

definition UnregisterSummaries :: "'w prom \<Rightarrow> string list \<Rightarrow> 'w metrics \<Rightarrow> 'w metrics" where
  "UnregisterSummaries P names m =
    (if \<not> initialized m then m else fold (unregisterSummaryIfExists P) names m)"

section \<open>What the library promises\<close>

text \<open>Three views of the library's state: the metrics made, with their kind and name; the names that
  are registered; and the updates a metric has received. A metric is made under a new handle, a name
  is registered at most once, the registration of a well-formed and new name succeeds, and an update
  reaches the metric it is sent to. Calls that fail change nothing.\<close>

record 'w prom_view =
  v_metric :: "'w \<Rightarrow> nat \<rightharpoonup> metric_kind \<times> string"
  v_registered :: "'w \<Rightarrow> string set"
  v_updates :: "'w \<Rightarrow> nat \<Rightarrow> update list"

definition same_view :: "'w prom_view \<Rightarrow> 'w \<Rightarrow> 'w \<Rightarrow> bool" where
  "same_view V w w' \<longleftrightarrow> v_metric V w' = v_metric V w \<and> v_registered V w' = v_registered V w
     \<and> v_updates V w' = v_updates V w"

definition in_range :: "char \<Rightarrow> char \<Rightarrow> char \<Rightarrow> bool" where
  "in_range a b c \<longleftrightarrow> (of_char a :: nat) \<le> of_char c \<and> (of_char c :: nat) \<le> of_char b"

definition name_char :: "char \<Rightarrow> bool" where
  "name_char c \<longleftrightarrow> in_range (CHR ''a'') (CHR ''z'') c \<or> in_range (CHR ''A'') (CHR ''Z'') c
     \<or> c = CHR ''_'' \<or> c = CHR '':''"

definition valid_name :: "string \<Rightarrow> bool" where
  "valid_name n \<longleftrightarrow> n \<noteq> [] \<and> name_char (hd n)
     \<and> (\<forall>c \<in> set n. name_char c \<or> in_range (CHR ''0'') (CHR ''9'') c)"

fun accepts :: "metric_kind \<Rightarrow> update \<Rightarrow> bool" where
  "accepts KGauge (Set_to v) = True"
| "accepts KGauge Increment = True"
| "accepts KGauge Decrement = True"
| "accepts KCounter Increment = True"
| "accepts KHistogram (Observe v) = True"
| "accepts k u = False"

definition prom_makes :: "'w prom_view \<Rightarrow> 'w prom \<Rightarrow> bool" where
  "prom_makes V P \<longleftrightarrow> (\<forall>k opts w r w'. p_New P k opts w = (r, w') \<longrightarrow>
     (case r of
        Inl e \<Rightarrow> same_view V w w'
      | Inr h \<Rightarrow> v_metric V w h = None \<and> v_metric V w' = (v_metric V w)(h \<mapsto> (k, o_Name opts))
          \<and> v_registered V w' = v_registered V w \<and> v_updates V w' = (v_updates V w)(h := []))
     \<and> (k \<in> {KGauge, KCounter, KHistogram} \<longrightarrow> is_ok r))"

definition prom_registers :: "'w prom_view \<Rightarrow> 'w prom \<Rightarrow> bool" where
  "prom_registers V P \<longleftrightarrow> (\<forall>h w r w' k n. p_MustRegister P h w = (r, w') \<and> v_metric V w h = Some (k, n) \<longrightarrow>
     (case r of
        Inl e \<Rightarrow> same_view V w w'
      | Inr _ \<Rightarrow> n \<notin> v_registered V w \<and> v_registered V w' = insert n (v_registered V w)
          \<and> v_metric V w' = v_metric V w \<and> v_updates V w' = v_updates V w)
     \<and> (valid_name n \<and> n \<notin> v_registered V w \<longrightarrow> is_ok r))"

definition prom_unregisters :: "'w prom_view \<Rightarrow> 'w prom \<Rightarrow> bool" where
  "prom_unregisters V P \<longleftrightarrow> (\<forall>h w b w' k n. p_Unregister P h w = (b, w') \<and> v_metric V w h = Some (k, n) \<longrightarrow>
     (if b then v_registered V w' = v_registered V w - {n} \<and> v_metric V w' = v_metric V w
          \<and> v_updates V w' = v_updates V w
      else same_view V w w'))"

definition prom_updates :: "'w prom_view \<Rightarrow> 'w prom \<Rightarrow> bool" where
  "prom_updates V P \<longleftrightarrow> (\<forall>h u w r w' k n. p_Update P h u w = (r, w') \<and> v_metric V w h = Some (k, n) \<longrightarrow>
     (case r of
        Inl e \<Rightarrow> same_view V w w'
      | Inr _ \<Rightarrow> v_metric V w' = v_metric V w \<and> v_registered V w' = v_registered V w
          \<and> v_updates V w' = (v_updates V w)(h := v_updates V w h @ [u]))
     \<and> (accepts k u \<longrightarrow> is_ok r))"

definition prom_ok :: "'w prom_view \<Rightarrow> 'w prom \<Rightarrow> bool" where
  "prom_ok V P \<longleftrightarrow> prom_makes V P \<and> prom_registers V P \<and> prom_unregisters V P \<and> prom_updates V P"

section \<open>The invariant of the maps\<close>

fun metrics_of :: "metric_kind \<Rightarrow> 'w metrics \<Rightarrow> string \<rightharpoonup> nat" where
  "metrics_of KGauge m = gauges m"
| "metrics_of KCounter m = counters m"
| "metrics_of KCounterVec m = counterVecs m"
| "metrics_of KHistogram m = histograms m"
| "metrics_of KHistogramVec m = histogramVecs m"
| "metrics_of KSummary m = summaries m"

definition metrics_ok :: "'w prom_view \<Rightarrow> 'w metrics \<Rightarrow> bool" where
  "metrics_ok V m \<longleftrightarrow>
     (\<forall>k n h. metrics_of k m n = Some h \<longrightarrow>
        v_metric V (registerer m) h = Some (k, n) \<and> n \<in> v_registered V (registerer m)) \<and>
     (\<forall>k k' n. metrics_of k m n \<noteq> None \<and> metrics_of k' m n \<noteq> None \<longrightarrow> k = k')"

lemma metrics_of_registerer [simp]: "metrics_of k (m\<lparr>registerer := w\<rparr>) = metrics_of k m"
  by (cases k) simp_all

lemma metrics_ok_same_view:
  "metrics_ok V m \<Longrightarrow> v_metric V w = v_metric V (registerer m) \<Longrightarrow>
   v_registered V w = v_registered V (registerer m) \<Longrightarrow> metrics_ok V (m\<lparr>registerer := w\<rparr>)"
  by (simp add: metrics_ok_def)

lemma metrics_of_update [simp]:
  "metrics_of k (gauges_update g m) = (if k = KGauge then g (gauges m) else metrics_of k m)"
  "metrics_of k (counters_update g m) = (if k = KCounter then g (counters m) else metrics_of k m)"
  "metrics_of k (counterVecs_update g m) = (if k = KCounterVec then g (counterVecs m) else metrics_of k m)"
  "metrics_of k (histograms_update g m) = (if k = KHistogram then g (histograms m) else metrics_of k m)"
  "metrics_of k (histogramVecs_update g m) = (if k = KHistogramVec then g (histogramVecs m) else metrics_of k m)"
  "metrics_of k (summaries_update g m) = (if k = KSummary then g (summaries m) else metrics_of k m)"
  by (cases k; simp)+

lemma metrics_of_flags [simp]:
  "metrics_of k (initialized_update b m) = metrics_of k m"
  "metrics_of k (initOnce_update b m) = metrics_of k m"
  by (cases k; simp)+

lemma prom_New:
  assumes "prom_ok V P" and "p_New P k opts w = (Inr h, w')"
  shows "v_metric V w h = None" "v_metric V w' = (v_metric V w)(h \<mapsto> (k, o_Name opts))"
    "v_registered V w' = v_registered V w" "v_updates V w' = (v_updates V w)(h := [])"
  using assms unfolding prom_ok_def prom_makes_def by fastforce+

lemma prom_New_fails:
  assumes "prom_ok V P" and "p_New P k opts w = (Inl e, w')"
  shows "same_view V w w'" "k \<notin> {KGauge, KCounter, KHistogram}"
  using assms unfolding prom_ok_def prom_makes_def by fastforce+

lemma prom_Register:
  assumes "prom_ok V P" and "p_MustRegister P h w = (Inr u, w')" and "v_metric V w h = Some (k, n)"
  shows "n \<notin> v_registered V w" "v_registered V w' = insert n (v_registered V w)"
    "v_metric V w' = v_metric V w" "v_updates V w' = v_updates V w"
  using assms unfolding prom_ok_def prom_registers_def by fastforce+

lemma prom_Register_fails:
  assumes "prom_ok V P" and "p_MustRegister P h w = (Inl e, w')" and "v_metric V w h = Some (k, n)"
  shows "same_view V w w'" "\<not> valid_name n \<or> n \<in> v_registered V w"
  using assms unfolding prom_ok_def prom_registers_def by fastforce+

lemma prom_Unregister:
  assumes "prom_ok V P" and "p_Unregister P h w = (b, w')" and "v_metric V w h = Some (k, n)"
  shows "v_metric V w' = v_metric V w" "v_updates V w' = v_updates V w"
    "v_registered V w' = (if b then v_registered V w - {n} else v_registered V w)"
  using assms unfolding prom_ok_def prom_unregisters_def same_view_def by metis+

lemma prom_Update:
  assumes "prom_ok V P" and "p_Update P h u w = (r, w')" and "v_metric V w h = Some (k, n)"
  shows "v_metric V w' = v_metric V w" "v_registered V w' = v_registered V w"
    "v_updates V w' = (v_updates V w)(h := v_updates V w h @ (if is_ok r then [u] else []))"
    "accepts k u \<Longrightarrow> is_ok r"
proof -
  have D: "(case r of
        Inl e \<Rightarrow> same_view V w w'
      | Inr _ \<Rightarrow> v_metric V w' = v_metric V w \<and> v_registered V w' = v_registered V w
          \<and> v_updates V w' = (v_updates V w)(h := v_updates V w h @ [u]))
     \<and> (accepts k u \<longrightarrow> is_ok r)"
    using assms unfolding prom_ok_def prom_updates_def by blast
  show "v_metric V w' = v_metric V w" "v_registered V w' = v_registered V w"
    "v_updates V w' = (v_updates V w)(h := v_updates V w h @ (if is_ok r then [u] else []))"
    "accepts k u \<Longrightarrow> is_ok r"
    using D by (cases r; simp add: same_view_def)+
qed

lemma metrics_okI:
  assumes "\<And>k n h. metrics_of k m n = Some h \<Longrightarrow> v_metric V (registerer m) h = Some (k, n)"
    and "\<And>k n h. metrics_of k m n = Some h \<Longrightarrow> n \<in> v_registered V (registerer m)"
    and "\<And>k k' n h h'. metrics_of k m n = Some h \<Longrightarrow> metrics_of k' m n = Some h' \<Longrightarrow> k = k'"
  shows "metrics_ok V m"
  unfolding metrics_ok_def using assms by (metis option.exhaust)

lemma metrics_ok_registered:
  "metrics_ok V m \<Longrightarrow> metrics_of k m n = Some h \<Longrightarrow> n \<in> v_registered V (registerer m)"
  unfolding metrics_ok_def by blast

lemma metrics_ok_kind:
  "metrics_ok V m \<Longrightarrow> metrics_of k m n = Some h \<Longrightarrow> metrics_of k' m n = Some h' \<Longrightarrow> k = k'"
  unfolding metrics_ok_def by blast

lemma metrics_ok_view:
  "metrics_ok V m \<Longrightarrow> metrics_of k m n = Some h \<Longrightarrow> v_metric V (registerer m) h = Some (k, n)"
  unfolding metrics_ok_def by blast

locale metric_map =
  fixes k :: metric_kind
    and get :: "'w metrics \<Rightarrow> string \<rightharpoonup> nat"
    and put :: "((string \<rightharpoonup> nat) \<Rightarrow> (string \<rightharpoonup> nat)) \<Rightarrow> 'w metrics \<Rightarrow> 'w metrics"
  assumes get_k: "get m = metrics_of k m"
    and metrics_of_put: "metrics_of k' (put g m) = (if k' = k then g (metrics_of k m) else metrics_of k' m)"
    and put_registerer: "registerer (put g m) = registerer m"
    and put_initialized: "initialized (put g m) = initialized m"
    and put_initOnce: "initOnce (put g m) = initOnce m"
begin

lemmas puts = metrics_of_put put_registerer put_initialized put_initOnce

lemma entered:
  "metrics_of k' (put (\<lambda>f. f(a \<mapsto> h)) m) n = Some h' \<longleftrightarrow>
     (if k' = k \<and> n = a then h' = h else metrics_of k' m n = Some h')"
  by (auto simp: puts)

lemma deleted:
  "metrics_of k' (put (\<lambda>f. f(a := None)) m) n = Some h' \<longleftrightarrow>
     \<not> (k' = k \<and> n = a) \<and> metrics_of k' m n = Some h'"
  by (auto simp: puts)

text \<open>One registration, by cases: the name is known, the library fails, or the new metric is
  entered.\<close>

lemma register_cases:
  assumes reg: "register_if_not_exists P k get put opts m = (r, m')"
  obtains "metrics_of k m (o_Name opts) \<noteq> None" "r = Inr ()" "m' = m"
  | e w where "metrics_of k m (o_Name opts) = None" "p_New P k opts (registerer m) = (Inl e, w)"
      "r = Inl e" "m' = m\<lparr>registerer := w\<rparr>"
  | h w e w' where "metrics_of k m (o_Name opts) = None" "p_New P k opts (registerer m) = (Inr h, w)"
      "p_MustRegister P h w = (Inl e, w')" "r = Inl e" "m' = m\<lparr>registerer := w'\<rparr>"
  | h w w' where "metrics_of k m (o_Name opts) = None" "p_New P k opts (registerer m) = (Inr h, w)"
      "p_MustRegister P h w = (Inr (), w')" "r = Inr ()"
      "m' = put (\<lambda>f. f(o_Name opts \<mapsto> h)) (m\<lparr>registerer := w'\<rparr>)"
proof (cases "metrics_of k m (o_Name opts)")
  case (Some h)
  have "r = Inr ()" "m' = m"
    using reg Some unfolding register_if_not_exists_def get_k by simp_all
  with Some show ?thesis by (intro that(1)) simp_all
next
  case None
  obtain r1 w where new: "p_New P k opts (registerer m) = (r1, w)" by (rule prod.exhaust)
  show ?thesis
  proof (cases r1)
    case (Inl e)
    have "r = Inl e" "m' = m\<lparr>registerer := w\<rparr>"
      using reg None new Inl unfolding register_if_not_exists_def get_k by simp_all
    with None new Inl show ?thesis by (intro that(2)) simp_all
  next
    case (Inr h)
    obtain r2 w' where must: "p_MustRegister P h w = (r2, w')" by (rule prod.exhaust)
    show ?thesis
    proof (cases r2)
      case (Inl e)
      have "r = Inl e" "m' = m\<lparr>registerer := w'\<rparr>"
        using reg None new \<open>r1 = Inr h\<close> must Inl unfolding register_if_not_exists_def get_k by simp_all
      with None new \<open>r1 = Inr h\<close> must Inl show ?thesis by (intro that(3)) simp_all
    next
      case (Inr u)
      have "r = Inr ()" "m' = put (\<lambda>f. f(o_Name opts \<mapsto> h)) (m\<lparr>registerer := w'\<rparr>)"
        using reg None new \<open>r1 = Inr h\<close> must Inr unfolding register_if_not_exists_def get_k by simp_all
      with None new \<open>r1 = Inr h\<close> must Inr show ?thesis by (intro that(4)) simp_all
    qed
  qed
qed

lemma register_dom:
  assumes "register_if_not_exists P k get put opts m = (r, m')" and "metrics_of k' m' n \<noteq> None"
  shows "metrics_of k' m n \<noteq> None \<or> k' = k \<and> n = o_Name opts"
  by (rule register_cases [OF assms(1)]) (use assms(2) in \<open>auto simp: puts split: if_splits\<close>)

lemma register_found:
  assumes "register_if_not_exists P k get put opts m = (r, m')" and "is_ok r"
  shows "metrics_of k m' (o_Name opts) \<noteq> None"
  by (rule register_cases [OF assms(1)]) (use assms(2) in \<open>auto simp: puts\<close>)

lemma register_flags:
  assumes "register_if_not_exists P k get put opts m = (r, m')"
  shows "initialized m' = initialized m" "initOnce m' = initOnce m"
  by (rule register_cases [OF assms]; simp add: puts)+

lemma register_keeps:
  assumes "register_if_not_exists P k get put opts m = (r, m')" and "metrics_of k' m n = Some h"
  shows "metrics_of k' m' n = Some h"
  by (rule register_cases [OF assms(1)]) (use assms(2) in \<open>auto simp: puts\<close>)

text \<open>Registration and removal keep the invariant, and the metrics entered before keep the updates
  they have received.\<close>

lemma register_ok:
  assumes P: "prom_ok V P" and ok: "metrics_ok V m"
    and reg: "register_if_not_exists P k get put opts m = (r, m')"
  shows "metrics_ok V m'"
proof (rule register_cases [OF reg])
  fix h w w'
  assume "metrics_of k m (o_Name opts) = None" and new: "p_New P k opts (registerer m) = (Inr h, w)"
    and must: "p_MustRegister P h w = (Inr (), w')"
    and m': "m' = put (\<lambda>f. f(o_Name opts \<mapsto> h)) (m\<lparr>registerer := w'\<rparr>)"
  note N = prom_New [OF P new]
  have "v_metric V w h = Some (k, o_Name opts)" by (simp add: N)
  note R = prom_Register [OF P must this]
  have fresh: "metrics_of k' m (o_Name opts) = None" for k'
    using metrics_ok_registered [OF ok] R(1) N(3) by (metis option.exhaust)
  show ?thesis
    unfolding m'
  proof (rule metrics_okI, goal_cases)
    case (1 k' n h')
    show ?case
    proof (cases "k' = k \<and> n = o_Name opts")
      case False
      with 1 have "v_metric V (registerer m) h' = Some (k', n)"
        by (simp add: entered metrics_ok_view [OF ok])
      with N(1) show ?thesis by (auto simp: puts N(2) R(3))
    qed (use 1 in \<open>simp add: entered puts N(2) R(3)\<close>)
  next
    case (2 k' n h')
    thus ?case by (auto simp: entered puts N(3) R(2) split: if_splits dest: metrics_ok_registered [OF ok])
  next
    case (3 k1 k2 n h1 h2)
    thus ?case by (auto simp: entered fresh split: if_splits intro: metrics_ok_kind [OF ok])
  qed
next
  fix h w e w'
  assume new: "p_New P k opts (registerer m) = (Inr h, w)"
    and must: "p_MustRegister P h w = (Inl e, w')" and m': "m' = m\<lparr>registerer := w'\<rparr>"
  note N = prom_New [OF P new]
  have "v_metric V w h = Some (k, o_Name opts)" by (simp add: N)
  note R = prom_Register_fails [OF P must this]
  have "v_metric V w' h' = Some (k', n)" if "metrics_of k' m n = Some h'" for k' n h'
    using metrics_ok_view [OF ok that] N(1) R(1) by (auto simp: same_view_def N(2))
  moreover have "v_registered V w' = v_registered V (registerer m)"
    using R(1) by (simp add: same_view_def N(3))
  ultimately show ?thesis
    unfolding m' by (auto intro!: metrics_okI dest: metrics_ok_registered [OF ok] intro: metrics_ok_kind [OF ok])
next
  fix e w
  assume "p_New P k opts (registerer m) = (Inl e, w)" and m': "m' = m\<lparr>registerer := w\<rparr>"
  with prom_New_fails(1) [OF P] ok show ?thesis
    unfolding m' same_view_def by (intro metrics_ok_same_view) auto
qed (use ok in simp)

lemma register_counts:
  assumes P: "prom_ok V P" and ok: "metrics_ok V m"
    and reg: "register_if_not_exists P k get put opts m = (r, m')" and h: "metrics_of k' m n = Some h"
  shows "v_updates V (registerer m') h = v_updates V (registerer m) h"
proof (rule register_cases [OF reg])
  fix h' w r w' assume new: "p_New P k opts (registerer m) = (Inr h', w)"
  note N = prom_New [OF P new]
  have v: "v_metric V w h' = Some (k, o_Name opts)" by (simp add: N)
  have "h \<noteq> h'" using N(1) metrics_ok_view [OF ok h] by auto
  hence *: "v_updates V w h = v_updates V (registerer m) h" by (simp add: N)
  { assume "p_MustRegister P h' w = (Inr (), w')"
      and "m' = put (\<lambda>f. f(o_Name opts \<mapsto> h')) (m\<lparr>registerer := w'\<rparr>)"
    with prom_Register(4) [OF P _ v] * show ?thesis by (simp add: puts) }
  { fix e assume "p_MustRegister P h' w = (Inl e, w')" and "m' = m\<lparr>registerer := w'\<rparr>"
    with prom_Register_fails(1) [OF P _ v] * show ?thesis by (simp add: same_view_def) }
next
  fix e w assume "p_New P k opts (registerer m) = (Inl e, w)" and "m' = m\<lparr>registerer := w\<rparr>"
  with prom_New_fails(1) [OF P] show ?thesis by (simp add: same_view_def)
qed simp

lemma register_succeeds:
  assumes P: "prom_ok V P" and k: "k \<in> {KGauge, KCounter, KHistogram}"
    and reg: "register_if_not_exists P k get put opts m = (r, m')"
    and "valid_name (o_Name opts)"
    and "\<forall>k'. k' \<noteq> k \<longrightarrow> metrics_of k' m (o_Name opts) = None"
    and "o_Name opts \<in> v_registered V (registerer m) \<longrightarrow> (\<exists>k'. metrics_of k' m (o_Name opts) \<noteq> None)"
  shows "r = Inr ()"
proof (rule register_cases [OF reg])
  fix e w assume "p_New P k opts (registerer m) = (Inl e, w)"
  with prom_New_fails(2) [OF P] k show ?thesis by blast
next
  fix h w e w'
  assume none: "metrics_of k m (o_Name opts) = None" and new: "p_New P k opts (registerer m) = (Inr h, w)"
    and must: "p_MustRegister P h w = (Inl e, w')"
  note N = prom_New [OF P new]
  have "v_metric V w h = Some (k, o_Name opts)" by (simp add: N)
  from prom_Register_fails(2) [OF P must this] assms(4-6) none
  show ?thesis unfolding N(3) by metis
qed simp_all

lemma unregister_ok:
  assumes P: "prom_ok V P" and ok: "metrics_ok V m"
  shows "metrics_ok V (unregister_if_exists P get put name m)"
proof (cases "metrics_of k m name")
  case None
  with ok show ?thesis unfolding unregister_if_exists_def get_k by simp
next
  case (Some h)
  obtain b w where un: "p_Unregister P h (registerer m) = (b, w)" by (rule prod.exhaust)
  note U = prom_Unregister [OF P un metrics_ok_view [OF ok Some]]
  show ?thesis
  proof (cases b)
    case True
    with Some un have eq: "unregister_if_exists P get put name m = put (\<lambda>f. f(name := None)) (m\<lparr>registerer := w\<rparr>)"
      unfolding unregister_if_exists_def get_k by simp
    have only: "k' = k" if "metrics_of k' m name = Some h'" for k' h'
      using metrics_ok_kind [OF ok that Some] .
    show ?thesis
      unfolding eq
    proof (rule metrics_okI, goal_cases)
      case (1 k' n h')
      thus ?case by (simp add: deleted put_registerer U(1) metrics_ok_view [OF ok])
    next
      case (2 k' n h')
      hence "n \<noteq> name" using only by (auto simp: deleted)
      with 2 show ?case by (auto simp: deleted put_registerer U(3) dest: metrics_ok_registered [OF ok])
    next
      case (3 k1 k2 n h1 h2)
      thus ?case by (auto simp: deleted intro: metrics_ok_kind [OF ok])
    qed
  next
    case False
    with Some un have "unregister_if_exists P get put name m = m\<lparr>registerer := w\<rparr>"
      unfolding unregister_if_exists_def get_k by simp
    with U False ok show ?thesis by (simp add: metrics_ok_same_view)
  qed
qed

end

interpretation gauge_map: metric_map KGauge gauges gauges_update
  by unfold_locales simp_all

interpretation counter_map: metric_map KCounter counters counters_update
  by unfold_locales simp_all

interpretation counterVec_map: metric_map KCounterVec counterVecs counterVecs_update
  by unfold_locales simp_all

interpretation histogram_map: metric_map KHistogram histograms histograms_update
  by unfold_locales simp_all

interpretation histogramVec_map: metric_map KHistogramVec histogramVecs histogramVecs_update
  by unfold_locales simp_all

interpretation summary_map: metric_map KSummary summaries summaries_update
  by unfold_locales simp_all

section \<open>Reachable states\<close>

text \<open>The updates by name, in one form.\<close>

definition update_by_name :: "'w prom \<Rightarrow> metric_kind \<Rightarrow> string \<Rightarrow> update \<Rightarrow> 'w metrics \<Rightarrow> unit result \<times> 'w metrics" where
  "update_by_name P k name u m =
    (case metrics_of k m name of
       Some metric \<Rightarrow> if initialized m then update_metric P metric u m else (Inr (), m)
     | None \<Rightarrow> (Inr (), m))"

lemma by_name:
  "GaugeSet P name value = update_by_name P KGauge name (Set_to value)"
  "GaugeInc P name = update_by_name P KGauge name Increment"
  "GaugeDec P name = update_by_name P KGauge name Decrement"
  "CounterInc P name = update_by_name P KCounter name Increment"
  "CounterAdd P name value = update_by_name P KCounter name (Add_to value)"
  "CounterVecInc P name label = update_by_name P KCounterVec name (WithLabelValues label Increment)"
  "CounterVecAdd P name label value = update_by_name P KCounterVec name (WithLabelValues label (Add_to value))"
  "HistogramObserve P name value = update_by_name P KHistogram name (Observe value)"
  "HistogramVecObserve P name label value =
     update_by_name P KHistogramVec name (WithLabelValues label (Observe value))"
  by (auto simp: fun_eq_iff update_by_name_def GaugeSet_def GaugeInc_def GaugeDec_def CounterInc_def
      CounterAdd_def CounterVecInc_def CounterVecAdd_def HistogramObserve_def HistogramVecObserve_def
      Gauge_def Counter_def CounterVec_def Histogram_def HistogramVec_def split: option.splits)

lemma update_by_name_unknown [simp]:
  "metrics_of k m name = None \<Longrightarrow> update_by_name P k name u m = (Inr (), m)"
  by (simp add: update_by_name_def)

lemma update_by_name_keeps:
  assumes "update_by_name P k name u m = (r, m')"
  shows "metrics_of k' m' = metrics_of k' m" "initialized m' = initialized m" "initOnce m' = initOnce m"
  using assms by (auto simp: update_by_name_def update_metric_def split: option.splits if_splits prod.splits)

lemma update_by_name_ok:
  assumes P: "prom_ok V P" and ok: "metrics_ok V m" and up: "update_by_name P k name u m = (r, m')"
  shows "metrics_ok V m'"
proof (cases "metrics_of k m name")
  case (Some h)
  obtain r1 w where w: "p_Update P h u (registerer m) = (r1, w)" by (rule prod.exhaust)
  note U = prom_Update [OF P w metrics_ok_view [OF ok Some]]
  have "m' = m \<or> m' = m\<lparr>registerer := w\<rparr>"
    using up Some w by (auto simp: update_by_name_def update_metric_def split: if_splits)
  with U(1,2) ok show ?thesis by (auto intro: metrics_ok_same_view)
qed (use up ok in simp)

text \<open>An update reaches the metric of the name and no other.\<close>

lemma update_by_name_counts:
  assumes P: "prom_ok V P" and ok: "metrics_ok V m" and up: "update_by_name P k name u m = (r, m')"
    and "initialized m" and name: "metrics_of k m name = Some h" and "accepts k u"
  shows "r = Inr ()" "v_updates V (registerer m') = (v_updates V (registerer m))(h := v_updates V (registerer m) h @ [u])"
proof -
  obtain r1 w where w: "p_Update P h u (registerer m) = (r1, w)" by (rule prod.exhaust)
  note U = prom_Update [OF P w metrics_ok_view [OF ok name]]
  have *: "r = r1" "m' = m\<lparr>registerer := w\<rparr>"
    using up name w assms(4) by (auto simp: update_by_name_def update_metric_def)
  show "r = Inr ()" using U(4) assms(6) * by (cases r1) simp_all
  with * have "r1 = Inr ()" by simp
  with U(3) * show "v_updates V (registerer m') = (v_updates V (registerer m))(h := v_updates V (registerer m) h @ [u])"
    by simp
qed

lemma register_each_keeps:
  assumes "\<And>x m r m'. x \<in> set xs \<Longrightarrow> Q m \<Longrightarrow> f x m = (r, m') \<Longrightarrow> Q m'"
  shows "Q m \<Longrightarrow> register_each f xs m = (r, m') \<Longrightarrow> Q m'"
  using assms
proof (induction xs arbitrary: m)
  case (Cons x xs)
  obtain r1 m1 where f: "f x m = (r1, m1)" by (rule prod.exhaust)
  have "Q m1" by (rule Cons.prems(3) [OF _ Cons.prems(1) f]) simp
  show ?case
  proof (cases r1)
    case (Inr u)
    show ?thesis
    proof (rule Cons.IH)
      show "register_each f xs m1 = (r, m')" using Cons.prems(2) f Inr by simp
      show "Q m'" if "x \<in> set xs" "Q m" "f x m = (r, m')" for x m r m'
        using that(1) by (intro Cons.prems(3) [OF _ that(2,3)]) simp
    qed fact
  qed (use Cons.prems(2) f \<open>Q m1\<close> in simp)
qed simp

text \<open>A list of registrations enters names of the list only, keeps what was entered before with the
  updates received, and enters every name when it does not fail.\<close>

context metric_map
begin

lemma each_dom:
  assumes "register_each (register_if_not_exists P k get put) opts m = (r, m')" and "metrics_of k' m' n \<noteq> None"
  shows "metrics_of k' m n \<noteq> None \<or> k' = k \<and> n \<in> o_Name ` set opts"
proof -
  have "\<forall>k' n. metrics_of k' m' n \<noteq> None \<longrightarrow> metrics_of k' m n \<noteq> None \<or> k' = k \<and> n \<in> o_Name ` set opts"
    by (rule register_each_keeps [OF _ _ assms(1), where Q = "\<lambda>m'. \<forall>k' n. metrics_of k' m' n \<noteq> None \<longrightarrow>
          metrics_of k' m n \<noteq> None \<or> k' = k \<and> n \<in> o_Name ` set opts"]) (use register_dom in blast)+
  with assms(2) show ?thesis by blast
qed

lemma each_flags:
  assumes "register_each (register_if_not_exists P k get put) opts m = (r, m')"
  shows "initialized m' = initialized m"
  by (rule register_each_keeps [OF _ _ assms, where Q = "\<lambda>m'. initialized m' = initialized m"])
    (simp_all add: register_flags)

lemma each_keeps:
  assumes P: "prom_ok V P" and ok: "metrics_ok V m"
    and reg: "register_each (register_if_not_exists P k get put) opts m = (r, m')"
    and h: "metrics_of k' m n = Some h"
  shows "metrics_of k' m' n = Some h" "v_updates V (registerer m') h = v_updates V (registerer m) h"
proof -
  have "metrics_ok V m' \<and> metrics_of k' m' n = Some h \<and> v_updates V (registerer m') h = v_updates V (registerer m) h"
    by (rule register_each_keeps [OF _ _ reg, where Q = "\<lambda>m'. metrics_ok V m' \<and> metrics_of k' m' n = Some h
          \<and> v_updates V (registerer m') h = v_updates V (registerer m) h"])
      (use ok h in \<open>auto intro: register_ok [OF P] register_keeps simp: register_counts [OF P]\<close>)
  thus "metrics_of k' m' n = Some h" "v_updates V (registerer m') h = v_updates V (registerer m) h" by simp_all
qed

lemma each_found:
  assumes P: "prom_ok V P"
  shows "metrics_ok V m \<Longrightarrow> register_each (register_if_not_exists P k get put) opts m = (Inr (), m') \<Longrightarrow>
    x \<in> set opts \<Longrightarrow> metrics_of k m' (o_Name x) \<noteq> None"
proof (induction opts arbitrary: m)
  case (Cons y opts)
  obtain r1 m1 where reg: "register_if_not_exists P k get put y m = (r1, m1)" by (rule prod.exhaust)
  with Cons.prems(2) have r1: "is_ok r1" and rest: "register_each (register_if_not_exists P k get put) opts m1 = (Inr (), m')"
    by (auto split: sum.splits)
  have ok1: "metrics_ok V m1" by (rule register_ok [OF P Cons.prems(1) reg])
  show ?case
  proof (cases "x \<in> set opts")
    case False
    with Cons.prems(3) have "x = y" by simp
    with register_found [OF reg r1] each_keeps(1) [OF P ok1 rest] show ?thesis by auto
  qed (rule Cons.IH [OF ok1 rest])
qed simp

end

lemma unregister_each_keeps:
  assumes "\<And>x m. Q m \<Longrightarrow> Q (f x m)"
  shows "Q m \<Longrightarrow> Q (fold f xs m)"
  using assms by (induction xs arbitrary: m) simp_all

inductive metrics_step :: "'w prom \<Rightarrow> 'w metrics \<Rightarrow> 'w metrics \<Rightarrow> bool" for P where
  step_Init: "metrics_step P m (Init m)"
| step_RegisterGauges: "RegisterGauges P opts m = (r, m') \<Longrightarrow> metrics_step P m m'"
| step_RegisterCounters: "RegisterCounters P opts m = (r, m') \<Longrightarrow> metrics_step P m m'"
| step_RegisterCounterVecs: "RegisterCounterVecs P opts m = (r, m') \<Longrightarrow> metrics_step P m m'"
| step_RegisterHistograms: "RegisterHistograms P opts m = (r, m') \<Longrightarrow> metrics_step P m m'"
| step_RegisterHistogramVecs: "RegisterHistogramVecs P opts m = (r, m') \<Longrightarrow> metrics_step P m m'"
| step_RegisterSummaries: "RegisterSummaries P opts m = (r, m') \<Longrightarrow> metrics_step P m m'"
| step_UnregisterGauges: "metrics_step P m (UnregisterGauges P names m)"
| step_UnregisterCounters: "metrics_step P m (UnregisterCounters P names m)"
| step_UnregisterCounterVecs: "metrics_step P m (UnregisterCounterVecs P names m)"
| step_UnregisterHistogram: "metrics_step P m (UnregisterHistogram P names m)"
| step_UnregisterHistogramVecs: "metrics_step P m (UnregisterHistogramVecs P names m)"
| step_UnregisterSummaries: "metrics_step P m (UnregisterSummaries P names m)"
| step_GaugeSet: "GaugeSet P name value m = (r, m') \<Longrightarrow> metrics_step P m m'"
| step_GaugeInc: "GaugeInc P name m = (r, m') \<Longrightarrow> metrics_step P m m'"
| step_GaugeDec: "GaugeDec P name m = (r, m') \<Longrightarrow> metrics_step P m m'"
| step_CounterInc: "CounterInc P name m = (r, m') \<Longrightarrow> metrics_step P m m'"
| step_CounterAdd: "CounterAdd P name value m = (r, m') \<Longrightarrow> metrics_step P m m'"
| step_CounterVecInc: "CounterVecInc P name label m = (r, m') \<Longrightarrow> metrics_step P m m'"
| step_CounterVecAdd: "CounterVecAdd P name label value m = (r, m') \<Longrightarrow> metrics_step P m m'"
| step_HistogramObserve: "HistogramObserve P name value m = (r, m') \<Longrightarrow> metrics_step P m m'"
| step_HistogramVecObserve: "HistogramVecObserve P name label value m = (r, m') \<Longrightarrow> metrics_step P m m'"

definition fresh_metrics :: "'w \<Rightarrow> 'w metrics" where
  "fresh_metrics w = \<lparr>registerer = w, gauges = Map.empty, counters = Map.empty, counterVecs = Map.empty,
     histograms = Map.empty, histogramVecs = Map.empty, summaries = Map.empty, initialized = False,
     initOnce = False\<rparr>"

lemmas registers = registerGaugeIfNotExists_def registerCounterIfNotExists_def
  registerCounterVecIfNotExists_def registerHistogramIfNotExists_def
  registerHistogramVecIfNotExists_def registerSummaryIfNotExists_def

lemmas Registers = RegisterGauges_def RegisterCounters_def RegisterCounterVecs_def
  RegisterHistograms_def RegisterHistogramVecs_def RegisterSummaries_def

lemmas unregisters = unregisterGaugeIfExists_def unregisterCounterIfExists_def
  unregisterCounterVecIfExists_def unregisterHistogramIfExists_def
  unregisterHistogramVecIfExists_def unregisterSummaryIfExists_def

lemmas Unregisters = UnregisterGauges_def UnregisterCounters_def UnregisterCounterVecs_def
  UnregisterHistogram_def UnregisterHistogramVecs_def UnregisterSummaries_def

lemmas register_oks = gauge_map.register_ok counter_map.register_ok counterVec_map.register_ok
  histogram_map.register_ok histogramVec_map.register_ok summary_map.register_ok

lemmas unregister_oks = gauge_map.unregister_ok counter_map.unregister_ok counterVec_map.unregister_ok
  histogram_map.unregister_ok histogramVec_map.unregister_ok summary_map.unregister_ok

lemma Registers_ok:
  assumes P: "prom_ok V P" and ok: "metrics_ok V m"
  shows "RegisterGauges P opts m = (r, m') \<Longrightarrow> metrics_ok V m'"
    "RegisterCounters P opts m = (r, m') \<Longrightarrow> metrics_ok V m'"
    "RegisterCounterVecs P opts m = (r, m') \<Longrightarrow> metrics_ok V m'"
    "RegisterHistograms P opts m = (r, m') \<Longrightarrow> metrics_ok V m'"
    "RegisterHistogramVecs P opts m = (r, m') \<Longrightarrow> metrics_ok V m'"
    "RegisterSummaries P opts m = (r, m') \<Longrightarrow> metrics_ok V m'"
  using ok
  by (auto simp: Registers registers split: if_splits
      elim!: register_each_keeps [where Q = "metrics_ok V", rotated -1] intro: register_oks [OF P])

lemma Unregisters_ok:
  assumes P: "prom_ok V P" and ok: "metrics_ok V m"
  shows "metrics_ok V (UnregisterGauges P names m)" "metrics_ok V (UnregisterCounters P names m)"
    "metrics_ok V (UnregisterCounterVecs P names m)" "metrics_ok V (UnregisterHistogram P names m)"
    "metrics_ok V (UnregisterHistogramVecs P names m)" "metrics_ok V (UnregisterSummaries P names m)"
  using ok
  by (auto simp: Unregisters unregisters
      intro!: unregister_each_keeps [where Q = "metrics_ok V"] unregister_oks [OF P])

lemma metrics_of_Init: "metrics_of k (Init m) = (if initOnce m then metrics_of k m else Map.empty)"
  by (cases k) (simp_all add: Init_def)

lemma Init_registerer: "registerer (Init m) = registerer m"
  by (simp add: Init_def)

lemma Init_ok: "metrics_ok V m \<Longrightarrow> metrics_ok V (Init m)"
  by (cases "initOnce m") (simp add: Init_def, auto simp: metrics_of_Init intro!: metrics_okI)

lemma fresh_metrics_of [simp]: "metrics_of k (fresh_metrics w) = Map.empty"
  by (cases k) (simp_all add: fresh_metrics_def)

lemma fresh_metrics_ok: "metrics_ok V (fresh_metrics w)"
  by (rule metrics_okI) simp_all

lemma metrics_step_ok:
  assumes "metrics_step P m m'" and P: "prom_ok V P" and ok: "metrics_ok V m"
  shows "metrics_ok V m'"
  using assms(1)
  by (cases rule: metrics_step.cases)
    (auto simp: by_name intro: Init_ok Registers_ok Unregisters_ok update_by_name_ok assms)

lemma metrics_reachable_ok:
  assumes "(metrics_step P)\<^sup>*\<^sup>* (fresh_metrics w) m" and "prom_ok V P"
  shows "metrics_ok V m"
  using assms(1) by (induction rule: rtranclp_induct) (auto intro: fresh_metrics_ok metrics_step_ok assms(2))

section \<open>Updates reach their metric\<close>

definition counted :: "'w prom_view \<Rightarrow> 'w metrics \<Rightarrow> 'w metrics \<Rightarrow> nat \<Rightarrow> update \<Rightarrow> bool" where
  "counted V m m' h u \<longleftrightarrow>
     v_updates V (registerer m') = (v_updates V (registerer m))(h := v_updates V (registerer m) h @ [u])
     \<and> (\<forall>k. metrics_of k m' = metrics_of k m)"

lemma update_by_name_counted:
  assumes P: "prom_ok V P" and ok: "metrics_ok V m" and "initialized m"
    and name: "metrics_of k m name = Some h" and "accepts k u"
  shows "\<exists>m'. update_by_name P k name u m = (Inr (), m') \<and> counted V m m' h u"
proof -
  obtain r m' where up: "update_by_name P k name u m = (r, m')" by (rule prod.exhaust)
  from update_by_name_counts [OF P ok up assms(3) name assms(5)] update_by_name_keeps(1) [OF up] up
  show ?thesis by (auto simp: counted_def)
qed

lemma metric_of_one_name:
  "metrics_ok V m \<Longrightarrow> metrics_of k m n = Some h \<Longrightarrow> metrics_of k' m n' = Some h \<Longrightarrow> k' = k \<and> n' = n"
  by (frule metrics_ok_view, assumption) (drule metrics_ok_view, assumption, simp)

text \<open>A library that behaves as documented: its state lists the metrics made and the names registered,
  and keeps the updates of each metric.\<close>

definition sample_prom :: "((metric_kind \<times> string) list \<times> string list \<times> (nat \<Rightarrow> update list)) prom" where
  "sample_prom = \<lparr>
     p_New = (\<lambda>k opts (ms, rs, us). (Inr (length ms), ms @ [(k, o_Name opts)], rs, us(length ms := []))),
     p_MustRegister = (\<lambda>h (ms, rs, us).
       if h < length ms \<and> valid_name (snd (ms ! h)) \<and> snd (ms ! h) \<notin> set rs
       then (Inr (), ms, snd (ms ! h) # rs, us) else (Inl GoPanic, ms, rs, us)),
     p_Unregister = (\<lambda>h (ms, rs, us).
       if h < length ms \<and> snd (ms ! h) \<in> set rs
       then (True, ms, removeAll (snd (ms ! h)) rs, us) else (False, ms, rs, us)),
     p_Update = (\<lambda>h u (ms, rs, us).
       if h < length ms \<and> accepts (fst (ms ! h)) u
       then (Inr (), ms, rs, us(h := us h @ [u])) else (Inl GoPanic, ms, rs, us))\<rparr>"

definition sample_view :: "((metric_kind \<times> string) list \<times> string list \<times> (nat \<Rightarrow> update list)) prom_view" where
  "sample_view = \<lparr>
     v_metric = (\<lambda>(ms, rs, us) h. if h < length ms then Some (ms ! h) else None),
     v_registered = (\<lambda>(ms, rs, us). set rs),
     v_updates = (\<lambda>(ms, rs, us). us)\<rparr>"

lemma sample_prom_ok: "prom_ok sample_view sample_prom"
  unfolding prom_ok_def
proof (intro conjI)
  show "prom_makes sample_view sample_prom"
    by (auto simp: prom_makes_def sample_prom_def sample_view_def fun_eq_iff nth_append less_Suc_eq)
  show "prom_registers sample_view sample_prom"
    by (auto simp: prom_registers_def sample_prom_def sample_view_def same_view_def split: if_splits)
  show "prom_unregisters sample_view sample_prom"
    by (auto simp: prom_unregisters_def sample_prom_def sample_view_def same_view_def split: if_splits)
  show "prom_updates sample_view sample_prom"
    by (auto simp: prom_updates_def sample_prom_def sample_view_def same_view_def split: if_splits)
qed

definition sample_metrics :: "((metric_kind \<times> string) list \<times> string list \<times> (nat \<Rightarrow> update list)) metrics" where
  "sample_metrics = snd (RegisterCounters sample_prom [\<lparr>o_Name = ''n'', o_Help = [], o_Labels = []\<rparr>]
     (Init (fresh_metrics ([], [], \<lambda>_. []))))"

lemma sample_metrics_reachable: "(metrics_step sample_prom)\<^sup>*\<^sup>* (fresh_metrics ([], [], \<lambda>_. [])) sample_metrics"
proof -
  have "metrics_step sample_prom (Init (fresh_metrics ([], [], \<lambda>_. []))) sample_metrics"
    unfolding sample_metrics_def by (rule step_RegisterCounters) (rule prod.collapse [symmetric])
  thus ?thesis by (meson step_Init rtranclp.rtrancl_refl rtranclp.rtrancl_into_rtrancl)
qed

lemma sample_metrics_known: "Counter ''n'' sample_metrics = Some 0" "initialized sample_metrics"
  by (simp_all add: sample_metrics_def RegisterCounters_def registers register_if_not_exists_def
      sample_prom_def Init_def fresh_metrics_def Counter_def valid_name_def name_char_def in_range_def)



end
