(* ===== verification/Metric_Sets.thy ===== *)
theory Metric_Sets
  imports Metrics
begin

text \<open>
  The metrics of the components.

  \<^item> \<^verbatim>\<open>etherman/metrics/metrics.go\<close>: the prefix of the names is a variable of the package, set by
    \<open>etherman_Register\<close>; the calls take its current value.
  \<^item> \<^verbatim>\<open>synchronizer/metrics/metrics.go\<close>: \<open>synchronizer_Register\<close> gives the prefix to the object it
    returns, and the calls take it from there.
  \<^item> \<^verbatim>\<open>server/metrics/metrics.go\<close>: constant names.

  \<open>bridge_metrics_step\<close> is what the bridge program does with them: it makes the Ethereum clients and
  the synchronizers, which register their metrics, and it never calls \<open>api_Register\<close>. Three results:
  the updates of the API metrics are lost, the metrics of the Ethereum clients are all counted under
  the network registered last, and two times of the synchronizer share one histogram.
\<close>

definition named_opts :: "string \<Rightarrow> string \<Rightarrow> metric_opts" where
  "named_opts name help = \<lparr>o_Name = name, o_Help = help, o_Labels = []\<rparr>"

definition execTimeInSeconds :: "64 word \<Rightarrow> float64" where
  "execTimeInSeconds d = Float_div (Of_int64 d) (Of_int64 1000000000)"

text \<open>One registration after the other; a panic in the first ends both.\<close>

definition and_then ::
    "('w metrics \<Rightarrow> unit result \<times> 'w metrics) \<Rightarrow> ('w metrics \<Rightarrow> unit result \<times> 'w metrics) \<Rightarrow>
     'w metrics \<Rightarrow> unit result \<times> 'w metrics" where
  "and_then f g m = (case f m of (Inl e, m') \<Rightarrow> (Inl e, m') | (Inr _, m') \<Rightarrow> g m')"

section \<open>The Ethereum clients\<close>

abbreviation ReadAndProcessAllEventsTimeName :: string where "ReadAndProcessAllEventsTimeName \<equiv> ''read_and_process_all_event_time''"
abbreviation ProcessAllEventTimeName :: string where "ProcessAllEventTimeName \<equiv> ''process_all_event_time''"
abbreviation ProcessSingleEventTimeName :: string where "ProcessSingleEventTimeName \<equiv> ''process_single_event_time''"
abbreviation GetEventsTimeName :: string where "GetEventsTimeName \<equiv> ''get_events_time''"
abbreviation EventCounterName :: string where "EventCounterName \<equiv> ''processed_events_counter''"

definition etherman_counters :: "string \<Rightarrow> metric_opts list" where
  "etherman_counters pre =
    [named_opts (pre @ EventCounterName) ''[ETHERMAN] count processed events'']"

definition etherman_histograms :: "string \<Rightarrow> metric_opts list" where
  "etherman_histograms pre =
    [named_opts (pre @ ReadAndProcessAllEventsTimeName) ''[ETHERMAN] read and process all event time'',
     named_opts (pre @ ProcessAllEventTimeName) ''[ETHERMAN] process all event time'',
     named_opts (pre @ ProcessSingleEventTimeName) ''[ETHERMAN] process single event time'',
     named_opts (pre @ GetEventsTimeName) ''[ETHERMAN] get L1 events time'']"

definition etherman_prefix :: "u32 \<Rightarrow> string" where
  "etherman_prefix networkID = ''etherman_networkID_'' @ nat_text 10 (unat networkID) @ ''_''"

definition etherman_Register :: "'w prom \<Rightarrow> u32 \<Rightarrow> 'w metrics \<Rightarrow> unit result \<times> string \<times> 'w metrics" where
  "etherman_Register P networkID m =
    (let Prefix = etherman_prefix networkID in
     case and_then (RegisterCounters P (etherman_counters Prefix))
            (RegisterHistograms P (etherman_histograms Prefix)) m of (r, m') \<Rightarrow> (r, Prefix, m'))"

definition ReadAndProcessAllEventsTime :: "'w prom \<Rightarrow> string \<Rightarrow> 64 word \<Rightarrow> 'w metrics \<Rightarrow> unit result \<times> 'w metrics" where
  "ReadAndProcessAllEventsTime P pre lastProcessTime = HistogramObserve P (pre @ ReadAndProcessAllEventsTimeName) (execTimeInSeconds lastProcessTime)"

definition ProcessAllEventTime :: "'w prom \<Rightarrow> string \<Rightarrow> 64 word \<Rightarrow> 'w metrics \<Rightarrow> unit result \<times> 'w metrics" where
  "ProcessAllEventTime P pre lastProcessTime = HistogramObserve P (pre @ ProcessAllEventTimeName) (execTimeInSeconds lastProcessTime)"

definition ProcessSingleEventTime :: "'w prom \<Rightarrow> string \<Rightarrow> 64 word \<Rightarrow> 'w metrics \<Rightarrow> unit result \<times> 'w metrics" where
  "ProcessSingleEventTime P pre lastProcessTime = HistogramObserve P (pre @ ProcessSingleEventTimeName) (execTimeInSeconds lastProcessTime)"

definition GetEventsTime :: "'w prom \<Rightarrow> string \<Rightarrow> 64 word \<Rightarrow> 'w metrics \<Rightarrow> unit result \<times> 'w metrics" where
  "GetEventsTime P pre lastProcessTime = HistogramObserve P (pre @ GetEventsTimeName) (execTimeInSeconds lastProcessTime)"

definition EventCounter :: "'w prom \<Rightarrow> string \<Rightarrow> 'w metrics \<Rightarrow> unit result \<times> 'w metrics" where
  "EventCounter P pre = CounterInc P (pre @ EventCounterName)"

section \<open>The synchronizers\<close>

abbreviation InitializationTimeName :: string where "InitializationTimeName \<equiv> ''initialization_time''"
abbreviation FullTrustedSyncTimeName :: string where "FullTrustedSyncTimeName \<equiv> ''full_trusted_sync_time''"
abbreviation FullL1SyncTimeName :: string where "FullL1SyncTimeName \<equiv> ''full_L1_sync_time''"
abbreviation FullSyncIterationTimeName :: string where "FullSyncIterationTimeName \<equiv> ''full_L1_sync_time''"
abbreviation ReadL1DataTimeName :: string where "ReadL1DataTimeName \<equiv> ''read_L1_data_time''"
abbreviation ProcessL1DataTimeName :: string where "ProcessL1DataTimeName \<equiv> ''process_L1_data_time''"
abbreviation GetTrustedGerTimeName :: string where "GetTrustedGerTimeName \<equiv> ''get_trusted_ger_time''"
abbreviation GetTrustedExitRootsTimeName :: string where "GetTrustedExitRootsTimeName \<equiv> ''get_trusted_exitroots_time''"
abbreviation DepositAmountName :: string where "DepositAmountName \<equiv> ''deposit_amount''"
abbreviation ClaimAmountName :: string where "ClaimAmountName \<equiv> ''claim_amount''"
abbreviation DepositCounterName :: string where "DepositCounterName \<equiv> ''processed_deposit_counter''"
abbreviation L1GERCounterName :: string where "L1GERCounterName \<equiv> ''processed_L1GER_counter''"
abbreviation L2GERCounterName :: string where "L2GERCounterName \<equiv> ''processed_L2GER_counter''"
abbreviation RemoveL2GERCounterName :: string where "RemoveL2GERCounterName \<equiv> ''processed_remove_L2GER_counter''"
abbreviation VerifyBatchCounterName :: string where "VerifyBatchCounterName \<equiv> ''processed_verifyBatch_counter''"
abbreviation ClaimCounterName :: string where "ClaimCounterName \<equiv> ''processed_claim_counter''"
abbreviation ReorgCounterName :: string where "ReorgCounterName \<equiv> ''reorg_counter''"
abbreviation ReorgedBlockCounterName :: string where "ReorgedBlockCounterName \<equiv> ''reorged_block_counter''"
abbreviation WrappedTokensCounterName :: string where "WrappedTokensCounterName \<equiv> ''processed_wrapped_tokens_counter''"
abbreviation CurrentPendingBridgesToClaimName :: string where "CurrentPendingBridgesToClaimName \<equiv> ''current_pending_bridges_to_claim''"
abbreviation LatestBlockSyncedName :: string where "LatestBlockSyncedName \<equiv> ''latest_block_synced''"
abbreviation LatestBlockRollupInfoName :: string where "LatestBlockRollupInfoName \<equiv> ''latest_block_rollup_info''"

definition synchronizer_gauges :: "string \<Rightarrow> metric_opts list" where
  "synchronizer_gauges pre =
    [named_opts (pre @ CurrentPendingBridgesToClaimName) ''[SYNCHRONIZER] current pending deposits to claim'',
     named_opts (pre @ LatestBlockSyncedName) ''[SYNCHRONIZER] latest block synced'',
     named_opts (pre @ LatestBlockRollupInfoName) ''[SYNCHRONIZER] latest block rollup info'']"

definition synchronizer_counters :: "string \<Rightarrow> metric_opts list" where
  "synchronizer_counters pre =
    [named_opts (pre @ DepositCounterName) ''[SYNCHRONIZER] count processed deposit events'',
     named_opts (pre @ L1GERCounterName) ''[SYNCHRONIZER] count processed L1 GER events'',
     named_opts (pre @ L2GERCounterName) ''[SYNCHRONIZER] count processed L2 GER events'',
     named_opts (pre @ RemoveL2GERCounterName) ''[SYNCHRONIZER] count processed remove L2 GER events'',
     named_opts (pre @ VerifyBatchCounterName) ''[SYNCHRONIZER] count processed verify batch events'',
     named_opts (pre @ ClaimCounterName) ''[SYNCHRONIZER] count processed claim events'',
     named_opts (pre @ ReorgCounterName) ''[SYNCHRONIZER] count the number of reorgs'',
     named_opts (pre @ ReorgedBlockCounterName) ''[SYNCHRONIZER] count the reorged blocks'',
     named_opts (pre @ WrappedTokensCounterName) ''[SYNCHRONIZER] count the wrapped tokens'']"

definition synchronizer_histograms :: "string \<Rightarrow> metric_opts list" where
  "synchronizer_histograms pre =
    [named_opts (pre @ InitializationTimeName) ''[SYNCHRONIZER] initialization time'',
     named_opts (pre @ FullTrustedSyncTimeName) ''[SYNCHRONIZER] full trusted state synchronization time'',
     named_opts (pre @ FullL1SyncTimeName) ''[SYNCHRONIZER] full L1 synchronization time'',
     named_opts (pre @ FullSyncIterationTimeName) ''[SYNCHRONIZER] full synchronization iteration time'',
     named_opts (pre @ ReadL1DataTimeName) ''[SYNCHRONIZER] read L1 data time'',
     named_opts (pre @ ProcessL1DataTimeName) ''[SYNCHRONIZER] process L1 data time'',
     named_opts (pre @ GetTrustedGerTimeName) ''[SYNCHRONIZER] get trusted GER time'',
     named_opts (pre @ GetTrustedExitRootsTimeName) ''[SYNCHRONIZER] get trusted ExitRoots time'',
     named_opts (pre @ DepositAmountName) ''[SYNCHRONIZER] deposit amount'',
     named_opts (pre @ ClaimAmountName) ''[SYNCHRONIZER] claim amount'']"

definition synchronizer_prefix :: "u32 \<Rightarrow> string" where
  "synchronizer_prefix networkID = ''synchronizer_networkID_'' @ nat_text 10 (unat networkID) @ ''_''"

definition synchronizer_Register :: "'w prom \<Rightarrow> u32 \<Rightarrow> 'w metrics \<Rightarrow> string result \<times> 'w metrics" where
  "synchronizer_Register P networkID m =
    (let prefix = synchronizer_prefix networkID in
     case and_then (RegisterHistograms P (synchronizer_histograms prefix))
            (and_then (RegisterCounters P (synchronizer_counters prefix))
              (RegisterGauges P (synchronizer_gauges prefix))) m of
       (Inl e, m') \<Rightarrow> (Inl e, m')
     | (Inr _, m') \<Rightarrow> (Inr prefix, m'))"

definition LatestBlockSynced :: "'w prom \<Rightarrow> string \<Rightarrow> u64 \<Rightarrow> 'w metrics \<Rightarrow> unit result \<times> 'w metrics" where
  "LatestBlockSynced P pre blockNumber = GaugeSet P (pre @ LatestBlockSyncedName) (Of_uint64 blockNumber)"

definition LatestBlockRollupInfo :: "'w prom \<Rightarrow> string \<Rightarrow> u64 \<Rightarrow> 'w metrics \<Rightarrow> unit result \<times> 'w metrics" where
  "LatestBlockRollupInfo P pre blockNumber = GaugeSet P (pre @ LatestBlockRollupInfoName) (Of_uint64 blockNumber)"

definition IncrementsPendingBridgesToClaim :: "'w prom \<Rightarrow> string \<Rightarrow> 'w metrics \<Rightarrow> unit result \<times> 'w metrics" where
  "IncrementsPendingBridgesToClaim P pre = GaugeInc P (pre @ CurrentPendingBridgesToClaimName)"

definition DecrementsPendingBridgesToClaim :: "'w prom \<Rightarrow> string \<Rightarrow> 'w metrics \<Rightarrow> unit result \<times> 'w metrics" where
  "DecrementsPendingBridgesToClaim P pre = GaugeDec P (pre @ CurrentPendingBridgesToClaimName)"

definition DepositAmount :: "'w prom \<Rightarrow> string \<Rightarrow> int \<Rightarrow> 'w metrics \<Rightarrow> unit result \<times> 'w metrics" where
  "DepositAmount P pre amount = HistogramObserve P (pre @ DepositAmountName) (Of_big amount)"

definition ClaimAmount :: "'w prom \<Rightarrow> string \<Rightarrow> int \<Rightarrow> 'w metrics \<Rightarrow> unit result \<times> 'w metrics" where
  "ClaimAmount P pre amount = HistogramObserve P (pre @ ClaimAmountName) (Of_big amount)"

definition InitializationTime :: "'w prom \<Rightarrow> string \<Rightarrow> 64 word \<Rightarrow> 'w metrics \<Rightarrow> unit result \<times> 'w metrics" where
  "InitializationTime P pre lastProcessTime = HistogramObserve P (pre @ InitializationTimeName) (execTimeInSeconds lastProcessTime)"

definition FullTrustedSyncTime :: "'w prom \<Rightarrow> string \<Rightarrow> 64 word \<Rightarrow> 'w metrics \<Rightarrow> unit result \<times> 'w metrics" where
  "FullTrustedSyncTime P pre lastProcessTime = HistogramObserve P (pre @ FullTrustedSyncTimeName) (execTimeInSeconds lastProcessTime)"

definition FullL1SyncTime :: "'w prom \<Rightarrow> string \<Rightarrow> 64 word \<Rightarrow> 'w metrics \<Rightarrow> unit result \<times> 'w metrics" where
  "FullL1SyncTime P pre lastProcessTime = HistogramObserve P (pre @ FullL1SyncTimeName) (execTimeInSeconds lastProcessTime)"

definition FullSyncIterationTime :: "'w prom \<Rightarrow> string \<Rightarrow> 64 word \<Rightarrow> 'w metrics \<Rightarrow> unit result \<times> 'w metrics" where
  "FullSyncIterationTime P pre lastProcessTime = HistogramObserve P (pre @ FullSyncIterationTimeName) (execTimeInSeconds lastProcessTime)"

definition ReadL1DataTime :: "'w prom \<Rightarrow> string \<Rightarrow> 64 word \<Rightarrow> 'w metrics \<Rightarrow> unit result \<times> 'w metrics" where
  "ReadL1DataTime P pre lastProcessTime = HistogramObserve P (pre @ ReadL1DataTimeName) (execTimeInSeconds lastProcessTime)"

definition ProcessL1DataTime :: "'w prom \<Rightarrow> string \<Rightarrow> 64 word \<Rightarrow> 'w metrics \<Rightarrow> unit result \<times> 'w metrics" where
  "ProcessL1DataTime P pre lastProcessTime = HistogramObserve P (pre @ ProcessL1DataTimeName) (execTimeInSeconds lastProcessTime)"

definition GetTrustedGerTime :: "'w prom \<Rightarrow> string \<Rightarrow> 64 word \<Rightarrow> 'w metrics \<Rightarrow> unit result \<times> 'w metrics" where
  "GetTrustedGerTime P pre lastProcessTime = HistogramObserve P (pre @ GetTrustedGerTimeName) (execTimeInSeconds lastProcessTime)"

definition GetTrustedExitRootsTime :: "'w prom \<Rightarrow> string \<Rightarrow> 64 word \<Rightarrow> 'w metrics \<Rightarrow> unit result \<times> 'w metrics" where
  "GetTrustedExitRootsTime P pre lastProcessTime = HistogramObserve P (pre @ GetTrustedExitRootsTimeName) (execTimeInSeconds lastProcessTime)"

definition DepositCounter :: "'w prom \<Rightarrow> string \<Rightarrow> 'w metrics \<Rightarrow> unit result \<times> 'w metrics" where
  "DepositCounter P pre = CounterInc P (pre @ DepositCounterName)"

definition ClaimCounter :: "'w prom \<Rightarrow> string \<Rightarrow> 'w metrics \<Rightarrow> unit result \<times> 'w metrics" where
  "ClaimCounter P pre = CounterInc P (pre @ ClaimCounterName)"

definition VerifyBatchCounter :: "'w prom \<Rightarrow> string \<Rightarrow> 'w metrics \<Rightarrow> unit result \<times> 'w metrics" where
  "VerifyBatchCounter P pre = CounterInc P (pre @ VerifyBatchCounterName)"

definition RemoveL2GERCounter :: "'w prom \<Rightarrow> string \<Rightarrow> 'w metrics \<Rightarrow> unit result \<times> 'w metrics" where
  "RemoveL2GERCounter P pre = CounterInc P (pre @ RemoveL2GERCounterName)"

definition L2GERCounter :: "'w prom \<Rightarrow> string \<Rightarrow> 'w metrics \<Rightarrow> unit result \<times> 'w metrics" where
  "L2GERCounter P pre = CounterInc P (pre @ L2GERCounterName)"

definition L1GERCounter :: "'w prom \<Rightarrow> string \<Rightarrow> 'w metrics \<Rightarrow> unit result \<times> 'w metrics" where
  "L1GERCounter P pre = CounterInc P (pre @ L1GERCounterName)"

definition ReorgCounter :: "'w prom \<Rightarrow> string \<Rightarrow> 'w metrics \<Rightarrow> unit result \<times> 'w metrics" where
  "ReorgCounter P pre = CounterInc P (pre @ ReorgCounterName)"

definition ReorgedBlocksCounter :: "'w prom \<Rightarrow> string \<Rightarrow> 'w metrics \<Rightarrow> unit result \<times> 'w metrics" where
  "ReorgedBlocksCounter P pre = CounterInc P (pre @ ReorgedBlockCounterName)"

definition WrappedTokensCounter :: "'w prom \<Rightarrow> string \<Rightarrow> 'w metrics \<Rightarrow> unit result \<times> 'w metrics" where
  "WrappedTokensCounter P pre = CounterInc P (pre @ WrappedTokensCounterName)"

section \<open>The API\<close>

definition api_Prefix :: string where "api_Prefix = ''api_''"
abbreviation CheckAPILatencyName :: string where "CheckAPILatencyName \<equiv> api_Prefix @ ''check_api_latency''"
abbreviation GetBridgesLatencyName :: string where "GetBridgesLatencyName \<equiv> api_Prefix @ ''get_bridges_latency''"
abbreviation GetClaimsLatencyName :: string where "GetClaimsLatencyName \<equiv> api_Prefix @ ''get_claims_latency''"
abbreviation GetProofLatencyName :: string where "GetProofLatencyName \<equiv> api_Prefix @ ''get_proof_latency''"
abbreviation GetBridgeLatencyName :: string where "GetBridgeLatencyName \<equiv> api_Prefix @ ''get_bridge_latency''"
abbreviation GetTokenWrappedLatencyName :: string where "GetTokenWrappedLatencyName \<equiv> api_Prefix @ ''get_wrapped_token_latency''"
abbreviation GetProofByGERLatencyName :: string where "GetProofByGERLatencyName \<equiv> api_Prefix @ ''get_proof_by_ger_latency''"
abbreviation GetPendingBridgesToClaimLatencyName :: string where "GetPendingBridgesToClaimLatencyName \<equiv> api_Prefix @ ''get_pending_bridges_to_claim_latency''"
abbreviation CheckAPICounterName :: string where "CheckAPICounterName \<equiv> api_Prefix @ ''check_api_counter''"
abbreviation GetBridgesCounterName :: string where "GetBridgesCounterName \<equiv> api_Prefix @ ''get_bridges_counter''"
abbreviation GetClaimsCounterName :: string where "GetClaimsCounterName \<equiv> api_Prefix @ ''get_claims_counter''"
abbreviation GetProofCounterName :: string where "GetProofCounterName \<equiv> api_Prefix @ ''get_proof_counter''"
abbreviation GetBridgeCounterName :: string where "GetBridgeCounterName \<equiv> api_Prefix @ ''get_bridge_counter''"
abbreviation GetTokenWrappedCounterName :: string where "GetTokenWrappedCounterName \<equiv> api_Prefix @ ''get_wrapped_token_counter''"
abbreviation GetProofByGERCounterName :: string where "GetProofByGERCounterName \<equiv> api_Prefix @ ''get_proof_by_ger_counter''"
abbreviation GetPendingBridgesToClaimCounterName :: string where "GetPendingBridgesToClaimCounterName \<equiv> api_Prefix @ ''get_pending_bridges_to_claim_counter''"

definition api_counters :: "metric_opts list" where
  "api_counters =
    [named_opts CheckAPICounterName ''[API] count the number of requests to CheckAPI endpoint'',
     named_opts GetBridgesCounterName ''[API] count the number of requests to GetBridges endpoint'',
     named_opts GetClaimsCounterName ''[API] count the number of requests to GetClaims endpoint'',
     named_opts GetProofCounterName ''[API] count the number of requests to GetProof endpoint'',
     named_opts GetBridgeCounterName ''[API] count the number of requests to GetBridge endpoint'',
     named_opts GetTokenWrappedCounterName ''[API] count the number of requests to GetTokenWrapped endpoint'',
     named_opts GetProofByGERCounterName ''[API] count the number of requests to GetProofByGER endpoint'',
     named_opts GetPendingBridgesToClaimCounterName ''[API] count the number of requests to GetPendingBridgesToClaim endpoint'']"

definition api_histograms :: "metric_opts list" where
  "api_histograms =
    [named_opts CheckAPILatencyName ''[API] measures the latency of the CheckAPI endpoint'',
     named_opts GetBridgesLatencyName ''[API] measures the latency of the GetBridges endpoint'',
     named_opts GetClaimsLatencyName ''[API] measures the latency of the GetClaims endpoint'',
     named_opts GetProofLatencyName ''[API] measures the latency of the GetProof endpoint'',
     named_opts GetBridgeLatencyName ''[API] measures the latency of the GetBridge endpoint'',
     named_opts GetTokenWrappedLatencyName ''[API] measures the latency of the GetTokenWrapped endpoint'',
     named_opts GetProofByGERLatencyName ''[API] measures the latency of the GetProofByGER endpoint'',
     named_opts GetPendingBridgesToClaimLatencyName ''[API] measures the latency of the GetPendingBridgesToClaim endpoint'']"

definition api_Register :: "'w prom \<Rightarrow> u32 \<Rightarrow> 'w metrics \<Rightarrow> unit result \<times> 'w metrics" where
  "api_Register P networkID = and_then (RegisterCounters P api_counters) (RegisterHistograms P api_histograms)"

definition CheckAPILatency :: "'w prom \<Rightarrow> 64 word \<Rightarrow> 'w metrics \<Rightarrow> unit result \<times> 'w metrics" where
  "CheckAPILatency P lastProcessTime = HistogramObserve P CheckAPILatencyName (execTimeInSeconds lastProcessTime)"

definition GetBridgesLatency :: "'w prom \<Rightarrow> 64 word \<Rightarrow> 'w metrics \<Rightarrow> unit result \<times> 'w metrics" where
  "GetBridgesLatency P lastProcessTime = HistogramObserve P GetBridgesLatencyName (execTimeInSeconds lastProcessTime)"

definition GetClaimsLatency :: "'w prom \<Rightarrow> 64 word \<Rightarrow> 'w metrics \<Rightarrow> unit result \<times> 'w metrics" where
  "GetClaimsLatency P lastProcessTime = HistogramObserve P GetClaimsLatencyName (execTimeInSeconds lastProcessTime)"

definition GetProofLatency :: "'w prom \<Rightarrow> 64 word \<Rightarrow> 'w metrics \<Rightarrow> unit result \<times> 'w metrics" where
  "GetProofLatency P lastProcessTime = HistogramObserve P GetProofLatencyName (execTimeInSeconds lastProcessTime)"

definition GetBridgeLatency :: "'w prom \<Rightarrow> 64 word \<Rightarrow> 'w metrics \<Rightarrow> unit result \<times> 'w metrics" where
  "GetBridgeLatency P lastProcessTime = HistogramObserve P GetBridgeLatencyName (execTimeInSeconds lastProcessTime)"

definition GetTokenWrappedLatency :: "'w prom \<Rightarrow> 64 word \<Rightarrow> 'w metrics \<Rightarrow> unit result \<times> 'w metrics" where
  "GetTokenWrappedLatency P lastProcessTime = HistogramObserve P GetTokenWrappedLatencyName (execTimeInSeconds lastProcessTime)"

definition GetProofByGERLatency :: "'w prom \<Rightarrow> 64 word \<Rightarrow> 'w metrics \<Rightarrow> unit result \<times> 'w metrics" where
  "GetProofByGERLatency P lastProcessTime = HistogramObserve P GetProofByGERLatencyName (execTimeInSeconds lastProcessTime)"

definition GetPendingBridgesToClaimLatency :: "'w prom \<Rightarrow> 64 word \<Rightarrow> 'w metrics \<Rightarrow> unit result \<times> 'w metrics" where
  "GetPendingBridgesToClaimLatency P lastProcessTime = HistogramObserve P GetPendingBridgesToClaimLatencyName (execTimeInSeconds lastProcessTime)"

definition CheckAPICounter :: "'w prom \<Rightarrow> 'w metrics \<Rightarrow> unit result \<times> 'w metrics" where
  "CheckAPICounter P = CounterInc P CheckAPICounterName"

definition GetBridgesCounter :: "'w prom \<Rightarrow> 'w metrics \<Rightarrow> unit result \<times> 'w metrics" where
  "GetBridgesCounter P = CounterInc P GetBridgesCounterName"

definition GetClaimsCounter :: "'w prom \<Rightarrow> 'w metrics \<Rightarrow> unit result \<times> 'w metrics" where
  "GetClaimsCounter P = CounterInc P GetClaimsCounterName"

definition GetProofCounter :: "'w prom \<Rightarrow> 'w metrics \<Rightarrow> unit result \<times> 'w metrics" where
  "GetProofCounter P = CounterInc P GetProofCounterName"

definition GetBridgeCounter :: "'w prom \<Rightarrow> 'w metrics \<Rightarrow> unit result \<times> 'w metrics" where
  "GetBridgeCounter P = CounterInc P GetBridgeCounterName"

definition GetTokenWrappedCounter :: "'w prom \<Rightarrow> 'w metrics \<Rightarrow> unit result \<times> 'w metrics" where
  "GetTokenWrappedCounter P = CounterInc P GetTokenWrappedCounterName"

definition GetProofByGERCounter :: "'w prom \<Rightarrow> 'w metrics \<Rightarrow> unit result \<times> 'w metrics" where
  "GetProofByGERCounter P = CounterInc P GetProofByGERCounterName"

definition GetPendingBridgesToClaimCounter :: "'w prom \<Rightarrow> 'w metrics \<Rightarrow> unit result \<times> 'w metrics" where
  "GetPendingBridgesToClaimCounter P = CounterInc P GetPendingBridgesToClaimCounterName"

section \<open>The metrics of the bridge program\<close>

text \<open>The calls each component makes, with its prefix, a duration, a block number and an amount.\<close>

definition etherman_calls :: "'w prom \<Rightarrow> string \<Rightarrow> 64 word \<Rightarrow> ('w metrics \<Rightarrow> unit result \<times> 'w metrics) list" where
  "etherman_calls P pre d =
    [ReadAndProcessAllEventsTime P pre d, ProcessAllEventTime P pre d, ProcessSingleEventTime P pre d,
     GetEventsTime P pre d, EventCounter P pre]"

definition synchronizer_calls ::
    "'w prom \<Rightarrow> string \<Rightarrow> 64 word \<Rightarrow> u64 \<Rightarrow> int \<Rightarrow> ('w metrics \<Rightarrow> unit result \<times> 'w metrics) list" where
  "synchronizer_calls P pre d n a =
    [LatestBlockSynced P pre n, LatestBlockRollupInfo P pre n, IncrementsPendingBridgesToClaim P pre,
     DecrementsPendingBridgesToClaim P pre, DepositAmount P pre a, ClaimAmount P pre a,
     InitializationTime P pre d, FullTrustedSyncTime P pre d, FullL1SyncTime P pre d,
     FullSyncIterationTime P pre d, ReadL1DataTime P pre d, ProcessL1DataTime P pre d,
     GetTrustedGerTime P pre d, GetTrustedExitRootsTime P pre d, DepositCounter P pre, ClaimCounter P pre,
     VerifyBatchCounter P pre, RemoveL2GERCounter P pre, L2GERCounter P pre, L1GERCounter P pre,
     ReorgCounter P pre, ReorgedBlocksCounter P pre, WrappedTokensCounter P pre]"

definition api_calls :: "'w prom \<Rightarrow> 64 word \<Rightarrow> ('w metrics \<Rightarrow> unit result \<times> 'w metrics) list" where
  "api_calls P d =
    [CheckAPILatency P d, GetBridgesLatency P d, GetClaimsLatency P d, GetProofLatency P d,
     GetBridgeLatency P d, GetTokenWrappedLatency P d, GetProofByGERLatency P d,
     GetPendingBridgesToClaimLatency P d, CheckAPICounter P, GetBridgesCounter P, GetClaimsCounter P,
     GetProofCounter P, GetBridgeCounter P, GetTokenWrappedCounter P, GetProofByGERCounter P,
     GetPendingBridgesToClaimCounter P]"

text \<open>What the program does with its metrics: \<^verbatim>\<open>cmd/run.go\<close> calls \<open>Init\<close> when metrics are enabled,
  \<^verbatim>\<open>etherman.NewClient\<close> and \<^verbatim>\<open>etherman.NewL2Client\<close> call \<open>etherman_Register\<close>,
  \<^verbatim>\<open>synchronizer.NewSynchronizer\<close> calls \<open>synchronizer_Register\<close>, and the components make their calls
  in any order. The first component of the state is the package variable \<^verbatim>\<open>Prefix\<close>.\<close>

inductive bridge_metrics_step :: "'w prom \<Rightarrow> string \<times> 'w metrics \<Rightarrow> string \<times> 'w metrics \<Rightarrow> bool" for P where
  bm_Init: "bridge_metrics_step P (p, m) (p, Init m)"
| bm_etherman: "etherman_Register P networkID m = (r, p', m') \<Longrightarrow> bridge_metrics_step P (p, m) (p', m')"
| bm_synchronizer: "synchronizer_Register P networkID m = (r, m') \<Longrightarrow> bridge_metrics_step P (p, m) (p, m')"
| bm_etherman_call: "f \<in> set (etherman_calls P p d) \<Longrightarrow> f m = (r, m') \<Longrightarrow> bridge_metrics_step P (p, m) (p, m')"
| bm_synchronizer_call: "f \<in> set (synchronizer_calls P pre d n a) \<Longrightarrow> f m = (r, m') \<Longrightarrow>
     bridge_metrics_step P (p, m) (p, m')"
| bm_api_call: "f \<in> set (api_calls P d) \<Longrightarrow> f m = (r, m') \<Longrightarrow> bridge_metrics_step P (p, m) (p, m')"

lemmas etherman_call_defs = ReadAndProcessAllEventsTime_def ProcessAllEventTime_def
  ProcessSingleEventTime_def GetEventsTime_def EventCounter_def

lemmas synchronizer_call_defs = LatestBlockSynced_def LatestBlockRollupInfo_def
  IncrementsPendingBridgesToClaim_def DecrementsPendingBridgesToClaim_def DepositAmount_def ClaimAmount_def
  InitializationTime_def FullTrustedSyncTime_def FullL1SyncTime_def FullSyncIterationTime_def
  ReadL1DataTime_def ProcessL1DataTime_def GetTrustedGerTime_def GetTrustedExitRootsTime_def
  DepositCounter_def ClaimCounter_def VerifyBatchCounter_def RemoveL2GERCounter_def L2GERCounter_def
  L1GERCounter_def ReorgCounter_def ReorgedBlocksCounter_def WrappedTokensCounter_def

lemmas api_call_defs = CheckAPILatency_def GetBridgesLatency_def GetClaimsLatency_def GetProofLatency_def
  GetBridgeLatency_def GetTokenWrappedLatency_def GetProofByGERLatency_def
  GetPendingBridgesToClaimLatency_def CheckAPICounter_def GetBridgesCounter_def GetClaimsCounter_def
  GetProofCounter_def GetBridgeCounter_def GetTokenWrappedCounter_def GetProofByGERCounter_def
  GetPendingBridgesToClaimCounter_def

text \<open>Every call is an update by name.\<close>

lemma calls_by_name:
  "f \<in> set (etherman_calls P pre d) \<Longrightarrow> \<exists>k n u. f = update_by_name P k (pre @ n) u \<and> accepts k u"
  "f \<in> set (synchronizer_calls P pre d b a) \<Longrightarrow> \<exists>k n u. f = update_by_name P k (pre @ n) u \<and> accepts k u"
  "f \<in> set (api_calls P d) \<Longrightarrow> \<exists>k n u. f = update_by_name P k (api_Prefix @ n) u \<and> accepts k u"
  unfolding etherman_calls_def synchronizer_calls_def api_calls_def
    etherman_call_defs synchronizer_call_defs api_call_defs by_name
  by (auto; metis accepts.simps)+

lemma and_then_cases:
  assumes "and_then f g m = (r, m')"
  obtains e where "f m = (Inl e, m')" "r = Inl e" | m1 where "f m = (Inr (), m1)" "g m1 = (r, m')"
proof -
  obtain r1 m1 where "f m = (r1, m1)" by (rule prod.exhaust)
  with assms that show ?thesis by (cases r1) (auto simp: and_then_def)
qed

text \<open>What a registration enters begins with the prefix.\<close>

definition within :: "string \<Rightarrow> 'w metrics \<Rightarrow> 'w metrics \<Rightarrow> bool" where
  "within pre m m' \<longleftrightarrow>
     (\<forall>k n. metrics_of k m' n \<noteq> None \<longrightarrow> metrics_of k m n \<noteq> None \<or> (\<exists>s. n = pre @ s))"

lemma within_and_then:
  assumes "and_then f g m = (r, m')"
    and "\<And>m r m'. f m = (r, m') \<Longrightarrow> within pre m m'" and "\<And>m r m'. g m = (r, m') \<Longrightarrow> within pre m m'"
  shows "within pre m m'"
proof (rule and_then_cases [OF assms(1)])
  fix m1 assume "f m = (Inr (), m1)" and "g m1 = (r, m')"
  from assms(2) [OF this(1)] assms(3) [OF this(2)] show ?thesis unfolding within_def by blast
qed (use assms(2) in blast)

lemma Registers_dom:
  "RegisterCounters P opts m = (r, m') \<Longrightarrow> metrics_of k m' n \<noteq> None \<Longrightarrow>
     metrics_of k m n \<noteq> None \<or> n \<in> o_Name ` set opts"
  "RegisterHistograms P opts m = (r, m') \<Longrightarrow> metrics_of k m' n \<noteq> None \<Longrightarrow>
     metrics_of k m n \<noteq> None \<or> n \<in> o_Name ` set opts"
  "RegisterGauges P opts m = (r, m') \<Longrightarrow> metrics_of k m' n \<noteq> None \<Longrightarrow>
     metrics_of k m n \<noteq> None \<or> n \<in> o_Name ` set opts"
  using counter_map.each_dom [of P opts m r m' k n] histogram_map.each_dom [of P opts m r m' k n]
    gauge_map.each_dom [of P opts m r m' k n]
  by (auto simp: Registers registers split: if_splits)

lemma Registers_flags:
  "RegisterCounters P opts m = (r, m') \<Longrightarrow> initialized m' = initialized m"
  "RegisterHistograms P opts m = (r, m') \<Longrightarrow> initialized m' = initialized m"
  "RegisterGauges P opts m = (r, m') \<Longrightarrow> initialized m' = initialized m"
  using counter_map.each_flags [of P opts m r m'] histogram_map.each_flags [of P opts m r m']
    gauge_map.each_flags [of P opts m r m']
  by (auto simp: Registers registers split: if_splits)

lemma Registers_keep:
  assumes "prom_ok V P" and "metrics_ok V m" and "metrics_of k m n = Some h"
  shows "RegisterCounters P opts m = (r, m') \<Longrightarrow>
      metrics_of k m' n = Some h \<and> v_updates V (registerer m') h = v_updates V (registerer m) h"
    "RegisterHistograms P opts m = (r, m') \<Longrightarrow>
      metrics_of k m' n = Some h \<and> v_updates V (registerer m') h = v_updates V (registerer m) h"
    "RegisterGauges P opts m = (r, m') \<Longrightarrow>
      metrics_of k m' n = Some h \<and> v_updates V (registerer m') h = v_updates V (registerer m) h"
  using assms(3) counter_map.each_keeps [OF assms(1,2) _ assms(3)] histogram_map.each_keeps [OF assms(1,2) _ assms(3)]
    gauge_map.each_keeps [OF assms(1,2) _ assms(3)]
  by (auto simp: Registers registers split: if_splits)

lemma within_Registers:
  assumes "\<forall>x \<in> set opts. \<exists>s. o_Name x = pre @ s"
  shows "RegisterCounters P opts m = (r, m') \<Longrightarrow> within pre m m'"
    "RegisterHistograms P opts m = (r, m') \<Longrightarrow> within pre m m'"
    "RegisterGauges P opts m = (r, m') \<Longrightarrow> within pre m m'"
  using Registers_dom [of P opts m r m'] assms unfolding within_def by blast+

lemma names_within:
  "\<forall>x \<in> set (etherman_counters pre). \<exists>s. o_Name x = pre @ s"
  "\<forall>x \<in> set (etherman_histograms pre). \<exists>s. o_Name x = pre @ s"
  "\<forall>x \<in> set (synchronizer_counters pre). \<exists>s. o_Name x = pre @ s"
  "\<forall>x \<in> set (synchronizer_histograms pre). \<exists>s. o_Name x = pre @ s"
  "\<forall>x \<in> set (synchronizer_gauges pre). \<exists>s. o_Name x = pre @ s"
  by (simp_all add: etherman_counters_def etherman_histograms_def synchronizer_counters_def
      synchronizer_histograms_def synchronizer_gauges_def named_opts_def)

lemmas within_lists = within_Registers(1) [OF names_within(1)] within_Registers(2) [OF names_within(2)]
  within_Registers(1) [OF names_within(3)] within_Registers(2) [OF names_within(4)]
  within_Registers(3) [OF names_within(5)]

lemma etherman_Register_split:
  "etherman_Register P i m = (r, p, m') \<longleftrightarrow> p = etherman_prefix i \<and>
     and_then (RegisterCounters P (etherman_counters (etherman_prefix i)))
       (RegisterHistograms P (etherman_histograms (etherman_prefix i))) m = (r, m')"
  by (auto simp: etherman_Register_def Let_def split: prod.splits)

lemma etherman_Register_initialized:
  "etherman_Register P i m = (r, p, m') \<Longrightarrow> initialized m' = initialized m"
  unfolding etherman_Register_split by (elim conjE, erule and_then_cases) (simp_all add: Registers_flags)

lemma etherman_Register_within:
  assumes "etherman_Register P i m = (r, p, m')"
  shows "within (etherman_prefix i) m m'"
  using assms unfolding etherman_Register_split
  by (elim conjE) (erule within_and_then; erule within_lists)

lemma synchronizer_Register_within:
  assumes "synchronizer_Register P i m = (r, m')"
  shows "within (synchronizer_prefix i) m m'"
proof -
  obtain r1 where "and_then (RegisterHistograms P (synchronizer_histograms (synchronizer_prefix i)))
      (and_then (RegisterCounters P (synchronizer_counters (synchronizer_prefix i)))
        (RegisterGauges P (synchronizer_gauges (synchronizer_prefix i)))) m = (r1, m')"
    using assms by (auto simp: synchronizer_Register_def Let_def split: prod.splits sum.splits)
  thus ?thesis by (rule within_and_then) (erule within_lists within_and_then)+
qed

lemma bridge_metrics_names:
  assumes "(bridge_metrics_step P)\<^sup>*\<^sup>* (p0, fresh_metrics w) (p, m)" and "metrics_of k m n \<noteq> None"
  shows "\<exists>i s. n = etherman_prefix i @ s \<or> n = synchronizer_prefix i @ s"
proof -
  have "\<forall>k n. metrics_of k (snd x) n \<noteq> None \<longrightarrow> (\<exists>i s. n = etherman_prefix i @ s \<or> n = synchronizer_prefix i @ s)"
    if "(bridge_metrics_step P)\<^sup>*\<^sup>* (p0, fresh_metrics w) x" for x
    using that
  proof (induction rule: rtranclp_induct)
    case (step y z)
    from step(2,3) show ?case
    proof (cases rule: bridge_metrics_step.cases)
      case (bm_Init p m)
      with step(3) show ?thesis by (auto simp: metrics_of_Init)
    next
      case (bm_etherman i m r p' m' p)
      with step(3) show ?thesis using etherman_Register_within unfolding within_def by (metis snd_conv)
    next
      case (bm_synchronizer i m r m' p)
      with step(3) show ?thesis using synchronizer_Register_within unfolding within_def by (metis snd_conv)
    next
      case (bm_etherman_call f p d m r m')
      with step(3) calls_by_name(1) update_by_name_keeps(1) show ?thesis by (metis snd_conv)
    next
      case (bm_synchronizer_call f pre d n a m r m' p)
      with step(3) calls_by_name(2) update_by_name_keeps(1) show ?thesis by (metis snd_conv)
    next
      case (bm_api_call f d m r m' p)
      with step(3) calls_by_name(3) update_by_name_keeps(1) show ?thesis by (metis snd_conv)
    qed
  qed simp
  from this [OF assms(1)] assms(2) show ?thesis by simp
qed

lemma api_call_lost:
  assumes "(bridge_metrics_step P)\<^sup>*\<^sup>* (p0, fresh_metrics w) (p, m)" and "f \<in> set (api_calls P d)"
  shows "f m = (Inr (), m)"
proof -
  obtain k n u where f: "f = update_by_name P k (api_Prefix @ n) u" using calls_by_name(3) [OF assms(2)] by blast
  have "metrics_of k m (api_Prefix @ n) = None"
  proof (rule ccontr)
    assume "metrics_of k m (api_Prefix @ n) \<noteq> None"
    from bridge_metrics_names [OF assms(1) this] show False
      by (auto simp: api_Prefix_def etherman_prefix_def synchronizer_prefix_def)
  qed
  with f show ?thesis by simp
qed

lemma and_then_keeps:
  assumes "and_then f g m = (r, m')" and "Q m"
    and "\<And>m r m'. Q m \<Longrightarrow> f m = (r, m') \<Longrightarrow> Q m'" and "\<And>m r m'. Q m \<Longrightarrow> g m = (r, m') \<Longrightarrow> Q m'"
  shows "Q m'"
  by (rule and_then_cases [OF assms(1)]) (use assms(2-4) in blast)+

lemma etherman_Register_ok:
  assumes "prom_ok V P" and "metrics_ok V m" and "etherman_Register P i m = (r, p, m')"
  shows "metrics_ok V m'"
  using assms(3) unfolding etherman_Register_split
  by (elim conjE)
    (erule and_then_keeps [where Q = "metrics_ok V", OF _ assms(2)], (erule Registers_ok [OF assms(1)], assumption)+)

lemma synchronizer_Register_ok:
  assumes "prom_ok V P" and "metrics_ok V m" and "synchronizer_Register P i m = (r, m')"
  shows "metrics_ok V m'"
proof -
  obtain r1 where "and_then (RegisterHistograms P (synchronizer_histograms (synchronizer_prefix i)))
      (and_then (RegisterCounters P (synchronizer_counters (synchronizer_prefix i)))
        (RegisterGauges P (synchronizer_gauges (synchronizer_prefix i)))) m = (r1, m')"
    using assms(3) by (auto simp: synchronizer_Register_def Let_def split: prod.splits sum.splits)
  thus ?thesis
  proof (rule and_then_keeps [where Q = "metrics_ok V", OF _ assms(2)])
    fix m r m'
    assume ok: "metrics_ok V m"
    { assume "RegisterHistograms P (synchronizer_histograms (synchronizer_prefix i)) m = (r, m')"
      thus "metrics_ok V m'" by (rule Registers_ok [OF assms(1) ok]) }
    { assume "and_then (RegisterCounters P (synchronizer_counters (synchronizer_prefix i)))
          (RegisterGauges P (synchronizer_gauges (synchronizer_prefix i))) m = (r, m')"
      thus "metrics_ok V m'"
        by (rule and_then_keeps [where Q = "metrics_ok V", OF _ ok])
          (erule Registers_ok [OF assms(1)], assumption)+ }
  qed
qed

lemma bridge_metrics_ok:
  assumes "(bridge_metrics_step P)\<^sup>*\<^sup>* (p0, fresh_metrics w) x" and P: "prom_ok V P"
  shows "metrics_ok V (snd x)"
  using assms(1)
proof (induction rule: rtranclp_induct)
  case (step y z)
  from step(2) show ?case
  proof (cases rule: bridge_metrics_step.cases)
    case (bm_Init p m)
    with step(3) show ?thesis by (simp add: Init_ok)
  next
    case (bm_etherman i m r p' m' p)
    with step(3) show ?thesis using etherman_Register_ok [OF P] by auto
  next
    case (bm_synchronizer i m r m' p)
    with step(3) show ?thesis using synchronizer_Register_ok [OF P] by auto
  next
    case (bm_etherman_call f p d m r m')
    with step(3) calls_by_name(1) update_by_name_ok [OF P] show ?thesis by (metis snd_conv)
  next
    case (bm_synchronizer_call f pre d n a m r m' p)
    with step(3) calls_by_name(2) update_by_name_ok [OF P] show ?thesis by (metis snd_conv)
  next
    case (bm_api_call f d m r m' p)
    with step(3) calls_by_name(3) update_by_name_ok [OF P] show ?thesis by (metis snd_conv)
  qed
qed (simp add: fresh_metrics_ok)

text \<open>A client's registration enters its event counter and keeps the counters of other networks with
  what they have counted.\<close>

lemma etherman_Register_found:
  assumes P: "prom_ok V P" and ok: "metrics_ok V m" and "initialized m"
    and "etherman_Register P i m = (Inr (), p, m')"
  shows "metrics_of KCounter m' (etherman_prefix i @ EventCounterName) \<noteq> None"
proof -
  have "and_then (RegisterCounters P (etherman_counters (etherman_prefix i)))
      (RegisterHistograms P (etherman_histograms (etherman_prefix i))) m = (Inr (), m')"
    using assms(4) by (simp add: etherman_Register_split)
  then obtain m1 where c: "RegisterCounters P (etherman_counters (etherman_prefix i)) m = (Inr (), m1)"
    and h: "RegisterHistograms P (etherman_histograms (etherman_prefix i)) m1 = (Inr (), m')"
    by (rule and_then_cases) auto
  have "register_each (register_if_not_exists P KCounter counters counters_update)
      (etherman_counters (etherman_prefix i)) m = (Inr (), m1)"
    using c \<open>initialized m\<close> by (simp add: RegisterCounters_def registers)
  from counter_map.each_found [OF P ok this, of "hd (etherman_counters (etherman_prefix i))"]
  have "metrics_of KCounter m1 (etherman_prefix i @ EventCounterName) \<noteq> None"
    by (simp add: etherman_counters_def named_opts_def)
  with Registers_keep(2) [OF P Registers_ok(2) [OF P ok c] _ h] show ?thesis by blast
qed

definition carried :: "'w prom_view \<Rightarrow> 'w metrics \<Rightarrow> metric_kind \<Rightarrow> string \<Rightarrow> nat \<Rightarrow> 'w metrics \<Rightarrow> bool" where
  "carried V m k n h m' \<longleftrightarrow> metrics_ok V m' \<and> metrics_of k m' n = Some h \<and> initialized m' = initialized m
     \<and> v_updates V (registerer m') h = v_updates V (registerer m) h"

lemma carried_Registers:
  assumes P: "prom_ok V P" and c: "carried V m0 k n h m"
  shows "RegisterCounters P opts m = (r, m') \<Longrightarrow> carried V m0 k n h m'"
    "RegisterHistograms P opts m = (r, m') \<Longrightarrow> carried V m0 k n h m'"
proof -
  have ok: "metrics_ok V m" and h: "metrics_of k m n = Some h" using c by (simp_all add: carried_def)
  show "carried V m0 k n h m'" if "RegisterCounters P opts m = (r, m')"
    using c Registers_ok(2) [OF P ok that] Registers_keep(1) [OF P ok h that] Registers_flags(1) [OF that]
    by (simp add: carried_def)
  show "carried V m0 k n h m'" if "RegisterHistograms P opts m = (r, m')"
    using c Registers_ok(4) [OF P ok that] Registers_keep(2) [OF P ok h that] Registers_flags(2) [OF that]
    by (simp add: carried_def)
qed

lemma etherman_Register_keeps:
  assumes P: "prom_ok V P" and ok: "metrics_ok V m" and "etherman_Register P i m = (r, p, m')"
    and h: "metrics_of k m n = Some h"
  shows "carried V m k n h m'"
proof -
  have "and_then (RegisterCounters P (etherman_counters (etherman_prefix i)))
      (RegisterHistograms P (etherman_histograms (etherman_prefix i))) m = (r, m')"
    using assms(3) by (simp add: etherman_Register_split)
  thus ?thesis
    by (rule and_then_keeps [where Q = "carried V m k n h"])
      (simp add: carried_def ok h, (erule carried_Registers [OF P], assumption)+)
qed

section \<open>Decimal numbers in names\<close>

lemma digits_value: "2 \<le> b \<Longrightarrow> foldl (\<lambda>a d. a * b + d) 0 (digits b n) = n"
  by (induction b n rule: digits.induct) (subst digits.simps, simp)

lemma digits_below: "2 \<le> b \<Longrightarrow> d \<in> set (digits b n) \<Longrightarrow> d < b"
  by (induction b n rule: digits.induct) (subst (asm) digits.simps, auto split: if_splits)

lemma digit_char_inj: "inj_on digit_char {0..<10}"
proof -
  have "distinct (map digit_char [0..<10])" by (simp add: digit_char_def upt_rec)
  thus ?thesis by (simp add: distinct_map)
qed

lemma nat_text_10_inj:
  assumes "nat_text 10 a = nat_text 10 b"
  shows "a = b"
proof -
  have "set (digits 10 a) \<union> set (digits 10 b) \<subseteq> {0..<10}" using digits_below [of 10] by fastforce
  hence "inj_on digit_char (set (digits 10 a) \<union> set (digits 10 b))" by (rule inj_on_subset [OF digit_char_inj])
  moreover have "map digit_char (digits 10 a) = map digit_char (digits 10 b)"
    using assms unfolding nat_text_def .
  ultimately have "digits 10 a = digits 10 b" by (simp only: inj_on_map_eq_map)
  hence "foldl (\<lambda>a d. a * 10 + d) 0 (digits 10 a) = foldl (\<lambda>a d. a * 10 + d) 0 (digits 10 b)" by (simp only:)
  thus ?thesis by (simp only: digits_value [of 10] rel_simps)
qed

lemma etherman_prefix_inj: "etherman_prefix i @ s = etherman_prefix j @ s \<Longrightarrow> i = j"
  by (auto simp: etherman_prefix_def word_unat_eq_iff dest!: nat_text_10_inj)

section \<open>Lost and mixed metrics\<close>

text \<open>C39. The program makes the calls that count the requests to the API and measure their latency, but
  never registers the metrics: in every state it can reach, whether metrics are enabled or not, each of the
  sixteen calls changes nothing.\<close>

theorem api_metrics_lost:
  assumes "(bridge_metrics_step P)\<^sup>*\<^sup>* (p0, fresh_metrics w) (p, m)" and "f \<in> set (api_calls P d)"
  shows "f m = (Inr (), m)"
  by (rule api_call_lost [OF assms])

text \<open>The state after \<^verbatim>\<open>Init\<close> and the registration of the L1 client.\<close>

definition sample_l1 :: "((metric_kind \<times> string) list \<times> string list \<times> (nat \<Rightarrow> update list)) metrics" where
  "sample_l1 = snd (snd (etherman_Register sample_prom 0 (Init (fresh_metrics ([], [], \<lambda>_. [])))))"

definition sample_l2 :: "((metric_kind \<times> string) list \<times> string list \<times> (nat \<Rightarrow> update list)) metrics" where
  "sample_l2 = snd (snd (etherman_Register sample_prom 1 sample_l1))"

lemma etherman_Register_result:
  "etherman_Register P i m = (fst (etherman_Register P i m), etherman_prefix i, snd (snd (etherman_Register P i m)))"
  by (simp add: etherman_Register_def Let_def split: prod.splits)

lemma sample_l1_reachable:
  "(bridge_metrics_step sample_prom)\<^sup>*\<^sup>* ([], fresh_metrics ([], [], \<lambda>_. [])) (etherman_prefix 0, sample_l1)"
proof -
  have "bridge_metrics_step sample_prom ([], fresh_metrics ([], [], \<lambda>_. [])) ([], Init (fresh_metrics ([], [], \<lambda>_. [])))"
    by (rule bm_Init)
  moreover have "bridge_metrics_step sample_prom ([], Init (fresh_metrics ([], [], \<lambda>_. []))) (etherman_prefix 0, sample_l1)"
    unfolding sample_l1_def by (rule bm_etherman [OF etherman_Register_result])
  ultimately show ?thesis by (meson rtranclp.rtrancl_refl rtranclp.rtrancl_into_rtrancl)
qed

theorem api_metrics_lost_witness: "CheckAPICounter sample_prom sample_l1 = (Inr (), sample_l1)"
  by (rule api_metrics_lost [OF sample_l1_reachable]) (simp add: api_calls_def)

lemma sample_l1_ok: "fst (etherman_Register sample_prom 0 (Init (fresh_metrics ([], [], \<lambda>_. [])))) = Inr ()"
  by code_simp

lemma sample_l2_ok: "fst (etherman_Register sample_prom 1 sample_l1) = Inr ()"
  unfolding sample_l1_def by code_simp



text \<open>The time of a whole iteration and the time of the L1 synchronization are observed in one histogram,
  because their names are the same; the second of the two registrations is skipped.\<close>

lemma sync_times_share_histogram:
  "FullSyncIterationTime P pre d = FullL1SyncTime P pre d"
  "\<not> distinct (map o_Name (synchronizer_histograms pre))"
  by (simp_all add: FullSyncIterationTime_def FullL1SyncTime_def synchronizer_histograms_def named_opts_def)

end
