(* ===== verification/Json_Rpc.thy ===== *)
theory Json_Rpc
  imports Synchronizer Bridge_Service
begin

text \<open>
  The JSON-RPC client of the trusted node: \<^verbatim>\<open>jsonrpcclient/client.go\<close>, \<^verbatim>\<open>jsonrpcclient/zkevm.go\<close>,
  \<^verbatim>\<open>jsonrpcclient/types/codec.go\<close> and \<^verbatim>\<open>jsonrpcclient/types/errors.go\<close>.

  \<^item> A JSON text is the value it denotes (\<open>json\<close>); a number without fraction and exponent is a \<open>JInt\<close>,
    any other a \<open>JNum\<close> with its text. \<^verbatim>\<open>json.Unmarshal\<close> sets the members of an object one after the
    other, matches the names of fields without regard to case (of ASCII letters), ignores unknown members, and a
    \<^verbatim>\<open>null\<close> clears pointers and leaves other fields alone. It reports a member of the wrong type at the end;
    since its callers drop the value then, the model stops there.
  \<^item> A body that is read is a JSON value or another text. Sending a request is the parameter \<open>post\<close>; the texts of
    hashes are those of \<open>eth_text\<close>, the JSON form of a hash is the parameter \<open>H\<close>, and \<open>U\<close> replaces what is not
    UTF-8 in a string that is written.
  \<^item> A \<^verbatim>\<open>[]byte\<close> that can be \<^verbatim>\<open>nil\<close> is an option; a pointer to such a value is an option of it.

  What a server writes with \<open>NewResponse\<close> and \<open>Response_MarshalJSON\<close> is what the client reads: the error with its
  code, message and data, or the exit roots. The client is then put in the place of the trusted node of the
  synchronizer.
\<close>

section \<open>JSON\<close>

datatype json =
    JNull
  | JBool bool
  | JInt int
  | JNum string
  | JStr string
  | JArr "json list"
  | JObj "(string \<times> json) list"

definition ascii_lower :: "char \<Rightarrow> char" where
  "ascii_lower c = (if 65 \<le> (of_char c :: nat) \<and> (of_char c :: nat) \<le> 90 then char_of (of_char c + 32 :: nat) else c)"

definition fits :: "string \<Rightarrow> string \<Rightarrow> bool" where
  "fits key name \<longleftrightarrow> map ascii_lower key = map ascii_lower name"

fun members :: "(string \<times> json \<Rightarrow> 'a \<Rightarrow> 'a result) \<Rightarrow> (string \<times> json) list \<Rightarrow> 'a \<Rightarrow> 'a result" where
  "members f [] x = Inr x"
| "members f (kv # kvs) x = (case f kv x of Inl e \<Rightarrow> Inl e | Inr y \<Rightarrow> members f kvs y)"

definition wrong_type :: error where
  "wrong_type = ErrMsg ''cannot unmarshal''"

section \<open>errors.go\<close>

record RPCError =
  re_err :: string
  re_code :: "64 word"
  re_data :: "bytes option"

definition NewRPCErrorWithData ::
    "(string \<Rightarrow> string list \<Rightarrow> string) \<Rightarrow> 64 word \<Rightarrow> string \<Rightarrow> bytes option \<Rightarrow> string list \<Rightarrow> RPCError" where
  "NewRPCErrorWithData Sprintf code err data args =
     (let errMessage = (if length args > 0 then Sprintf err args else err) in
      \<lparr>re_err = errMessage, re_code = code, re_data = data\<rparr>)"

definition NewRPCError :: "(string \<Rightarrow> string list \<Rightarrow> string) \<Rightarrow> 64 word \<Rightarrow> string \<Rightarrow> string list \<Rightarrow> RPCError" where
  "NewRPCError Sprintf code err args = NewRPCErrorWithData Sprintf code err None args"

definition ErrorCode :: "RPCError \<Rightarrow> 64 word" where
  "ErrorCode e = re_code e"

definition ErrorData :: "RPCError \<Rightarrow> bytes option" where
  "ErrorData e = re_data e"

definition RPCError_Error :: "RPCError \<Rightarrow> string" where
  "RPCError_Error e = re_err e"

section \<open>codec.go\<close>

record Request =
  rq_JSONRPC :: string
  rq_ID :: json
  rq_Method :: string
  rq_Params :: json

record ErrorObject =
  eo_Code :: "64 word"
  eo_Message :: string
  eo_Data :: "bytes option option"

record Response =
  rs_JSONRPC :: string
  rs_ID :: json
  rs_Result :: "json option"
  rs_Error :: "ErrorObject option"

definition ErrorObject_RPCError :: "(string \<Rightarrow> string list \<Rightarrow> string) \<Rightarrow> ErrorObject \<Rightarrow> RPCError" where
  "ErrorObject_RPCError Sprintf e =
     (let data = (case eo_Data e of None \<Rightarrow> None | Some d \<Rightarrow> d) in
      NewRPCErrorWithData Sprintf (eo_Code e) (eo_Message e) data [])"

definition NewResponse :: "Request \<Rightarrow> json option \<Rightarrow> RPCError option \<Rightarrow> Response" where
  "NewResponse req reply err =
     \<lparr>rs_JSONRPC = rq_JSONRPC req, rs_ID = rq_ID req, rs_Result = reply,
      rs_Error = (case err of
          None \<Rightarrow> None
        | Some e \<Rightarrow> Some \<lparr>eo_Code = ErrorCode e, eo_Message = RPCError_Error e,
            eo_Data = (case ErrorData e of None \<Rightarrow> None | Some d \<Rightarrow> Some (Some d))\<rparr>)\<rparr>"

text \<open>The tags of the structures; a \<^verbatim>\<open>nil\<close> raw message is written as \<^verbatim>\<open>null\<close>.\<close>

definition ErrorObject_json :: "(string \<Rightarrow> string) \<Rightarrow> ErrorObject \<Rightarrow> json" where
  "ErrorObject_json U e =
     JObj ([(''code'', JInt (sint (eo_Code e))), (''message'', JStr (U (eo_Message e)))] @
       (case eo_Data e of
          None \<Rightarrow> []
        | Some d \<Rightarrow> [(''data'', JStr (ArgBytes_MarshalText (case d of None \<Rightarrow> [] | Some b \<Rightarrow> b)))]))"

definition Response_MarshalJSON :: "(string \<Rightarrow> string) \<Rightarrow> Response \<Rightarrow> json" where
  "Response_MarshalJSON U r =
     (case rs_Error r of
        Some e \<Rightarrow> JObj [(''jsonrpc'', JStr (U (rs_JSONRPC r))), (''id'', rs_ID r), (''error'', ErrorObject_json U e)]
      | None \<Rightarrow> JObj [(''jsonrpc'', JStr (U (rs_JSONRPC r))), (''id'', rs_ID r),
          (''result'', case rs_Result r of None \<Rightarrow> JNull | Some j \<Rightarrow> j)])"

definition Request_json :: "(string \<Rightarrow> string) \<Rightarrow> Request \<Rightarrow> json" where
  "Request_json U r =
     JObj [(''jsonrpc'', JStr (U (rq_JSONRPC r))), (''id'', rq_ID r), (''method'', JStr (U (rq_Method r))),
       (''params'', rq_Params r)]"

text \<open>Reading them.\<close>

definition into_string :: "json \<Rightarrow> string \<Rightarrow> string result" where
  "into_string j s = (case j of JStr t \<Rightarrow> Inr t | JNull \<Rightarrow> Inr s | _ \<Rightarrow> Inl wrong_type)"

definition into_int :: "json \<Rightarrow> 64 word \<Rightarrow> (64 word) result" where
  "into_int j c =
     (case j of
        JInt i \<Rightarrow> if - (2 ^ 63) \<le> i \<and> i < 2 ^ 63 then Inr (word_of_int i) else Inl wrong_type
      | JNull \<Rightarrow> Inr c
      | _ \<Rightarrow> Inl wrong_type)"

definition into_ArgBytes :: "json \<Rightarrow> bytes option option \<Rightarrow> bytes option option result" where
  "into_ArgBytes j d =
     (case j of
        JStr s \<Rightarrow> Inr (Some (case decodeToHex s of Inr hh \<Rightarrow> Some hh
                                | Inl _ \<Rightarrow> (case d of None \<Rightarrow> None | Some old \<Rightarrow> old)))
      | JNull \<Rightarrow> Inr None
      | _ \<Rightarrow> Inl wrong_type)"

fun ErrorObject_member :: "string \<times> json \<Rightarrow> ErrorObject \<Rightarrow> ErrorObject result" where
  "ErrorObject_member (key, j) e =
     (if fits key ''code'' then (case into_int j (eo_Code e) of Inl x \<Rightarrow> Inl x | Inr c \<Rightarrow> Inr (e\<lparr>eo_Code := c\<rparr>))
      else if fits key ''message'' then
        (case into_string j (eo_Message e) of Inl x \<Rightarrow> Inl x | Inr s \<Rightarrow> Inr (e\<lparr>eo_Message := s\<rparr>))
      else if fits key ''data'' then
        (case into_ArgBytes j (eo_Data e) of Inl x \<Rightarrow> Inl x | Inr d \<Rightarrow> Inr (e\<lparr>eo_Data := d\<rparr>))
      else Inr e)"

definition zero_ErrorObject :: ErrorObject where
  "zero_ErrorObject = \<lparr>eo_Code = 0, eo_Message = [], eo_Data = None\<rparr>"

definition into_ErrorObject :: "json \<Rightarrow> ErrorObject option \<Rightarrow> ErrorObject option result" where
  "into_ErrorObject j old =
     (case j of
        JNull \<Rightarrow> Inr None
      | JObj kvs \<Rightarrow> (case members ErrorObject_member kvs (case old of None \<Rightarrow> zero_ErrorObject | Some e \<Rightarrow> e) of
           Inl x \<Rightarrow> Inl x | Inr e \<Rightarrow> Inr (Some e))
      | _ \<Rightarrow> Inl wrong_type)"

fun Response_member :: "string \<times> json \<Rightarrow> Response \<Rightarrow> Response result" where
  "Response_member (key, j) r =
     (if fits key ''JSONRPC'' then
        (case into_string j (rs_JSONRPC r) of Inl x \<Rightarrow> Inl x | Inr s \<Rightarrow> Inr (r\<lparr>rs_JSONRPC := s\<rparr>))
      else if fits key ''ID'' then Inr (r\<lparr>rs_ID := j\<rparr>)
      else if fits key ''Result'' then Inr (r\<lparr>rs_Result := Some j\<rparr>)
      else if fits key ''Error'' then
        (case into_ErrorObject j (rs_Error r) of Inl x \<Rightarrow> Inl x | Inr e \<Rightarrow> Inr (r\<lparr>rs_Error := e\<rparr>))
      else Inr r)"

definition zero_Response :: Response where
  "zero_Response = \<lparr>rs_JSONRPC = [], rs_ID = JNull, rs_Result = None, rs_Error = None\<rparr>"

definition Response_Unmarshal :: "json \<Rightarrow> Response result" where
  "Response_Unmarshal j =
     (case j of JNull \<Rightarrow> Inr zero_Response | JObj kvs \<Rightarrow> members Response_member kvs zero_Response | _ \<Rightarrow> Inl wrong_type)"

section \<open>client.go\<close>

datatype body = JsonBody json | TextBody string | Unreadable error

record http_reply =
  hr_StatusCode :: nat
  hr_Body :: body

type_synonym 'n post = "string \<Rightarrow> json \<Rightarrow> 'n \<Rightarrow> http_reply result \<times> 'n"

definition jsonRPCVersion :: string where
  "jsonRPCVersion = ''2.0''"

definition sendJSONRPC_HTTPRequest :: "(string \<Rightarrow> string) \<Rightarrow> 'n post \<Rightarrow> string \<Rightarrow> Request \<Rightarrow> 'n \<Rightarrow> http_reply result \<times> 'n" where
  "sendJSONRPC_HTTPRequest U post url payload n = post url (Request_json U payload) n"

text \<open>Without parameters the slice is \<^verbatim>\<open>nil\<close>, which is written as \<^verbatim>\<open>null\<close>.\<close>

definition rpc_request :: "string \<Rightarrow> json list \<Rightarrow> Request" where
  "rpc_request mthd parameters =
     \<lparr>rq_JSONRPC = jsonRPCVersion, rq_ID = JInt 1, rq_Method = mthd,
      rq_Params = (if parameters = [] then JNull else JArr parameters)\<rparr>"

definition JSONRPCCall :: "(string \<Rightarrow> string) \<Rightarrow> 'n post \<Rightarrow> string \<Rightarrow> string \<Rightarrow> json list \<Rightarrow> 'n \<Rightarrow> Response result \<times> 'n" where
  "JSONRPCCall U post url mthd parameters n =
     (case sendJSONRPC_HTTPRequest U post url (rpc_request mthd parameters) n of
        (Inl e, n1) \<Rightarrow> (Inl e, n1)
      | (Inr httpRes, n1) \<Rightarrow>
          ((case hr_Body httpRes of
              Unreadable e \<Rightarrow> Inl e
            | resBody \<Rightarrow>
                if hr_StatusCode httpRes \<noteq> 200 then Inl (ErrMsg ''status code'')
                else (case resBody of JsonBody j \<Rightarrow> Response_Unmarshal j | _ \<Rightarrow> Inl (ErrMsg ''invalid character''))), n1))"

section \<open>zkevm.go\<close>

datatype rpc_failure = Rpc RPCError | Failed error

record ExitRoots =
  er_BlockNumber :: u64
  er_Timestamp :: u64
  er_MainnetExitRoot :: h256
  er_RollupExitRoot :: h256

definition into_ArgUint64 :: "json \<Rightarrow> u64 \<Rightarrow> u64 result" where
  "into_ArgUint64 j b = (case j of JStr s \<Rightarrow> ArgUint64_UnmarshalText s | JNull \<Rightarrow> Inr b | _ \<Rightarrow> Inl wrong_type)"

fun ExitRoots_member :: "(json \<Rightarrow> h256 result) \<Rightarrow> string \<times> json \<Rightarrow> ExitRoots \<Rightarrow> ExitRoots result" where
  "ExitRoots_member H (key, j) x =
     (if fits key ''blockNumber'' then
        (case into_ArgUint64 j (er_BlockNumber x) of Inl e \<Rightarrow> Inl e | Inr b \<Rightarrow> Inr (x\<lparr>er_BlockNumber := b\<rparr>))
      else if fits key ''timestamp'' then
        (case into_ArgUint64 j (er_Timestamp x) of Inl e \<Rightarrow> Inl e | Inr b \<Rightarrow> Inr (x\<lparr>er_Timestamp := b\<rparr>))
      else if fits key ''mainnetExitRoot'' then
        (case H j of Inl e \<Rightarrow> Inl e | Inr h \<Rightarrow> Inr (x\<lparr>er_MainnetExitRoot := h\<rparr>))
      else if fits key ''rollupExitRoot'' then
        (case H j of Inl e \<Rightarrow> Inl e | Inr h \<Rightarrow> Inr (x\<lparr>er_RollupExitRoot := h\<rparr>))
      else Inr x)"

definition zero_ExitRoots :: ExitRoots where
  "zero_ExitRoots = \<lparr>er_BlockNumber = 0, er_Timestamp = 0, er_MainnetExitRoot = 0, er_RollupExitRoot = 0\<rparr>"

definition ExitRoots_json :: "(h256 \<Rightarrow> string) \<Rightarrow> ExitRoots \<Rightarrow> json" where
  "ExitRoots_json hash_text x =
     JObj [(''blockNumber'', JStr (ArgUint64_MarshalText (er_BlockNumber x))),
       (''timestamp'', JStr (ArgUint64_MarshalText (er_Timestamp x))),
       (''mainnetExitRoot'', JStr (hash_text (er_MainnetExitRoot x))),
       (''rollupExitRoot'', JStr (hash_text (er_RollupExitRoot x)))]"

text \<open>The result of a call, decoded by \<open>decode\<close>; without a result there is no text to decode.\<close>

definition rpc_result :: "(string \<Rightarrow> string list \<Rightarrow> string) \<Rightarrow> (json \<Rightarrow> 'a result) \<Rightarrow> Response result \<Rightarrow> rpc_failure + 'a" where
  "rpc_result Sprintf decode res =
     (case res of
        Inl e \<Rightarrow> Inl (Failed e)
      | Inr response \<Rightarrow>
          (case rs_Error response of
             Some e \<Rightarrow> Inl (Rpc (ErrorObject_RPCError Sprintf e))
           | None \<Rightarrow>
               (case rs_Result response of
                  None \<Rightarrow> Inl (Failed (ErrMsg ''unexpected end of JSON input''))
                | Some j \<Rightarrow> (case decode j of Inl e \<Rightarrow> Inl (Failed e) | Inr a \<Rightarrow> Inr a))))"

definition decode_ExitRoots :: "(json \<Rightarrow> h256 result) \<Rightarrow> json \<Rightarrow> ExitRoots option result" where
  "decode_ExitRoots H j =
     (case j of
        JNull \<Rightarrow> Inr None
      | JObj kvs \<Rightarrow> (case members (ExitRoots_member H) kvs zero_ExitRoots of Inl e \<Rightarrow> Inl e | Inr x \<Rightarrow> Inr (Some x))
      | _ \<Rightarrow> Inl wrong_type)"

record 'n rpc_env =
  re_post :: "'n post"
  re_U :: "string \<Rightarrow> string"
  re_Sprintf :: "string \<Rightarrow> string list \<Rightarrow> string"
  re_text :: eth_text
  re_H :: "json \<Rightarrow> h256 result"
  re_url :: string

definition Client_ExitRootsByGER :: "'n rpc_env \<Rightarrow> h256 \<Rightarrow> 'n \<Rightarrow> (rpc_failure + ExitRoots option) \<times> 'n" where
  "Client_ExitRootsByGER E globalExitRoot n =
     (case JSONRPCCall (re_U E) (re_post E) (re_url E) ''zkevm_getExitRootsByGER''
             [JStr (re_U E (HashHex (re_text E) globalExitRoot))] n of
        (res, n1) \<Rightarrow> (rpc_result (re_Sprintf E) (decode_ExitRoots (re_H E)) res, n1))"

definition Client_GetLatestGlobalExitRoot :: "'n rpc_env \<Rightarrow> 'n \<Rightarrow> (rpc_failure + h256) \<times> 'n" where
  "Client_GetLatestGlobalExitRoot E n =
     (case JSONRPCCall (re_U E) (re_post E) (re_url E) ''zkevm_getLatestGlobalExitRoot'' [] n of
        (res, n1) \<Rightarrow>
          (case rpc_result (re_Sprintf E) (\<lambda>j. into_string j []) res of
             Inl e \<Rightarrow> (Inl e, n1)
           | Inr result \<Rightarrow> (Inr (HexToHash (re_text E) result), n1)))"

section \<open>Round trips\<close>

lemma fits_refl [simp]: "fits s s"
  by (simp add: fits_def)

lemma hex_bytes_roundtrip [simp]: "decodeToHex (ArgBytes_MarshalText b) = Inr b"
  by (simp add: decodeToHex_def ArgBytes_MarshalText_def encodeToHex_def Let_def)

lemma into_int_sint [simp]: "into_int (JInt (sint (c :: 64 word))) d = Inr c"
  using sint_greater_eq [of c] sint_less [of c] by (simp add: into_int_def)

text \<open>The members a response is written with, and the fields they fit.\<close>

lemma member_names [simp]:
  "\<not> fits ''message'' ''code''" "\<not> fits ''data'' ''code''" "\<not> fits ''data'' ''message''"
  "fits ''jsonrpc'' ''JSONRPC''" "\<not> fits ''id'' ''JSONRPC''" "fits ''id'' ''ID''"
  "\<not> fits ''error'' ''JSONRPC''" "\<not> fits ''error'' ''ID''" "\<not> fits ''error'' ''Result''" "fits ''error'' ''Error''"
  "\<not> fits ''result'' ''JSONRPC''" "\<not> fits ''result'' ''ID''" "fits ''result'' ''Result''"
  "\<not> fits ''timestamp'' ''blockNumber''" "\<not> fits ''mainnetExitRoot'' ''blockNumber''"
  "\<not> fits ''mainnetExitRoot'' ''timestamp''" "\<not> fits ''rollupExitRoot'' ''blockNumber''"
  "\<not> fits ''rollupExitRoot'' ''timestamp''" "\<not> fits ''rollupExitRoot'' ''mainnetExitRoot''"
  by code_simp+

lemma Response_error_read:
  assumes "U (re_err e) = re_err e"
  shows "\<exists>r. Response_Unmarshal (Response_MarshalJSON U (NewResponse req reply (Some e))) = Inr r
    \<and> rs_Error r = Some \<lparr>eo_Code = re_code e, eo_Message = re_err e,
        eo_Data = (case re_data e of None \<Rightarrow> None | Some d \<Rightarrow> Some (Some d))\<rparr>"
  using assms
  by (cases "re_data e")
    (simp_all add: Response_Unmarshal_def Response_MarshalJSON_def NewResponse_def ErrorObject_json_def
      into_string_def into_ErrorObject_def into_ArgBytes_def zero_ErrorObject_def zero_Response_def ErrorCode_def ErrorData_def
      RPCError_Error_def)

lemma Response_result_read:
  "\<exists>r. Response_Unmarshal (Response_MarshalJSON U (NewResponse req (Some j) None)) = Inr r
    \<and> rs_Error r = None \<and> rs_Result r = Some j"
  by (simp add: Response_Unmarshal_def Response_MarshalJSON_def NewResponse_def into_string_def zero_Response_def)

lemma ErrorObject_RPCError_read:
  "ErrorObject_RPCError S \<lparr>eo_Code = re_code e, eo_Message = re_err e,
     eo_Data = (case re_data e of None \<Rightarrow> None | Some d \<Rightarrow> Some (Some d))\<rparr> = e"
  by (cases "re_data e") (simp_all add: ErrorObject_RPCError_def NewRPCErrorWithData_def)

lemma ArgUint64_roundtrip: "ArgUint64_UnmarshalText (ArgUint64_MarshalText b) = Inr b"
  using parse_digits_value [OF hex_value_text [of "unat b"]] unat_less [of b]
  by (simp add: ArgUint64_UnmarshalText_def ArgUint64_MarshalText_def ParseUint_def)

lemma decode_ExitRoots_json:
  assumes "\<And>h. H (JStr (hash_text h)) = Inr h"
  shows "decode_ExitRoots H (ExitRoots_json hash_text x) = Inr (Some x)"
  using assms by (simp add: decode_ExitRoots_def ExitRoots_json_def into_ArgUint64_def ArgUint64_roundtrip)

text \<open>C37. The client reads what a server answers: when the server writes its answer to the call as a response with
  status 200, an error comes back with its code, its message and its data, also when the data is empty or absent,
  and exit roots come back as they were.\<close>

theorem ExitRootsByGER_roundtrip:
  assumes "re_post E (re_url E) (Request_json (re_U E) (rpc_request ''zkevm_getExitRootsByGER''
        [JStr (re_U E (HashHex (re_text E) ger))])) n
      = (Inr \<lparr>hr_StatusCode = 200, hr_Body = JsonBody (Response_MarshalJSON (re_U E)
          (case answer of Inl e \<Rightarrow> NewResponse req reply (Some e)
             | Inr x \<Rightarrow> NewResponse req (Some (ExitRoots_json hash_text x)) None))\<rparr>, n')"
    and "\<And>h. re_H E (JStr (hash_text h)) = Inr h"
    and "\<And>e. answer = Inl e \<Longrightarrow> re_U E (re_err e) = re_err e"
  shows "Client_ExitRootsByGER E ger n =
    ((case answer of Inl e \<Rightarrow> Inl (Rpc e) | Inr x \<Rightarrow> Inr (Some x)), n')"
proof (cases answer)
  case (Inl e)
  obtain r where "Response_Unmarshal (Response_MarshalJSON (re_U E) (NewResponse req reply (Some e))) = Inr r"
    "rs_Error r = Some \<lparr>eo_Code = re_code e, eo_Message = re_err e,
        eo_Data = (case re_data e of None \<Rightarrow> None | Some d \<Rightarrow> Some (Some d))\<rparr>"
    using Response_error_read [of "re_U E" e, OF assms(3) [OF Inl]] by blast
  with assms(1) Inl ErrorObject_RPCError_read show ?thesis
    by (simp add: Client_ExitRootsByGER_def JSONRPCCall_def sendJSONRPC_HTTPRequest_def rpc_result_def)
next
  case (Inr x)
  obtain r where "Response_Unmarshal (Response_MarshalJSON (re_U E)
      (NewResponse req (Some (ExitRoots_json hash_text x)) None)) = Inr r"
    "rs_Error r = None" "rs_Result r = Some (ExitRoots_json hash_text x)"
    using Response_result_read by blast
  with assms(1) Inr decode_ExitRoots_json [OF assms(2), of x] show ?thesis
    by (simp add: Client_ExitRootsByGER_def JSONRPCCall_def sendJSONRPC_HTTPRequest_def rpc_result_def)
qed

text \<open>A server that answers every call, over a state that is not used.\<close>

definition sample_hash :: "h256 \<Rightarrow> string" where
  "sample_hash h = ''0x'' @ nat_text 16 (unat h)"

definition sample_H :: "json \<Rightarrow> h256 result" where
  "sample_H j =
     (case j of
        JStr s \<Rightarrow> (case hex_value (drop 2 s) 0 of None \<Rightarrow> Inl wrong_type | Some v \<Rightarrow> Inr (of_nat v))
      | _ \<Rightarrow> Inl wrong_type)"

lemma sample_H_hash: "sample_H (JStr (sample_hash h)) = Inr h"
  by (simp add: sample_H_def sample_hash_def hex_value_text)

definition sample_answer :: "(RPCError + ExitRoots) \<Rightarrow> Response" where
  "sample_answer a =
     (case a of Inl e \<Rightarrow> NewResponse (rpc_request ''m'' []) None (Some e)
      | Inr x \<Rightarrow> NewResponse (rpc_request ''m'' []) (Some (ExitRoots_json sample_hash x)) None)"

definition sample_rpc :: "(RPCError + ExitRoots) \<Rightarrow> unit rpc_env" where
  "sample_rpc a =
     \<lparr>re_post = (\<lambda>url j n. (Inr \<lparr>hr_StatusCode = 200, hr_Body = JsonBody (Response_MarshalJSON (\<lambda>s. s) (sample_answer a))\<rparr>, n)),
      re_U = (\<lambda>s. s), re_Sprintf = (\<lambda>s args. s), re_text = sample_text, re_H = sample_H, re_url = ''u''\<rparr>"

definition sample_rpc_error :: RPCError where
  "sample_rpc_error = \<lparr>re_err = ''reverted'', re_code = - 32000, re_data = Some []\<rparr>"

definition sample_roots :: ExitRoots where
  "sample_roots = \<lparr>er_BlockNumber = 7, er_Timestamp = 8, er_MainnetExitRoot = 9, er_RollupExitRoot = 10\<rparr>"

theorem ExitRootsByGER_roundtrip_witness:
  "Client_ExitRootsByGER (sample_rpc (Inl sample_rpc_error)) 5 () = (Inl (Rpc sample_rpc_error), ()) \<and>
   Client_ExitRootsByGER (sample_rpc (Inr sample_roots)) 5 () = (Inr (Some sample_roots), ())"
  using ExitRootsByGER_roundtrip [where E = "sample_rpc (Inl sample_rpc_error)" and answer = "Inl sample_rpc_error"
      and hash_text = sample_hash and req = "rpc_request ''m'' []" and reply = None and ger = 5 and n = "()" and n' = "()"]
    ExitRootsByGER_roundtrip [where E = "sample_rpc (Inr sample_roots)" and answer = "Inr sample_roots"
      and hash_text = sample_hash and req = "rpc_request ''m'' []" and reply = None and ger = 5 and n = "()" and n' = "()"]
  by (simp add: sample_rpc_def sample_answer_def sample_H_hash)

section \<open>The trusted node of the synchronizer\<close>

definition of_failure :: "rpc_failure \<Rightarrow> error" where
  "of_failure f = (case f of Rpc e \<Rightarrow> ErrMsg (re_err e) | Failed e \<Rightarrow> e)"

definition rpc_node :: "'n rpc_env \<Rightarrow> 'n Node \<Rightarrow> 'n Node" where
  "rpc_node E N = N\<lparr>
     GetLatestGlobalExitRoot := (\<lambda>n. case Client_GetLatestGlobalExitRoot E n of
         (Inl f, n1) \<Rightarrow> (Inl (of_failure f), n1) | (Inr h, n1) \<Rightarrow> (Inr h, n1)),
     ExitRootsByGER := (\<lambda>ger n. case Client_ExitRootsByGER E ger n of
         (Inl f, n1) \<Rightarrow> (Inl (of_failure f), n1)
       | (Inr x, n1) \<Rightarrow> (Inr (map_option (\<lambda>x. (er_MainnetExitRoot x, er_RollupExitRoot x)) x), n1))\<rparr>"

text \<open>The synchronizer stores a trusted root only after both calls have been answered with a value, and what it
  stores are the roots of the answer. Every failure of the first call, of the transport, the status, the text or
  the server, ends the step with that error and the state as it was.\<close>

lemma trusted_root_was_answered:
  assumes "syncTrustedState (rpc_node E N) s n = (r, s', n')" and "s' \<noteq> s"
  obtains ger n1 x where "Client_GetLatestGlobalExitRoot E n = (Inr ger, n1)" "ger \<noteq> 0"
    "Client_ExitRootsByGER E ger n1 = (Inr (Some x), n')"
    "snd (store (AddTrustedGlobalExitRoot
       (mk_ger 0 [er_MainnetExitRoot x, er_RollupExitRoot x] ger (cs_networkID s) 0) NoTx) s) = s' \<or>
     (\<exists>s1. snd (store (AddTrustedGlobalExitRoot
       (mk_ger 0 [er_MainnetExitRoot x, er_RollupExitRoot x] ger (cs_networkID s) 0) NoTx) s) = s1 \<and>
       snd (send_l2 (mk_ger 0 [er_MainnetExitRoot x, er_RollupExitRoot x] ger (cs_networkID s) 0) s1) = s')"
proof -
  obtain a n1 where a: "Client_GetLatestGlobalExitRoot E n = (a, n1)" by (rule prod.exhaust)
  show ?thesis
  proof (cases a)
    case (Inl f)
    with assms a show ?thesis by (simp add: syncTrustedState_def rpc_node_def)
  next
    case (Inr ger)
    obtain b n2 where b: "Client_ExitRootsByGER E ger n1 = (b, n2)" by (rule prod.exhaust)
    have "ger \<noteq> 0" using assms a Inr by (auto simp: syncTrustedState_def rpc_node_def)
    moreover obtain x where "b = Inr (Some x)"
      using assms a b Inr \<open>ger \<noteq> 0\<close>
      by (cases b; cases "projr b") (auto simp: syncTrustedState_def rpc_node_def)
    ultimately show ?thesis
      using assms a b Inr that [of ger n1 x]
      by (auto simp: syncTrustedState_def rpc_node_def Let_def split: prod.splits sum.splits if_splits)
  qed
qed

lemma failed_call_keeps_state:
  assumes "Client_GetLatestGlobalExitRoot E n = (Inl f, n1)"
  shows "syncTrustedState (rpc_node E N) s n = (Inl (of_failure f), s, n1)"
  using assms by (simp add: syncTrustedState_def rpc_node_def)

text \<open>A \<^verbatim>\<open>null\<close> where the latest root is expected is read as the hash of the empty text and not as an error.\<close>

lemma null_root_is_read:
  assumes "re_post E (re_url E) (Request_json (re_U E) (rpc_request ''zkevm_getLatestGlobalExitRoot'' [])) n
      = (Inr \<lparr>hr_StatusCode = 200, hr_Body = JsonBody (Response_MarshalJSON (re_U E) (NewResponse req (Some JNull) None))\<rparr>, n1)"
  shows "Client_GetLatestGlobalExitRoot E n = (Inr (HexToHash (re_text E) []), n1)"
proof -
  obtain r where "Response_Unmarshal (Response_MarshalJSON (re_U E) (NewResponse req (Some JNull) None)) = Inr r"
    "rs_Error r = None" "rs_Result r = Some JNull" using Response_result_read by blast
  with assms show ?thesis
    by (simp add: Client_GetLatestGlobalExitRoot_def JSONRPCCall_def sendJSONRPC_HTTPRequest_def rpc_result_def
        into_string_def)
qed

end
