(* ===== verification/Program_Start.thy ===== *)
theory Program_Start
  imports Metric_Sets Json_Rpc Claim_TxMan
begin

text \<open>
  Configuration, connections and the start of the bridge program: \<^verbatim>\<open>config/config.go\<close>, \<^verbatim>\<open>config/network.go\<close>,
  \<^verbatim>\<open>db/storage.go\<close>, \<^verbatim>\<open>db/pgstorage/utils.go\<close>, the constructors of \<^verbatim>\<open>etherman/etherman.go\<close>, of \<^verbatim>\<open>utils/client.go\<close>
  and of \<^verbatim>\<open>claimtxman\<close>, and \<^verbatim>\<open>start\<close> of \<^verbatim>\<open>cmd/run.go\<close>.

  \<^item> \<open>viper\<close> is what the configuration library does with the files and the environment; \<open>boot\<close> is the outside
    world of the start: nodes, contract bindings, the database server, the key store and the servers. Both are
    parameters. \<open>sys\<close> holds the state of that world and of the metrics, which the clients register.
  \<^item> A goroutine that is started is an element of \<open>goroutine\<close> with its arguments; channels are numbered by the L2
    network they belong to. \<^verbatim>\<open>log.Fatal\<close> ends the program: it is the error \<open>fatal\<close>.

  A configuration that is accepted has lists of one length, so that no index of the start is out of range, and the
  program it starts is wired position by position: each L2 network has one synchronizer and one claim manager (or
  one listener), which share a channel and have the node, the contracts and the number of that network. The metrics
  reach only states of \<open>bridge_metrics_step\<close>.
\<close>

section \<open>Configuration\<close>

record NetworkConfig =
  nc_L1GenBlockNumber :: u64
  nc_L2GenBlockNumbers :: "u64 list"
  nc_PolygonBridgeAddress :: address
  nc_PolygonZkEVMGlobalExitRootAddress :: address
  nc_PolygonRollupManagerAddress :: address
  nc_L2ClaimCompressorAddress :: address
  nc_L2PolygonBridgeAddresses :: "address list"
  nc_RequireSovereignChainSmcs :: "bool list"
  nc_L2PolygonZkEVMGlobalExitRootAddresses :: "address list"

record pg_Config =
  pc_Name :: string
  pc_User :: string
  pc_Password :: string
  pc_Host :: string
  pc_Port :: string
  pc_MaxConns :: int

record db_Config =
  dc_Database :: string
  dc_PgStorage :: pg_Config

text \<open>The fields the start reads.\<close>

record Config =
  co_SyncDB :: db_Config
  co_ClaimTxManager_Enabled :: bool
  co_L1URL :: string
  co_L2URLs :: "string list"
  co_Height :: u8
  co_CacheSize :: int
  co_DefaultPageLimit :: u32
  co_MaxPageLimit :: u32
  co_FinalizedGEREnabled :: bool
  co_ServerDB :: db_Config
  co_Metrics_Enabled :: bool
  co_NetworkConfig :: NetworkConfig

definition defaultNetwork :: string where
  "defaultNetwork = ''mainnet''"

definition mainnet_config :: NetworkConfig where
  "mainnet_config =
     \<lparr>nc_L1GenBlockNumber = 16896718, nc_L2GenBlockNumbers = [0],
      nc_PolygonBridgeAddress = 0x2a3DD3EB832aF982ec71669E178424b10Dca2EDe,
      nc_PolygonZkEVMGlobalExitRootAddress = 0x580bda1e7A0CFAe92Fa7F6c20A3794F169CE3CFb,
      nc_PolygonRollupManagerAddress = 0, nc_L2ClaimCompressorAddress = 0,
      nc_L2PolygonBridgeAddresses = [0x2a3DD3EB832aF982ec71669E178424b10Dca2EDe],
      nc_RequireSovereignChainSmcs = [False], nc_L2PolygonZkEVMGlobalExitRootAddresses = [0]\<rparr>"

definition testnet_config :: NetworkConfig where
  "testnet_config =
     \<lparr>nc_L1GenBlockNumber = 8572995, nc_L2GenBlockNumbers = [0],
      nc_PolygonBridgeAddress = 0xF6BEEeBB578e214CA9E23B0e9683454Ff88Ed2A7,
      nc_PolygonZkEVMGlobalExitRootAddress = 0x4d9427DCA0406358445bC0a8F88C26b704004f74,
      nc_PolygonRollupManagerAddress = 0, nc_L2ClaimCompressorAddress = 0,
      nc_L2PolygonBridgeAddresses = [0xF6BEEeBB578e214CA9E23B0e9683454Ff88Ed2A7],
      nc_RequireSovereignChainSmcs = [False], nc_L2PolygonZkEVMGlobalExitRootAddresses = [0]\<rparr>"

definition internaltestnet_config :: NetworkConfig where
  "internaltestnet_config =
     \<lparr>nc_L1GenBlockNumber = 7674349, nc_L2GenBlockNumbers = [0],
      nc_PolygonBridgeAddress = 0x47c1090bc966280000Fe4356a501f1D0887Ce840,
      nc_PolygonZkEVMGlobalExitRootAddress = 0xA379Dd55Eb12e8FCdb467A814A15DE2b29677066,
      nc_PolygonRollupManagerAddress = 0, nc_L2ClaimCompressorAddress = 0,
      nc_L2PolygonBridgeAddresses = [0xfC5b0c5F677a3f3E29DB2e98c9eD455c7ACfCf03],
      nc_RequireSovereignChainSmcs = [False], nc_L2PolygonZkEVMGlobalExitRootAddresses = [0]\<rparr>"

definition local_config :: NetworkConfig where
  "local_config =
     \<lparr>nc_L1GenBlockNumber = 1, nc_L2GenBlockNumbers = [0],
      nc_PolygonBridgeAddress = 0xFe12ABaa190Ef0c8638Ee0ba9F828BF41368Ca0E,
      nc_PolygonZkEVMGlobalExitRootAddress = 0x8A791620dd6260079BF849Dc5567aDC3F2FdC318,
      nc_PolygonRollupManagerAddress = 0xB7f8BC63BbcaD18155201308C8f3540b07f84F5e,
      nc_L2ClaimCompressorAddress = 0x2279B7A0a67DB372996a5FaB50D91eAA73d2eBe6,
      nc_L2PolygonBridgeAddresses = [0xFe12ABaa190Ef0c8638Ee0ba9F828BF41368Ca0E],
      nc_RequireSovereignChainSmcs = [False],
      nc_L2PolygonZkEVMGlobalExitRootAddresses = [0xa40d5f56745a118d0906a34e69aec8c0db1cb8fa]\<rparr>"

definition networkConfigs :: "string \<rightharpoonup> NetworkConfig" where
  "networkConfigs = map_of [(defaultNetwork, mainnet_config), (''testnet'', testnet_config),
     (''internaltestnet'', internaltestnet_config), (''local'', local_config)]"

definition loadNetworkConfig :: "string \<Rightarrow> Config \<Rightarrow> Config" where
  "loadNetworkConfig network cfg =
     (case networkConfigs network of
        Some networkConfig \<Rightarrow> cfg\<lparr>co_NetworkConfig := networkConfig\<rparr>
      | None \<Rightarrow> cfg\<lparr>co_NetworkConfig := the (networkConfigs defaultNetwork)\<rparr>)"

datatype config_read = Config_Read | Config_Not_Found | Config_Failed error

record viper =
  vp_Default :: "Config result"
  vp_ReadInConfig :: config_read
  vp_Unmarshal :: "Config \<Rightarrow> Config result"
  vp_IsSet_NetworkConfig :: bool

definition lengths_agree :: "Config \<Rightarrow> bool" where
  "lengths_agree cfg =
     (let n = co_NetworkConfig cfg in
      \<not> (length (nc_L2PolygonZkEVMGlobalExitRootAddresses n) \<noteq> length (nc_RequireSovereignChainSmcs n) \<or>
        length (nc_RequireSovereignChainSmcs n) \<noteq> length (nc_L2PolygonBridgeAddresses n) \<or>
        length (nc_L2PolygonBridgeAddresses n) \<noteq> length (co_L2URLs cfg) \<or>
        length (co_L2URLs cfg) \<noteq> length (nc_L2GenBlockNumbers n)))"

definition Load :: "viper \<Rightarrow> string \<Rightarrow> Config result" where
  "Load V network =
     (case vp_Default V of
        Inl e \<Rightarrow> Inl e
      | Inr cfg0 \<Rightarrow>
          (case vp_ReadInConfig V of
             Config_Failed e \<Rightarrow> Inl e
           | _ \<Rightarrow>
               (case vp_Unmarshal V cfg0 of
                  Inl e \<Rightarrow> Inl e
                | Inr cfg1 \<Rightarrow>
                    if vp_IsSet_NetworkConfig V \<and> network \<noteq> [] then Inl (ErrMsg ''network details are provided twice'')
                    else if \<not> vp_IsSet_NetworkConfig V \<and> network = [] then Inl (ErrMsg ''network details are not provided'')
                    else
                      (let cfg = (if \<not> vp_IsSet_NetworkConfig V \<and> network \<noteq> [] then loadNetworkConfig network cfg1 else cfg1) in
                       if \<not> lengths_agree cfg then Inl (ErrMsg ''the lengths must be the same'') else Inr cfg))))"

section \<open>The outside world\<close>

record 'w boot =
  bt_ParseConfig :: "pg_Config \<Rightarrow> unit result"
  bt_Migrate :: "pg_Config \<Rightarrow> bool \<Rightarrow> 'w \<Rightarrow> nat result \<times> 'w"
  bt_Exec :: "pg_Config \<Rightarrow> string \<Rightarrow> 'w \<Rightarrow> unit result \<times> 'w"
  bt_ErrorText :: "error \<Rightarrow> string"
  bt_Connect :: "pg_Config \<Rightarrow> 'w \<Rightarrow> pg result \<times> 'w"
  bt_Dial :: "string \<Rightarrow> 'w \<Rightarrow> unit result \<times> 'w"
  bt_Bind :: "string \<Rightarrow> address \<Rightarrow> 'w \<Rightarrow> unit result \<times> 'w"
  bt_NetworkID :: "string \<Rightarrow> address \<Rightarrow> 'w \<Rightarrow> u32 result \<times> 'w"
  bt_RunServer :: "'w \<Rightarrow> unit result \<times> 'w"
  bt_NewNonceCache :: "unit result"
  bt_Signer :: "string \<Rightarrow> 'w \<Rightarrow> address result \<times> 'w"

record ('w, 'p) sys =
  sy_w :: 'w
  sy_Prefix :: string
  sy_metrics :: "'p metrics"

definition world :: "('w \<Rightarrow> 'a \<times> 'w) \<Rightarrow> ('w, 'p) sys \<Rightarrow> 'a \<times> ('w, 'p) sys" where
  "world f s = (case f (sy_w s) of (x, w) \<Rightarrow> (x, s\<lparr>sy_w := w\<rparr>))"

section \<open>The database\<close>

fun contains :: "string \<Rightarrow> string \<Rightarrow> bool" where
  "contains [] sub = (sub = [])"
| "contains (c # s) sub = (take (length sub) (c # s) = sub \<or> contains s sub)"

definition runMigrations :: "'w boot \<Rightarrow> pg_Config \<Rightarrow> bool \<Rightarrow> ('w, 'p) sys \<Rightarrow> unit result \<times> ('w, 'p) sys" where
  "runMigrations B cfg up s =
     andthen (bt_ParseConfig B cfg, s) (\<lambda>_ s.
     andthen (world (bt_Migrate B cfg up) s) (\<lambda>nMigrations s.
     case world (bt_Exec B cfg ''DELETE FROM sync.status'') s of
       (Inr _, s) \<Rightarrow> (Inr (), s)
     | (Inl e, s) \<Rightarrow>
         let errMsg = bt_ErrorText B e in
         if errMsg \<noteq> [] \<and> (contains errMsg ''relation \"sync.status\" does not exist'' \<or> contains errMsg ''SQLSTATE 42P01'')
         then (Inr (), s) else (Inl e, s)))"

definition RunMigrationsUp :: "'w boot \<Rightarrow> pg_Config \<Rightarrow> ('w, 'p) sys \<Rightarrow> unit result \<times> ('w, 'p) sys" where
  "RunMigrationsUp B cfg = runMigrations B cfg True"

definition RunMigrationsDown :: "'w boot \<Rightarrow> pg_Config \<Rightarrow> ('w, 'p) sys \<Rightarrow> unit result \<times> ('w, 'p) sys" where
  "RunMigrationsDown B cfg = runMigrations B cfg False"

definition ResetDB :: "'w boot \<Rightarrow> pg_Config \<Rightarrow> ('w, 'p) sys \<Rightarrow> unit result \<times> ('w, 'p) sys" where
  "ResetDB B cfg s =
     andthen (bt_ParseConfig B cfg, s) (\<lambda>_ s.
     andthen (world (bt_Exec B cfg ''DROP SCHEMA IF EXISTS mt CASCADE;'') s) (\<lambda>_ s.
     andthen (world (bt_Exec B cfg ''DROP SCHEMA IF EXISTS sync CASCADE;'') s) (\<lambda>_ s.
     world (bt_Exec B cfg ''DROP TABLE IF EXISTS public.gorp_migrations;'') s)))"

definition NewPostgresStorage :: "'w boot \<Rightarrow> pg_Config \<Rightarrow> ('w, 'p) sys \<Rightarrow> pg result \<times> ('w, 'p) sys" where
  "NewPostgresStorage B cfg s = world (bt_Connect B cfg) s"

definition InitOrReset :: "'w boot \<Rightarrow> pg_Config \<Rightarrow> ('w, 'p) sys \<Rightarrow> unit result \<times> ('w, 'p) sys" where
  "InitOrReset B cfg s =
     andthen (NewPostgresStorage B cfg s) (\<lambda>_ s. andthen (ResetDB B cfg s) (\<lambda>_ s. RunMigrationsUp B cfg s))"

definition RunMigrations :: "'w boot \<Rightarrow> db_Config \<Rightarrow> ('w, 'p) sys \<Rightarrow> unit result \<times> ('w, 'p) sys" where
  "RunMigrations B cfg s =
     (if dc_Database cfg = ''postgres'' then RunMigrationsUp B ((dc_PgStorage cfg)\<lparr>pc_MaxConns := 0\<rparr>) s
      else (Inl (ErrMsg ''database type not supported''), s))"

definition NewStorage :: "'w boot \<Rightarrow> db_Config \<Rightarrow> ('w, 'p) sys \<Rightarrow> pg result \<times> ('w, 'p) sys" where
  "NewStorage B cfg s =
     (if dc_Database cfg = ''postgres'' then NewPostgresStorage B (dc_PgStorage cfg) s
      else (Inl ErrStorageNotRegister, s))"

section \<open>The clients\<close>

record ethClient =
  ec_URL :: string
  ec_NetworkID :: u32
  ec_SCAddresses :: "address list"
  ec_ClaimCompressor :: "address option"

definition register_client :: "'p prom \<Rightarrow> u32 \<Rightarrow> ('w, 'p) sys \<Rightarrow> unit result \<times> ('w, 'p) sys" where
  "register_client P networkID s =
     (case etherman_Register P networkID (sy_metrics s) of
        (r, p, m) \<Rightarrow> (r, s\<lparr>sy_Prefix := p, sy_metrics := m\<rparr>))"

text \<open>The client of L1 leaves its network number at 0.\<close>

definition NewClient :: "'w boot \<Rightarrow> 'p prom \<Rightarrow> string \<Rightarrow> address \<Rightarrow> address \<Rightarrow> address \<Rightarrow> ('w, 'p) sys
    \<Rightarrow> ethClient result \<times> ('w, 'p) sys" where
  "NewClient B P L1URL polygonBridgeAddr polygonZkEVMGlobalExitRootAddress polygonRollupManagerAddress s =
     andthen (world (bt_Dial B L1URL) s) (\<lambda>_ s.
     andthen (world (bt_Bind B ''Polygonzkevmbridgev2'' polygonBridgeAddr) s) (\<lambda>_ s.
     andthen (world (bt_Bind B ''Oldpolygonzkevmbridge'' polygonBridgeAddr) s) (\<lambda>_ s.
     andthen (world (bt_Bind B ''Polygonzkevmglobalexitroot'' polygonZkEVMGlobalExitRootAddress) s) (\<lambda>_ s.
     andthen (world (bt_Bind B ''Polygonrollupmanager'' polygonRollupManagerAddress) s) (\<lambda>_ s.
     andthen (register_client P 0 s) (\<lambda>_ s.
     (Inr \<lparr>ec_URL = L1URL, ec_NetworkID = 0,
        ec_SCAddresses = [polygonZkEVMGlobalExitRootAddress, polygonBridgeAddr, polygonRollupManagerAddress],
        ec_ClaimCompressor = None\<rparr>, s)))))))"

definition NewL2Client :: "'w boot \<Rightarrow> 'p prom \<Rightarrow> string \<Rightarrow> address \<Rightarrow> address \<Rightarrow> address \<Rightarrow> bool \<Rightarrow> ('w, 'p) sys
    \<Rightarrow> ethClient result \<times> ('w, 'p) sys" where
  "NewL2Client B P url polygonBridgeAddress claimCompressorAddress polygonZkEVMGlobalExitRootAddress sovereignChain s =
     andthen (world (bt_Dial B url) s) (\<lambda>_ s.
     andthen (world (bt_Bind B ''Polygonzkevmbridgev2'' polygonBridgeAddress) s) (\<lambda>_ s.
     andthen (world (bt_Bind B ''Oldpolygonzkevmbridge'' polygonBridgeAddress) s) (\<lambda>_ s.
     andthen (if claimCompressorAddress = 0 then (Inr None, s)
              else andthen (world (bt_Bind B ''Claimcompressor'' claimCompressorAddress) s)
                     (\<lambda>_ s. (Inr (Some claimCompressorAddress), s))) (\<lambda>claimCompressor s.
     andthen (world (bt_NetworkID B url polygonBridgeAddress) s) (\<lambda>networkID s.
     if networkID = 0 then (Inl (ErrMsg ''l2 networkID received is 0''), s)
     else
       andthen (if sovereignChain then
                  andthen (world (bt_Bind B ''Oldglobalexitrootmanagerl2sovereignchain'' polygonZkEVMGlobalExitRootAddress) s) (\<lambda>_ s.
                  andthen (world (bt_Bind B ''Globalexitrootmanagerl2sovereignchain'' polygonZkEVMGlobalExitRootAddress) s) (\<lambda>_ s.
                  andthen (world (bt_Bind B ''Bridgel2sovereignchain'' polygonBridgeAddress) s) (\<lambda>_ s.
                  (Inr [polygonBridgeAddress, polygonZkEVMGlobalExitRootAddress], s))))
                else (Inr [polygonBridgeAddress], s)) (\<lambda>scAddresses s.
       andthen (register_client P networkID s) (\<lambda>_ s.
       (Inr \<lparr>ec_URL = url, ec_NetworkID = networkID, ec_SCAddresses = scAddresses,
          ec_ClaimCompressor = claimCompressor\<rparr>, s))))))))"

text \<open>The client of \<^verbatim>\<open>utils/client.go\<close>.\<close>

definition utils_NewClient :: "'w boot \<Rightarrow> string \<Rightarrow> address \<Rightarrow> ('w, 'p) sys \<Rightarrow> unit result \<times> ('w, 'p) sys" where
  "utils_NewClient B nodeURL bridgeSCAddr s =
     andthen (world (bt_Dial B nodeURL) s) (\<lambda>_ s.
     if bridgeSCAddr \<noteq> 0 then world (bt_Bind B ''Polygonzkevmbridgev2'' bridgeSCAddr) s else (Inr (), s))"

definition NewClaimTxManager :: "'w boot \<Rightarrow> string \<Rightarrow> string \<Rightarrow> address \<Rightarrow> ('w, 'p) sys \<Rightarrow> unit result \<times> ('w, 'p) sys" where
  "NewClaimTxManager B l1NodeURL l2NodeURL l2BridgeAddr s =
     andthen (utils_NewClient B l2NodeURL l2BridgeAddr s) (\<lambda>_ s. world (bt_Dial B l1NodeURL) s)"

section \<open>run.go\<close>

text \<open>Three of the lists are indexed by the position of the bridge address.\<close>

fun l2_clients :: "'w boot \<Rightarrow> 'p prom \<Rightarrow> Config \<Rightarrow> nat \<Rightarrow> address list \<Rightarrow> ('w, 'p) sys \<Rightarrow> ethClient list result \<times> ('w, 'p) sys" where
  "l2_clients B P c i [] s = (Inr [], s)"
| "l2_clients B P c i (addr # addrs) s =
     andthen (idx (co_L2URLs c) i, s) (\<lambda>url s.
     andthen (idx (nc_L2PolygonZkEVMGlobalExitRootAddresses (co_NetworkConfig c)) i, s) (\<lambda>ger s.
     andthen (idx (nc_RequireSovereignChainSmcs (co_NetworkConfig c)) i, s) (\<lambda>sovereign s.
     andthen (NewL2Client B P url addr (nc_L2ClaimCompressorAddress (co_NetworkConfig c)) ger sovereign s) (\<lambda>l2Etherman s.
     andthen (l2_clients B P c (Suc i) addrs s) (\<lambda>l2Ethermans s. (Inr (l2Etherman # l2Ethermans), s))))))"

definition newEthermans :: "'w boot \<Rightarrow> 'p prom \<Rightarrow> Config \<Rightarrow> ('w, 'p) sys \<Rightarrow> (ethClient \<times> ethClient list) result \<times> ('w, 'p) sys" where
  "newEthermans B P c s =
     (let nc = co_NetworkConfig c in
      andthen (NewClient B P (co_L1URL c) (nc_PolygonBridgeAddress nc) (nc_PolygonZkEVMGlobalExitRootAddress nc)
                 (nc_PolygonRollupManagerAddress nc) s) (\<lambda>l1Etherman s.
      if length (nc_L2PolygonBridgeAddresses nc) \<noteq> length (co_L2URLs c) then (Inl (ErrMsg ''fatal''), s)
      else andthen (l2_clients B P c 0 (nc_L2PolygonBridgeAddresses nc) s) (\<lambda>l2Ethermans s. (Inr (l1Etherman, l2Ethermans), s))))"

datatype goroutine =
    L2_Synchronizer nat u64 ethClient string bool
  | L1_Synchronizer u64 ethClient "u32 list"
  | Forward_Synced nat
  | Claim_Manager nat string u32 address u32
  | Monitor_Channel nat u32

fun l2_synchronizers :: "Config \<Rightarrow> nat \<Rightarrow> ethClient list \<Rightarrow> goroutine list result" where
  "l2_synchronizers c i [] = Inr []"
| "l2_synchronizers c i (l2 # l2s) =
     (case idx (co_L2URLs c) i of Inl e \<Rightarrow> Inl e | Inr url \<Rightarrow>
     (case idx (nc_L2GenBlockNumbers (co_NetworkConfig c)) i of Inl e \<Rightarrow> Inl e | Inr genBlock \<Rightarrow>
     (case idx (nc_RequireSovereignChainSmcs (co_NetworkConfig c)) i of Inl e \<Rightarrow> Inl e | Inr sovereign \<Rightarrow>
     (case l2_synchronizers c (Suc i) l2s of Inl e \<Rightarrow> Inl e | Inr gs \<Rightarrow>
        Inr (L2_Synchronizer i genBlock l2 url sovereign # gs)))))"

text \<open>The channels of L2 networks are as many as their clients; \<open>n\<close> counts the networks that remain.\<close>

fun claim_managers :: "'w boot \<Rightarrow> Config \<Rightarrow> ethClient list \<Rightarrow> u32 list \<Rightarrow> nat \<Rightarrow> nat \<Rightarrow> ('w, 'p) sys
    \<Rightarrow> goroutine list result \<times> ('w, 'p) sys" where
  "claim_managers B c l2s networkIDs i 0 s = (Inr [], s)"
| "claim_managers B c l2s networkIDs i (Suc n) s =
     andthen (idx (co_L2URLs c) i, s) (\<lambda>url s.
     andthen (idx (nc_L2PolygonBridgeAddresses (co_NetworkConfig c)) i, s) (\<lambda>bridge s.
     andthen (rewording ''fatal'' (utils_NewClient B url bridge s)) (\<lambda>_ s.
     andthen (rewording ''fatal'' (bt_NewNonceCache B, s)) (\<lambda>_ s.
     andthen (rewording ''fatal'' (world (bt_Signer B url) s)) (\<lambda>auth s.
     andthen (idx l2s i, s) (\<lambda>l2 s.
     andthen (idx [0..<length l2s] i, s) (\<lambda>channel s.
     andthen (idx networkIDs (i + 1), s) (\<lambda>networkID s.
     andthen (rewording ''fatal'' (NewClaimTxManager B (co_L1URL c) url bridge s)) (\<lambda>_ s.
     andthen (claim_managers B c l2s networkIDs (Suc i) n s) (\<lambda>gs s.
     (Inr (Claim_Manager channel url networkID bridge (ec_NetworkID l2) # gs), s)))))))))))"

fun monitor_channels :: "u32 list \<Rightarrow> nat \<Rightarrow> nat \<Rightarrow> goroutine list result" where
  "monitor_channels networkIDs i 0 = Inr []"
| "monitor_channels networkIDs i (Suc n) =
     (case idx networkIDs (i + 1) of Inl e \<Rightarrow> Inl e | Inr networkID \<Rightarrow>
     (case monitor_channels networkIDs (Suc i) n of Inl e \<Rightarrow> Inl e | Inr gs \<Rightarrow> Inr (Monitor_Channel i networkID # gs)))"

definition launch :: "'w boot \<Rightarrow> Config \<Rightarrow> ethClient \<Rightarrow> ethClient list \<Rightarrow> u32 list \<Rightarrow> ('w, 'p) sys
    \<Rightarrow> goroutine list result \<times> ('w, 'p) sys" where
  "launch B c l1 l2s networkIDs s =
     andthen (l2_synchronizers c 0 l2s, s) (\<lambda>l2_syncs s.
     andthen (if co_ClaimTxManager_Enabled c then claim_managers B c l2s networkIDs 0 (length (co_L2URLs c)) s
              else (monitor_channels networkIDs 0 (length l2s), s)) (\<lambda>claims s.
     (Inr (l2_syncs @ [L1_Synchronizer (nc_L1GenBlockNumber (co_NetworkConfig c)) l1 networkIDs, Forward_Synced (length l2s)]
        @ claims), s)))"

record 'c program =
  pr_networkIDs :: "u32 list"
  pr_bridgeController :: BridgeController
  pr_bridgeService :: "'c bridgeService"
  pr_storage :: pg
  pr_goroutines :: "goroutine list"

definition new_controller :: "keccak \<Rightarrow> u8 \<Rightarrow> u32 list \<Rightarrow> pg \<Rightarrow> (BridgeController \<times> pg) result" where
  "new_controller K height networkIDs storage =
     (case NewBridgeController pg_merkleTreeStore K height networkIDs storage of
        (Inl e, st) \<Rightarrow> Inl e | (Inr bt, st) \<Rightarrow> Inr (bt, st))"

definition start :: "'w boot \<Rightarrow> 'p prom \<Rightarrow> 'c lru \<Rightarrow> keccak \<Rightarrow> string \<Rightarrow> viper \<Rightarrow> string \<Rightarrow> ('w, 'p) sys
    \<Rightarrow> 'c program result \<times> ('w, 'p) sys" where
  "start B P C K version V network s =
     andthen (Load V network, s) (\<lambda>c s.
     andthen (RunMigrations B (co_SyncDB c) s) (\<lambda>_ s.
     andthen (Inr (), if co_Metrics_Enabled c then s\<lparr>sy_metrics := Init (sy_metrics s)\<rparr> else s) (\<lambda>_ s.
     andthen (newEthermans B P c s) (\<lambda>(l1Etherman, l2Ethermans) s.
     let networkIDs = ec_NetworkID l1Etherman # map ec_NetworkID l2Ethermans in
     andthen (NewStorage B (co_SyncDB c) s) (\<lambda>storage s.
     andthen (new_controller K (co_Height c) networkIDs storage, s) (\<lambda>(bridgeController, storage) s.
     andthen (NewStorage B (co_ServerDB c) s) (\<lambda>apiStorage s.
     andthen (NewBridgeService C (co_CacheSize c) (co_DefaultPageLimit c) (co_MaxPageLimit c) version
                (co_FinalizedGEREnabled c) (co_Height c) networkIDs apiStorage, s) (\<lambda>bridgeService s.
     andthen (world (bt_RunServer B) s) (\<lambda>_ s.
     andthen (launch B c l1Etherman l2Ethermans networkIDs s) (\<lambda>gs s.
     (Inr \<lparr>pr_networkIDs = networkIDs, pr_bridgeController = bridgeController, pr_bridgeService = bridgeService,
        pr_storage = storage, pr_goroutines = gs\<rparr>, s)))))))))))"

section \<open>Wiring\<close>

lemma andthen_Inr:
  "andthen m f = (Inr y, s') \<longleftrightarrow> (\<exists>x s1. m = (Inr x, s1) \<and> f x s1 = (Inr y, s'))"
  by (auto simp: andthen_def split: prod.splits sum.splits)

lemma idx_Inr: "idx xs i = Inr x \<longleftrightarrow> i < length xs \<and> x = xs ! i"
  by (auto simp: idx_def)

lemma Load_lengths:
  assumes "Load V network = Inr c"
  shows "length (nc_L2PolygonZkEVMGlobalExitRootAddresses (co_NetworkConfig c)) = length (co_L2URLs c)"
    "length (nc_RequireSovereignChainSmcs (co_NetworkConfig c)) = length (co_L2URLs c)"
    "length (nc_L2PolygonBridgeAddresses (co_NetworkConfig c)) = length (co_L2URLs c)"
    "length (nc_L2GenBlockNumbers (co_NetworkConfig c)) = length (co_L2URLs c)"
  using assms
  by (auto simp: Load_def lengths_agree_def Let_def split: sum.splits config_read.splits if_splits)

lemma NewClient_made:
  "NewClient B P url a g r s = (Inr l1, s') \<Longrightarrow> ec_NetworkID l1 = 0 \<and> ec_SCAddresses l1 = [g, a, r] \<and> ec_URL l1 = url"
  by (auto simp: NewClient_def andthen_Inr)

lemma NewL2Client_made:
  "NewL2Client B P url a k g sov s = (Inr l2, s') \<Longrightarrow>
     ec_NetworkID l2 \<noteq> 0 \<and> ec_URL l2 = url \<and> ec_SCAddresses l2 = (if sov then [a, g] else [a])"
  by (auto simp: NewL2Client_def andthen_Inr split: if_splits)

lemma l2_clients_made:
  "l2_clients B P c i addrs s = (Inr l2s, s') \<Longrightarrow> length l2s = length addrs \<and>
     (\<forall>j < length l2s. ec_URL (l2s ! j) = co_L2URLs c ! (i + j) \<and> ec_NetworkID (l2s ! j) \<noteq> 0 \<and>
        hd (ec_SCAddresses (l2s ! j)) = addrs ! j)"
proof (induction addrs arbitrary: i s l2s)
  case (Cons addr addrs)
  then obtain url g sov l2 s1 s2 rest where url: "url = co_L2URLs c ! i"
    and l2: "NewL2Client B P url addr (nc_L2ClaimCompressorAddress (co_NetworkConfig c)) g sov s1 = (Inr l2, s2)"
    and rest: "l2_clients B P c (Suc i) addrs s2 = (Inr rest, s')" and eq: "l2s = l2 # rest"
    by (auto simp: andthen_Inr idx_Inr)
  from Cons.IH [OF rest] NewL2Client_made [OF l2] url eq show ?case
    by (auto simp: nth_Cons split: nat.splits)
qed simp

lemma newEthermans_made:
  assumes "newEthermans B P c s = (Inr (l1, l2s), s')"
  shows "ec_NetworkID l1 = 0 \<and> length l2s = length (co_L2URLs c) \<and>
    (\<forall>j < length l2s. ec_URL (l2s ! j) = co_L2URLs c ! j \<and> ec_NetworkID (l2s ! j) \<noteq> 0 \<and>
       hd (ec_SCAddresses (l2s ! j)) = nc_L2PolygonBridgeAddresses (co_NetworkConfig c) ! j)"
  using assms unfolding newEthermans_def Let_def
  by (auto simp: andthen_Inr split: if_splits dest!: NewClient_made l2_clients_made)

lemma l2_synchronizers_made:
  "l2_synchronizers c i l2s = Inr gs \<Longrightarrow>
     gs = map (\<lambda>j. L2_Synchronizer (i + j) (nc_L2GenBlockNumbers (co_NetworkConfig c) ! (i + j)) (l2s ! j)
            (co_L2URLs c ! (i + j)) (nc_RequireSovereignChainSmcs (co_NetworkConfig c) ! (i + j))) [0..<length l2s]"
proof (induction l2s arbitrary: i gs)
  case (Cons l2 l2s)
  then obtain rest where rest: "l2_synchronizers c (Suc i) l2s = Inr rest"
    and "gs = L2_Synchronizer i (nc_L2GenBlockNumbers (co_NetworkConfig c) ! i) l2 (co_L2URLs c ! i)
      (nc_RequireSovereignChainSmcs (co_NetworkConfig c) ! i) # rest"
    by (auto simp: idx_def split: sum.splits if_splits)
  with Cons.IH [OF rest] show ?case
    by (simp add: map_upt_Suc del: upt_Suc)
qed simp

lemma claim_managers_made:
  "claim_managers B c l2s ids i n s = (Inr gs, s') \<Longrightarrow>
     gs = map (\<lambda>j. Claim_Manager j (co_L2URLs c ! j) (ids ! Suc j) (nc_L2PolygonBridgeAddresses (co_NetworkConfig c) ! j)
            (ec_NetworkID (l2s ! j))) [i..<i + n] \<and> (0 < n \<longrightarrow> i + n \<le> length l2s)"
proof (induction n arbitrary: i s gs)
  case (Suc n)
  then obtain s1 rest where rest: "claim_managers B c l2s ids (Suc i) n s1 = (Inr rest, s')" and "i < length l2s"
    and "gs = Claim_Manager i (co_L2URLs c ! i) (ids ! Suc i) (nc_L2PolygonBridgeAddresses (co_NetworkConfig c) ! i)
      (ec_NetworkID (l2s ! i)) # rest"
    by (auto simp: andthen_Inr idx_Inr)
  with Suc.IH [OF rest] show ?case by (cases n) (simp_all add: upt_conv_Cons del: upt_Suc)
qed simp

lemma monitor_channels_made:
  "monitor_channels ids i n = Inr gs \<Longrightarrow> gs = map (\<lambda>j. Monitor_Channel j (ids ! Suc j)) [i..<i + n]"
proof (induction n arbitrary: i gs)
  case (Suc n)
  then obtain rest where rest: "monitor_channels ids (Suc i) n = Inr rest" and "gs = Monitor_Channel i (ids ! Suc i) # rest"
    by (auto simp: idx_def split: sum.splits if_splits)
  with Suc.IH [OF rest] show ?case by (simp add: upt_conv_Cons del: upt_Suc)
qed simp

lemma start_stages:
  assumes "start B P C K version V network s = (Inr R, s')"
  shows "\<exists>c p s1 s2 s3 gs. Load V network = Inr c
    \<and> newEthermans B P c s1 = (Inr p, s2)
    \<and> launch B c (fst p) (snd p) (ec_NetworkID (fst p) # map ec_NetworkID (snd p)) s3 = (Inr gs, s')
    \<and> pr_networkIDs R = ec_NetworkID (fst p) # map ec_NetworkID (snd p) \<and> pr_goroutines R = gs"
  using assms unfolding start_def Let_def andthen_Inr case_prod_beta prod.inject sum.inject
  by (elim exE conjE)
    (hypsubst, intro exI conjI, assumption, assumption, assumption, simp_all (no_asm))

definition l2_networks :: "'c program \<Rightarrow> u32 list" where
  "l2_networks R = tl (pr_networkIDs R)"


text \<open>A world in which every call succeeds.\<close>

definition sample_boot :: "unit boot" where
  "sample_boot =
     \<lparr>bt_ParseConfig = (\<lambda>_. Inr ()), bt_Migrate = (\<lambda>_ _ w. (Inr 0, w)), bt_Exec = (\<lambda>_ _ w. (Inr (), w)),
      bt_ErrorText = (\<lambda>_. []), bt_Connect = (\<lambda>_ w. (Inr pg_init, w)), bt_Dial = (\<lambda>_ w. (Inr (), w)),
      bt_Bind = (\<lambda>_ _ w. (Inr (), w)), bt_NetworkID = (\<lambda>_ _ w. (Inr 1, w)), bt_RunServer = (\<lambda>w. (Inr (), w)),
      bt_NewNonceCache = Inr (), bt_Signer = (\<lambda>_ w. (Inr 7, w))\<rparr>"

definition sample_config :: Config where
  "sample_config =
     (let db = \<lparr>dc_Database = ''postgres'', dc_PgStorage = \<lparr>pc_Name = ''n'', pc_User = ''u'', pc_Password = ''p'',
        pc_Host = ''h'', pc_Port = ''5432'', pc_MaxConns = 20\<rparr>\<rparr> in
      \<lparr>co_SyncDB = db, co_ClaimTxManager_Enabled = True, co_L1URL = ''l1'', co_L2URLs = [''l2''], co_Height = 32,
       co_CacheSize = 100, co_DefaultPageLimit = 25, co_MaxPageLimit = 100, co_FinalizedGEREnabled = False,
       co_ServerDB = db, co_Metrics_Enabled = False, co_NetworkConfig = mainnet_config\<rparr>)"

definition sample_viper :: viper where
  "sample_viper = \<lparr>vp_Default = Inr sample_config, vp_ReadInConfig = Config_Not_Found, vp_Unmarshal = Inr,
     vp_IsSet_NetworkConfig = False\<rparr>"

definition sample_sys :: "(unit, (metric_kind \<times> string) list \<times> string list \<times> (nat \<Rightarrow> update list)) sys" where
  "sample_sys = \<lparr>sy_w = (), sy_Prefix = [], sy_metrics = fresh_metrics ([], [], \<lambda>_. [])\<rparr>"

lemma sample_Load: "Load sample_viper ''local'' = Inr (sample_config\<lparr>co_NetworkConfig := local_config\<rparr>)"
  by (simp add: Load_def sample_viper_def loadNetworkConfig_def networkConfigs_def defaultNetwork_def
      lengths_agree_def sample_config_def local_config_def Let_def)

lemma sample_newEthermans:
  "\<exists>l1 l2 s. newEthermans sample_boot sample_prom (sample_config\<lparr>co_NetworkConfig := local_config\<rparr>) sample_sys
     = (Inr (l1, [l2]), s) \<and> ec_NetworkID l1 = 0 \<and> ec_NetworkID l2 = 1"
  by (simp add: newEthermans_def NewClient_def NewL2Client_def andthen_def world_def register_client_def
      etherman_Register_def and_then_def RegisterCounters_def RegisterHistograms_def idx_def
      sample_boot_def sample_sys_def sample_config_def local_config_def fresh_metrics_def Let_def)

lemma sample_controller: "\<exists>bt st. new_controller (\<lambda>_. 9) 32 [0, 1] pg_init = Inr (bt, st)"
proof -
  obtain bt st where "NewBridgeController pg_merkleTreeStore (\<lambda>_. 9) 32 [0, 1] pg_init = (Inr bt, st)"
    using NewBridgeController_ok [where d = empty_db and H = 32 and height = 32 and st = pg_init and nets = "[0, 1]"
        and L = "\<lambda>_. []" and K = "\<lambda>_. 9"]
    by (auto simp: db_ok_empty rht_ok_empty pg_ready_init committed_init net_tree_empty)
  thus ?thesis by (simp add: new_controller_def)
qed

lemma world_unit: "world f x = (case f () of (y, w) \<Rightarrow> (y, x))"
  by (cases x) (simp add: world_def split: prod.splits)

definition sample_cfg :: Config where
  "sample_cfg = sample_config\<lparr>co_NetworkConfig := local_config\<rparr>"

lemma sample_cfg_fields [simp]:
  "co_ServerDB sample_cfg = co_SyncDB sample_cfg" "dc_Database (co_SyncDB sample_cfg) = ''postgres''"
  "co_Height sample_cfg = 32" "co_CacheSize sample_cfg = 100" "\<not> co_Metrics_Enabled sample_cfg"
  "co_ClaimTxManager_Enabled sample_cfg" "co_L2URLs sample_cfg = [''l2'']"
  "nc_L2GenBlockNumbers (co_NetworkConfig sample_cfg) = [0]"
  "nc_RequireSovereignChainSmcs (co_NetworkConfig sample_cfg) = [False]"
  "nc_L2PolygonBridgeAddresses (co_NetworkConfig sample_cfg) = [0xFe12ABaa190Ef0c8638Ee0ba9F828BF41368Ca0E]"
  by (simp_all add: sample_cfg_def sample_config_def local_config_def Let_def)

lemma sample_boot_calls [simp]:
  "bt_ParseConfig sample_boot p = Inr ()" "bt_Migrate sample_boot p up w = (Inr 0, w)" "bt_Exec sample_boot p q w = (Inr (), w)"
  "bt_Connect sample_boot p w = (Inr pg_init, w)" "bt_Dial sample_boot u w = (Inr (), w)"
  "bt_Bind sample_boot n a w = (Inr (), w)" "bt_RunServer sample_boot w = (Inr (), w)"
  "bt_NewNonceCache sample_boot = Inr ()" "bt_Signer sample_boot u w = (Inr 7, w)"
  by (simp_all add: sample_boot_def)

lemma sample_stages:
  "RunMigrations sample_boot (co_SyncDB sample_cfg) x = (Inr (), x)"
  "NewStorage sample_boot (co_SyncDB sample_cfg) x = (Inr pg_init, x)"
  "world (bt_RunServer sample_boot) x = (Inr (), x)"
  "\<exists>sv. NewBridgeService sample_cache 100 d m v f h nets st = Inr sv"
  "\<exists>gs. launch sample_boot sample_cfg l1 [l2] [0, 1] x = (Inr gs, x)"
  by (simp_all add: RunMigrations_def RunMigrationsUp_def runMigrations_def NewStorage_def NewPostgresStorage_def
      NewBridgeService_def sample_cache_def launch_def utils_NewClient_def NewClaimTxManager_def
      andthen_def rewording_def idx_def world_unit)

lemma sample_start:
  "\<exists>R s. start sample_boot sample_prom sample_cache (\<lambda>_. 9) ''v'' sample_viper ''local'' sample_sys = (Inr R, s)"
proof -
  obtain l1 l2 s where E: "newEthermans sample_boot sample_prom sample_cfg sample_sys = (Inr (l1, [l2]), s)"
    "ec_NetworkID l1 = 0" "ec_NetworkID l2 = 1" using sample_newEthermans unfolding sample_cfg_def by blast
  obtain bt st where bt: "new_controller (\<lambda>_. 9) 32 [0, 1] pg_init = Inr (bt, st)" using sample_controller by blast
  obtain sv where sv: "NewBridgeService sample_cache 100 (co_DefaultPageLimit sample_cfg) (co_MaxPageLimit sample_cfg) ''v''
      (co_FinalizedGEREnabled sample_cfg) 32 [0, 1] pg_init = Inr sv" using sample_stages(4) by blast
  obtain gs where "launch sample_boot sample_cfg l1 [l2] [0, 1] s = (Inr gs, s)" using sample_stages(5) by blast
  with sample_Load E bt sv show ?thesis
    by (simp add: start_def andthen_def sample_cfg_def [symmetric] sample_stages Let_def)
qed


section \<open>The metrics of a start\<close>

text \<open>An action that takes the metrics through steps of the program.\<close>

definition metrics_run :: "'p prom \<Rightarrow> (('w, 'p) sys \<Rightarrow> 'a \<times> ('w, 'p) sys) \<Rightarrow> bool" where
  "metrics_run P F \<longleftrightarrow> (\<forall>s r s'. F s = (r, s') \<longrightarrow>
     (bridge_metrics_step P)\<^sup>*\<^sup>* (sy_Prefix s, sy_metrics s) (sy_Prefix s', sy_metrics s'))"

lemma run_return: "metrics_run P (\<lambda>s. (x, s))"
  by (simp add: metrics_run_def)

lemma run_world: "metrics_run P (world f)"
  by (auto simp: metrics_run_def world_def split: prod.splits)

lemma run_andthen:
  assumes "metrics_run P F" and "\<And>x. metrics_run P (G x)"
  shows "metrics_run P (\<lambda>s. andthen (F s) G)"
  unfolding metrics_run_def
proof (intro allI impI)
  fix s r s' assume a: "andthen (F s) G = (r, s')"
  obtain x s1 where F: "F s = (x, s1)" by (rule prod.exhaust)
  hence "(bridge_metrics_step P)\<^sup>*\<^sup>* (sy_Prefix s, sy_metrics s) (sy_Prefix s1, sy_metrics s1)"
    using assms(1) unfolding metrics_run_def by blast
  moreover have "(bridge_metrics_step P)\<^sup>*\<^sup>* (sy_Prefix s1, sy_metrics s1) (sy_Prefix s', sy_metrics s')"
    using a F assms(2) unfolding metrics_run_def andthen_def by (cases x) auto
  ultimately show "(bridge_metrics_step P)\<^sup>*\<^sup>* (sy_Prefix s, sy_metrics s) (sy_Prefix s', sy_metrics s')" by simp
qed

lemma run_rewording: "metrics_run P F \<Longrightarrow> metrics_run P (\<lambda>s. rewording msg (F s))"
  unfolding metrics_run_def rewording_def by (auto split: prod.splits sum.splits)

lemma run_if: "metrics_run P F \<Longrightarrow> metrics_run P G \<Longrightarrow> metrics_run P (\<lambda>s. if b then F s else G s)"
  by (cases b) simp_all

lemma run_register: "metrics_run P (register_client P i)"
  unfolding metrics_run_def register_client_def
  by (auto split: prod.splits intro!: r_into_rtranclp intro: bm_etherman)

lemma run_Init: "metrics_run P (\<lambda>s. (x, if b then s\<lparr>sy_metrics := Init (sy_metrics s)\<rparr> else s))"
  unfolding metrics_run_def by (auto intro!: r_into_rtranclp intro: bm_Init)

lemmas run_rules = run_return run_world run_andthen run_rewording run_if run_register run_Init

lemma run_NewClient: "metrics_run P (NewClient B P u a g r)"
  unfolding NewClient_def by (intro run_rules)

lemma run_NewL2Client: "metrics_run P (NewL2Client B P u a k g sov)"
  unfolding NewL2Client_def by (intro run_rules)

lemma run_l2_clients: "metrics_run P (l2_clients B P c i addrs)"
proof (induction addrs arbitrary: i)
  case Nil
  show ?case unfolding l2_clients.simps(1) [abs_def] by (rule run_return)
next
  case (Cons a addrs)
  show ?case
    unfolding l2_clients.simps(2) [abs_def] by (intro run_rules run_NewL2Client Cons.IH)
qed

lemma run_newEthermans: "metrics_run P (newEthermans B P c)"
  unfolding newEthermans_def Let_def by (intro run_rules run_NewClient run_l2_clients)

lemma run_claim_managers: "metrics_run P (claim_managers B c l2s ids i n)"
proof (induction n arbitrary: i)
  case 0
  show ?case unfolding claim_managers.simps(1) [abs_def] by (rule run_return)
next
  case (Suc n)
  show ?case
    unfolding claim_managers.simps(2) [abs_def] utils_NewClient_def NewClaimTxManager_def
    by (intro run_rules Suc.IH)
qed

lemma run_launch: "metrics_run P (launch B c l1 l2s ids)"
  unfolding launch_def by (intro run_rules run_claim_managers)

lemma run_prod: "(\<And>x y. metrics_run P (G x y)) \<Longrightarrow> metrics_run P (case p of (x, y) \<Rightarrow> G x y)"
  by (cases p) simp

lemma run_RunMigrations: "metrics_run P (RunMigrations B cfg)"
proof -
  have *: "metrics_run P (\<lambda>s. case world f s of (Inr u, s) \<Rightarrow> (Inr (), s)
      | (Inl e, s) \<Rightarrow> let m = t e in if q m then (Inr (), s) else (Inl e, s))" for f :: "'w \<Rightarrow> unit result \<times> 'w" and t q
    unfolding metrics_run_def world_def Let_def by (auto split: prod.splits sum.splits if_splits)
  show ?thesis
    unfolding RunMigrations_def RunMigrationsUp_def runMigrations_def by (intro run_rules *)
qed

text \<open>Whatever the outside world answers, a start takes the metrics to a state of the program, in which the
  metrics of the API are not registered.\<close>

lemma start_metrics_reachable: "metrics_run P (start B P C K version V network)"
  unfolding start_def Let_def NewStorage_def NewPostgresStorage_def
  by (intro run_rules run_RunMigrations run_newEthermans run_launch run_prod)

lemma started_api_metrics_lost:
  assumes "start B P C K version V network \<lparr>sy_w = w, sy_Prefix = [], sy_metrics = fresh_metrics p\<rparr> = (r, s)"
    and "f \<in> set (api_calls P d)"
  shows "f (sy_metrics s) = (Inr (), sy_metrics s)"
  using start_metrics_reachable assms(1) by (intro api_call_lost [OF _ assms(2)]) (fastforce simp: metrics_run_def)

section \<open>No index out of range\<close>

text \<open>The calls of the outside world that the last part of the start makes do not panic themselves.\<close>

definition calm :: "'w boot \<Rightarrow> bool" where
  "calm B \<longleftrightarrow> (\<forall>u w. fst (bt_Dial B u w) \<noteq> Inl GoPanic) \<and> (\<forall>n a w. fst (bt_Bind B n a w) \<noteq> Inl GoPanic)
     \<and> bt_NewNonceCache B \<noteq> Inl GoPanic \<and> (\<forall>u w. fst (bt_Signer B u w) \<noteq> Inl GoPanic)"

lemma no_panic_andthen:
  assumes "fst m \<noteq> Inl GoPanic" and "\<And>x s. m = (Inr x, s) \<Longrightarrow> fst (f x s) \<noteq> Inl GoPanic"
  shows "fst (andthen m f) \<noteq> Inl GoPanic"
  using assms by (cases m; cases "fst m") (auto simp: andthen_def)

lemma no_panic_rewording: "fst m \<noteq> Inl GoPanic \<Longrightarrow> fst (rewording msg m) \<noteq> Inl GoPanic"
  by (cases m; cases "fst m") (auto simp: rewording_def reword_def)

lemma no_panic_world: "(\<And>w. fst (f w) \<noteq> Inl GoPanic) \<Longrightarrow> fst (world f s) \<noteq> Inl GoPanic"
  by (auto simp: world_def split: prod.splits) (metis fst_conv)

lemma no_panic_utils_NewClient: "calm B \<Longrightarrow> fst (utils_NewClient B u a s) \<noteq> Inl GoPanic"
  unfolding utils_NewClient_def calm_def
  by (rule no_panic_andthen) (auto intro!: no_panic_world)

lemma no_panic_NewClaimTxManager: "calm B \<Longrightarrow> fst (NewClaimTxManager B u v a s) \<noteq> Inl GoPanic"
  unfolding NewClaimTxManager_def
  by (rule no_panic_andthen) (auto simp: calm_def intro!: no_panic_world no_panic_utils_NewClient)

lemma no_panic_idx: "i < length xs \<Longrightarrow> idx xs i \<noteq> Inl GoPanic"
  by (simp add: idx_def)

lemma no_panic_claim_managers:
  assumes "calm B"
  shows "i + n \<le> length (co_L2URLs c) \<Longrightarrow> i + n \<le> length (nc_L2PolygonBridgeAddresses (co_NetworkConfig c)) \<Longrightarrow>
    i + n \<le> length l2s \<Longrightarrow> i + n < length ids \<Longrightarrow> fst (claim_managers B c l2s ids i n s) \<noteq> Inl GoPanic"
proof (induction n arbitrary: i s)
  case (Suc n)
  have "bt_NewNonceCache B \<noteq> Inl GoPanic" "\<And>u w. fst (bt_Signer B u w) \<noteq> Inl GoPanic"
    using assms by (simp_all add: calm_def)
  with Suc.prems show ?case
    unfolding claim_managers.simps
    by (intro no_panic_andthen no_panic_rewording no_panic_utils_NewClient no_panic_NewClaimTxManager assms
        no_panic_world Suc.IH) (simp_all add: idx_def)
qed simp

lemma no_panic_l2_synchronizers:
  "i + length l2s \<le> length (co_L2URLs c) \<Longrightarrow> i + length l2s \<le> length (nc_L2GenBlockNumbers (co_NetworkConfig c)) \<Longrightarrow>
   i + length l2s \<le> length (nc_RequireSovereignChainSmcs (co_NetworkConfig c)) \<Longrightarrow> is_ok (l2_synchronizers c i l2s)"
proof (induction l2s arbitrary: i)
  case (Cons l2 l2s)
  hence "is_ok (l2_synchronizers c (Suc i) l2s)" by simp
  with Cons.prems show ?case by (cases "l2_synchronizers c (Suc i) l2s") (simp_all add: idx_def)
qed simp

lemma no_panic_monitor_channels: "i + n < length ids \<Longrightarrow> is_ok (monitor_channels ids i n)"
proof (induction n arbitrary: i)
  case (Suc n)
  hence "is_ok (monitor_channels ids (Suc i) n)" by simp
  with Suc.prems show ?case by (cases "monitor_channels ids (Suc i) n") (simp_all add: idx_def)
qed simp

lemma launch_no_panic:
  assumes "Load V network = Inr c" and "newEthermans B P c s = (Inr (l1, l2s), s1)" and "calm B"
  shows "fst (launch B c l1 l2s (ec_NetworkID l1 # map ec_NetworkID l2s) s2) \<noteq> Inl GoPanic"
proof -
  have n: "length l2s = length (co_L2URLs c)" using newEthermans_made [OF assms(2)] by blast
  note L = Load_lengths [OF assms(1)]
  have "is_ok (l2_synchronizers c 0 l2s)" by (rule no_panic_l2_synchronizers) (simp_all add: n L)
  moreover have "is_ok (monitor_channels (ec_NetworkID l1 # map ec_NetworkID l2s) 0 (length l2s))"
    by (rule no_panic_monitor_channels) simp
  moreover have "fst (claim_managers B c l2s (ec_NetworkID l1 # map ec_NetworkID l2s) 0 (length (co_L2URLs c)) s) \<noteq> Inl GoPanic" for s
    by (rule no_panic_claim_managers [OF assms(3)]) (simp_all add: n L)
  ultimately show ?thesis
    unfolding launch_def by (intro no_panic_andthen) (auto split: if_splits)
qed

end
