(* ===== verification/Spec2Isabelle.thy ===== *)
theory Spec2Isabelle
  imports Bridge_Ctrl Pg_Queries Etherman Synchronizer Bridge_Service Claim_TxMan Auto_Claim Program_Start
begin

text \<open>
  A verification library for the bridge service.

  \<^bold>\<open>The program.\<close>  The service follows a bridge contract on L1 and on some L2 networks.  A
  synchronizer per network (\<^verbatim>\<open>synchronizer/\<close>) reads the blocks of the network through the Ethereum
  client (\<^verbatim>\<open>etherman/\<close>), which turns logs into events, and stores them in Postgres
  (\<^verbatim>\<open>db/pgstorage/\<close>), one transaction per block.  The bridge controller (\<^verbatim>\<open>bridgectrl/\<close>) keeps one
  exit tree per network and the rollup exit tree in step with the stored deposits.

  \<^bold>\<open>Theories.\<close>
  \<^item> \<open>Prelude\<close>: errors and results, words, lists, lookup in tables.
  \<^item> \<open>Ether_Types\<close> (\<^verbatim>\<open>etherman/types.go\<close>, \<^verbatim>\<open>utils/gerror/error.go\<close>): the records the components exchange.
  \<^item> \<open>Hashing\<close> (\<^verbatim>\<open>bridgectrl/hash.go\<close>): hashes of leaves and nodes over a parameter for Keccak.
  \<^item> \<open>Merkle_Spec\<close>, \<open>Merkle_Tree\<close>, \<open>Rollup_Tree\<close> (\<^verbatim>\<open>bridgectrl/merkletree.go\<close>): the tree as a function of
    its leaves, and the incremental trees that implement it over the store interface.
  \<^item> \<open>Pg_Storage\<close>, \<open>Pg_Integrity\<close>, \<open>Pg_Queries\<close> (\<^verbatim>\<open>db/pgstorage/\<close>): tables, transactions, calls that fail,
    all operations, and the constraints of the schema as an invariant.
  \<^item> \<open>Bridge_Ctrl\<close> (\<^verbatim>\<open>bridgectrl/bridgectrl.go\<close>): the controller on the storage.
  \<^item> \<open>Etherman\<close> (\<^verbatim>\<open>etherman/etherman.go\<close>): logs to blocks and events, the global index.
  \<^item> \<open>Monitored_Tx\<close> (\<^verbatim>\<open>claimtxman/types/\<close>): claim transactions and their groups.
  \<^item> \<open>Synchronizer\<close> (\<^verbatim>\<open>synchronizer/synchronizer.go\<close>): blocks, rollback, reorganisations, ranges.
\<close>

end
